(* ===== verification/AIM_Prelude.thy ===== *)
theory AIM_Prelude
  imports Main "HOL-Library.AList" "HOL-Library.Char_ord" "HOL-Library.List_Lexorder"
begin

text \<open>
  Shared vocabulary of the development: the exceptions the modelled code raises, results that
  are either an exception or a value, Python dictionaries as association lists that keep
  insertion order, the string operations the code uses, and generic lemmas on them.

  Python strings are \<open>string\<close> values (code points below 256), tuples of strings are
  \<open>string list\<close>; \<open>HOL-Library.Char_ord\<close> and \<open>HOL-Library.List_Lexorder\<close> give both
  Python's lexicographic order.
\<close>

named_theorems dict_simps \<open>lookup in updated dictionaries\<close>
named_theorems ol_simps \<open>content of ordered lists after an operation\<close>

section \<open>Exceptions and results\<close>

text \<open>
  Python's own exceptions and those of \<open>aim/exceptions.py\<close>,
  \<open>aim/common/hashtree/exceptions.py\<close> and \<open>aim/common/utils.py\<close> that the modelled code raises.
\<close>

datatype exc =
    KeyError
  | IndexError
  | ValueError
  | AttributeError
  | TypeError
  | MultipleRootTreeError "string list" "string list"
  | HashTreeNotFound string
  | HashTreeNotEmpty string
  | InvalidMonitoredStateUpdate
  | InvalidMonitoredObjectDelete
  | UnknownResourceType string
  | BadTrackingArgument string string
  | IdentityAttributesMissing string "string list"
  | AciResourceDefinitionError string string
  | AciResourceValueError string string
  | InvalidDNForAciResource string string
  | OtherError string

type_synonym 'a result = "exc + 'a"

fun bind_res :: "'a result \<Rightarrow> ('a \<Rightarrow> 'b result) \<Rightarrow> 'b result" where
  "bind_res (Inl e) f = Inl e"
| "bind_res (Inr x) f = f x"

fun is_ok :: "'a result \<Rightarrow> bool" where
  "is_ok (Inl e) = False"
| "is_ok (Inr x) = True"

lemma bind_res_Inr [simp]:
  "bind_res m f = Inr y \<longleftrightarrow> (\<exists>x. m = Inr x \<and> f x = Inr y)"
  by (cases m) auto

lemma bind_res_Inl:
  "bind_res m f = Inl e \<longleftrightarrow> m = Inl e \<or> (\<exists>x. m = Inr x \<and> f x = Inl e)"
  by (cases m) auto

text \<open>\<open>[f(x) for x in xs]\<close> where \<open>f\<close> may raise: the first exception ends it.\<close>

fun traverse_res :: "('a \<Rightarrow> 'b result) \<Rightarrow> 'a list \<Rightarrow> 'b list result" where
  "traverse_res f [] = Inr []"
| "traverse_res f (x # xs) =
     bind_res (f x) (\<lambda>y. bind_res (traverse_res f xs) (\<lambda>ys. Inr (y # ys)))"

lemma traverse_res_cong [fundef_cong]:
  "xs = ys \<Longrightarrow> (\<And>x. x \<in> set ys \<Longrightarrow> f x = g x) \<Longrightarrow> traverse_res f xs = traverse_res g ys"
  by (induction xs arbitrary: ys) auto

lemma bind_res_cong [fundef_cong]:
  "m = m' \<Longrightarrow> (\<And>x. m' = Inr x \<Longrightarrow> f x = g x) \<Longrightarrow> bind_res m f = bind_res m' g"
  by (cases m) auto

lemma traverse_res_Inr:
  "(\<And>x. x \<in> set xs \<Longrightarrow> f x = Inr (g x)) \<Longrightarrow> traverse_res f xs = Inr (map g xs)"
  by (induction xs) auto

text \<open>A loop that stops at the first exception.\<close>

fun fold_res :: "('a \<Rightarrow> 's \<Rightarrow> 's result) \<Rightarrow> 'a list \<Rightarrow> 's \<Rightarrow> 's result" where
  "fold_res f [] s = Inr s"
| "fold_res f (x # xs) s = bind_res (f x s) (fold_res f xs)"

lemma fold_res_cong [fundef_cong]:
  "xs = ys \<Longrightarrow> s = t \<Longrightarrow> (\<And>x s. x \<in> set ys \<Longrightarrow> f x s = g x s) \<Longrightarrow> fold_res f xs s = fold_res g ys t"
proof (induction xs arbitrary: s ys t)
  case (Cons x xs)
  then show ?case
    by (cases "f x s"; cases ys) auto
qed simp

lemma fold_res_invariant:
  assumes "\<And>x s s'. x \<in> set xs \<Longrightarrow> f x s = Inr s' \<Longrightarrow> I s \<Longrightarrow> I s'"
  shows "fold_res f xs s = Inr s' \<Longrightarrow> I s \<Longrightarrow> I s'"
  using assms by (induction xs arbitrary: s) auto

lemma fold_res_append: "fold_res f (xs @ ys) s = bind_res (fold_res f xs s) (fold_res f ys)"
proof (induction xs arbitrary: s)
  case (Cons x xs)
  then show ?case by (cases "f x s") auto
qed simp

section \<open>Dictionaries\<close>

text \<open>
  A dictionary keeps the order in which its keys were first set; setting a present key keeps
  its place, as \<open>AList.update\<close> does.
\<close>

type_synonym ('k, 'v) dict = "('k \<times> 'v) list"

abbreviation dict_get :: "('k, 'v) dict \<Rightarrow> 'k \<Rightarrow> 'v option" where
  "dict_get d k \<equiv> map_of d k"

abbreviation dict_set :: "'k \<Rightarrow> 'v \<Rightarrow> ('k, 'v) dict \<Rightarrow> ('k, 'v) dict" where
  "dict_set k v d \<equiv> AList.update k v d"

abbreviation dict_del :: "'k \<Rightarrow> ('k, 'v) dict \<Rightarrow> ('k, 'v) dict" where
  "dict_del k d \<equiv> AList.delete k d"

definition dict_keys :: "('k, 'v) dict \<Rightarrow> 'k list" where
  "dict_keys d = map fst d"

definition dict_ok :: "('k, 'v) dict \<Rightarrow> bool" where
  "dict_ok d \<longleftrightarrow> distinct (map fst d)"

fun dict_update :: "('k, 'v) dict \<Rightarrow> ('k \<times> 'v) list \<Rightarrow> ('k, 'v) dict" where
  "dict_update d [] = d"
| "dict_update d ((k, v) # kvs) = dict_update (dict_set k v d) kvs"

definition dict_getd :: "('k, 'v) dict \<Rightarrow> 'k \<Rightarrow> 'v \<Rightarrow> 'v" where
  "dict_getd d k dflt = (case dict_get d k of None \<Rightarrow> dflt | Some v \<Rightarrow> v)"

lemma dict_get_set [dict_simps]:
  "dict_get (dict_set k v d) k' = (if k' = k then Some v else dict_get d k')"
  by (simp add: update_conv')

lemma dict_get_del [dict_simps]:
  "dict_get (dict_del k d) k' = (if k' = k then None else dict_get d k')"
  by (simp add: delete_conv')

lemma dict_ok_set [intro]: "dict_ok d \<Longrightarrow> dict_ok (dict_set k v d)"
  by (simp add: dict_ok_def distinct_update)

lemma dict_ok_del [intro]: "dict_ok d \<Longrightarrow> dict_ok (dict_del k d)"
  by (simp add: dict_ok_def distinct_delete)

lemma dict_ok_Nil [simp]: "dict_ok []"
  by (simp add: dict_ok_def)

lemma dict_ok_update [intro]: "dict_ok d \<Longrightarrow> dict_ok (dict_update d kvs)"
  by (induction d kvs rule: dict_update.induct) auto

lemma dict_get_update:
  "dict_get (dict_update d kvs) k =
     (case map_of (rev kvs) k of None \<Rightarrow> dict_get d k | Some v \<Rightarrow> Some v)"
  by (induction d kvs rule: dict_update.induct)
     (auto simp: dict_simps map_add_def split: option.splits)

lemma dict_set_new: "k \<notin> fst ` set d \<Longrightarrow> dict_set k v d = d @ [(k, v)]"
  by (induction d) auto

lemma dict_update_fresh:
  "distinct (map fst (d @ kvs)) \<Longrightarrow> dict_update d kvs = d @ kvs"
proof (induction d kvs rule: dict_update.induct)
  case (2 d k v kvs)
  then have "dict_set k v d = d @ [(k, v)]"
    by (intro dict_set_new) auto
  moreover have "distinct (map fst ((d @ [(k, v)]) @ kvs))"
    using "2.prems" by auto
  ultimately show ?case
    using "2.IH" by simp
qed simp

lemma dict_update_Nil_ok: "dict_ok kvs \<Longrightarrow> dict_update [] kvs = kvs"
  using dict_update_fresh [of "[]" kvs] by (simp add: dict_ok_def)

section \<open>Strings\<close>

text \<open>\<open>sep.join(parts)\<close> and \<open>s.split(c)\<close> for a one-character separator.\<close>

fun py_join :: "string \<Rightarrow> string list \<Rightarrow> string" where
  "py_join sep [] = []"
| "py_join sep [x] = x"
| "py_join sep (x # y # ys) = x @ sep @ py_join sep (y # ys)"

fun py_split :: "char \<Rightarrow> string \<Rightarrow> string list" where
  "py_split c [] = [[]]"
| "py_split c (x # xs) =
     (if x = c then [] # py_split c xs
      else (case py_split c xs of [] \<Rightarrow> [[x]] | p # ps \<Rightarrow> (x # p) # ps))"

lemma py_split_not_Nil [simp]: "py_split c s \<noteq> []"
  by (induction s) (auto split: list.splits)

lemma py_split_no_sep: "c \<notin> set s \<Longrightarrow> py_split c s = [s]"
  by (induction s) auto

lemma py_split_sep: "c \<notin> set s \<Longrightarrow> py_split c (s @ c # t) = s # py_split c t"
  by (induction s) auto

lemma py_split_join:
  "\<lbrakk>ps \<noteq> []; \<forall>p \<in> set ps. c \<notin> set p\<rbrakk> \<Longrightarrow> py_split c (py_join [c] ps) = ps"
  by (induction "[c]" ps rule: py_join.induct) (auto simp: py_split_sep py_split_no_sep)

lemma py_join_split: "py_join [c] (py_split c s) = s"
proof (induction s)
  case (Cons x xs)
  obtain p ps where ps: "py_split c xs = p # ps"
    by (cases "py_split c xs") auto
  show ?case
    using Cons ps by (cases ps) auto
qed simp

text \<open>Decimal notation, \<open>str(n)\<close>.\<close>

definition digit_char :: "nat \<Rightarrow> char" where
  "digit_char n = char_of (48 + n)"

fun nat_str :: "nat \<Rightarrow> string" where
  "nat_str n = (if n < 10 then [digit_char n] else nat_str (n div 10) @ [digit_char (n mod 10)])"

declare nat_str.simps [simp del]

definition int_str :: "int \<Rightarrow> string" where
  "int_str i = (if i < 0 then CHR ''-'' # nat_str (nat (- i)) else nat_str (nat i))"

definition is_digit :: "char \<Rightarrow> bool" where
  "is_digit c \<longleftrightarrow> 48 \<le> (of_char c :: nat) \<and> (of_char c :: nat) \<le> 57"

definition digit_val :: "char \<Rightarrow> nat" where
  "digit_val c = of_char c - 48"

definition nat_val :: "string \<Rightarrow> nat" where
  "nat_val s = foldl (\<lambda>n c. 10 * n + digit_val c) 0 s"

lemma digit_char_val [simp]: "n < 10 \<Longrightarrow> digit_val (digit_char n) = n"
  by (simp add: digit_val_def digit_char_def)

lemma digit_char_is_digit [simp]: "n < 10 \<Longrightarrow> is_digit (digit_char n)"
  by (simp add: is_digit_def digit_char_def)

lemma nat_str_digits: "c \<in> set (nat_str n) \<Longrightarrow> is_digit c"
proof (induction n rule: nat_str.induct)
  case (1 n)
  show ?case
    using 1 by (cases "n < 10") (auto simp: nat_str.simps [of n])
qed

lemma nat_str_not_Nil [simp]: "nat_str n \<noteq> []"
  by (subst nat_str.simps) simp

lemma nat_val_str [simp]: "nat_val (nat_str n) = n"
proof (induction n rule: nat_str.induct)
  case (1 n)
  show ?case
  proof (cases "n < 10")
    case True
    then show ?thesis by (simp add: nat_str.simps [of n] nat_val_def)
  next
    case False
    with 1 have "nat_val (nat_str (n div 10)) = n div 10" by simp
    with False show ?thesis
      by (simp add: nat_str.simps [of n] nat_val_def)
  qed
qed

lemma nat_str_inj: "nat_str m = nat_str n \<longleftrightarrow> m = n"
  by (metis nat_val_str)

section \<open>Lists\<close>

lemma sorted_wrt_less_distinct: "sorted_wrt (<) (xs :: 'a :: linorder list) \<Longrightarrow> distinct xs"
  by (simp add: strict_sorted_iff)

lemma concat_eq_same_length:
  assumes "concat xs = concat ys"
    and "\<forall>x \<in> set xs. length x = n" and "\<forall>y \<in> set ys. length y = n" and "0 < n"
  shows "xs = ys"
  using assms
proof (induction xs arbitrary: ys)
  case Nil
  then show ?case by (cases ys) auto
next
  case (Cons x xs)
  then obtain y ys' where ys: "ys = y # ys'"
    by (cases ys) auto
  with Cons.prems have "x = y" "concat xs = concat ys'"
    by (auto simp: append_eq_append_conv)
  with Cons.IH [of ys'] Cons.prems ys show ?case by auto
qed

lemma nth_mem_option: "i < length xs \<Longrightarrow> xs ! i \<in> set xs"
  by simp

end
