(* ===== verification/Ordered_List.thy ===== *)
theory Ordered_List
  imports AIM_Prelude
begin

text \<open>
  \<open>aim/common/hashtree/base.py\<close>: the \<open>OrderedList\<close> class, a list of items kept sorted by
  key and searched by bisection. The class is abstract in \<open>transform_key\<close> (wrap a key into a
  comparable item) and \<open>transform_value\<close>; its items compare by their \<open>key\<close> attribute alone, so
  the model takes the key function of the items and compares keys. \<open>bisect_left\<close> and
  \<open>bisect_right\<close> are Python's own bisection loops, with their termination measure.

  The first part models the operations, the second shows that on a sorted list they implement
  a finite map from keys to items; the locale \<open>ordered_map\<close> is that contract, the interface
  the hash tree relies on.
\<close>

section \<open>Bisection\<close>

function bisect_left :: "('a \<Rightarrow> 'k :: linorder) \<Rightarrow> 'a list \<Rightarrow> 'k \<Rightarrow> nat \<Rightarrow> nat \<Rightarrow> nat" where
  "bisect_left key xs k lo hi =
     (if lo < hi then
        (let mid = (lo + hi) div 2 in
         if key (xs ! mid) < k then bisect_left key xs k (Suc mid) hi
         else bisect_left key xs k lo mid)
      else lo)"
  by pat_completeness auto
termination
  by (relation "measure (\<lambda>(key, xs, k, lo, hi). hi - lo)") auto

function bisect_right :: "('a \<Rightarrow> 'k :: linorder) \<Rightarrow> 'a list \<Rightarrow> 'k \<Rightarrow> nat \<Rightarrow> nat \<Rightarrow> nat" where
  "bisect_right key xs k lo hi =
     (if lo < hi then
        (let mid = (lo + hi) div 2 in
         if k < key (xs ! mid) then bisect_right key xs k lo mid
         else bisect_right key xs k (Suc mid) hi)
      else lo)"
  by pat_completeness auto
termination
  by (relation "measure (\<lambda>(key, xs, k, lo, hi). hi - lo)") auto

declare bisect_left.simps [simp del] bisect_right.simps [simp del]

section \<open>Operations of OrderedList\<close>

definition ol_index :: "('a \<Rightarrow> 'k :: linorder) \<Rightarrow> 'k \<Rightarrow> 'a list \<Rightarrow> nat option" where
  "ol_index key k stash =
     (let i = bisect_left key stash k 0 (length stash) in
      if i \<noteq> length stash \<and> key (stash ! i) = k then Some i else None)"

definition insort_right :: "('a \<Rightarrow> 'k :: linorder) \<Rightarrow> 'a \<Rightarrow> 'a list \<Rightarrow> 'a list" where
  "insort_right key x stash =
     (let i = bisect_right key stash (key x) 0 (length stash)
      in take i stash @ x # drop i stash)"

definition ol_add :: "('a \<Rightarrow> 'k :: linorder) \<Rightarrow> 'a \<Rightarrow> 'a list \<Rightarrow> 'a list" where
  "ol_add key item stash =
     (case ol_index key (key item) stash of
        Some i \<Rightarrow> stash[i := item]
      | None \<Rightarrow> insort_right key item stash)"

fun ol_include :: "('a \<Rightarrow> 'k :: linorder) \<Rightarrow> 'a list \<Rightarrow> 'a list \<Rightarrow> 'a list" where
  "ol_include key [] stash = stash"
| "ol_include key (x # items) stash = ol_include key items (ol_add key x stash)"

definition ol_remove :: "('a \<Rightarrow> 'k :: linorder) \<Rightarrow> 'k \<Rightarrow> 'a list \<Rightarrow> 'a list" where
  "ol_remove key k stash =
     (case ol_index key k stash of
        Some i \<Rightarrow> take i stash @ drop (Suc i) stash
      | None \<Rightarrow> stash)"

definition ol_getitem :: "('a \<Rightarrow> 'k :: linorder) \<Rightarrow> ('a \<Rightarrow> 'v) \<Rightarrow> 'k \<Rightarrow> 'a list \<Rightarrow> 'v result" where
  "ol_getitem key tv k stash =
     (case ol_index key k stash of
        Some i \<Rightarrow> Inr (tv (stash ! i))
      | None \<Rightarrow> Inl KeyError)"

definition ol_get :: "('a \<Rightarrow> 'k :: linorder) \<Rightarrow> ('a \<Rightarrow> 'v) \<Rightarrow> 'k \<Rightarrow> 'a list \<Rightarrow> 'v option" where
  "ol_get key tv k stash = (case ol_getitem key tv k stash of Inr v \<Rightarrow> Some v | Inl _ \<Rightarrow> None)"

text \<open>
  \<open>setdefault\<close> is used on child lists only, whose nodes are always true in a boolean context;
  it returns the item and the list.
\<close>

definition ol_setdefault :: "('a \<Rightarrow> 'k :: linorder) \<Rightarrow> 'k \<Rightarrow> 'a \<Rightarrow> 'a list \<Rightarrow> 'a \<times> 'a list" where
  "ol_setdefault key k dflt stash =
     (case ol_get key (\<lambda>x. x) k stash of
        Some current \<Rightarrow> (current, stash)
      | None \<Rightarrow> (dflt, ol_add key dflt stash))"

fun ol_update :: "('a \<Rightarrow> 'k :: linorder) \<Rightarrow> 'a list \<Rightarrow> 'a list \<Rightarrow> 'a list" where
  "ol_update key [] stash = stash"
| "ol_update key (x # items) stash = ol_update key items (ol_add key x stash)"

section \<open>The representation invariant and the map it stands for\<close>

definition ol_ok :: "('a \<Rightarrow> 'k :: linorder) \<Rightarrow> 'a list \<Rightarrow> bool" where
  "ol_ok key stash \<longleftrightarrow> sorted_wrt (<) (map key stash)"

definition ol_abs :: "('a \<Rightarrow> 'k :: linorder) \<Rightarrow> 'a list \<Rightarrow> 'k \<Rightarrow> 'a option" where
  "ol_abs key stash = map_of (map (\<lambda>x. (key x, x)) stash)"

lemma ol_ok_Nil [simp]: "ol_ok key []"
  by (simp add: ol_ok_def)

lemma ol_ok_nth_less:
  "ol_ok key xs \<Longrightarrow> i < j \<Longrightarrow> j < length xs \<Longrightarrow> key (xs ! i) < key (xs ! j)"
  by (auto simp: ol_ok_def sorted_wrt_iff_nth_less)

lemma ol_ok_nth_less_iff:
  assumes "ol_ok key xs" "i < length xs" "j < length xs"
  shows "key (xs ! i) < key (xs ! j) \<longleftrightarrow> i < j"
proof
  assume less: "key (xs ! i) < key (xs ! j)"
  show "i < j"
  proof (rule ccontr)
    assume "\<not> i < j"
    then consider "i = j" | "j < i" by linarith
    then show False
      using less ol_ok_nth_less [OF assms(1), of j i] assms(2) by cases auto
  qed
qed (use assms ol_ok_nth_less in blast)

lemma ol_ok_inj:
  "\<lbrakk>ol_ok key xs; x \<in> set xs; y \<in> set xs; key x = key y\<rbrakk> \<Longrightarrow> x = y"
  by (metis in_set_conv_nth less_irrefl linorder_neqE_nat ol_ok_nth_less)

lemma ol_ok_distinct: "ol_ok key xs \<Longrightarrow> distinct (map key xs)"
  by (simp add: ol_ok_def sorted_wrt_less_distinct)

lemma ol_abs_iff: "ol_ok key xs \<Longrightarrow> ol_abs key xs k = Some x \<longleftrightarrow> x \<in> set xs \<and> key x = k"
proof -
  assume ok: "ol_ok key xs"
  have "distinct (map fst (map (\<lambda>x. (key x, x)) xs))"
    using ol_ok_distinct [OF ok] by (simp add: comp_def)
  then show ?thesis by (auto simp: ol_abs_def)
qed

lemma ol_abs_None: "ol_abs key xs k = None \<longleftrightarrow> k \<notin> key ` set xs"
  by (auto simp: ol_abs_def map_of_eq_None_iff image_iff)

text \<open>Two sorted lists with the same items are the same list.\<close>

lemma ol_ok_set_eq:
  assumes "ol_ok key xs" "ol_ok key ys" "set xs = set ys"
  shows "xs = ys"
proof -
  have "map key xs = map key ys"
    using assms by (intro sorted_distinct_set_unique)
      (auto simp: ol_ok_def strict_sorted_iff)
  moreover have "inj_on key (set xs \<union> set ys)"
    using assms by (auto intro!: inj_onI dest: ol_ok_inj)
  ultimately show ?thesis by (rule map_inj_on)
qed

section \<open>The bisection loops find the boundary\<close>

lemma bisect_left_spec:
  assumes "ol_ok key xs" "lo \<le> hi" "hi \<le> length xs"
    and "\<forall>i < lo. key (xs ! i) < k" and "\<forall>i. hi \<le> i \<and> i < length xs \<longrightarrow> \<not> key (xs ! i) < k"
  shows "bisect_left key xs k lo hi \<le> length xs
    \<and> (\<forall>i < length xs. key (xs ! i) < k \<longleftrightarrow> i < bisect_left key xs k lo hi)"
  using assms
proof (induction key xs k lo hi rule: bisect_left.induct)
  case (1 key xs k lo hi)
  note unf = bisect_left.simps [of key xs k lo hi]
  show ?case
  proof (cases "lo < hi")
    case False
    with "1.prems" have "lo = hi" by simp
    with "1.prems" unf show ?thesis by (auto simp: not_less)
  next
    case True
    let ?m = "(lo + hi) div 2"
    have m: "lo \<le> ?m" "?m < hi" "?m < length xs" using True "1.prems"(3) by auto
    show ?thesis
    proof (cases "key (xs ! ?m) < k")
      case L: True
      have "key (xs ! i) < k" if "i < Suc ?m" for i
      proof (cases "i = ?m")
        case False
        with that have "key (xs ! i) < key (xs ! ?m)"
          by (intro ol_ok_nth_less [OF "1.prems"(1)]) (use m in auto)
        with L show ?thesis by simp
      qed (use L in simp)
      moreover have "bisect_left key xs k lo hi = bisect_left key xs k (Suc ?m) hi"
        using True L unf by (simp add: Let_def)
      ultimately show ?thesis
        using "1.IH"(1) [OF True refl L "1.prems"(1) _ "1.prems"(3) _ "1.prems"(5)] m by simp
    next
      case R: False
      have "\<not> key (xs ! i) < k" if "?m \<le> i" "i < length xs" for i
      proof (cases "i = ?m")
        case False
        with that have "key (xs ! ?m) < key (xs ! i)"
          by (intro ol_ok_nth_less [OF "1.prems"(1)]) auto
        with R show ?thesis by simp
      qed (use R in simp)
      moreover have "bisect_left key xs k lo hi = bisect_left key xs k lo ?m"
        using True R unf by (simp add: Let_def)
      ultimately show ?thesis
        using "1.IH"(2) [OF True refl R "1.prems"(1) m(1) _ "1.prems"(4)] m by simp
    qed
  qed
qed

text \<open>\<open>bisect_right\<close> is \<open>bisect_left\<close> for the next greater position; it needs only \<open>\<le>\<close>.\<close>

lemma bisect_right_spec:
  assumes "sorted (map key xs)" "lo \<le> hi" "hi \<le> length xs"
    and "\<forall>i < lo. \<not> k < key (xs ! i)" and "\<forall>i. hi \<le> i \<and> i < length xs \<longrightarrow> k < key (xs ! i)"
  shows "bisect_right key xs k lo hi \<le> length xs
    \<and> (\<forall>i < length xs. k < key (xs ! i) \<longleftrightarrow> bisect_right key xs k lo hi \<le> i)"
  using assms
proof (induction key xs k lo hi rule: bisect_right.induct)
  case (1 key xs k lo hi)
  note unf = bisect_right.simps [of key xs k lo hi]
  have mono: "key (xs ! i) \<le> key (xs ! j)" if "i \<le> j" "j < length xs" for i j
    using "1.prems"(1) that sorted_nth_mono [of "map key xs" i j] by auto
  show ?case
  proof (cases "lo < hi")
    case False
    with "1.prems" have "lo = hi" by simp
    with "1.prems" unf show ?thesis by (auto simp: not_less)
  next
    case True
    let ?m = "(lo + hi) div 2"
    have m: "lo \<le> ?m" "?m < hi" "?m < length xs" using True "1.prems"(3) by auto
    show ?thesis
    proof (cases "k < key (xs ! ?m)")
      case L: True
      have "k < key (xs ! i)" if "?m \<le> i" "i < length xs" for i
        using mono [OF that] L by simp
      moreover have "bisect_right key xs k lo hi = bisect_right key xs k lo ?m"
        using True L unf by (simp add: Let_def)
      ultimately show ?thesis
        using "1.IH"(1) [OF True refl L "1.prems"(1) m(1) _ "1.prems"(4)] m by simp
    next
      case R: False
      have "\<not> k < key (xs ! i)" if "i < Suc ?m" for i
        using mono [of i ?m] R m(3) that by simp
      moreover have "bisect_right key xs k lo hi = bisect_right key xs k (Suc ?m) hi"
        using True R unf by (simp add: Let_def)
      ultimately show ?thesis
        using "1.IH"(2) [OF True refl R "1.prems"(1) _ "1.prems"(3) _ "1.prems"(5)] m by simp
    qed
  qed
qed

lemma bisect_left_pos:
  assumes "ol_ok key xs"
  shows "bisect_left key xs k 0 (length xs) \<le> length xs"
    and "i < length xs \<Longrightarrow> key (xs ! i) < k \<longleftrightarrow> i < bisect_left key xs k 0 (length xs)"
proof -
  have *: "bisect_left key xs k 0 (length xs) \<le> length xs
    \<and> (\<forall>i < length xs. key (xs ! i) < k \<longleftrightarrow> i < bisect_left key xs k 0 (length xs))"
    by (rule bisect_left_spec [OF assms]) auto
  from * show "bisect_left key xs k 0 (length xs) \<le> length xs" ..
  from * show "i < length xs \<Longrightarrow> key (xs ! i) < k \<longleftrightarrow> i < bisect_left key xs k 0 (length xs)" by blast
qed

lemma bisect_right_pos:
  assumes "sorted (map key xs)"
  shows "bisect_right key xs k 0 (length xs) \<le> length xs"
    and "i < length xs \<Longrightarrow> k < key (xs ! i) \<longleftrightarrow> bisect_right key xs k 0 (length xs) \<le> i"
proof -
  have *: "bisect_right key xs k 0 (length xs) \<le> length xs
    \<and> (\<forall>i < length xs. k < key (xs ! i) \<longleftrightarrow> bisect_right key xs k 0 (length xs) \<le> i)"
    by (rule bisect_right_spec [OF assms]) auto
  from * show "bisect_right key xs k 0 (length xs) \<le> length xs" ..
  from * show "i < length xs \<Longrightarrow> k < key (xs ! i) \<longleftrightarrow> bisect_right key xs k 0 (length xs) \<le> i" by blast
qed

section \<open>Functional behaviour of the operations\<close>

lemma ol_index_Some:
  assumes "ol_ok key xs" "ol_index key k xs = Some i"
  shows "i < length xs" "key (xs ! i) = k"
proof -
  have "bisect_left key xs k 0 (length xs) \<le> length xs"
    by (rule bisect_left_pos(1) [OF assms(1)])
  then show "i < length xs" "key (xs ! i) = k"
    using assms(2) by (auto simp: ol_index_def Let_def split: if_splits)
qed

lemma ol_index_None:
  assumes ok: "ol_ok key xs" and "ol_index key k xs = None"
  shows "k \<notin> key ` set xs"
proof
  let ?b = "bisect_left key xs k 0 (length xs)"
  assume "k \<in> key ` set xs"
  then obtain j where j: "j < length xs" "key (xs ! j) = k"
    by (auto simp: in_set_conv_nth)
  have "?b \<le> j"
    using bisect_left_pos(2) [OF ok j(1), where k = k] j(2) by auto
  then have "?b < length xs" using j by simp
  moreover have "\<not> key (xs ! ?b) < k"
    using bisect_left_pos(2) [OF ok \<open>?b < length xs\<close>, where k = k] by simp
  moreover have "key (xs ! ?b) \<le> key (xs ! j)"
    using \<open>?b \<le> j\<close> j ol_ok_nth_less [OF ok, of ?b j] by (cases "?b = j") auto
  ultimately have "key (xs ! ?b) = k" using j by auto
  with \<open>?b < length xs\<close> assms(2) show False
    by (simp add: ol_index_def Let_def)
qed

text \<open>\<open>index\<close> answers for exactly the keys of the list.\<close>

lemma ol_index_eq_None: "ol_ok key xs \<Longrightarrow> ol_index key k xs = None \<longleftrightarrow> k \<notin> key ` set xs"
proof (cases "ol_index key k xs")
  case (Some i)
  assume "ol_ok key xs"
  from ol_index_Some [OF this Some] Some show ?thesis by force
qed (simp add: ol_index_None)

lemma ol_get_abs:
  assumes "ol_ok key xs"
  shows "ol_get key tv k xs = map_option tv (ol_abs key xs k)"
proof (cases "ol_index key k xs")
  case None
  then show ?thesis
    using ol_index_None [OF assms None] by (simp add: ol_get_def ol_getitem_def ol_abs_None)
next
  case (Some i)
  then have "ol_abs key xs k = Some (xs ! i)"
    using ol_index_Some [OF assms Some] by (simp add: ol_abs_iff [OF assms])
  with Some show ?thesis by (simp add: ol_get_def ol_getitem_def)
qed

lemma ol_getitem_abs:
  assumes "ol_ok key xs"
  shows "ol_getitem key tv k xs = (case ol_abs key xs k of None \<Rightarrow> Inl KeyError | Some x \<Rightarrow> Inr (tv x))"
proof (cases "ol_index key k xs")
  case None
  then show ?thesis
    using ol_index_None [OF assms None] by (simp add: ol_getitem_def ol_abs_None [THEN iffD2])
next
  case (Some i)
  then have "ol_abs key xs k = Some (xs ! i)"
    using ol_index_Some [OF assms Some] by (simp add: ol_abs_iff [OF assms])
  with Some show ?thesis by (simp add: ol_getitem_def)
qed

lemma insort_right_set: "set (insort_right key x xs) = insert x (set xs)"
  unfolding insort_right_def Let_def
  by (metis Un_insert_right append_take_drop_id list.simps(15) set_append)

lemma insort_right_length [simp]: "length (insort_right key x xs) = Suc (length xs)"
  by (simp add: insort_right_def Let_def)

text \<open>\<open>insort\<close> keeps a sorted list sorted, duplicates allowed: equal keys go to the left of it.\<close>

lemma insort_right_split:
  fixes key :: "'a \<Rightarrow> 'k :: linorder" and x :: 'a
  assumes "sorted (map key xs)"
  defines "b \<equiv> bisect_right key xs (key x) 0 (length xs)"
  shows "\<forall>y \<in> set (take b xs). key y \<le> key x" "\<forall>y \<in> set (drop b xs). key x < key y"
proof -
  have b: "b \<le> length xs" "\<And>i. i < length xs \<Longrightarrow> key x < key (xs ! i) \<longleftrightarrow> b \<le> i"
    using bisect_right_pos [OF assms(1)] by (auto simp: b_def)
  show "\<forall>y \<in> set (take b xs). key y \<le> key x"
    using b by (fastforce simp: in_set_conv_nth not_less [symmetric])
  show "\<forall>y \<in> set (drop b xs). key x < key y"
    using b by (fastforce simp: in_set_conv_nth)
qed

lemma insort_right_sorted:
  assumes "sorted (map key xs)"
  shows "sorted (map key (insort_right key x xs))"
proof -
  let ?b = "bisect_right key xs (key x) 0 (length xs)"
  have "sorted (take ?b (map key xs) @ drop ?b (map key xs))"
    using assms by simp
  then have "sorted (map key (take ?b xs) @ map key (drop ?b xs))"
    by (simp only: take_map drop_map)
  moreover note insort_right_split [OF assms, of x]
  ultimately show ?thesis
    by (auto simp: insort_right_def Let_def sorted_append less_imp_le)
qed

lemma insort_right_ok:
  assumes "ol_ok key xs" "key x \<notin> key ` set xs"
  shows "ol_ok key (insort_right key x xs)"
proof -
  have srt: "sorted (map key xs)" and dist: "distinct (map key xs)"
    using assms(1) by (simp_all add: ol_ok_def strict_sorted_iff)
  let ?b = "bisect_right key xs (key x) 0 (length xs)"
  have "distinct (take ?b (map key xs) @ drop ?b (map key xs))"
    using dist by simp
  then have "distinct (map key (take ?b xs) @ map key (drop ?b xs))"
    by (simp only: take_map drop_map)
  moreover have "set (take ?b xs) \<subseteq> set xs" "set (drop ?b xs) \<subseteq> set xs"
    by (rule set_take_subset, rule set_drop_subset)
  then have "key x \<notin> key ` set (take ?b xs)" "key x \<notin> key ` set (drop ?b xs)"
    using assms(2) by blast+
  ultimately have "distinct (map key (insort_right key x xs))"
    by (simp add: insort_right_def Let_def)
  then show ?thesis
    using insort_right_sorted [OF srt] by (simp add: ol_ok_def strict_sorted_iff)
qed

lemma ol_update_nth:
  assumes ok: "ol_ok key xs" and i: "i < length xs" "key (xs ! i) = key x"
  shows "ol_ok key (xs[i := x])" "set (xs[i := x]) = insert x {y \<in> set xs. key y \<noteq> key x}"
proof -
  have "map key (xs[i := x]) = map key xs"
    using i by (metis list_update_id map_update)
  then show "ol_ok key (xs[i := x])"
    using ok by (simp add: ol_ok_def)
  have "distinct xs" using ol_ok_distinct [OF ok] by (simp add: distinct_map)
  then have "set (xs[i := x]) = insert x (set xs - {xs ! i})"
    using i by (simp add: set_update_distinct)
  also have "set xs - {xs ! i} = {y \<in> set xs. key y \<noteq> key x}"
    using i ol_ok_inj [OF ok] by fastforce
  finally show "set (xs[i := x]) = insert x {y \<in> set xs. key y \<noteq> key x}" .
qed

lemma ol_add_ok [intro]: "ol_ok key xs \<Longrightarrow> ol_ok key (ol_add key x xs)"
proof (cases "ol_index key (key x) xs")
  case None
  assume "ol_ok key xs"
  from insort_right_ok [OF this ol_index_None [OF this None]] None show ?thesis
    by (simp add: ol_add_def)
next
  case (Some i)
  assume ok: "ol_ok key xs"
  from ol_update_nth(1) [OF ok ol_index_Some [OF ok Some]] Some show ?thesis
    by (simp add: ol_add_def)
qed

lemma ol_add_set [ol_simps]:
  "ol_ok key xs \<Longrightarrow> set (ol_add key x xs) = insert x {y \<in> set xs. key y \<noteq> key x}"
proof (cases "ol_index key (key x) xs")
  case None
  assume "ol_ok key xs"
  from ol_index_None [OF this None] have "key y \<noteq> key x" if "y \<in> set xs" for y
    using that by (metis imageI)
  then have "{y \<in> set xs. key y \<noteq> key x} = set xs" by blast
  with None show ?thesis by (simp add: ol_add_def insort_right_set)
next
  case (Some i)
  assume ok: "ol_ok key xs"
  from ol_update_nth [OF ok ol_index_Some [OF ok Some]] Some show ?thesis
    by (simp add: ol_add_def)
qed

lemma ol_remove_ok [intro]: "ol_ok key xs \<Longrightarrow> ol_ok key (ol_remove key k xs)"
proof (cases "ol_index key k xs")
  case (Some i)
  assume "ol_ok key xs"
  note ok = this
  have "i < length xs" using ol_index_Some [OF ok Some] by simp
  then have "xs = take i xs @ xs ! i # drop (Suc i) xs" by (simp add: id_take_nth_drop)
  then have "sorted_wrt (<) (map key (take i xs @ xs ! i # drop (Suc i) xs))"
    using ok by (simp add: ol_ok_def)
  then have "sorted_wrt (<) (map key (take i xs @ drop (Suc i) xs))"
    by (simp add: sorted_wrt_append)
  with Some show ?thesis by (simp add: ol_remove_def ol_ok_def)
qed (simp add: ol_remove_def)

lemma ol_remove_set [ol_simps]:
  assumes ok: "ol_ok key xs"
  shows "set (ol_remove key k xs) = {y \<in> set xs. key y \<noteq> k}"
proof (cases "ol_index key k xs")
  case None
  then show ?thesis using ol_index_None [OF ok None] by (auto simp: ol_remove_def)
next
  case (Some i)
  note i = ol_index_Some [OF ok Some]
  have xs: "xs = take i xs @ xs ! i # drop (Suc i) xs"
    using i by (simp add: id_take_nth_drop)
  have "distinct (map key (take i xs @ xs ! i # drop (Suc i) xs))"
    using ol_ok_distinct [OF ok] xs by simp
  then have "key (xs ! i) \<notin> key ` set (take i xs @ drop (Suc i) xs)"
    by auto
  then have "\<forall>y \<in> set (take i xs @ drop (Suc i) xs). key y \<noteq> k"
    using i by (metis imageI)
  moreover have "set xs = insert (xs ! i) (set (take i xs @ drop (Suc i) xs))"
    by (subst xs) simp
  ultimately show ?thesis
    using Some i by (auto simp: ol_remove_def)
qed

lemma ol_abs_add [ol_simps]:
  "ol_ok key xs \<Longrightarrow> ol_abs key (ol_add key x xs) k = (if k = key x then Some x else ol_abs key xs k)"
proof -
  assume ok: "ol_ok key xs"
  have iff: "ol_abs key (ol_add key x xs) k = Some z \<longleftrightarrow>
      (if k = key x then z = x else ol_abs key xs k = Some z)" for z
    using ok by (auto simp: ol_abs_iff ol_add_ok ol_add_set)
  show ?thesis
    by (cases "ol_abs key (ol_add key x xs) k") (metis iff not_None_eq)+
qed

lemma ol_abs_remove [ol_simps]:
  "ol_ok key xs \<Longrightarrow> ol_abs key (ol_remove key k xs) k' = (if k' = k then None else ol_abs key xs k')"
proof -
  assume ok: "ol_ok key xs"
  have iff: "ol_abs key (ol_remove key k xs) k' = Some z \<longleftrightarrow> k' \<noteq> k \<and> ol_abs key xs k' = Some z" for z
    using ok by (auto simp: ol_abs_iff ol_remove_ok ol_remove_set)
  show ?thesis
    by (cases "ol_abs key (ol_remove key k xs) k'") (metis iff not_None_eq)+
qed

lemma ol_include_eq_update: "ol_include key items xs = ol_update key items xs"
  by (induction items arbitrary: xs) auto

lemma ol_setdefault_abs:
  assumes "ol_ok key xs" "key d = k"
  shows "ol_setdefault key k d xs =
    (case ol_abs key xs k of Some x \<Rightarrow> (x, xs) | None \<Rightarrow> (d, ol_add key d xs))"
  using assms by (simp add: ol_setdefault_def ol_get_abs option.map_ident split: option.split)

section \<open>The contract: a finite map in key order\<close>

text \<open>
  What the clients of an ordered list rely on: a map from keys to items, updated by \<open>add\<close> and
  \<open>remove\<close>, and a canonical representation, so that two lists that stand for the same map are
  equal. The last law makes the hash of a tree independent of the order of its updates.
\<close>

lemma map_of_eq_of_distinct_set:
  assumes "distinct (map fst xs)" "distinct (map fst ys)" "set xs = set ys"
  shows "map_of xs k = map_of ys k"
  using assms by (metis map_of_eq_None_iff map_of_eq_Some_iff not_None_eq)

locale ordered_map =
  fixes key :: "'a \<Rightarrow> 'k" and empty :: "'s" and add :: "'a \<Rightarrow> 's \<Rightarrow> 's"
    and remove :: "'k \<Rightarrow> 's \<Rightarrow> 's" and lookup :: "'s \<Rightarrow> 'k \<Rightarrow> 'a option" and inv :: "'s \<Rightarrow> bool"
  assumes inv_empty: "inv empty"
    and inv_add: "inv s \<Longrightarrow> inv (add x s)"
    and inv_remove: "inv s \<Longrightarrow> inv (remove k s)"
    and lookup_empty: "lookup empty k = None"
    and lookup_add: "inv s \<Longrightarrow> lookup (add x s) k = (if k = key x then Some x else lookup s k)"
    and lookup_remove: "inv s \<Longrightarrow> lookup (remove k s) k' = (if k' = k then None else lookup s k')"
    and canonical: "inv s \<Longrightarrow> inv t \<Longrightarrow> lookup s = lookup t \<Longrightarrow> s = t"
begin

lemma add_add_same: "inv s \<Longrightarrow> key x = key y \<Longrightarrow> add x (add y s) = add x s"
  by (rule canonical) (auto simp: inv_add lookup_add)

lemma add_commute: "inv s \<Longrightarrow> key x \<noteq> key y \<Longrightarrow> add x (add y s) = add y (add x s)"
  by (rule canonical) (auto simp: inv_add lookup_add)

lemma remove_add: "inv s \<Longrightarrow> lookup s (key x) = None \<Longrightarrow> remove (key x) (add x s) = s"
  by (rule canonical) (auto simp: inv_add inv_remove lookup_add lookup_remove)

lemma add_remove_other:
  "inv s \<Longrightarrow> k \<noteq> key x \<Longrightarrow> remove k (add x s) = add x (remove k s)"
  by (rule canonical) (auto simp: inv_add inv_remove lookup_add lookup_remove)

lemma add_present: "inv s \<Longrightarrow> lookup s (key x) = Some x \<Longrightarrow> add x s = s"
  by (rule canonical) (auto simp: inv_add lookup_add)

lemma remove_absent: "inv s \<Longrightarrow> lookup s k = None \<Longrightarrow> remove k s = s"
  by (rule canonical) (auto simp: inv_remove lookup_remove)

lemma fold_inv: "inv s \<Longrightarrow> inv (fold add xs s)"
  by (induction xs arbitrary: s) (auto simp: inv_add)

lemma lookup_fold:
  "inv s \<Longrightarrow> lookup (fold add xs s) k =
     (case map_of (rev (map (\<lambda>x. (key x, x)) xs)) k of None \<Rightarrow> lookup s k | Some x \<Rightarrow> Some x)"
  by (induction xs arbitrary: s)
     (auto simp: inv_add lookup_add map_add_def split: option.splits)

text \<open>Adding items with distinct keys in any order gives the same list.\<close>

lemma fold_add_perm:
  assumes "inv s" "distinct (map key xs)" "distinct (map key ys)" "set xs = set ys"
  shows "fold add xs s = fold add ys s"
proof (rule canonical)
  have "map_of (map (\<lambda>x. (key x, x)) (rev xs)) = map_of (map (\<lambda>x. (key x, x)) (rev ys))"
  proof (rule map_of_eqI)
    have "distinct (map fst (map (\<lambda>x. (key x, x)) (rev xs)))"
      and "distinct (map fst (map (\<lambda>x. (key x, x)) (rev ys)))"
      using assms(2,3) by (simp_all add: comp_def distinct_map)
    then show "\<forall>k \<in> set (map fst (map (\<lambda>x. (key x, x)) (rev xs))).
        map_of (map (\<lambda>x. (key x, x)) (rev xs)) k = map_of (map (\<lambda>x. (key x, x)) (rev ys)) k"
      using assms(4) by (intro ballI map_of_eq_of_distinct_set) auto
  qed (use assms(4) in \<open>simp add: comp_def\<close>)
  then show "lookup (fold add xs s) = lookup (fold add ys s)"
    by (simp add: fun_eq_iff lookup_fold [OF assms(1)] rev_map)
qed (simp_all add: assms(1) fold_inv)

end

lemma ol_update_fold: "ol_update key items xs = fold (ol_add key) items xs"
  by (induction items arbitrary: xs) auto

lemma ol_canonical:
  assumes "ol_ok key xs" "ol_ok key ys" "ol_abs key xs = ol_abs key ys"
  shows "xs = ys"
proof (rule ol_ok_set_eq [OF assms(1,2)])
  have "x \<in> set xs \<longleftrightarrow> x \<in> set ys" for x
    using ol_abs_iff [OF assms(1), of "key x" x] ol_abs_iff [OF assms(2), of "key x" x] assms(3)
    by auto
  then show "set xs = set ys" by auto
qed

text \<open>
  Every instance of the class keeps the contract, whatever its key: \<open>ChildrenList\<close> and
  \<open>KeyValueStore\<close> of \<open>structured_tree.py\<close> are the two of the code (interpreted again where
  they are modelled).
\<close>

interpretation ol: ordered_map
  "key :: 'a \<Rightarrow> 'k :: linorder" "[]" "ol_add key" "ol_remove key" "ol_abs key" "ol_ok key"
  for key
  by unfold_locales (auto simp: ol_simps ol_abs_def [of _ "[]"] intro: ol_canonical)

end
