(* ===== verification/Json.thy ===== *)
theory Json
  imports AIM_Prelude
begin

text \<open>
  The JSON text that hash trees, hashed attributes and action logs are made of:
  \<open>json.dumps\<close> with its default separators and escapes, and \<open>json.loads\<close> as
  \<open>json_loads\<close> and \<open>json_dumps\<close> of \<open>aim/common/utils.py\<close> use them (through
  \<open>oslo_serialization.jsonutils\<close>, which forwards to the standard library).

  Values are null, booleans, integers, strings, lists and objects; floating-point numbers do not
  occur in the modelled callers. An object is a dictionary, so its keys are distinct
  (\<open>json_ok\<close>). The recursive parser takes fuel: one unit per nesting level and per element, and
  \<open>Suc (length s)\<close>, what \<open>json_loads\<close> gives it, is enough for every text \<open>json_dumps\<close> prints.
\<close>

datatype json =
    JNull
  | JBool bool
  | JInt int
  | JStr string
  | JList "json list"
  | JObj "(string \<times> json) list"

section \<open>Printing\<close>

definition quote_char :: char where "quote_char = CHR 0x22"
definition backslash :: char where "backslash = CHR 0x5C"

definition hex_digit :: "nat \<Rightarrow> char" where
  "hex_digit n = (if n < 10 then char_of (48 + n) else char_of (87 + n))"

text \<open>\<open>ESCAPE_ASCII\<close> of the \<open>json\<close> module: quote, backslash and everything outside space to tilde.\<close>

definition json_escape :: "char \<Rightarrow> string" where
  "json_escape c =
     (if c = CHR 0x22 then [backslash, CHR 0x22]
      else if c = CHR 0x5C then [backslash, CHR 0x5C]
      else if c = CHR 0x0A then [backslash, CHR ''n'']
      else if c = CHR 0x0D then [backslash, CHR ''r'']
      else if c = CHR 0x09 then [backslash, CHR ''t'']
      else if c = CHR 0x0C then [backslash, CHR ''f'']
      else if c = CHR 0x08 then [backslash, CHR ''b'']
      else let n = (of_char c :: nat) in
        if 32 \<le> n \<and> n \<le> 126 then [c]
        else [backslash, CHR ''u'', CHR ''0'', CHR ''0'', hex_digit (n div 16), hex_digit (n mod 16)])"

definition dumps_str :: "string \<Rightarrow> string" where
  "dumps_str s = quote_char # concat (map json_escape s) @ [quote_char]"

fun json_dumps :: "json \<Rightarrow> string" where
  "json_dumps JNull = ''null''"
| "json_dumps (JBool b) = (if b then ''true'' else ''false'')"
| "json_dumps (JInt i) = int_str i"
| "json_dumps (JStr s) = dumps_str s"
| "json_dumps (JList xs) = ''['' @ py_join '', '' (map json_dumps xs) @ '']''"
| "json_dumps (JObj kvs) =
     ''{'' @ py_join '', '' (map (\<lambda>kv. dumps_str (fst kv) @ '': '' @ json_dumps (snd kv)) kvs) @ ''}''"

fun json_ok :: "json \<Rightarrow> bool" where
  "json_ok (JList xs) = list_all json_ok xs"
| "json_ok (JObj kvs) = (distinct (map fst kvs) \<and> list_all (\<lambda>kv. json_ok (snd kv)) kvs)"
| "json_ok _ = True"

section \<open>Parsing\<close>

definition hex_val :: "char \<Rightarrow> nat option" where
  "hex_val c =
     (let n = (of_char c :: nat) in
      if 48 \<le> n \<and> n \<le> 57 then Some (n - 48)
      else if 97 \<le> n \<and> n \<le> 102 then Some (n - 87)
      else if 65 \<le> n \<and> n \<le> 70 then Some (n - 55)
      else None)"

definition unescape :: "char \<Rightarrow> char option" where
  "unescape e =
     (if e = CHR 0x22 \<or> e = CHR 0x5C \<or> e = CHR ''/'' then Some e
      else if e = CHR ''n'' then Some (CHR 0x0A)
      else if e = CHR ''r'' then Some (CHR 0x0D)
      else if e = CHR ''t'' then Some (CHR 0x09)
      else if e = CHR ''f'' then Some (CHR 0x0C)
      else if e = CHR ''b'' then Some (CHR 0x08)
      else None)"

text \<open>The body of a string literal after its opening quote; code points above 255 are refused.\<close>

fun parse_str :: "string \<Rightarrow> (string \<times> string) option" where
  "parse_str [] = None"
| "parse_str (c # cs) =
     (if c = quote_char then Some ([], cs)
      else if c = backslash then
        (case cs of
           [] \<Rightarrow> None
         | e # ds \<Rightarrow>
             if e = CHR ''u'' then
               (case ds of
                  a # b # h # l # es \<Rightarrow>
                    (case (hex_val a, hex_val b, hex_val h, hex_val l) of
                       (Some 0, Some 0, Some m, Some n) \<Rightarrow>
                         map_option (\<lambda>(s, r). (char_of (16 * m + n) # s, r)) (parse_str es)
                     | _ \<Rightarrow> None)
                | _ \<Rightarrow> None)
             else (case unescape e of
                     Some d \<Rightarrow> map_option (\<lambda>(s, r). (d # s, r)) (parse_str ds)
                   | None \<Rightarrow> None))
      else if (of_char c :: nat) < 32 then None
      else map_option (\<lambda>(s, r). (c # s, r)) (parse_str cs))"

definition is_ws :: "char \<Rightarrow> bool" where
  "is_ws c \<longleftrightarrow> c = CHR '' '' \<or> c = CHR 0x09 \<or> c = CHR 0x0A \<or> c = CHR 0x0D"

definition skip_ws :: "string \<Rightarrow> string" where
  "skip_ws s = dropWhile is_ws s"

fun strip_prefix :: "string \<Rightarrow> string \<Rightarrow> string option" where
  "strip_prefix [] s = Some s"
| "strip_prefix (p # ps) [] = None"
| "strip_prefix (p # ps) (c # cs) = (if p = c then strip_prefix ps cs else None)"

text \<open>Integers: an optional minus sign and digits, with no leading zero.\<close>

definition parse_nat :: "string \<Rightarrow> (nat \<times> string) option" where
  "parse_nat s =
     (let ds = takeWhile is_digit s; r = dropWhile is_digit s in
      if ds = [] then None
      else if hd ds = CHR ''0'' then Some (0, tl ds @ r)
      else Some (nat_val ds, r))"

definition parse_int :: "string \<Rightarrow> (json \<times> string) option" where
  "parse_int s =
     (case s of
        [] \<Rightarrow> None
      | c # cs \<Rightarrow>
          if c = CHR ''-'' then map_option (\<lambda>(n, r). (JInt (- int n), r)) (parse_nat cs)
          else map_option (\<lambda>(n, r). (JInt (int n), r)) (parse_nat s))"

definition parse_atom :: "string \<Rightarrow> (json \<times> string) option" where
  "parse_atom s =
     (case strip_prefix ''null'' s of Some r \<Rightarrow> Some (JNull, r) | None \<Rightarrow>
      (case strip_prefix ''true'' s of Some r \<Rightarrow> Some (JBool True, r) | None \<Rightarrow>
      (case strip_prefix ''false'' s of Some r \<Rightarrow> Some (JBool False, r) | None \<Rightarrow> parse_int s)))"

fun parse_value :: "nat \<Rightarrow> string \<Rightarrow> (json \<times> string) option"
  and parse_items :: "nat \<Rightarrow> string \<Rightarrow> (json list \<times> string) option"
  and parse_members :: "nat \<Rightarrow> string \<Rightarrow> ((string \<times> json) list \<times> string) option"
where
  "parse_value 0 s = None"
| "parse_value (Suc n) s =
     (case skip_ws s of
        [] \<Rightarrow> None
      | c # cs \<Rightarrow>
          if c = quote_char then map_option (\<lambda>(t, r). (JStr t, r)) (parse_str cs)
          else if c = CHR ''['' then
            (case strip_prefix '']'' (skip_ws cs) of
               Some r \<Rightarrow> Some (JList [], r)
             | None \<Rightarrow> map_option (\<lambda>(xs, r). (JList xs, r)) (parse_items n cs))
          else if c = CHR ''{'' then
            (case strip_prefix ''}'' (skip_ws cs) of
               Some r \<Rightarrow> Some (JObj [], r)
             | None \<Rightarrow> map_option (\<lambda>(kvs, r). (JObj (dict_update [] kvs), r)) (parse_members n cs))
          else parse_atom (c # cs))"
| "parse_items 0 s = None"
| "parse_items (Suc n) s =
     (case parse_value n s of
        None \<Rightarrow> None
      | Some (v, r) \<Rightarrow>
          (case skip_ws r of
             [] \<Rightarrow> None
           | d # r' \<Rightarrow>
               if d = CHR '','' then map_option (\<lambda>(vs, q). (v # vs, q)) (parse_items n r')
               else if d = CHR '']'' then Some ([v], r')
               else None))"
| "parse_members 0 s = None"
| "parse_members (Suc n) s =
     (case skip_ws s of
        [] \<Rightarrow> None
      | c # cs \<Rightarrow>
          if c \<noteq> quote_char then None
          else (case parse_str cs of
             None \<Rightarrow> None
           | Some (k, r1) \<Rightarrow>
               (case strip_prefix '':'' (skip_ws r1) of
                  None \<Rightarrow> None
                | Some r2 \<Rightarrow>
                    (case parse_value n r2 of
                       None \<Rightarrow> None
                     | Some (v, r3) \<Rightarrow>
                         (case skip_ws r3 of
                            [] \<Rightarrow> None
                          | d # r4 \<Rightarrow>
                              if d = CHR '','' then
                                map_option (\<lambda>(kvs, q). ((k, v) # kvs, q)) (parse_members n r4)
                              else if d = CHR ''}'' then Some ([(k, v)], r4)
                              else None)))))"

definition json_loads :: "string \<Rightarrow> json result" where
  "json_loads s =
     (case parse_value (Suc (length s)) s of
        Some (v, r) \<Rightarrow> if skip_ws r = [] then Inr v else Inl ValueError
      | None \<Rightarrow> Inl ValueError)"

section \<open>Round trip\<close>

lemma hex_val_digit [simp]: "n < 16 \<Longrightarrow> hex_val (hex_digit n) = Some n"
  by (simp add: hex_val_def hex_digit_def Let_def)

lemma of_char_bound: "(of_char c :: nat) < 256"
  using of_char_mod_256 [of c] by (metis mod_less_divisor zero_less_numeral)

lemma char_of_nibbles:
  "char_of (16 * ((of_char c :: nat) div 16) + (of_char c :: nat) mod 16) = c"
  by (simp add: char_of_char)

lemma parse_str_escape:
  "parse_str (json_escape c @ t) = map_option (\<lambda>(s, r). (c # s, r)) (parse_str t)"
proof -
  let ?n = "of_char c :: nat"
  have nib: "?n div 16 < 16" "?n mod 16 < 16"
    using of_char_bound [of c] by (simp_all add: less_mult_imp_div_less)
  consider (esc) "c \<in> {CHR 0x22, CHR 0x5C, CHR 0x0A, CHR 0x0D, CHR 0x09, CHR 0x0C, CHR 0x08}"
    | (plain) "c \<notin> {CHR 0x22, CHR 0x5C, CHR 0x0A, CHR 0x0D, CHR 0x09, CHR 0x0C, CHR 0x08}"
        "32 \<le> ?n \<and> ?n \<le> 126"
    | (hex) "c \<notin> {CHR 0x22, CHR 0x5C, CHR 0x0A, CHR 0x0D, CHR 0x09, CHR 0x0C, CHR 0x08}"
        "\<not> (32 \<le> ?n \<and> ?n \<le> 126)"
    by blast
  then show ?thesis
  proof cases
    case esc
    then show ?thesis
      by (auto simp: json_escape_def backslash_def quote_char_def unescape_def)
  next
    case plain
    then have "json_escape c = [c]" by (simp add: json_escape_def Let_def)
    with plain show ?thesis by (simp add: backslash_def quote_char_def)
  next
    case hex
    then have e: "json_escape c = [backslash, CHR ''u'', CHR ''0'', CHR ''0'',
        hex_digit (?n div 16), hex_digit (?n mod 16)]"
      by (simp add: json_escape_def Let_def)
    have "hex_val (CHR ''0'') = Some 0" by (simp add: hex_val_def)
    then show ?thesis
      by (simp add: e nib char_of_nibbles backslash_def quote_char_def)
  qed
qed

lemma parse_str_dumps:
  "parse_str (concat (map json_escape s) @ quote_char # r) = Some (s, r)"
  by (induction s) (simp_all add: parse_str_escape)

definition no_digit :: "string \<Rightarrow> bool" where
  "no_digit r \<longleftrightarrow> (case r of [] \<Rightarrow> True | c # _ \<Rightarrow> \<not> is_digit c)"

lemma nat_str_hd: "n \<noteq> 0 \<Longrightarrow> hd (nat_str n) \<noteq> CHR ''0''"
proof (induction n rule: nat_str.induct)
  case (1 n)
  show ?case
  proof (cases "n < 10")
    case True
    have "digit_val (digit_char n) = n" using True by simp
    then have "digit_char n \<noteq> CHR ''0''"
      using "1.prems" by (auto simp: digit_val_def)
    with True show ?thesis by (simp add: nat_str.simps [of n])
  next
    case False
    with 1 show ?thesis by (simp add: nat_str.simps [of n])
  qed
qed

lemma digits_then_other:
  assumes "\<forall>c \<in> set ds. is_digit c" "no_digit r"
  shows "takeWhile is_digit (ds @ r) = ds" "dropWhile is_digit (ds @ r) = r"
  using assms by (auto simp: no_digit_def takeWhile_append2 dropWhile_append2 split: list.splits)

lemma parse_nat_str:
  assumes "no_digit r"
  shows "parse_nat (nat_str n @ r) = Some (n, r)"
proof -
  have w: "takeWhile is_digit (nat_str n @ r) = nat_str n" "dropWhile is_digit (nat_str n @ r) = r"
    using digits_then_other [of "nat_str n" r] assms nat_str_digits by auto
  have "nat_str 0 = [CHR ''0'']"
    by code_simp
  then show ?thesis
    using w nat_str_hd [of n] by (cases "n = 0") (auto simp: parse_nat_def Let_def)
qed

lemma nat_str_Cons: obtains c cs where "nat_str n = c # cs" "is_digit c"
  using nat_str_digits [of _ n] by (cases "nat_str n") auto

lemma digit_not [simp]:
  "is_digit c \<Longrightarrow> c \<noteq> CHR ''n''" "is_digit c \<Longrightarrow> c \<noteq> CHR ''t''" "is_digit c \<Longrightarrow> c \<noteq> CHR ''f''"
  "is_digit c \<Longrightarrow> c \<noteq> CHR ''-''" "is_digit c \<Longrightarrow> c \<noteq> CHR ''[''" "is_digit c \<Longrightarrow> c \<noteq> CHR ''{''"
  "is_digit c \<Longrightarrow> c \<noteq> CHR '']''" "is_digit c \<Longrightarrow> c \<noteq> CHR ''}''" "is_digit c \<Longrightarrow> c \<noteq> CHR 0x22"
  "is_digit c \<Longrightarrow> \<not> is_ws c"
  by (auto simp: is_digit_def is_ws_def)

lemma parse_atom_int:
  assumes "no_digit r"
  shows "parse_atom (int_str i @ r) = Some (JInt i, r)"
proof -
  obtain c cs where c: "nat_str (nat i) = c # cs" "is_digit c" by (rule nat_str_Cons)
  have "parse_int (int_str i @ r) = Some (JInt i, r)"
    using c parse_nat_str [OF assms, of "nat i"] parse_nat_str [OF assms, of "nat (- i)"]
    by (auto simp: parse_int_def int_str_def)
  then show ?thesis
    using c by (cases "i < 0") (auto simp: parse_atom_def int_str_def dest: digit_not(1-3))
qed

lemma json_dumps_first:
  "\<exists>c cs. json_dumps v = c # cs \<and> \<not> is_ws c \<and> c \<noteq> CHR '']'' \<and> c \<noteq> CHR ''}''"
proof (cases v)
  case (JInt i)
  obtain c cs where "nat_str (nat i) = c # cs" "is_digit c" by (rule nat_str_Cons)
  with JInt show ?thesis
    by (cases "i < 0") (auto simp: int_str_def is_ws_def [of "CHR ''-''"])
qed (auto simp: is_ws_def dumps_str_def quote_char_def)

lemma skip_ws_dumps [simp]: "skip_ws (json_dumps v @ r) = json_dumps v @ r"
  using json_dumps_first [of v] by (auto simp: skip_ws_def)

lemma skip_ws_idem [simp]: "skip_ws (skip_ws s) = skip_ws s"
  by (simp add: skip_ws_def)

lemma parse_value_skip: "parse_value n (skip_ws s) = parse_value n s"
  by (cases n) simp_all

lemma parse_value_str:
  "parse_value (Suc n) (dumps_str s @ r) = Some (JStr s, r)"
  using parse_str_dumps [of s r]
  by (simp add: dumps_str_def skip_ws_def is_ws_def quote_char_def)

lemma parse_value_int:
  "no_digit r \<Longrightarrow> parse_value (Suc n) (int_str i @ r) = Some (JInt i, r)"
proof -
  assume "no_digit r"
  have "\<exists>c cs. int_str i = c # cs \<and> (is_digit c \<or> c = CHR ''-'')"
  proof (cases "i < 0")
    case False
    obtain d ds where "nat_str (nat i) = d # ds" "is_digit d" by (rule nat_str_Cons)
    with False show ?thesis by (simp add: int_str_def)
  qed (simp add: int_str_def)
  then obtain c cs where c: "int_str i = c # cs" "is_digit c \<or> c = CHR ''-''" by blast
  then have nc: "\<not> is_ws c" "c \<noteq> CHR 0x22" "c \<noteq> CHR ''[''" "c \<noteq> CHR ''{''"
    by (auto dest: digit_not simp: is_ws_def [of "CHR ''-''"])
  have "parse_value (Suc n) (int_str i @ r) = parse_atom (int_str i @ r)"
    using c(1) nc by (simp add: skip_ws_def quote_char_def)
  with parse_atom_int [OF \<open>no_digit r\<close>] show ?thesis by simp
qed

text \<open>
  The statement of the main induction: whatever follows, as long as it cannot continue a number,
  the parser reads back the value and leaves the rest.
\<close>

definition reads_back :: "json \<Rightarrow> bool" where
  "reads_back v \<longleftrightarrow>
     (\<forall>n r. length (json_dumps v) \<le> n \<longrightarrow> no_digit r \<longrightarrow> parse_value n (json_dumps v @ r) = Some (v, r))"

lemma reads_backD:
  "\<lbrakk>reads_back v; length (json_dumps v) \<le> n; no_digit r; skip_ws s = json_dumps v @ r\<rbrakk>
    \<Longrightarrow> parse_value n s = Some (v, r)"
  by (metis parse_value_skip reads_back_def)

lemma parse_items_join:
  assumes "\<forall>x \<in> set (x # xs). reads_back x"
    and "length (py_join '', '' (map json_dumps (x # xs))) < n"
    and "skip_ws s = py_join '', '' (map json_dumps (x # xs)) @ CHR '']'' # r"
  shows "parse_items n s = Some (x # xs, r)"
  using assms
proof (induction xs arbitrary: x n s)
  case Nil
  obtain m where n: "n = Suc m" using Nil.prems(2) by (cases n) auto
  have "parse_value m s = Some (x, CHR '']'' # r)"
    using Nil.prems n by (intro reads_backD) (auto simp: no_digit_def is_digit_def)
  then show ?case by (simp add: n skip_ws_def is_ws_def)
next
  case (Cons y ys)
  obtain m where n: "n = Suc m" using Cons.prems(2) by (cases n) auto
  let ?rest = "py_join '', '' (map json_dumps (y # ys)) @ CHR '']'' # r"
  have v: "parse_value m s = Some (x, '', '' @ ?rest)"
    using Cons.prems n by (intro reads_backD) (auto simp: no_digit_def is_digit_def)
  have "skip_ws (CHR '' '' # ?rest) = ?rest"
    using skip_ws_dumps [of y] by (cases ys) (simp_all add: skip_ws_def is_ws_def)
  then have "parse_items m (CHR '' '' # ?rest) = Some (y # ys, r)"
    using Cons.prems n by (intro Cons.IH) auto
  then show ?case using v by (simp add: n skip_ws_def is_ws_def)
qed

definition member_text :: "string \<times> json \<Rightarrow> string" where
  "member_text kv = dumps_str (fst kv) @ '': '' @ json_dumps (snd kv)"

lemma parse_members_step:
  assumes "skip_ws s = dumps_str k @ '': '' @ json_dumps v @ d # q"
    and "reads_back v" "length (json_dumps v) \<le> m" "d = CHR '','' \<or> d = CHR ''}''"
  shows "parse_members (Suc m) s =
    (if d = CHR '','' then map_option (\<lambda>(kvs, q). ((k, v) # kvs, q)) (parse_members m q)
     else Some ([(k, v)], q))"
proof -
  have "skip_ws (CHR '' '' # json_dumps v @ d # q) = json_dumps v @ d # q"
    using skip_ws_dumps [of v "d # q"] by (simp add: skip_ws_def is_ws_def)
  then have v: "parse_value m (CHR '' '' # json_dumps v @ d # q) = Some (v, d # q)"
    using assms(4) by (intro reads_backD [OF assms(2,3)]) (auto simp: no_digit_def is_digit_def)
  have d: "skip_ws (d # q) = d # q"
    using assms(4) by (auto simp: skip_ws_def is_ws_def)
  have colon: "skip_ws (CHR '':'' # t) = CHR '':'' # t" for t
    by (simp add: skip_ws_def is_ws_def)
  show ?thesis
    using assms(1,4) v by (auto simp: dumps_str_def parse_str_dumps colon d)
qed

lemma skip_ws_members:
  "skip_ws (CHR '' '' # py_join '', '' (map member_text (kv # kvs)) @ r) =
     py_join '', '' (map member_text (kv # kvs)) @ r"
  by (cases kvs) (simp_all add: skip_ws_def is_ws_def member_text_def dumps_str_def quote_char_def)

lemma parse_members_join:
  assumes "\<forall>kv \<in> set (kv # kvs). reads_back (snd kv)"
    and "length (py_join '', '' (map member_text (kv # kvs))) < n"
    and "skip_ws s = py_join '', '' (map member_text (kv # kvs)) @ CHR ''}'' # r"
  shows "parse_members n s = Some (kv # kvs, r)"
  using assms
proof (induction kvs arbitrary: kv n s)
  case Nil
  obtain m where n: "n = Suc m" using Nil.prems(2) by (cases n) auto
  have "parse_members (Suc m) s = Some ([(fst kv, snd kv)], r)"
    using parse_members_step [of s "fst kv" "snd kv" "CHR ''}''" r m] Nil.prems n
    by (simp add: member_text_def del: parse_members.simps)
  with n show ?case by simp
next
  case (Cons kv' kvs)
  obtain m where n: "n = Suc m" using Cons.prems(2) by (cases n) auto
  define rest where "rest = py_join '', '' (map member_text (kv' # kvs))"
  have join: "py_join '', '' (map member_text (kv # kv' # kvs)) =
      dumps_str (fst kv) @ '': '' @ json_dumps (snd kv) @ '', '' @ rest"
    by (simp add: rest_def member_text_def [of kv])
  have "skip_ws (CHR '' '' # rest @ CHR ''}'' # r) =
      py_join '', '' (map member_text (kv' # kvs)) @ CHR ''}'' # r"
    unfolding rest_def by (rule skip_ws_members)
  moreover have "length (py_join '', '' (map member_text (kv' # kvs))) < m"
    using Cons.prems(2) n by (simp only: join) (simp add: rest_def)
  ultimately have "parse_members m (CHR '' '' # rest @ CHR ''}'' # r) = Some (kv' # kvs, r)"
    using Cons.prems(1) by (intro Cons.IH) auto
  moreover have "skip_ws s = dumps_str (fst kv) @ '': '' @ json_dumps (snd kv) @
      CHR '','' # (CHR '' '' # rest @ CHR ''}'' # r)"
    using Cons.prems(3) unfolding join by simp
  moreover have "length (json_dumps (snd kv)) \<le> m"
    using Cons.prems(2) n unfolding join by simp
  ultimately have "parse_members (Suc m) s = Some ((fst kv, snd kv) # kv' # kvs, r)"
    using parse_members_step [of s "fst kv" "snd kv" "CHR '',''" "CHR '' '' # rest @ CHR ''}'' # r" m]
      Cons.prems(1) by (simp del: parse_members.simps)
  then show ?case by (simp add: n del: parse_members.simps)
qed

lemma reads_back_list:
  assumes "\<forall>x \<in> set xs. reads_back x"
  shows "reads_back (JList xs)"
  unfolding reads_back_def
proof (intro allI impI)
  fix n r assume len: "length (json_dumps (JList xs)) \<le> n" and "no_digit r"
  then obtain m where n: "n = Suc m" by (cases n) auto
  show "parse_value n (json_dumps (JList xs) @ r) = Some (JList xs, r)"
  proof (cases xs)
    case Nil
    then show ?thesis by (simp add: n skip_ws_def is_ws_def quote_char_def)
  next
    case (Cons y ys)
    let ?body = "py_join '', '' (map json_dumps xs) @ CHR '']'' # r"
    obtain c cs where c: "?body = c # cs" "\<not> is_ws c" "c \<noteq> CHR '']''"
      using json_dumps_first [of y] Cons by (cases ys) auto
    then have "skip_ws ?body = ?body" by (simp add: skip_ws_def)
    then have "parse_items m ?body = Some (xs, r)"
      using parse_items_join [of y ys m ?body r] assms len n Cons by simp
    then show ?thesis
      using c by (simp add: n skip_ws_def is_ws_def quote_char_def)
  qed
qed

lemma json_dumps_obj: "json_dumps (JObj kvs) = ''{'' @ py_join '', '' (map member_text kvs) @ ''}''"
  by (simp add: member_text_def [abs_def])

lemma reads_back_obj:
  assumes "\<forall>kv \<in> set kvs. reads_back (snd kv)" "distinct (map fst kvs)"
  shows "reads_back (JObj kvs)"
  unfolding reads_back_def json_dumps_obj
proof (intro allI impI)
  fix n r
  assume len: "length (''{'' @ py_join '', '' (map member_text kvs) @ ''}'') \<le> n" and "no_digit r"
  then obtain m where n: "n = Suc m" by (cases n) auto
  show "parse_value n ((''{'' @ py_join '', '' (map member_text kvs) @ ''}'') @ r) = Some (JObj kvs, r)"
  proof (cases kvs)
    case Nil
    then show ?thesis by (simp add: n skip_ws_def is_ws_def quote_char_def)
  next
    case (Cons y ys)
    let ?body = "py_join '', '' (map member_text kvs) @ CHR ''}'' # r"
    obtain cs where c: "?body = quote_char # cs"
      using Cons by (cases ys) (simp_all add: member_text_def dumps_str_def)
    then have "skip_ws ?body = ?body" by (simp add: skip_ws_def is_ws_def quote_char_def)
    then have "parse_members m ?body = Some (kvs, r)"
      using parse_members_join [of y ys m ?body r] assms len n Cons by simp
    then show ?thesis
      using c assms(2)
      by (simp add: n skip_ws_def is_ws_def quote_char_def dict_update_Nil_ok dict_ok_def)
  qed
qed

lemma reads_backI:
  assumes "\<And>m r. no_digit r \<Longrightarrow> parse_value (Suc m) (json_dumps v @ r) = Some (v, r)"
  shows "reads_back v"
  unfolding reads_back_def
proof (intro allI impI)
  fix n r assume "length (json_dumps v) \<le> n" "no_digit r"
  moreover obtain m where "n = Suc m"
    using calculation json_dumps_first [of v] by (cases n) auto
  ultimately show "parse_value n (json_dumps v @ r) = Some (v, r)" using assms by simp
qed

lemma reads_back_atoms:
  "reads_back JNull" "reads_back (JBool b)" "reads_back (JInt i)" "reads_back (JStr s)"
     apply (rule reads_backI, simp add: skip_ws_def is_ws_def quote_char_def parse_atom_def)
    apply (rule reads_backI, simp add: skip_ws_def is_ws_def quote_char_def parse_atom_def)
   apply (rule reads_backI, simp add: parse_value_int del: parse_value.simps)
  apply (rule reads_backI, simp add: parse_value_str del: parse_value.simps)
  done

lemma reads_back_all: "json_ok v \<Longrightarrow> reads_back v"
proof (induction v rule: json_dumps.induct)
  case (5 xs)
  then show ?case by (intro reads_back_list) (auto simp: list_all_iff)
next
  case (6 kvs)
  then show ?case by (intro reads_back_obj) (auto simp: list_all_iff)
qed (simp_all add: reads_back_atoms)

lemma json_loads_dumps: "json_ok v \<Longrightarrow> json_loads (json_dumps v) = Inr v"
  using reads_backD [OF reads_back_all, of v "Suc (length (json_dumps v))" "[]" "json_dumps v"]
    skip_ws_dumps [of v "[]"]
  by (simp add: json_loads_def no_digit_def skip_ws_def)

lemma json_dumps_inj: "json_ok v \<Longrightarrow> json_ok w \<Longrightarrow> json_dumps v = json_dumps w \<longleftrightarrow> v = w"
  by (metis json_loads_dumps sum.inject(2))

end
