(* ===== verification/Hash_Tree.thy ===== *)
theory Hash_Tree
  imports Ordered_List Json
begin

text \<open>
  \<open>aim/common/hashtree/structured_tree.py\<close>: nodes, child lists, metadata stores and the
  structured hash tree with its operations.

  SHA-256 is a parameter: \<open>H s\<close> stands for \<open>hashlib.sha256(s).hexdigest()\<close>. A key is a Python
  tuple of strings. The Python code mutates nodes in place and keeps the path to the node it works
  on as a stack of references; here the stack is a list of nodes, deepest first, and a changed
  node is put back into the parent above it (\<open>plug\<close>) when the code's references would have made
  the change visible there.
\<close>

type_synonym key = "string list"
type_synonym hash_fun = "string \<Rightarrow> string"

section \<open>Nodes\<close>

text \<open>
  The slots of \<open>StructuredTreeNode\<close>. The \<open>error\<close> slot is only ever read for its truth value and
  is kept as one; \<open>metadata\<close> is a \<open>KeyValueStore\<close>, an ordered list of key-value pairs.
\<close>

record slots =
  skey :: key
  partial_hash :: "string option"
  full_hash :: "string option"
  dummy :: bool
  error :: bool
  metadata :: "(string \<times> json) list"

datatype node = Node (slots: slots) (children: "node list")

abbreviation nkey :: "node \<Rightarrow> key" where
  "nkey n \<equiv> skey (slots n)"

text \<open>Truth values and \<open>x or y\<close> on optional strings.\<close>

definition or_str :: "string option \<Rightarrow> string option \<Rightarrow> string option" where
  "or_str a b = (case a of None \<Rightarrow> b | Some s \<Rightarrow> if s = [] then b else a)"

definition new_node ::
  "key \<Rightarrow> string option \<Rightarrow> string option \<Rightarrow> bool \<Rightarrow> (string \<times> json) list \<Rightarrow> bool \<Rightarrow> node" where
  "new_node k partial full dmy md err =
     Node \<lparr>skey = k, partial_hash = partial, full_hash = or_str full partial, dummy = dmy,
           error = err, metadata = ol_include fst md []\<rparr> []"

fun set_child :: "key \<Rightarrow> node \<Rightarrow> node \<Rightarrow> node \<times> node" where
  "set_child k dflt (Node s cs) = (let (c, cs') = ol_setdefault nkey k dflt cs in (c, Node s cs'))"

fun replace_child :: "node \<Rightarrow> node \<Rightarrow> node" where
  "replace_child c (Node s cs) = Node s (ol_add nkey c cs)"

fun remove_child :: "key \<Rightarrow> node \<Rightarrow> node" where
  "remove_child k (Node s cs) = Node s (ol_remove nkey k cs)"

definition get_child :: "key \<Rightarrow> node \<Rightarrow> node option" where
  "get_child k n = ol_get nkey (\<lambda>c. c) k (children n)"

text \<open>\<open>KeyValueStore\<close>: lookup and \<open>update\<close>.\<close>

definition kv_get :: "string \<Rightarrow> (string \<times> json) list \<Rightarrow> json option" where
  "kv_get k md = ol_get fst snd k md"

section \<open>Hashes\<close>

definition str_opt :: "string option \<Rightarrow> string" where
  "str_opt h = (case h of None \<Rightarrow> [] | Some s \<Rightarrow> s)"

text \<open>
  The text a node's full hash is taken of: its partial hash, then its children's full hashes.
  Python's \<open>join\<close> raises \<open>TypeError\<close> for a child without full hash; the operations never leave
  one in a tree (\<open>hash_ok\<close>), here it counts as the empty string.
\<close>

fun hash_input :: "node \<Rightarrow> string" where
  "hash_input (Node s cs) =
     str_opt (partial_hash s) @ concat (map (\<lambda>c. str_opt (full_hash (slots c))) cs)"

fun recalc :: "hash_fun \<Rightarrow> node \<Rightarrow> node" where
  "recalc H (Node s cs) = Node (s\<lparr>full_hash := Some (H (hash_input (Node s cs)))\<rparr>) cs"

definition hash_attributes :: "hash_fun \<Rightarrow> (string \<times> json) list \<Rightarrow> string" where
  "hash_attributes H kwargs = H (json_dumps (JObj (sort_key fst kwargs)))"

definition key_json :: "key \<Rightarrow> json" where
  "key_json k = JList (map JStr k)"

definition node_hash :: "hash_fun \<Rightarrow> key \<Rightarrow> bool \<Rightarrow> (string \<times> json) list \<Rightarrow> string" where
  "node_hash H k dmy kwargs =
     hash_attributes H ((''key'', key_json k) # (''_dummy'', JBool dmy) # kwargs)"

text \<open>The bogus node \<open>add\<close> puts where a parent is missing.\<close>

definition placeholder :: "hash_fun \<Rightarrow> key \<Rightarrow> node" where
  "placeholder H k = new_node k (Some (node_hash H k True [])) None True [] False"

section \<open>The tree\<close>

record tree =
  root :: "node option"
  root_key :: "key option"
  has_populated :: bool

definition new_tree :: "node option \<Rightarrow> key option \<Rightarrow> bool \<Rightarrow> tree" where
  "new_tree r rk hp =
     \<lparr>root = r, root_key = (case r of Some n \<Rightarrow> Some (nkey n) | None \<Rightarrow> rk), has_populated = hp\<rparr>"

abbreviation empty_tree :: tree where
  "empty_tree \<equiv> new_tree None None False"

text \<open>Python's \<open>repr\<close> of a string and \<open>str\<close> of a tuple of strings.\<close>

definition repr_char :: "char \<Rightarrow> char \<Rightarrow> string" where
  "repr_char q c =
     (if c = q \<or> c = backslash then [backslash, c]
      else if c = CHR 0x0A then [backslash, CHR ''n'']
      else if c = CHR 0x0D then [backslash, CHR ''r'']
      else if c = CHR 0x09 then [backslash, CHR ''t'']
      else let n = (of_char c :: nat) in
        if n < 32 \<or> (127 \<le> n \<and> n \<le> 160) \<or> n = 173
        then [backslash, CHR ''x'', hex_digit (n div 16), hex_digit (n mod 16)] else [c])"

definition py_repr :: "string \<Rightarrow> string" where
  "py_repr s =
     (let q = (if CHR 0x27 \<in> set s \<and> CHR 0x22 \<notin> set s then CHR 0x22 else CHR 0x27)
      in q # concat (map (repr_char q) s) @ [q])"

definition tuple_str :: "key \<Rightarrow> string" where
  "tuple_str k = (case k of [x] \<Rightarrow> ''('' @ py_repr x @ '',)'' | _ \<Rightarrow> ''('' @ py_join '', '' (map py_repr k) @ '')'')"

definition root_full_hash :: "hash_fun \<Rightarrow> tree \<Rightarrow> string option" where
  "root_full_hash H t =
     (case root t of
        Some r \<Rightarrow> full_hash (slots r)
      | None \<Rightarrow> (case root_key t of
                   Some k \<Rightarrow> if k = [] then None else Some (H (tuple_str k))
                 | None \<Rightarrow> None))"

subsection \<open>add\<close>

text \<open>
  The walk from the root to the place of the key: \<open>set_child\<close> at every part, pushing each node on
  the stack (deepest first).
\<close>

fun descend :: "hash_fun \<Rightarrow> key \<Rightarrow> string list \<Rightarrow> node \<Rightarrow> node list \<Rightarrow> node \<times> node list" where
  "descend H pk [] n up = (n, up)"
| "descend H pk (p # ps) n up =
     (let pk' = pk @ [p];
          (c, n') = set_child pk' (placeholder H pk') n
      in descend H pk' ps c (n' # up))"

text \<open>\<open>_recalculate_parents_stack\<close>: the deepest node first, each put back into its parent.\<close>

fun recalculate_parents_stack :: "hash_fun \<Rightarrow> node \<Rightarrow> node list \<Rightarrow> node" where
  "recalculate_parents_stack H n [] = recalc H n"
| "recalculate_parents_stack H n (p # up) =
     recalculate_parents_stack H (replace_child (recalc H n) p) up"

fun json_truth :: "json \<Rightarrow> bool" where
  "json_truth JNull = False"
| "json_truth (JBool b) = b"
| "json_truth (JInt i) = (i \<noteq> 0)"
| "json_truth (JStr s) = (s \<noteq> [])"
| "json_truth (JList xs) = (xs \<noteq> [])"
| "json_truth (JObj kvs) = (kvs \<noteq> [])"

text \<open>\<open>(metadata_dict or {}).items()\<close>\<close>

definition metadata_items :: "json \<Rightarrow> (string \<times> json) list result" where
  "metadata_items md =
     (case md of JObj kvs \<Rightarrow> Inr kvs | _ \<Rightarrow> if json_truth md then Inl AttributeError else Inr [])"

text \<open>What \<open>add\<close> writes into the slots of the node it has reached.\<close>

definition fill_slots ::
  "hash_fun \<Rightarrow> key \<Rightarrow> (string \<times> json) list \<Rightarrow> bool \<Rightarrow> json option \<Rightarrow> (string \<times> json) list \<Rightarrow> slots \<Rightarrow> slots" where
  "fill_slots H key kwargs err md_arg md s =
     s\<lparr>dummy := False,
       partial_hash := Some (node_hash H key False kwargs),
       error := err,
       metadata := (case md_arg of
                      None \<Rightarrow> metadata s
                    | Some m \<Rightarrow> if m \<noteq> JNull then ol_update fst md (metadata s) else md)\<rparr>"

definition tree_add :: "hash_fun \<Rightarrow> key \<Rightarrow> (string, json) dict \<Rightarrow> tree \<Rightarrow> tree result" where
  "tree_add H key kwargs t =
     (if key = [] then Inr t
      else
        let md_arg = dict_get kwargs ''_metadata'';
            err = json_truth (dict_getd kwargs ''_error'' (JBool False));
            kwargs' = dict_del ''_error'' (dict_del ''_metadata'' kwargs) in
        bind_res (metadata_items (case md_arg of None \<Rightarrow> JObj [] | Some m \<Rightarrow> m)) (\<lambda>items.
          let md = ol_include fst items [];
              place = (\<lambda>r. let (n, up) = descend H [hd key] (tl key) r [];
                               n' = Node (fill_slots H key kwargs' err md_arg md (slots n)) (children n)
                           in recalculate_parents_stack H n' up)
          in case root t of
               None \<Rightarrow>
                 Inr (t\<lparr>root := Some (place (placeholder H [hd key])),
                        root_key := Some [hd key], has_populated := True\<rparr>)
             | Some r \<Rightarrow>
                 if [hd key] \<noteq> nkey r then Inl (MultipleRootTreeError key (nkey r))
                 else Inr (t\<lparr>root := Some (place r)\<rparr>)))"

subsection \<open>find\<close>

text \<open>The loop over \<open>key[1:-1]\<close>: the stack of parents, deepest first, or not found.\<close>

fun walk :: "key \<Rightarrow> string list \<Rightarrow> node list \<Rightarrow> node list option" where
  "walk pk [] stack = Some stack"
| "walk pk (p # ps) stack =
     (case stack of
        [] \<Rightarrow> None
      | parent # _ \<Rightarrow>
          (case get_child (pk @ [p]) parent of
             None \<Rightarrow> None
           | Some c \<Rightarrow> walk (pk @ [p]) ps (c # stack)))"

definition get_node_and_parent_stack :: "tree \<Rightarrow> key \<Rightarrow> (node option \<times> node list) result" where
  "get_node_and_parent_stack t key =
     (case root t of
        None \<Rightarrow> Inr (None, [])
      | Some r \<Rightarrow>
          if nkey r = key then Inr (Some r, [])
          else (case key of
             [] \<Rightarrow> Inl IndexError
           | k0 # rest \<Rightarrow>
               if nkey r = [k0] then
                 (case walk [k0] (butlast rest) [r] of
                    None \<Rightarrow> Inr (None, [])
                  | Some stack \<Rightarrow> Inr (get_child key (hd stack), stack))
               else Inr (None, [])))"

definition tree_find :: "tree \<Rightarrow> key \<Rightarrow> node option result" where
  "tree_find t key = bind_res (get_node_and_parent_stack t key) (\<lambda>(n, _). Inr n)"

subsection \<open>pop, remove, clear, include\<close>

definition is_node_removable :: "node \<Rightarrow> bool" where
  "is_node_removable n \<longleftrightarrow> dummy (slots n) \<and> children n = []"

text \<open>
  \<open>_clear_stack_from_dummies\<close>: from the deepest node up, drop removable nodes from their parents;
  an emptied stack means the root went.
\<close>

fun clear_stack_from_dummies :: "node list \<Rightarrow> node list" where
  "clear_stack_from_dummies [] = []"
| "clear_stack_from_dummies [n] = (if is_node_removable n then [] else [n])"
| "clear_stack_from_dummies (n # p # up) =
     (if is_node_removable n then clear_stack_from_dummies (remove_child (nkey n) p # up)
      else n # p # up)"

definition finish_stack :: "hash_fun \<Rightarrow> node list \<Rightarrow> tree \<Rightarrow> tree" where
  "finish_stack H stack t =
     (case clear_stack_from_dummies stack of
        [] \<Rightarrow> t\<lparr>root := None\<rparr>
      | n # up \<Rightarrow> t\<lparr>root := Some (recalculate_parents_stack H n up)\<rparr>)"

text \<open>\<open>pop\<close>: the removed subtree, \<open>None\<close> standing for the default, and the tree left.\<close>

definition tree_pop :: "hash_fun \<Rightarrow> key \<Rightarrow> tree \<Rightarrow> (tree option \<times> tree) result" where
  "tree_pop H key t =
     bind_res (get_node_and_parent_stack t key) (\<lambda>(current, stack).
       case current of
         None \<Rightarrow> Inr (None, t)
       | Some c \<Rightarrow>
           (case stack of
              [] \<Rightarrow> Inr (Some (new_tree (Some c) None False), t\<lparr>root := None\<rparr>)
            | parent # up \<Rightarrow>
                Inr (Some (new_tree (Some c) None False),
                     finish_stack H (remove_child (nkey c) parent # up) t)))"

definition tree_remove :: "hash_fun \<Rightarrow> key \<Rightarrow> tree \<Rightarrow> tree result" where
  "tree_remove H key t =
     bind_res (tree_pop H key t) (\<lambda>(popped, t').
       case popped of None \<Rightarrow> Inl KeyError | Some _ \<Rightarrow> Inr t')"

definition clear_slots :: "hash_fun \<Rightarrow> key \<Rightarrow> slots \<Rightarrow> slots" where
  "clear_slots H key s =
     s\<lparr>dummy := True, partial_hash := Some (node_hash H key True []), full_hash := None\<rparr>"

definition tree_clear :: "hash_fun \<Rightarrow> key \<Rightarrow> tree \<Rightarrow> tree result" where
  "tree_clear H key t =
     bind_res (get_node_and_parent_stack t key) (\<lambda>(current, parents).
       case current of
         None \<Rightarrow> Inr t
       | Some n \<Rightarrow> Inr (finish_stack H (Node (clear_slots H key (slots n)) (children n) # parents) t))"

text \<open>
  \<open>include\<close>: adds in order; on an exception it pops every key it has seen, the failing one too,
  and raises again. The result is the exception, if any, and the tree left.
\<close>

fun pop_all :: "hash_fun \<Rightarrow> key list \<Rightarrow> tree \<Rightarrow> exc option \<times> tree" where
  "pop_all H [] t = (None, t)"
| "pop_all H (k # ks) t =
     (case tree_pop H k t of Inl e \<Rightarrow> (Some e, t) | Inr (_, t') \<Rightarrow> pop_all H ks t')"

fun include_loop ::
  "hash_fun \<Rightarrow> (key option \<times> (string, json) dict) list \<Rightarrow> key list \<Rightarrow> tree \<Rightarrow> exc option \<times> key list \<times> tree" where
  "include_loop H [] cache t = (None, cache, t)"
| "include_loop H ((key, attrs) # nodes) cache t =
     (case key of
        None \<Rightarrow> (Some KeyError, cache, t)
      | Some k \<Rightarrow>
          (case tree_add H k attrs t of
             Inl e \<Rightarrow> (Some e, cache @ [k], t)
           | Inr t' \<Rightarrow> include_loop H nodes (cache @ [k]) t'))"

definition tree_include ::
  "hash_fun \<Rightarrow> (key option \<times> (string, json) dict) list \<Rightarrow> tree \<Rightarrow> exc option \<times> tree" where
  "tree_include H nodes t =
     (case include_loop H nodes [] t of
        (None, _, t') \<Rightarrow> (None, t')
      | (Some e, cache, t') \<Rightarrow>
          (case pop_all H cache t' of (None, t'') \<Rightarrow> (Some e, t'') | (Some e', t'') \<Rightarrow> (Some e', t'')))"

subsection \<open>Metadata search\<close>

text \<open>
  \<open>_find_by_metadata\<close> visits the nodes breadth first: the loop walks over the list it appends to.
  The fuel is the number of nodes of the tree, one unit per visit.
\<close>

fun node_count :: "node \<Rightarrow> nat" where
  "node_count (Node s cs) = Suc (sum_list (map node_count cs))"

fun find_metadata_loop :: "nat \<Rightarrow> string \<Rightarrow> json \<Rightarrow> bool \<Rightarrow> node list \<Rightarrow> key list \<Rightarrow> key list" where
  "find_metadata_loop 0 k v present visit result = result"
| "find_metadata_loop (Suc fuel) k v present [] result = result"
| "find_metadata_loop (Suc fuel) k v present (cur # visit) result =
     (let hit = (case kv_get k (metadata (slots cur)) of
                   Some w \<Rightarrow> w = v \<and> \<not> dummy (slots cur) \<and> present
                 | None \<Rightarrow> \<not> present \<and> \<not> dummy (slots cur))
      in find_metadata_loop fuel k v present (visit @ children cur)
           (if hit then result @ [nkey cur] else result))"

definition find_by_metadata' :: "string \<Rightarrow> json \<Rightarrow> bool \<Rightarrow> tree \<Rightarrow> key list" where
  "find_by_metadata' k v present t =
     (case root t of
        None \<Rightarrow> []
      | Some r \<Rightarrow> find_metadata_loop (node_count r) k v present [r] [])"

definition find_by_metadata :: "string \<Rightarrow> json \<Rightarrow> tree \<Rightarrow> key list" where
  "find_by_metadata k v t = find_by_metadata' k v True t"

definition find_no_metadata :: "string \<Rightarrow> tree \<Rightarrow> key list" where
  "find_no_metadata k t = find_by_metadata' k JNull False t"

subsection \<open>diff\<close>

record diff_result =
  to_add :: "key list"
  to_remove :: "key list"

fun get_subtree_keys :: "node \<Rightarrow> key list" where
  "get_subtree_keys (Node s cs) =
     (if dummy s \<or> error s then [] else [skey s]) @ concat (map get_subtree_keys cs)"

definition subtree_keys_opt :: "node option \<Rightarrow> key list" where
  "subtree_keys_opt r = (case r of None \<Rightarrow> [] | Some n \<Rightarrow> get_subtree_keys n)"

definition diff_plus :: "diff_result \<Rightarrow> diff_result \<Rightarrow> diff_result" where
  "diff_plus a b = \<lparr>to_add = to_add a @ to_add b, to_remove = to_remove a @ to_remove b\<rparr>"

lemma size_children [termination_simp]:
  "x \<in> set xs \<Longrightarrow> size_list size (children x) < size_list size xs"
proof -
  assume "x \<in> set xs"
  then have "size x \<le> size_list size xs"
    by (auto intro: size_list_estimation')
  moreover have "size_list size (children x) < size x"
    by (cases x) simp
  ultimately show ?thesis by simp
qed

text \<open>The comparison of one pair of common nodes, before their children.\<close>

definition diff_node :: "node \<Rightarrow> node \<Rightarrow> diff_result" where
  "diff_node selfnode othernode =
     (if partial_hash (slots selfnode) \<noteq> partial_hash (slots othernode)
         \<and> \<not> (error (slots othernode) \<or> error (slots selfnode))
      then (if dummy (slots selfnode) then \<lparr>to_add = [], to_remove = [nkey othernode]\<rparr>
            else \<lparr>to_add = [nkey othernode], to_remove = []\<rparr>)
      else \<lparr>to_add = [], to_remove = []\<rparr>)"

function diff_children :: "node list \<Rightarrow> node list \<Rightarrow> diff_result" where
  "diff_children selfchildren otherchildren =
     foldr diff_plus
       (map (\<lambda>othernode.
          case ol_get nkey (\<lambda>c. c) (nkey othernode) selfchildren of
            None \<Rightarrow> \<lparr>to_add = [], to_remove = get_subtree_keys othernode\<rparr>
          | Some selfnode \<Rightarrow>
              diff_plus (diff_node selfnode othernode)
                (if full_hash (slots selfnode) \<noteq> full_hash (slots othernode)
                 then diff_children (children selfnode) (children othernode)
                 else \<lparr>to_add = [], to_remove = []\<rparr>)) otherchildren)
       \<lparr>to_add = concat (map (\<lambda>n. if ol_index nkey (nkey n) otherchildren = None
                                   then get_subtree_keys n else []) selfchildren),
        to_remove = []\<rparr>"
  by pat_completeness auto
termination
  by (relation "measure (\<lambda>(ss, os). size_list size os)") (auto simp: size_children)

declare diff_children.simps [simp del]

definition tree_diff :: "tree \<Rightarrow> tree \<Rightarrow> diff_result" where
  "tree_diff self other =
     (case root self of
        None \<Rightarrow> \<lparr>to_add = [], to_remove = subtree_keys_opt (root other)\<rparr>
      | Some r \<Rightarrow>
          (case root other of
             None \<Rightarrow> \<lparr>to_add = get_subtree_keys r, to_remove = []\<rparr>
           | Some o' \<Rightarrow> diff_children (ol_add nkey r []) (ol_add nkey o' [])))"

subsection \<open>Comparison and text form\<close>

definition has_subtree :: "tree \<Rightarrow> bool" where
  "has_subtree t = (case root t of None \<Rightarrow> False | Some r \<Rightarrow> children r \<noteq> [])"

definition tree_eq :: "tree \<Rightarrow> tree \<Rightarrow> bool" where
  "tree_eq a b =
     (case (root a, root b) of
        (None, None) \<Rightarrow> True
      | (Some x, Some y) \<Rightarrow> nkey x = nkey y \<and> full_hash (slots x) = full_hash (slots y)
      | _ \<Rightarrow> False)"

definition str_json :: "string option \<Rightarrow> json" where
  "str_json h = (case h of None \<Rightarrow> JNull | Some s \<Rightarrow> JStr s)"

fun node_to_dict :: "node \<Rightarrow> json" where
  "node_to_dict (Node s cs) =
     JObj [(''key'', key_json (skey s)), (''partial_hash'', str_json (partial_hash s)),
           (''full_hash'', str_json (full_hash s)), (''dummy'', JBool (dummy s)),
           (''error'', JBool (error s)), (''metadata'', JObj (metadata s)),
           (''_children'', JList (map node_to_dict cs))]"

definition tree_str :: "tree \<Rightarrow> string" where
  "tree_str t = (case root t of None \<Rightarrow> ''{}'' | Some r \<Rightarrow> json_dumps (node_to_dict r))"

subsection \<open>from_string\<close>

text \<open>
  \<open>_build_tree\<close>: the node a dictionary describes. Lookups of missing members raise \<open>KeyError\<close>.
  A member whose value has a type \<open>to_dict\<close> never prints (a number as hash, a list as metadata)
  is a \<open>TypeError\<close> of the model; Python would carry it along untyped.
\<close>

definition obj_member :: "(string \<times> json) list \<Rightarrow> string \<Rightarrow> json result" where
  "obj_member kvs k = (case map_of kvs k of None \<Rightarrow> Inl KeyError | Some v \<Rightarrow> Inr v)"

fun json_key :: "json \<Rightarrow> key result" where
  "json_key (JList []) = Inr []"
| "json_key (JList (JStr s # xs)) = bind_res (json_key (JList xs)) (\<lambda>k. Inr (s # k))"
| "json_key (JStr s) = Inr (map (\<lambda>c. [c]) s)"
| "json_key (JObj kvs) = Inr (map fst kvs)"
| "json_key _ = Inl TypeError"

fun json_opt_str :: "json \<Rightarrow> string option result" where
  "json_opt_str JNull = Inr None"
| "json_opt_str (JStr s) = Inr (Some s)"
| "json_opt_str _ = Inl TypeError"

fun json_metadata :: "json option \<Rightarrow> (string \<times> json) list result" where
  "json_metadata None = Inr []"
| "json_metadata (Some (JObj kvs)) = Inr kvs"
| "json_metadata (Some v) = (if json_truth v then Inl TypeError else Inr [])"

fun json_items :: "json \<Rightarrow> json list result" where
  "json_items (JList xs) = Inr xs"
| "json_items (JStr s) = Inr (map (\<lambda>c. JStr [c]) s)"
| "json_items (JObj kvs) = Inr (map (\<lambda>kv. JStr (fst kv)) kvs)"
| "json_items _ = Inl TypeError"

lemma map_of_size: "map_of kvs k = Some v \<Longrightarrow> size v < size (JObj kvs)"
  by (induction kvs) (auto split: if_splits)

lemma json_items_size: "json_items v = Inr xs \<Longrightarrow> x \<in> set xs \<Longrightarrow> size x \<le> size v"
proof (induction v rule: json_items.induct)
  case (1 ys)
  then have "size x \<le> size_list size ys"
    by (auto intro: size_list_estimation')
  with 1 show ?case by simp
qed auto

lemma items_of_member_size [termination_simp]:
  fixes kvs :: "(string \<times> json) list"
  assumes "map_of kvs k = Some v" "json_items v = Inr xs" "x \<in> set xs"
  shows "size x < Suc (size_list (\<lambda>kv. Suc (size (snd kv))) kvs)"
proof -
  have "size_prod (\<lambda>_ :: string. 0) (size :: json \<Rightarrow> nat) = (\<lambda>kv. Suc (size (snd kv)))"
    by (auto simp: fun_eq_iff)
  then show ?thesis
    using map_of_size [OF assms(1)] json_items_size [OF assms(2,3)] by simp
qed

fun build_tree :: "json \<Rightarrow> node result" where
  "build_tree (JObj kvs) =
     bind_res (bind_res (obj_member kvs ''key'') json_key) (\<lambda>k.
     bind_res (bind_res (obj_member kvs ''partial_hash'') json_opt_str) (\<lambda>ph.
     bind_res (bind_res (obj_member kvs ''full_hash'') json_opt_str) (\<lambda>fh.
     bind_res (obj_member kvs ''dummy'') (\<lambda>d.
     bind_res (obj_member kvs ''error'') (\<lambda>e.
     bind_res (json_metadata (map_of kvs ''metadata'')) (\<lambda>md.
     bind_res (case map_of kvs ''_children'' of
                 None \<Rightarrow> Inl KeyError
               | Some v \<Rightarrow> (case json_items v of
                    Inl e \<Rightarrow> Inl e
                  | Inr xs \<Rightarrow> traverse_res build_tree xs)) (\<lambda>cs.
     Inr (Node (slots (new_node k ph fh (json_truth d) md (json_truth e)))
               (ol_include nkey cs [])))))))))"
| "build_tree _ = Inl TypeError"

definition from_string :: "string \<Rightarrow> key option \<Rightarrow> bool \<Rightarrow> tree result" where
  "from_string s rk hp =
     bind_res (json_loads s) (\<lambda>v.
       if json_truth v then bind_res (build_tree v) (\<lambda>n. Inr (new_tree (Some n) None hp))
       else Inr (new_tree None rk hp))"

end
