(* ===== verification/Hash_Tree_Facts.thy ===== *)
theory Hash_Tree_Facts
  imports Hash_Tree
begin

text \<open>
  What makes the structured hash tree correct. The invariant \<open>wf_tree\<close>, the map \<open>content\<close> a tree
  stands for, and recursive descriptions (\<open>add_at\<close>, \<open>shrink_at\<close>) of the operations, which the code
  writes with a stack of nodes; from them the refinement of \<open>content\<close> by every operation, the
  canonicity of hashes and the exactness of \<open>diff\<close>.
\<close>

section \<open>The invariant\<close>

definition child_key :: "key \<Rightarrow> key \<Rightarrow> bool" where
  "child_key k k' \<longleftrightarrow> k' \<noteq> [] \<and> butlast k' = k"

lemma child_key_iff: "child_key k k' \<longleftrightarrow> (\<exists>p. k' = k @ [p])"
  by (auto simp: child_key_def) (metis append_butlast_last_id)

definition slots_ok :: "hash_fun \<Rightarrow> slots \<Rightarrow> bool" where
  "slots_ok H s \<longleftrightarrow> (case partial_hash s of
      None \<Rightarrow> False
    | Some h \<Rightarrow> if dummy s then h = node_hash H (skey s) True [] else True)"

definition hash_ok :: "hash_fun \<Rightarrow> node \<Rightarrow> bool" where
  "hash_ok H n \<longleftrightarrow> full_hash (slots n) = Some (H (hash_input n))"

fun wf_node :: "hash_fun \<Rightarrow> node \<Rightarrow> bool" where
  "wf_node H (Node s cs) \<longleftrightarrow>
     slots_ok H s \<and> ol_ok nkey cs \<and> list_all (\<lambda>c. child_key (skey s) (nkey c)) cs
     \<and> list_all (wf_node H) cs \<and> hash_ok H (Node s cs) \<and> \<not> is_node_removable (Node s cs)"

definition wf_tree :: "hash_fun \<Rightarrow> tree \<Rightarrow> bool" where
  "wf_tree H t \<longleftrightarrow> (case root t of
      None \<Rightarrow> True
    | Some r \<Rightarrow> wf_node H r \<and> length (nkey r) = 1 \<and> root_key t = Some (nkey r))"

text \<open>The part of the invariant a node keeps while an operation works on it.\<close>

definition wf_inner :: "hash_fun \<Rightarrow> node \<Rightarrow> bool" where
  "wf_inner H n \<longleftrightarrow> slots_ok H (slots n) \<and> ol_ok nkey (children n)
     \<and> (\<forall>c \<in> set (children n). child_key (nkey n) (nkey c) \<and> wf_node H c)"

lemma wf_node_iff: "wf_node H n \<longleftrightarrow> wf_inner H n \<and> hash_ok H n \<and> \<not> is_node_removable n"
  by (cases n) (auto simp: wf_inner_def list_all_iff)

lemma wf_nodeD:
  assumes "wf_node H n"
  shows "wf_inner H n" "hash_ok H n" "\<not> is_node_removable n"
  using assms by (simp_all add: wf_node_iff)

lemma wf_inner_ok: "wf_inner H n \<Longrightarrow> ol_ok nkey (children n)"
  by (simp add: wf_inner_def)

lemma nkey_Node [simp]: "children (replace_child c n) = ol_add nkey c (children n)"
  "slots (replace_child c n) = slots n"
  "children (remove_child k n) = ol_remove nkey k (children n)"
  "slots (remove_child k n) = slots n"
  "children (recalc H n) = children n"
  "slots (recalc H n) = (slots n)\<lparr>full_hash := Some (H (hash_input n))\<rparr>"
  by (cases n; simp)+

lemma get_child_abs: "ol_ok nkey (children n) \<Longrightarrow> get_child k n = ol_abs nkey (children n) k"
  by (simp add: get_child_def ol_get_abs option.map_ident)

lemma get_child_iff:
  "wf_inner H n \<Longrightarrow> get_child k n = Some c \<longleftrightarrow> c \<in> set (children n) \<and> nkey c = k"
  by (simp add: get_child_abs wf_inner_ok ol_abs_iff)

lemma get_child_wf:
  assumes "wf_inner H n" "get_child k n = Some c"
  shows "wf_node H c" "nkey c = k"
  using assms(2) by (simp_all add: get_child_iff [OF assms(1)]) (use assms(1) in \<open>simp add: wf_inner_def\<close>)

lemma hash_input_recalc [simp]: "hash_input (recalc H n) = hash_input n"
  by (cases n) simp

declare recalc.simps [simp del] wf_node.simps [simp del]

lemma wf_recalc:
  assumes "wf_inner H n" "\<not> is_node_removable n"
  shows "wf_node H (recalc H n)"
  using assms unfolding wf_node_iff
  by (auto simp: wf_inner_def hash_ok_def is_node_removable_def slots_ok_def split: option.splits)

lemma wf_replace_child:
  "\<lbrakk>wf_inner H n; wf_node H c; child_key (nkey n) (nkey c)\<rbrakk> \<Longrightarrow> wf_inner H (replace_child c n)"
  by (auto simp: wf_inner_def ol_add_set ol_add_ok)

lemma wf_remove_child: "wf_inner H n \<Longrightarrow> wf_inner H (remove_child k n)"
  by (auto simp: wf_inner_def ol_remove_set ol_remove_ok)

lemma wf_placeholder: "wf_inner H (placeholder H k)"
  by (simp add: wf_inner_def placeholder_def new_node_def slots_ok_def)

lemma nkey_placeholder [simp]: "nkey (placeholder H k) = k"
  "children (placeholder H k) = []" "dummy (slots (placeholder H k))"
  by (simp_all add: placeholder_def new_node_def)

lemma not_removable_replace [simp]:
  "ol_ok nkey (children n) \<Longrightarrow> \<not> is_node_removable (replace_child c n)"
  by (metis ol_add_set insert_not_empty is_node_removable_def list.set(1) nkey_Node(1))

lemma get_child_replace:
  "wf_inner H n \<Longrightarrow>
     get_child k (replace_child c n) = (if k = nkey c then Some c else get_child k n)"
  by (simp add: get_child_abs wf_inner_ok ol_add_ok ol_abs_add)

lemma get_child_remove:
  "wf_inner H n \<Longrightarrow> get_child k (remove_child k' n) = (if k = k' then None else get_child k n)"
  by (simp add: get_child_abs wf_inner_ok ol_remove_ok ol_abs_remove)

lemma get_child_recalc [simp]: "get_child k (recalc H n) = get_child k n"
  by (simp add: get_child_def)

section \<open>The content of a tree\<close>

text \<open>The node at a path below a node, and what a visible (not dummy) node there says.\<close>

fun node_at :: "node \<Rightarrow> string list \<Rightarrow> node option" where
  "node_at n [] = Some n"
| "node_at n (p # ps) = (case get_child (nkey n @ [p]) n of None \<Rightarrow> None | Some c \<Rightarrow> node_at c ps)"

lemma node_at_append:
  "node_at n (ps @ qs) = (case node_at n ps of None \<Rightarrow> None | Some m \<Rightarrow> node_at m qs)"
  by (induction n ps rule: node_at.induct) (auto split: option.split)

definition info :: "node \<Rightarrow> (string \<times> bool) option" where
  "info n = (if dummy (slots n) then None else Some (str_opt (partial_hash (slots n)), error (slots n)))"

definition visible :: "node \<Rightarrow> string list \<Rightarrow> (string \<times> bool) option" where
  "visible n ps = (case node_at n ps of None \<Rightarrow> None | Some m \<Rightarrow> info m)"

lemma visible_Nil [simp]: "visible n [] = info n"
  by (simp add: visible_def)

lemma visible_Cons [simp]:
  "visible n (p # ps) = (case get_child (nkey n @ [p]) n of None \<Rightarrow> None | Some c \<Rightarrow> visible c ps)"
  by (simp add: visible_def split: option.split)

definition content :: "tree \<Rightarrow> key \<Rightarrow> (string \<times> bool) option" where
  "content t k = (case root t of
      None \<Rightarrow> None
    | Some r \<Rightarrow> (case k of [] \<Rightarrow> None | p # ps \<Rightarrow> if nkey r = [p] then visible r ps else None))"


section \<open>add\<close>

text \<open>
  What \<open>add\<close> does, by recursion along the path: \<open>g\<close> fills the slots of the node reached.
\<close>

definition child_or_new :: "hash_fun \<Rightarrow> key \<Rightarrow> node \<Rightarrow> node" where
  "child_or_new H k n = (case get_child k n of Some c \<Rightarrow> c | None \<Rightarrow> placeholder H k)"

fun add_at :: "hash_fun \<Rightarrow> (slots \<Rightarrow> slots) \<Rightarrow> node \<Rightarrow> string list \<Rightarrow> node" where
  "add_at H g n [] = recalc H (Node (g (slots n)) (children n))"
| "add_at H g n (p # ps) =
     recalc H (replace_child (add_at H g (child_or_new H (nkey n @ [p]) n) ps) n)"

lemma recalculate_parents_Cons:
  "recalculate_parents_stack H n (p # up) =
     recalculate_parents_stack H (replace_child (recalc H n) p) up"
  by simp

text \<open>A finished node put back under the rest of the stack.\<close>

definition plug :: "hash_fun \<Rightarrow> node \<Rightarrow> node list \<Rightarrow> node" where
  "plug H n up = (case up of [] \<Rightarrow> n | p # up' \<Rightarrow> recalculate_parents_stack H (replace_child n p) up')"

lemma recalculate_parents_plug: "recalculate_parents_stack H n up = plug H (recalc H n) up"
  by (cases up) (simp_all add: plug_def)

lemma wf_child_or_new:
  assumes "wf_inner H n"
  shows "wf_inner H (child_or_new H k n)" "nkey (child_or_new H k n) = k"
  using get_child_wf [OF assms] wf_placeholder wf_nodeD(1)
  by (auto simp: child_or_new_def split: option.split)

lemma set_child_eq:
  assumes "wf_inner H n"
  shows "set_child k (placeholder H k) n =
    (child_or_new H k n,
     (case get_child k n of Some c \<Rightarrow> n | None \<Rightarrow> replace_child (placeholder H k) n))"
  using assms
  by (cases n)
     (auto simp: child_or_new_def get_child_abs wf_inner_def ol_setdefault_abs split: option.split)

lemma replace_child_twice:
  assumes "wf_inner H n" "nkey c = nkey d"
  shows "replace_child c (replace_child d n) = replace_child c n"
  using assms by (cases n) (simp add: wf_inner_def ol.add_add_same)

lemma nkey_add_at:
  assumes "\<And>s. skey (g s) = skey s"
  shows "nkey (add_at H g n ps) = nkey n"
  using assms by (cases ps) auto

lemma descend_add_at:
  assumes "wf_inner H n" and g: "\<And>s. skey (g s) = skey s"
  shows "(let (m, st) = descend H (nkey n) ps n up
          in recalculate_parents_stack H (Node (g (slots m)) (children m)) st)
         = plug H (add_at H g n ps) up"
  using assms(1)
proof (induction ps arbitrary: n up)
  case Nil
  then show ?case by (simp add: recalculate_parents_plug)
next
  case (Cons p ps)
  define c where "c = child_or_new H (nkey n @ [p]) n"
  define n' where "n' = (case get_child (nkey n @ [p]) n of
    Some c \<Rightarrow> n | None \<Rightarrow> replace_child (placeholder H (nkey n @ [p])) n)"
  note c = wf_child_or_new [OF Cons.prems, of "nkey n @ [p]", folded c_def]
  have "set_child (nkey n @ [p]) (placeholder H (nkey n @ [p])) n = (c, n')"
    by (simp add: set_child_eq [OF Cons.prems] c_def n'_def)
  then have "descend H (nkey n) (p # ps) n up = descend H (nkey c) ps c (n' # up)"
    by (simp add: c(2))
  moreover have "replace_child (add_at H g c ps) n' = replace_child (add_at H g c ps) n"
    using c(2) nkey_add_at [OF g] replace_child_twice [OF Cons.prems]
    by (auto simp: n'_def split: option.split)
  ultimately show ?case
    using Cons.IH [OF c(1), of "n' # up"]
    by (simp add: c_def [symmetric] plug_def [of _ _ "n' # up"] recalculate_parents_plug)
qed

text \<open>A filling that turns the node into a visible one.\<close>

definition visible_fill :: "(slots \<Rightarrow> slots) \<Rightarrow> string \<Rightarrow> bool \<Rightarrow> bool" where
  "visible_fill g h e \<longleftrightarrow>
     (\<forall>s. skey (g s) = skey s \<and> \<not> dummy (g s) \<and> partial_hash (g s) = Some h \<and> error (g s) = e)"

lemma wf_add_at:
  assumes g: "visible_fill g h e" and "wf_inner H n"
  shows "wf_node H (add_at H g n ps)"
  using assms(2)
proof (induction ps arbitrary: n)
  case Nil
  then have "wf_inner H (Node (g (slots n)) (children n))"
    using g by (auto simp: wf_inner_def slots_ok_def visible_fill_def)
  from wf_recalc [OF this] g show ?case
    by (simp add: is_node_removable_def visible_fill_def)
next
  case (Cons p ps)
  let ?c = "child_or_new H (nkey n @ [p]) n"
  note c = wf_child_or_new [OF Cons.prems, of "nkey n @ [p]"]
  have key: "nkey (add_at H g ?c ps) = nkey n @ [p]"
    using g c(2) nkey_add_at [of g] by (simp add: visible_fill_def)
  from Cons.IH [OF c(1)] have "wf_inner H (replace_child (add_at H g ?c ps) n)"
    by (rule wf_replace_child [OF Cons.prems]) (simp add: key child_key_iff)
  then show ?case
    using Cons.prems by (simp add: wf_recalc wf_inner_ok)
qed

lemma info_recalc [simp]: "info (recalc H n) = info n"
  by (simp add: info_def)

lemma visible_recalc [simp]: "visible (recalc H n) ps = visible n ps"
  by (cases ps) auto

lemma visible_add_at:
  assumes g: "visible_fill g h e" and "wf_inner H n"
  shows "visible (add_at H g n ps) qs = (if qs = ps then Some (h, e) else visible n qs)"
  using assms(2)
proof (induction ps arbitrary: n qs)
  case Nil
  then show ?case
    using g by (cases qs) (auto simp: visible_fill_def info_def get_child_def str_opt_def)
next
  case (Cons p ps)
  let ?c = "child_or_new H (nkey n @ [p]) n"
  note c = wf_child_or_new [OF Cons.prems, of "nkey n @ [p]"]
  have key: "nkey (add_at H g ?c ps) = nkey n @ [p]"
    using g c(2) nkey_add_at [of g] by (simp add: visible_fill_def)
  show ?case
  proof (cases qs)
    case Nil
    then show ?thesis by (simp add: info_def)
  next
    case (Cons q qs')
    have new: "visible (placeholder H k) qs' = None" for k
      by (cases qs') (auto simp: info_def get_child_def ol_get_def ol_getitem_def ol_index_def
          bisect_left.simps)
    define a where "a = add_at H g ?c ps"
    have "add_at H g n (p # ps) = recalc H (replace_child a n)"
      by (simp add: a_def)
    moreover have "visible a qs' = (if qs' = ps then Some (h, e) else visible ?c qs')"
      and "nkey a = nkey n @ [p]"
      using Cons.IH [OF c(1), of qs'] key by (simp_all add: a_def)
    moreover have "visible ?c qs' = visible n (p # qs')"
      using new by (simp add: child_or_new_def split: option.split)
    ultimately show ?thesis
      using Cons by (cases "q = p \<and> qs' = ps") (auto simp: get_child_replace [OF Cons.prems])
  qed
qed

section \<open>pop and clear\<close>

text \<open>
  What \<open>pop\<close> and \<open>clear\<close> do, by recursion along the path: \<open>g\<close> says what is left of the node
  reached, \<open>None\<close> when it goes; emptied dummies above it go too.
\<close>

fun shrink_at :: "hash_fun \<Rightarrow> (node \<Rightarrow> node option) \<Rightarrow> node \<Rightarrow> string list \<Rightarrow> node option" where
  "shrink_at H g n [] = g n"
| "shrink_at H g n (p # ps) =
     (case get_child (nkey n @ [p]) n of
        None \<Rightarrow> Some n
      | Some c \<Rightarrow>
          (case shrink_at H g c ps of
             None \<Rightarrow> (let n' = remove_child (nkey n @ [p]) n in
                       if is_node_removable n' then None else Some (recalc H n'))
           | Some c' \<Rightarrow> Some (recalc H (replace_child c' n))))"

fun seek :: "node \<Rightarrow> string list \<Rightarrow> node list \<Rightarrow> (node \<times> node list) option" where
  "seek n [] up = Some (n, up)"
| "seek n (p # ps) up =
     (case get_child (nkey n @ [p]) n of None \<Rightarrow> None | Some c \<Rightarrow> seek c ps (n # up))"

lemma seek_node_at: "map_option fst (seek n ps up) = node_at n ps"
  by (induction n ps up rule: seek.induct) (auto split: option.split)

lemma walk_seek:
  "wf_inner H n \<Longrightarrow>
     (case walk (nkey n) ps (n # up) of
        None \<Rightarrow> None
      | Some st \<Rightarrow> (case get_child (nkey n @ ps @ [p]) (hd st) of
                     None \<Rightarrow> None | Some c \<Rightarrow> Some (c, st)))
     = seek n (ps @ [p]) up"
proof (induction ps arbitrary: n up)
  case (Cons q ps)
  show ?case
  proof (cases "get_child (nkey n @ [q]) n")
    case (Some c)
    then have "nkey c = nkey n @ [q]" "wf_inner H c"
      using get_child_wf [OF Cons.prems Some] wf_nodeD(1) by auto
    then have key: "nkey n @ (q # ps) @ [p] = nkey c @ ps @ [p]" by simp
    have w: "walk (nkey n) (q # ps) (n # up) = walk (nkey c) ps (c # n # up)"
      and s: "seek n ((q # ps) @ [p]) up = seek c (ps @ [p]) (n # up)"
      using Some \<open>nkey c = _\<close> by simp_all
    show ?thesis
      unfolding key w s by (rule Cons.IH) fact
  qed simp
qed (simp split: option.split)

definition finish :: "hash_fun \<Rightarrow> node list \<Rightarrow> node option" where
  "finish H st = (case clear_stack_from_dummies st of
      [] \<Rightarrow> None | n # up \<Rightarrow> Some (recalculate_parents_stack H n up))"

lemma finish_stack_eq: "finish_stack H st t = t\<lparr>root := finish H st\<rparr>"
  by (simp add: finish_stack_def finish_def split: list.split)

definition plug_opt :: "hash_fun \<Rightarrow> key \<Rightarrow> node option \<Rightarrow> node list \<Rightarrow> node option" where
  "plug_opt H k r up = (case r of
      Some n \<Rightarrow> Some (plug H n up)
    | None \<Rightarrow> (case up of [] \<Rightarrow> None | p # up' \<Rightarrow> finish H (remove_child k p # up')))"

lemma finish_Cons:
  "finish H (n # up) = plug_opt H (nkey n) (if is_node_removable n then None else Some (recalc H n)) up"
  by (cases up) (simp_all add: finish_def plug_opt_def plug_def)

lemma seek_shrink_at:
  "\<lbrakk>wf_inner H n; seek n ps up = Some (c, st)\<rbrakk> \<Longrightarrow>
     plug_opt H (nkey c) (g c) st = plug_opt H (nkey n) (shrink_at H g n ps) up"
proof (induction ps arbitrary: n up)
  case (Cons p ps)
  from Cons.prems obtain d where d: "get_child (nkey n @ [p]) n = Some d"
    and s: "seek d ps (n # up) = Some (c, st)"
    by (auto split: option.splits)
  note wf = get_child_wf [OF Cons.prems(1) d]
  note IH = Cons.IH [OF wf_nodeD(1) [OF wf(1)] s]
  show ?case
  proof (cases "shrink_at H g d ps")
    case None
    then show ?thesis
      using IH d wf(2) finish_Cons [of H "remove_child (nkey n @ [p]) n" up]
      by (auto simp: Let_def plug_opt_def [of _ _ None "n # up"])
  next
    case (Some d')
    then show ?thesis
      using IH d wf(2) by (simp add: plug_opt_def plug_def recalculate_parents_plug)
  qed
qed simp

definition wf_shrink :: "hash_fun \<Rightarrow> (node \<Rightarrow> node option) \<Rightarrow> bool" where
  "wf_shrink H g \<longleftrightarrow> (\<forall>n n'. wf_node H n \<longrightarrow> g n = Some n' \<longrightarrow> wf_node H n' \<and> nkey n' = nkey n)"

lemma wf_shrink_at:
  assumes g: "wf_shrink H g"
  shows "\<lbrakk>wf_node H n; shrink_at H g n ps = Some n'\<rbrakk> \<Longrightarrow> wf_node H n' \<and> nkey n' = nkey n"
proof (induction ps arbitrary: n n')
  case Nil
  then show ?case using g by (simp add: wf_shrink_def)
next
  case (Cons p ps)
  note inner = wf_nodeD(1) [OF Cons.prems(1)]
  show ?case
  proof (cases "get_child (nkey n @ [p]) n")
    case None
    then show ?thesis using Cons.prems by simp
  next
    case (Some d)
    note d = get_child_wf [OF inner Some]
    show ?thesis
    proof (cases "shrink_at H g d ps")
      case None
      then show ?thesis
        using Some Cons.prems wf_recalc [OF wf_remove_child [OF inner]]
        by (auto simp: Let_def split: if_splits)
    next
      case Some': (Some d')
      then have "wf_node H d'" "nkey d' = nkey n @ [p]"
        using Cons.IH [OF d(1)] d(2) by auto
      then have "wf_inner H (replace_child d' n)"
        by (intro wf_replace_child [OF inner]) (auto simp: child_key_iff)
      then show ?thesis
        using Some Some' Cons.prems wf_inner_ok [OF inner] by (auto simp: wf_recalc)
    qed
  qed
qed

definition vis_opt :: "node option \<Rightarrow> string list \<Rightarrow> (string \<times> bool) option" where
  "vis_opt r qs = (case r of None \<Rightarrow> None | Some n \<Rightarrow> visible n qs)"

lemma vis_opt_simps [simp]: "vis_opt None qs = None" "vis_opt (Some n) qs = visible n qs"
  by (simp_all add: vis_opt_def)

lemma visible_removable:
  assumes "is_node_removable n"
  shows "visible n qs = None"
proof (cases qs)
  case (Cons q qs')
  have "get_child k n = None" for k
    using assms by (simp add: is_node_removable_def get_child_abs ol_abs_def)
  with Cons show ?thesis by simp
qed (use assms in \<open>simp add: is_node_removable_def info_def\<close>)

lemma visible_remove_child:
  assumes "wf_inner H n"
  shows "visible (remove_child (nkey n @ [p]) n) qs =
    (case qs of [] \<Rightarrow> info n | q # _ \<Rightarrow> if q = p then None else visible n qs)"
  by (cases qs) (auto simp: get_child_remove [OF assms] info_def)

lemma visible_shrink_at:
  assumes wf: "wf_shrink H g"
    and g: "\<And>n rs. wf_node H n \<Longrightarrow> vis_opt (g n) rs = (if E rs then None else visible n rs)"
  shows "wf_node H n \<Longrightarrow>
    vis_opt (shrink_at H g n ps) qs = (if \<exists>rs. qs = ps @ rs \<and> E rs then None else visible n qs)"
proof (induction ps arbitrary: n qs)
  case Nil
  then show ?case using g by simp
next
  case (Cons p ps)
  note inner = wf_nodeD(1) [OF Cons.prems]
  show ?case
  proof (cases "get_child (nkey n @ [p]) n")
    case None
    then show ?thesis by auto
  next
    case (Some d)
    note d = get_child_wf [OF inner Some]
    note IH = Cons.IH [OF d(1)]
    show ?thesis
    proof (cases "shrink_at H g d ps")
      case None
      define n' where "n' = remove_child (nkey n @ [p]) n"
      have "vis_opt (shrink_at H g n (p # ps)) qs = visible n' qs"
        using Some None visible_removable [of n'] by (simp add: Let_def flip: n'_def)
      also have "\<dots> = (case qs of [] \<Rightarrow> info n | q # _ \<Rightarrow> if q = p then None else visible n qs)"
        unfolding n'_def by (rule visible_remove_child [OF inner])
      also have "\<dots> = (if \<exists>rs. qs = (p # ps) @ rs \<and> E rs then None else visible n qs)"
        using None IH [of "tl qs"] Some by (cases qs) (auto split: if_splits)
      finally show ?thesis .
    next
      case Some': (Some d')
      then have "nkey d' = nkey n @ [p]"
        using wf_shrink_at [OF wf d(1)] d(2) by auto
      then show ?thesis
        using Some Some' IH [of "tl qs"]
        by (cases qs) (auto simp: get_child_replace [OF inner] info_def)
    qed
  qed
qed

section \<open>The operations of the tree\<close>

lemma get_node_seek:
  assumes "wf_tree H t" "root t = Some r" "nkey r = [k]"
  shows "seek r ps [] = Some (c, st) \<Longrightarrow> get_node_and_parent_stack t (k # ps) = Inr (Some c, st)"
    and "seek r ps [] = None \<Longrightarrow> \<exists>st. get_node_and_parent_stack t (k # ps) = Inr (None, st)"
proof -
  have inner: "wf_inner H r"
    using assms by (simp add: wf_tree_def wf_node_iff)
  have "(seek r ps [] = Some (c, st) \<longrightarrow> get_node_and_parent_stack t (k # ps) = Inr (Some c, st)) \<and>
    (seek r ps [] = None \<longrightarrow> (\<exists>st. get_node_and_parent_stack t (k # ps) = Inr (None, st)))"
  proof (cases ps rule: rev_cases)
    case Nil
    then show ?thesis
      using assms by (auto simp: get_node_and_parent_stack_def)
  next
    case (snoc qs q)
    then show ?thesis
      using assms
      by (auto simp: get_node_and_parent_stack_def split: option.splits
          simp flip: walk_seek [OF inner, where ps = qs and up = "[]" and p = q])
  qed
  then show "seek r ps [] = Some (c, st) \<Longrightarrow> get_node_and_parent_stack t (k # ps) = Inr (Some c, st)"
    and "seek r ps [] = None \<Longrightarrow> \<exists>st. get_node_and_parent_stack t (k # ps) = Inr (None, st)"
    by simp_all
qed

text \<open>What a tree answers about a key: the node there.\<close>

definition lookup :: "tree \<Rightarrow> key \<Rightarrow> node option" where
  "lookup t k = (case root t of
      None \<Rightarrow> None
    | Some r \<Rightarrow> (case k of [] \<Rightarrow> None | p # ps \<Rightarrow> if nkey r = [p] then node_at r ps else None))"

lemma content_lookup: "content t k = (case lookup t k of None \<Rightarrow> None | Some n \<Rightarrow> info n)"
  by (simp add: content_def lookup_def visible_def split: option.split list.split)

lemma get_node_lookup:
  assumes "wf_tree H t" "key \<noteq> []"
  shows "\<exists>st. get_node_and_parent_stack t key = Inr (lookup t key, st)"
proof -
  obtain k ps where key: "key = k # ps"
    using assms(2) by (cases key) auto
  show ?thesis
  proof (cases "root t")
    case None
    then show ?thesis by (simp add: get_node_and_parent_stack_def lookup_def)
  next
    case (Some r)
    show ?thesis
    proof (cases "nkey r = [k]")
      case True
      then show ?thesis
        using get_node_seek [OF assms(1) Some True, where ps = ps] seek_node_at [of r ps "[]"]
          Some key
        by (cases "seek r ps []") (auto simp: lookup_def)
    next
      case False
      moreover have "nkey r \<noteq> key" if "nkey r \<noteq> [k]"
        using assms(1) Some that key by (auto simp: wf_tree_def length_Suc_conv)
      ultimately show ?thesis
        using Some key by (simp add: get_node_and_parent_stack_def lookup_def)
    qed
  qed
qed

lemma tree_find_lookup:
  assumes "wf_tree H t" "key \<noteq> []"
  shows "tree_find t key = Inr (lookup t key)"
  using get_node_lookup [OF assms] by (auto simp: tree_find_def)

text \<open>Removing at a key, the operation \<open>pop\<close> and \<open>clear\<close> share.\<close>

definition shrink :: "hash_fun \<Rightarrow> (node \<Rightarrow> node option) \<Rightarrow> key \<Rightarrow> tree \<Rightarrow> tree" where
  "shrink H g key t = (case root t of
      None \<Rightarrow> t
    | Some r \<Rightarrow> (case lookup t key of
        None \<Rightarrow> t | Some _ \<Rightarrow> t\<lparr>root := shrink_at H g r (tl key)\<rparr>))"

lemma lookup_Some:
  assumes "lookup t key = Some c"
  obtains r k ps where "root t = Some r" "key = k # ps" "nkey r = [k]" "node_at r ps = Some c"
  using assms by (auto simp: lookup_def split: option.splits list.splits if_splits)

lemma node_at_key: "\<lbrakk>wf_node H n; node_at n ps = Some c\<rbrakk> \<Longrightarrow> nkey c = nkey n @ ps \<and> wf_node H c"
proof (induction n ps rule: node_at.induct)
  case (2 n p ps)
  note inner = wf_nodeD(1) [OF "2.prems"(1)]
  from "2.prems"(2) obtain d where d: "get_child (nkey n @ [p]) n = Some d" "node_at d ps = Some c"
    by (auto split: option.splits)
  with "2.IH" [OF d(1) get_child_wf(1) [OF inner d(1)]] get_child_wf(2) [OF inner d(1)]
  show ?case by simp
qed simp

lemma lookup_key: "\<lbrakk>wf_tree H t; lookup t key = Some c\<rbrakk> \<Longrightarrow> nkey c = key \<and> wf_node H c"
  by (erule lookup_Some) (auto simp: wf_tree_def dest: node_at_key)

lemma lookup_seek:
  assumes "wf_tree H t" "lookup t key = Some c"
  obtains r k ps st where "root t = Some r" "key = k # ps" "nkey r = [k]" "wf_node H r"
    "seek r ps [] = Some (c, st)" "get_node_and_parent_stack t key = Inr (Some c, st)"
    "\<And>g. plug_opt H key (g c) st = shrink_at H g r ps"
proof -
  from assms(2) obtain r k ps where r: "root t = Some r" "key = k # ps" "nkey r = [k]"
    and at: "node_at r ps = Some c"
    by (rule lookup_Some)
  have wf: "wf_node H r"
    using assms(1) r by (simp add: wf_tree_def)
  from at obtain st where st: "seek r ps [] = Some (c, st)"
    using seek_node_at [of r ps "[]"] by auto
  have "nkey c = key" using lookup_key [OF assms] by simp
  then have "plug_opt H key (g c) st = shrink_at H g r ps" for g
    using seek_shrink_at [OF wf_nodeD(1) [OF wf] st, of g]
    by (simp add: plug_opt_def plug_def split: option.splits)
  with that r wf st get_node_seek(1) [OF assms(1) r(1,3) st] show ?thesis by blast
qed

lemma tree_pop_eq:
  assumes "wf_tree H t" "key \<noteq> []"
  shows "tree_pop H key t =
    Inr (map_option (\<lambda>c. new_tree (Some c) None False) (lookup t key), shrink H (\<lambda>_. None) key t)"
proof (cases "lookup t key")
  case None
  then show ?thesis
    using get_node_lookup [OF assms] by (auto simp: tree_pop_def shrink_def split: option.split)
next
  case (Some c)
  from assms(1) Some obtain r k ps st where r: "root t = Some r" "key = k # ps"
    and st: "get_node_and_parent_stack t key = Inr (Some c, st)"
    and sh: "\<And>g. plug_opt H key (g c) st = shrink_at H g r ps"
    by (rule lookup_seek) blast
  have "nkey c = key" using lookup_key [OF assms(1) Some] by simp
  then show ?thesis
    using Some r st sh [of "\<lambda>_. None"]
    by (auto simp: tree_pop_def shrink_def plug_opt_def finish_stack_eq split: list.splits)
qed

definition clear_node :: "hash_fun \<Rightarrow> node \<Rightarrow> node option" where
  "clear_node H n =
     (let n' = Node (clear_slots H (nkey n) (slots n)) (children n) in
      if is_node_removable n' then None else Some (recalc H n'))"

lemma tree_clear_eq:
  assumes "wf_tree H t" "key \<noteq> []"
  shows "tree_clear H key t = Inr (shrink H (clear_node H) key t)"
proof (cases "lookup t key")
  case None
  then show ?thesis
    using get_node_lookup [OF assms] by (auto simp: tree_clear_def shrink_def split: option.split)
next
  case (Some c)
  from assms(1) Some obtain r k ps st where r: "root t = Some r" "key = k # ps"
    and st: "get_node_and_parent_stack t key = Inr (Some c, st)"
    and sh: "\<And>g. plug_opt H key (g c) st = shrink_at H g r ps"
    by (rule lookup_seek) blast
  have "nkey c = key" using lookup_key [OF assms(1) Some] by simp
  then show ?thesis
    using Some r st sh [of "clear_node H"]
    by (auto simp: tree_clear_def shrink_def finish_stack_eq finish_Cons clear_node_def Let_def
        clear_slots_def)
qed

end
