(* ===== verification/Hash_Tree_Content.thy ===== *)
theory Hash_Tree_Content
  imports Hash_Tree_Facts
begin

text \<open>
  The refinement of the map \<open>content\<close> by the operations of the tree, the canonicity of the root
  hash, and what equal hashes and \<open>diff\<close> say about the contents of two trees.
\<close>

section \<open>add, pop and clear as map updates\<close>

definition plain_attrs :: "(string, json) dict \<Rightarrow> (string, json) dict" where
  "plain_attrs kwargs = dict_del ''_error'' (dict_del ''_metadata'' kwargs)"

definition error_attr :: "(string, json) dict \<Rightarrow> bool" where
  "error_attr kwargs = json_truth (dict_getd kwargs ''_error'' (JBool False))"

text \<open>What a successful \<open>add\<close> makes visible at the key.\<close>

definition entry :: "hash_fun \<Rightarrow> key \<Rightarrow> (string, json) dict \<Rightarrow> string \<times> bool" where
  "entry H key kwargs = (node_hash H key False (plain_attrs kwargs), error_attr kwargs)"

definition metadata_ok :: "(string, json) dict \<Rightarrow> bool" where
  "metadata_ok kwargs \<longleftrightarrow> (case dict_get kwargs ''_metadata'' of
     None \<Rightarrow> True | Some (JObj _) \<Rightarrow> True | Some v \<Rightarrow> \<not> json_truth v)"

definition root_admits :: "tree \<Rightarrow> key \<Rightarrow> bool" where
  "root_admits t key \<longleftrightarrow> (case root t of None \<Rightarrow> True | Some r \<Rightarrow> nkey r = [hd key])"

lemma metadata_items_ok:
  "is_ok (metadata_items (case dict_get kwargs ''_metadata'' of None \<Rightarrow> JObj [] | Some m \<Rightarrow> m))
     \<longleftrightarrow> metadata_ok kwargs"
  by (auto simp: metadata_items_def metadata_ok_def split: option.split json.split)

lemma tree_add_at:
  assumes wf: "wf_tree H t" and admits: "root_admits t (k # ps)" and md: "metadata_ok kwargs"
  obtains g t' where "visible_fill g (node_hash H (k # ps) False (plain_attrs kwargs)) (error_attr kwargs)"
    "tree_add H (k # ps) kwargs t = Inr t'" "root_key t' = Some [k]"
    "root t' = Some (add_at H g (case root t of None \<Rightarrow> placeholder H [k] | Some r \<Rightarrow> r) ps)"
proof -
  define md_arg where "md_arg = dict_get kwargs ''_metadata''"
  obtain items where items:
    "metadata_items (case md_arg of None \<Rightarrow> JObj [] | Some m \<Rightarrow> m) = Inr items"
    using md unfolding metadata_items_ok [symmetric] md_arg_def
    by (cases "metadata_items (case dict_get kwargs ''_metadata'' of None \<Rightarrow> JObj [] | Some m \<Rightarrow> m)") auto
  define g where "g = fill_slots H (k # ps) (plain_attrs kwargs) (error_attr kwargs) md_arg
    (ol_include fst items [])"
  define r where "r = (case root t of None \<Rightarrow> placeholder H [k] | Some r \<Rightarrow> r)"
  have fill: "visible_fill g (node_hash H (k # ps) False (plain_attrs kwargs)) (error_attr kwargs)"
    by (simp add: visible_fill_def g_def fill_slots_def)
  then have key: "skey (g s) = skey s" for s
    by (simp add: visible_fill_def)
  have r: "wf_inner H r" "nkey r = [k]"
    using wf admits wf_placeholder wf_nodeD(1)
    by (auto simp: r_def wf_tree_def root_admits_def split: option.split)
  have "(let (n, up) = descend H [k] ps r []
         in recalculate_parents_stack H (Node (g (slots n)) (children n)) up) = add_at H g r ps"
    using descend_add_at [OF r(1) key, where ps = ps and up = "[]"] r(2) by (simp add: plug_def)
  then have "\<exists>t'. tree_add H (k # ps) kwargs t = Inr t' \<and> root_key t' = Some [k] \<and>
      root t' = Some (add_at H g r ps)"
    using items wf admits
    by (auto simp: tree_add_def md_arg_def [symmetric] plain_attrs_def [symmetric]
        error_attr_def [symmetric] g_def r_def root_admits_def wf_tree_def split: option.split)
  then show thesis
    using that [OF fill] by (auto simp: r_def)
qed

text \<open>When \<open>add\<close> raises.\<close>

lemma tree_add_ok_iff:
  assumes "wf_tree H t" "key \<noteq> []"
  shows "is_ok (tree_add H key kwargs t) \<longleftrightarrow> metadata_ok kwargs \<and> root_admits t key"
proof
  assume ok: "is_ok (tree_add H key kwargs t)"
  define i where "i = metadata_items (case dict_get kwargs ''_metadata'' of None \<Rightarrow> JObj [] | Some m \<Rightarrow> m)"
  show "metadata_ok kwargs \<and> root_admits t key"
    using ok assms(2) unfolding tree_add_def metadata_items_ok [symmetric]
    by (cases i) (auto simp: Let_def root_admits_def simp flip: i_def split: option.splits if_splits)
next
  assume "metadata_ok kwargs \<and> root_admits t key"
  with assms tree_add_at [of H t "hd key" "tl key" kwargs]
  show "is_ok (tree_add H key kwargs t)" by (metis is_ok.simps(2) list.collapse)
qed

lemma visible_placeholder [simp]: "visible (placeholder H k) qs = None"
  by (cases qs) (simp_all add: info_def get_child_abs ol_abs_def)

lemma tree_add_content:
  assumes wf: "wf_tree H t" and "key \<noteq> []" and add: "tree_add H key kwargs t = Inr t'"
  shows "wf_tree H t' \<and> content t' = (content t)(key \<mapsto> entry H key kwargs)"
proof -
  obtain k ps where key: "key = k # ps"
    using assms(2) by (cases key) auto
  have ok: "metadata_ok kwargs" "root_admits t (k # ps)"
    using tree_add_ok_iff [OF assms(1,2), of kwargs] add key by simp_all
  define r where "r = (case root t of None \<Rightarrow> placeholder H [k] | Some r \<Rightarrow> r)"
  obtain g where g: "visible_fill g (node_hash H key False (plain_attrs kwargs)) (error_attr kwargs)"
    and t': "root_key t' = Some [k]" "root t' = Some (add_at H g r ps)"
    using tree_add_at [OF wf ok(2,1)] add key by (auto simp: r_def)
  have r: "wf_inner H r" "nkey r = [k]"
    using wf ok(2) wf_placeholder wf_nodeD(1)
    by (auto simp: r_def wf_tree_def root_admits_def split: option.split)
  have nk: "nkey (add_at H g r ps) = [k]"
    using g r(2) nkey_add_at [of g] by (simp add: visible_fill_def)
  have "wf_tree H t'"
    using t' nk wf_add_at [OF g r(1)] by (simp add: wf_tree_def)
  moreover have "visible r qs = content t (k # qs)" for qs
    using ok(2) by (auto simp: r_def content_def root_admits_def split: option.split)
  then have "content t' key' = ((content t)(key \<mapsto> entry H key kwargs)) key'" for key'
    using t' nk r(2) visible_add_at [OF g r(1)] key ok(2)
    by (cases key') (auto simp: content_def entry_def root_admits_def split: option.splits)
  ultimately show ?thesis by auto
qed

lemma shrink_content:
  assumes wf: "wf_tree H t" and "key \<noteq> []" and g: "wf_shrink H g"
    and vis: "\<And>n rs. wf_node H n \<Longrightarrow> vis_opt (g n) rs = (if E rs then None else visible n rs)"
  shows "wf_tree H (shrink H g key t)"
    and "content (shrink H g key t) k' = (if \<exists>rs. k' = key @ rs \<and> E rs then None else content t k')"
proof -
  obtain k ps where key: "key = k # ps"
    using assms(2) by (cases key) auto
  have "wf_tree H (shrink H g key t) \<and> content (shrink H g key t) k'
      = (if \<exists>rs. k' = key @ rs \<and> E rs then None else content t k')"
  proof (cases "lookup t key")
    case None
    have "content t (key @ rs) = None" for rs
      using None key by (auto simp: lookup_def content_def split: option.splits)
        (auto simp: visible_def node_at_append split: option.splits)
    then show ?thesis
      using None wf by (auto simp: shrink_def split: option.split)
  next
    case (Some c)
    then obtain r where r: "root t = Some r" "nkey r = [k]"
      using key by (auto simp: lookup_def split: option.splits if_splits)
    have rwf: "wf_node H r"
      using wf r by (simp add: wf_tree_def)
    have t': "shrink H g key t = t\<lparr>root := shrink_at H g r ps\<rparr>"
      using Some r key by (simp add: shrink_def)
    have "wf_tree H (shrink H g key t)"
      using wf_shrink_at [OF g rwf] wf r
      by (auto simp: t' wf_tree_def split: option.split)
    moreover have in_tree: "content (shrink H g key t) (k # qs) = vis_opt (shrink_at H g r ps) qs" for qs
      using wf_shrink_at [OF g rwf] r by (auto simp: t' content_def vis_opt_def split: option.split)
    moreover have out: "content (shrink H g key t) (q # qs) = None" if "q \<noteq> k" for q qs
      using wf_shrink_at [OF g rwf] r that by (auto simp: t' content_def split: option.split)
    moreover have before: "content t (q # qs) = (if q = k then visible r qs else None)" for q qs
      using r by (simp add: content_def)
    have "content (shrink H g key t) k' = (if \<exists>rs. k' = key @ rs \<and> E rs then None else content t k')"
    proof (cases k')
      case (Cons q qs)
      then show ?thesis
        using key visible_shrink_at [OF g vis rwf, where ps = ps and qs = qs]
          in_tree [of qs] out [of q qs] before [of q qs]
        by (cases "q = k") auto
    qed (simp add: content_def split: option.split)
    ultimately show ?thesis by blast
  qed
  then show "wf_tree H (shrink H g key t)"
    and "content (shrink H g key t) k' = (if \<exists>rs. k' = key @ rs \<and> E rs then None else content t k')"
    by blast+
qed

lemma wf_shrink_drop: "wf_shrink H (\<lambda>_. None)"
  by (simp add: wf_shrink_def)

lemma wf_shrink_clear: "wf_shrink H (clear_node H)"
proof -
  have "wf_node H n' \<and> nkey n' = nkey n" if "wf_node H n" "clear_node H n = Some n'" for n n'
  proof -
    let ?n = "Node (clear_slots H (nkey n) (slots n)) (children n)"
    have "wf_inner H ?n"
      using wf_nodeD(1) [OF that(1)] by (auto simp: wf_inner_def clear_slots_def slots_ok_def)
    then show ?thesis
      using that(2) wf_recalc by (auto simp: clear_node_def Let_def clear_slots_def split: if_splits)
  qed
  then show ?thesis by (simp add: wf_shrink_def)
qed

lemma visible_clear_node:
  assumes "wf_node H n"
  shows "vis_opt (clear_node H n) rs = (if rs = [] then None else visible n rs)"
proof -
  let ?n = "Node (clear_slots H (nkey n) (slots n)) (children n)"
  have "vis_opt (clear_node H n) rs = visible ?n rs"
    using visible_removable [of ?n] by (auto simp: clear_node_def Let_def)
  then show ?thesis
    by (cases rs) (auto simp: info_def clear_slots_def get_child_def)
qed

lemma tree_pop_content:
  assumes "wf_tree H t" "key \<noteq> []" "tree_pop H key t = Inr (r, t')"
  shows "wf_tree H t'" "content t' k = (if take (length key) k = key then None else content t k)"
    "r = map_option (\<lambda>c. new_tree (Some c) None False) (lookup t key)"
proof -
  have t': "t' = shrink H (\<lambda>_. None) key t"
    and "r = map_option (\<lambda>c. new_tree (Some c) None False) (lookup t key)"
    using assms tree_pop_eq [OF assms(1,2)] by simp_all
  then show "r = map_option (\<lambda>c. new_tree (Some c) None False) (lookup t key)" by simp
  note sh = shrink_content [OF assms(1,2) wf_shrink_drop, where E = "\<lambda>_. True"]
  show "wf_tree H t'"
    unfolding t' by (rule sh) simp
  have "(\<exists>rs. k = key @ rs) \<longleftrightarrow> take (length key) k = key"
    by (metis append_eq_conv_conj append_take_drop_id)
  then show "content t' k = (if take (length key) k = key then None else content t k)"
    unfolding t' by (subst sh) auto
qed

lemma tree_clear_content:
  assumes "wf_tree H t" "key \<noteq> []" "tree_clear H key t = Inr t'"
  shows "wf_tree H t'" "content t' = (content t)(key := None)"
proof -
  have t': "t' = shrink H (clear_node H) key t"
    using assms tree_clear_eq [OF assms(1,2)] by simp
  note sh = shrink_content [OF assms(1,2) wf_shrink_clear visible_clear_node]
  show "wf_tree H t'"
    unfolding t' by (rule sh)
  show "content t' = (content t)(key := None)"
    unfolding t' by (rule ext) (subst sh, auto)
qed

end
