(* ===== verification/Hash_Tree_Diff.thy ===== *)
theory Hash_Tree_Diff
  imports Hash_Tree_Content
begin

text \<open>
  The root hash and the content determine each other: in one direction because a tree with the
  invariant is canonical, in the other as long as the hash function does not collide on the texts
  of the two trees. From the second fact, \<open>diff\<close> finds every difference although it skips pairs of
  subtrees with equal hashes.
\<close>

section \<open>Equal contents have equal hashes\<close>

definition hash_at :: "node \<Rightarrow> string list \<Rightarrow> string option" where
  "hash_at n qs = map_option fst (visible n qs)"

lemma some_visible: "wf_node H n \<Longrightarrow> \<exists>qs. visible n qs \<noteq> None"
proof (induction n)
  case (Node s cs)
  note inner = wf_nodeD(1) [OF Node.prems]
  show ?case
  proof (cases "dummy s")
    case True
    then obtain c where c: "c \<in> set cs"
      using wf_nodeD(3) [OF Node.prems] by (cases cs) (auto simp: is_node_removable_def)
    then have wf: "wf_node H c" and "child_key (nkey (Node s cs)) (nkey c)"
      using inner by (auto simp: wf_inner_def)
    then obtain p where p: "nkey c = nkey (Node s cs) @ [p]"
      by (auto simp: child_key_iff)
    then have "get_child (nkey (Node s cs) @ [p]) (Node s cs) = Some c"
      using c by (simp add: get_child_iff [OF inner])
    moreover obtain qs where "visible c qs \<noteq> None"
      using Node.IH [OF c wf] by blast
    ultimately have "visible (Node s cs) (p # qs) \<noteq> None" by simp
    then show ?thesis by blast
  next
    case False
    then have "visible (Node s cs) [] \<noteq> None" by (simp add: info_def)
    then show ?thesis by blast
  qed
qed

lemma get_child_exists:
  assumes "wf_node H n"
  shows "get_child (nkey n @ [p]) n = None \<longleftrightarrow> (\<forall>qs. visible n (p # qs) = None)"
proof (cases "get_child (nkey n @ [p]) n")
  case (Some c)
  then have "wf_node H c"
    using get_child_wf(1) [OF wf_nodeD(1) [OF assms]] by blast
  from some_visible [OF this] Some show ?thesis by simp
qed simp

lemma hash_at_Nil: "hash_at n [] = map_option fst (info n)"
  by (simp add: hash_at_def)

lemma hash_at_Cons:
  "hash_at n (p # qs) = (case get_child (nkey n @ [p]) n of None \<Rightarrow> None | Some c \<Rightarrow> hash_at c qs)"
  by (simp add: hash_at_def split: option.split)

lemma child_keys_eq:
  assumes "wf_node H n" "wf_node H m" "nkey n = nkey m" "hash_at n = hash_at m"
  shows "map nkey (children n) = map nkey (children m)"
proof (rule strict_sorted_equal)
  have vis: "visible n (p # qs) = None \<longleftrightarrow> visible m (p # qs) = None" for p qs
    using fun_cong [OF assms(4), of "p # qs"] by (auto simp: hash_at_def)
  then have ex: "get_child (nkey n @ [p]) n = None \<longleftrightarrow> get_child (nkey m @ [p]) m = None" for p
    by (simp add: get_child_exists [OF assms(1)] get_child_exists [OF assms(2)])
  have keys: "set (map nkey (children k)) = {nkey k @ [p] | p. get_child (nkey k @ [p]) k \<noteq> None}"
    if wf: "wf_node H k" for k
  proof (intro set_eqI iffI)
    fix j assume "j \<in> set (map nkey (children k))"
    then obtain c where c: "c \<in> set (children k)" "nkey c = j" by auto
    then have "get_child j k = Some c"
      by (simp add: get_child_iff [OF wf_nodeD(1) [OF wf]])
    moreover obtain p where "j = nkey k @ [p]"
      using c wf_nodeD(1) [OF wf] by (auto simp: wf_inner_def child_key_iff)
    ultimately show "j \<in> {nkey k @ [p] | p. get_child (nkey k @ [p]) k \<noteq> None}" by auto
  next
    fix j assume "j \<in> {nkey k @ [p] | p. get_child (nkey k @ [p]) k \<noteq> None}"
    then obtain c where "get_child j k = Some c" by auto
    then have "c \<in> set (children k)" "nkey c = j"
      using get_child_iff [OF wf_nodeD(1) [OF wf]] by simp_all
    then show "j \<in> set (map nkey (children k))" by auto
  qed
  show "set (map nkey (children n)) = set (map nkey (children m))"
    unfolding keys [OF assms(1)] keys [OF assms(2)] using ex assms(3) by simp
qed (use assms(1,2) wf_inner_ok wf_nodeD(1) in \<open>auto simp: ol_ok_def\<close>)

lemma child_nth:
  assumes "wf_node H n" "i < length (children n)"
  shows "get_child (nkey (children n ! i)) n = Some (children n ! i)"
    "wf_node H (children n ! i)" "child_key (nkey n) (nkey (children n ! i))"
  using assms wf_nodeD(1) [OF assms(1)]
  by (auto simp: get_child_iff [OF wf_nodeD(1) [OF assms(1)]] wf_inner_def)

lemma hash_canonical:
  "\<lbrakk>wf_node H n; wf_node H m; nkey n = nkey m; hash_at n = hash_at m\<rbrakk> \<Longrightarrow>
     full_hash (slots n) = full_hash (slots m)"
proof (induction n arbitrary: m)
  case (Node s cs)
  define n where "n = Node s cs"
  note wf = Node.prems(1,2) [folded n_def] and eq = Node.prems(3,4) [folded n_def]
  note keys = child_keys_eq [OF wf eq]
  have len: "length (children n) = length (children m)"
    using arg_cong [OF keys, of length] by simp
  have "full_hash (slots (children n ! i)) = full_hash (slots (children m ! i))"
    if i: "i < length (children n)" for i
  proof -
    let ?c = "children n ! i" and ?d = "children m ! i"
    have "map nkey (children n) ! i = map nkey (children m) ! i" by (simp add: keys)
    then have k: "nkey ?c = nkey ?d" using i len by simp
    note c = child_nth [OF wf(1) i] and d = child_nth [OF wf(2) i [unfolded len]]
    from c(3) obtain p where p: "nkey ?c = nkey n @ [p]" by (auto simp: child_key_iff)
    have "hash_at ?c qs = hash_at ?d qs" for qs
      using fun_cong [OF eq(2), of "p # qs"] c(1) d(1) k p eq(1) by (simp add: hash_at_Cons)
    moreover have "?c \<in> set cs" using i by (simp add: n_def)
    ultimately show ?thesis
      using Node.IH [OF _ c(2) d(2) k] by blast
  qed
  then have "map (\<lambda>c. full_hash (slots c)) (children n) = map (\<lambda>c. full_hash (slots c)) (children m)"
    using len by (simp add: list_eq_iff_nth_eq)
  then have "map str_opt (map (\<lambda>c. full_hash (slots c)) (children n))
      = map str_opt (map (\<lambda>c. full_hash (slots c)) (children m))" by (rule arg_cong)
  moreover have "str_opt (partial_hash (slots n)) = str_opt (partial_hash (slots m))"
  proof -
    have "info n = None \<longleftrightarrow> info m = None" and "map_option fst (info n) = map_option fst (info m)"
      using fun_cong [OF eq(2), of "[]"] by (auto simp: hash_at_Nil)
    then show ?thesis
      using wf_nodeD(1) [OF wf(1)] wf_nodeD(1) [OF wf(2)] eq(1)
      by (auto simp: info_def wf_inner_def slots_ok_def str_opt_def split: if_splits option.splits)
  qed
  ultimately have "hash_input n = hash_input m"
    by (cases n; cases m) (simp add: comp_def)
  then show ?case
    using wf_nodeD(2) [OF wf(1)] wf_nodeD(2) [OF wf(2)] by (simp add: hash_ok_def n_def)
qed

section \<open>Equal hashes have equal contents\<close>

fun subnodes :: "node \<Rightarrow> node list" where
  "subnodes (Node s cs) = Node s cs # concat (map subnodes cs)"

lemma self_subnode [simp]: "n \<in> set (subnodes n)"
  by (cases n) simp

lemma child_subnodes: "c \<in> set (children n) \<Longrightarrow> set (subnodes c) \<subseteq> set (subnodes n)"
  by (cases n) auto

definition no_collision :: "node \<Rightarrow> node \<Rightarrow> bool" where
  "no_collision n m \<longleftrightarrow> list_all (\<lambda>a. list_all (\<lambda>b.
      (full_hash (slots a) = full_hash (slots b) \<longrightarrow> hash_input a = hash_input b) \<and>
      (partial_hash (slots a) = partial_hash (slots b) \<longrightarrow>
         nkey a = nkey b \<and> dummy (slots a) = dummy (slots b))) (subnodes m)) (subnodes n)"

text \<open>The hexadecimal form of a SHA-256 hash has 64 characters.\<close>

definition sized :: "node \<Rightarrow> bool" where
  "sized n \<longleftrightarrow> list_all (\<lambda>a. length (str_opt (partial_hash (slots a))) = 64 \<and>
      length (str_opt (full_hash (slots a))) = 64) (subnodes n)"

lemma no_collisionD:
  assumes "no_collision n m"
  shows "full_hash (slots n) = full_hash (slots m) \<Longrightarrow> hash_input n = hash_input m"
    "partial_hash (slots n) = partial_hash (slots m) \<Longrightarrow> nkey n = nkey m \<and> dummy (slots n) = dummy (slots m)"
    "\<lbrakk>c \<in> set (children n); d \<in> set (children m)\<rbrakk> \<Longrightarrow> no_collision c d"
  using assms child_subnodes [of c n] child_subnodes [of d m]
  by (auto simp: no_collision_def list_all_iff)

lemma sizedD:
  assumes "sized n"
  shows "length (str_opt (partial_hash (slots n))) = 64" "length (str_opt (full_hash (slots n))) = 64"
    "c \<in> set (children n) \<Longrightarrow> sized c"
  using assms child_subnodes [of c n] by (auto simp: sized_def list_all_iff)

definition same_node :: "node \<Rightarrow> node \<Rightarrow> bool" where
  "same_node a b \<longleftrightarrow> nkey a = nkey b \<and> partial_hash (slots a) = partial_hash (slots b)
     \<and> dummy (slots a) = dummy (slots b)"

lemma str_opt_eq: "\<lbrakk>str_opt a = str_opt b; a \<noteq> None; b \<noteq> None\<rbrakk> \<Longrightarrow> a = b"
  by (auto simp: str_opt_def)

lemma merkle:
  "\<lbrakk>wf_node H n; wf_node H m; sized n; sized m; no_collision n m;
    full_hash (slots n) = full_hash (slots m)\<rbrakk> \<Longrightarrow>
     rel_option same_node (node_at n qs) (node_at m qs)"
proof (induction n arbitrary: m qs)
  case (Node s cs)
  define n where "n = Node s cs"
  note wf = Node.prems(1,2) [folded n_def] and size = Node.prems(3,4) [folded n_def]
    and nc = no_collisionD [OF Node.prems(5) [folded n_def]]
    and full = Node.prems(6) [folded n_def]
  have "hash_input n = hash_input m" using nc(1) full by simp
  then have "str_opt (partial_hash (slots n)) @ concat (map (\<lambda>c. str_opt (full_hash (slots c))) (children n))
    = str_opt (partial_hash (slots m)) @ concat (map (\<lambda>c. str_opt (full_hash (slots c))) (children m))"
    by (cases n; cases m) simp
  then have part: "str_opt (partial_hash (slots n)) = str_opt (partial_hash (slots m))"
    and "concat (map (\<lambda>c. str_opt (full_hash (slots c))) (children n))
       = concat (map (\<lambda>c. str_opt (full_hash (slots c))) (children m))"
    using sizedD(1) [OF size(1)] sizedD(1) [OF size(2)] by (auto simp: append_eq_append_conv)
  then have fulls: "map (\<lambda>c. str_opt (full_hash (slots c))) (children n)
       = map (\<lambda>c. str_opt (full_hash (slots c))) (children m)"
    using sizedD(2) sizedD(3) [OF size(1)] sizedD(3) [OF size(2)]
    by (intro concat_eq_same_length [where n = 64]) auto
  have len: "length (children n) = length (children m)"
    using arg_cong [OF fulls, of length] by simp
  have "partial_hash (slots n) = partial_hash (slots m)"
    using part wf_nodeD(1) [OF wf(1)] wf_nodeD(1) [OF wf(2)]
    by (intro str_opt_eq) (auto simp: wf_inner_def slots_ok_def split: option.splits)
  then have same: "same_node n m"
    using nc(2) by (simp add: same_node_def)
  have child: "rel_option same_node (node_at (children n ! i) qs) (node_at (children m ! i) qs)"
    if i: "i < length (children n)" for i qs
  proof -
    let ?c = "children n ! i" and ?d = "children m ! i"
    note c = child_nth [OF wf(1) i] and d = child_nth [OF wf(2) i [unfolded len]]
    have mem: "?c \<in> set (children n)" "?d \<in> set (children m)" using i len by simp_all
    have "str_opt (full_hash (slots ?c)) = str_opt (full_hash (slots ?d))"
      using arg_cong [OF fulls, of "\<lambda>l. l ! i"] i len by simp
    then have "full_hash (slots ?c) = full_hash (slots ?d)"
      using wf_nodeD(2) [OF c(2)] wf_nodeD(2) [OF d(2)] by (simp add: hash_ok_def str_opt_def)
    with mem c(2) d(2) sizedD(3) [OF size(1)] sizedD(3) [OF size(2)] nc(3) show ?thesis
      by (intro Node.IH) (auto simp: n_def)
  qed
  have keys: "nkey (children n ! i) = nkey (children m ! i)" if "i < length (children n)" for i
    using child [OF that, of "[]"] by (simp add: same_node_def)
  show ?case
  proof (cases qs)
    case Nil
    with same show ?thesis by (simp add: n_def)
  next
    case (Cons p qs')
    have key: "nkey n @ [p] = nkey m @ [p]" using same by (simp add: same_node_def)
    show ?thesis
    proof (cases "\<exists>i < length (children n). nkey (children n ! i) = nkey n @ [p]")
      case True
      then obtain i where i: "i < length (children n)" "nkey (children n ! i) = nkey n @ [p]"
        by blast
      then have "get_child (nkey n @ [p]) n = Some (children n ! i)"
        and "get_child (nkey m @ [p]) m = Some (children m ! i)"
        using child_nth(1) [OF wf(1) i(1)] child_nth(1) [OF wf(2) i(1) [unfolded len]] keys [OF i(1)] key
        by simp_all
      then show ?thesis
        using child [OF i(1)] Cons by (simp add: n_def)
    next
      case False
      then have "\<not> (\<exists>i < length (children m). nkey (children m ! i) = nkey m @ [p])"
        using keys len key by auto
      with False have "get_child (nkey n @ [p]) n = None" "get_child (nkey m @ [p]) m = None"
        using get_child_iff [OF wf_nodeD(1) [OF wf(1)], of "nkey n @ [p]"]
          get_child_iff [OF wf_nodeD(1) [OF wf(2)], of "nkey m @ [p]"]
        by (auto simp: in_set_conv_nth) (metis not_None_eq)+
      then show ?thesis
        using Cons by (simp add: n_def)
    qed
  qed
qed

section \<open>diff finds every difference\<close>

text \<open>What \<open>diff\<close> has to say about a key, from the nodes the two trees have there.\<close>

definition needs_add :: "node option \<Rightarrow> node option \<Rightarrow> bool" where
  "needs_add a b \<longleftrightarrow> (case a of None \<Rightarrow> False | Some x \<Rightarrow> \<not> dummy (slots x) \<and> \<not> error (slots x) \<and>
     (case b of None \<Rightarrow> True
      | Some y \<Rightarrow> \<not> error (slots y) \<and> partial_hash (slots x) \<noteq> partial_hash (slots y)))"

definition needs_remove :: "node option \<Rightarrow> node option \<Rightarrow> bool" where
  "needs_remove a b \<longleftrightarrow> (case b of None \<Rightarrow> False | Some y \<Rightarrow> \<not> error (slots y) \<and>
     (case a of None \<Rightarrow> \<not> dummy (slots y)
      | Some x \<Rightarrow> dummy (slots x) \<and> \<not> error (slots x) \<and>
                   partial_hash (slots x) \<noteq> partial_hash (slots y)))"

lemma same_node_needs:
  "rel_option same_node a b \<Longrightarrow> \<not> needs_add a b \<and> \<not> needs_remove a b"
  by (auto simp: needs_add_def needs_remove_def same_node_def elim!: option.rel_cases)

text \<open>The node at a path below a list of siblings.\<close>

definition at :: "node list \<Rightarrow> key \<Rightarrow> string list \<Rightarrow> node option" where
  "at cs k qs = (case ol_abs nkey cs k of None \<Rightarrow> None | Some c \<Rightarrow> node_at c qs)"

definition wf_siblings :: "hash_fun \<Rightarrow> key \<Rightarrow> node list \<Rightarrow> bool" where
  "wf_siblings H pk cs \<longleftrightarrow> ol_ok nkey cs \<and> (\<forall>c \<in> set cs. child_key pk (nkey c) \<and> wf_node H c \<and> sized c)"

lemma wf_siblings_children:
  "\<lbrakk>wf_node H n; sized n\<rbrakk> \<Longrightarrow> wf_siblings H (nkey n) (children n)"
  using wf_nodeD(1) [of H n] by (simp add: wf_siblings_def wf_inner_def sizedD(3))

lemma at_children:
  "wf_node H n \<Longrightarrow> node_at n (p # ps) = at (children n) (nkey n @ [p]) ps"
  by (simp add: at_def get_child_abs wf_inner_ok [OF wf_nodeD(1)] split: option.split)

lemma node_at_child:
  assumes "wf_node H n"
  shows "(\<exists>ps m. node_at n ps = Some m \<and> P ps m) \<longleftrightarrow>
     P [] n \<or> (\<exists>c \<in> set (children n). \<exists>p ps m. nkey c = nkey n @ [p] \<and> node_at c ps = Some m \<and> P (p # ps) m)"
proof
  assume "\<exists>ps m. node_at n ps = Some m \<and> P ps m"
  then obtain ps m where m: "node_at n ps = Some m" "P ps m" by blast
  show "P [] n \<or> (\<exists>c \<in> set (children n). \<exists>p ps m. nkey c = nkey n @ [p] \<and> node_at c ps = Some m \<and> P (p # ps) m)"
  proof (cases ps)
    case (Cons p ps')
    then obtain c where c: "get_child (nkey n @ [p]) n = Some c" "node_at c ps' = Some m"
      using m by (auto split: option.splits)
    then show ?thesis
      using m Cons get_child_iff [OF wf_nodeD(1) [OF assms]] by blast
  qed (use m in simp)
next
  assume "P [] n \<or> (\<exists>c \<in> set (children n). \<exists>p ps m. nkey c = nkey n @ [p] \<and> node_at c ps = Some m \<and> P (p # ps) m)"
  then show "\<exists>ps m. node_at n ps = Some m \<and> P ps m"
  proof
    assume "P [] n"
    then have "node_at n [] = Some n \<and> P [] n" by simp
    then show ?thesis by blast
  next
    assume "\<exists>c \<in> set (children n). \<exists>p ps m. nkey c = nkey n @ [p] \<and> node_at c ps = Some m \<and> P (p # ps) m"
    then obtain c p ps m where c: "c \<in> set (children n)" "nkey c = nkey n @ [p]"
      "node_at c ps = Some m" "P (p # ps) m" by blast
    then have "get_child (nkey n @ [p]) n = Some c"
      by (simp add: get_child_iff [OF wf_nodeD(1) [OF assms]])
    with c have "node_at n (p # ps) = Some m \<and> P (p # ps) m" by simp
    then show ?thesis by blast
  qed
qed

lemma set_get_subtree_keys:
  "wf_node H n \<Longrightarrow> k \<in> set (get_subtree_keys n) \<longleftrightarrow>
     (\<exists>ps m. node_at n ps = Some m \<and> k = nkey n @ ps \<and> \<not> dummy (slots m) \<and> \<not> error (slots m))"
proof (induction n)
  case (Node s cs)
  have kids: "wf_node H c \<and> child_key s' (nkey c)" if "c \<in> set cs" "s' = skey s" for c s'
    using wf_nodeD(1) [OF Node.prems] that by (simp add: wf_inner_def)
  have "k \<in> set (get_subtree_keys (Node s cs)) \<longleftrightarrow>
     (k = skey s \<and> \<not> dummy s \<and> \<not> error s) \<or> (\<exists>c \<in> set cs. k \<in> set (get_subtree_keys c))"
    by (simp add: conj_ac)
  also have "(\<exists>c \<in> set cs. k \<in> set (get_subtree_keys c)) \<longleftrightarrow>
     (\<exists>c \<in> set cs. \<exists>ps m. node_at c ps = Some m \<and> k = nkey c @ ps \<and> \<not> dummy (slots m) \<and> \<not> error (slots m))"
    using Node.IH kids by (intro bex_cong refl) simp
  also have "\<dots> \<longleftrightarrow> (\<exists>c \<in> set cs. \<exists>p ps m. nkey c = skey s @ [p] \<and> node_at c ps = Some m
       \<and> k = skey s @ p # ps \<and> \<not> dummy (slots m) \<and> \<not> error (slots m))"
  proof (intro bex_cong refl)
    fix c assume "c \<in> set cs"
    then obtain p where "nkey c = skey s @ [p]"
      using kids by (auto simp: child_key_iff)
    then show "(\<exists>ps m. node_at c ps = Some m \<and> k = nkey c @ ps \<and> \<not> dummy (slots m) \<and> \<not> error (slots m))
      \<longleftrightarrow> (\<exists>p ps m. nkey c = skey s @ [p] \<and> node_at c ps = Some m
        \<and> k = skey s @ p # ps \<and> \<not> dummy (slots m) \<and> \<not> error (slots m))"
      by simp
  qed
  finally show ?case
    using node_at_child [OF Node.prems, of "\<lambda>ps m. k = skey s @ ps \<and> \<not> dummy (slots m) \<and> \<not> error (slots m)"]
    by (simp only: node.sel append_Nil2)
qed

lemma foldr_diff_plus:
  "to_add (foldr diff_plus rs base) = concat (map to_add rs) @ to_add base"
  "to_remove (foldr diff_plus rs base) = concat (map to_remove rs) @ to_remove base"
  by (induction rs) (simp_all add: diff_plus_def)

text \<open>One step of \<open>_diff_children\<close>: the contribution of a node of the other tree.\<close>

definition diff_step :: "node list \<Rightarrow> node \<Rightarrow> diff_result" where
  "diff_step selfchildren othernode =
     (case ol_get nkey (\<lambda>c. c) (nkey othernode) selfchildren of
        None \<Rightarrow> \<lparr>to_add = [], to_remove = get_subtree_keys othernode\<rparr>
      | Some selfnode \<Rightarrow>
          diff_plus (diff_node selfnode othernode)
            (if full_hash (slots selfnode) \<noteq> full_hash (slots othernode)
             then diff_children (children selfnode) (children othernode)
             else \<lparr>to_add = [], to_remove = []\<rparr>))"

lemma diff_children_sets:
  assumes "ol_ok nkey os"
  shows "k \<in> set (to_add (diff_children ss os)) \<longleftrightarrow>
      (\<exists>d \<in> set os. k \<in> set (to_add (diff_step ss d))) \<or>
      (\<exists>c \<in> set ss. nkey c \<notin> nkey ` set os \<and> k \<in> set (get_subtree_keys c))"
    and "k \<in> set (to_remove (diff_children ss os)) \<longleftrightarrow> (\<exists>d \<in> set os. k \<in> set (to_remove (diff_step ss d)))"
proof -
  have eq: "diff_children ss os = foldr diff_plus (map (diff_step ss) os)
    \<lparr>to_add = concat (map (\<lambda>n. if nkey n \<notin> nkey ` set os then get_subtree_keys n else []) ss),
     to_remove = []\<rparr>"
    by (subst diff_children.simps)
       (simp add: diff_step_def [abs_def] ol_index_eq_None [OF assms] cong: if_cong)
  show "k \<in> set (to_add (diff_children ss os)) \<longleftrightarrow>
      (\<exists>d \<in> set os. k \<in> set (to_add (diff_step ss d))) \<or>
      (\<exists>c \<in> set ss. nkey c \<notin> nkey ` set os \<and> k \<in> set (get_subtree_keys c))"
    by (auto simp: eq foldr_diff_plus)
  show "k \<in> set (to_remove (diff_children ss os)) \<longleftrightarrow> (\<exists>d \<in> set os. k \<in> set (to_remove (diff_step ss d)))"
    by (simp add: eq foldr_diff_plus)
qed

text \<open>What the induction hypothesis says about a pair of child lists.\<close>

definition diff_exact :: "key \<Rightarrow> node list \<Rightarrow> node list \<Rightarrow> bool" where
  "diff_exact pk ss os \<longleftrightarrow> (\<forall>k.
     (k \<in> set (to_add (diff_children ss os)) \<longleftrightarrow>
        (\<exists>p ps. k = pk @ p # ps \<and> needs_add (at ss (pk @ [p]) ps) (at os (pk @ [p]) ps))) \<and>
     (k \<in> set (to_remove (diff_children ss os)) \<longleftrightarrow>
        (\<exists>p ps. k = pk @ p # ps \<and> needs_remove (at ss (pk @ [p]) ps) (at os (pk @ [p]) ps))))"

lemma diff_node_sets:
  assumes "nkey c = nkey d"
  shows "k \<in> set (to_add (diff_node c d)) \<longleftrightarrow> k = nkey d \<and> needs_add (Some c) (Some d)"
    "k \<in> set (to_remove (diff_node c d)) \<longleftrightarrow> k = nkey d \<and> needs_remove (Some c) (Some d)"
  by (auto simp: diff_node_def needs_add_def needs_remove_def)

lemma ex_path: "(\<exists>ps. P ps) \<longleftrightarrow> P [] \<or> (\<exists>q qs. P (q # qs))"
  by (metis list.exhaust)

lemma diff_pair:
  assumes wf: "wf_node H c" "wf_node H d" "sized c" "sized d" "no_collision c d" "nkey c = nkey d"
    and IH: "full_hash (slots c) \<noteq> full_hash (slots d) \<Longrightarrow> diff_exact (nkey d) (children c) (children d)"
  defines "r \<equiv> diff_plus (diff_node c d)
            (if full_hash (slots c) \<noteq> full_hash (slots d)
             then diff_children (children c) (children d)
             else \<lparr>to_add = [], to_remove = []\<rparr>)"
  shows "k \<in> set (to_add r) \<longleftrightarrow> (\<exists>ps. k = nkey d @ ps \<and> needs_add (node_at c ps) (node_at d ps))"
    "k \<in> set (to_remove r) \<longleftrightarrow> (\<exists>ps. k = nkey d @ ps \<and> needs_remove (node_at c ps) (node_at d ps))"
proof -
  have "(k \<in> set (to_add r) \<longleftrightarrow> (\<exists>ps. k = nkey d @ ps \<and> needs_add (node_at c ps) (node_at d ps))) \<and>
    (k \<in> set (to_remove r) \<longleftrightarrow> (\<exists>ps. k = nkey d @ ps \<and> needs_remove (node_at c ps) (node_at d ps)))"
  proof (cases "full_hash (slots c) = full_hash (slots d)")
    case True
    have no: "\<not> needs_add (node_at c ps) (node_at d ps)" "\<not> needs_remove (node_at c ps) (node_at d ps)" for ps
      using same_node_needs [OF merkle [OF wf(1-5) True, of ps]] by simp_all
    from no [of "[]"] no True show ?thesis
      by (simp add: r_def diff_plus_def diff_node_sets [OF wf(6)])
  next
    case False
    note IH = IH [OF False, unfolded diff_exact_def, rule_format, of k]
    have kids: "at (children c) (nkey d @ [q]) qs = node_at c (q # qs)"
      "at (children d) (nkey d @ [q]) qs = node_at d (q # qs)" for q qs
      using at_children [OF wf(1), of q qs] at_children [OF wf(2), of q qs] wf(6) by simp_all
    show ?thesis
      using IH False
      by (simp add: r_def diff_plus_def diff_node_sets [OF wf(6)] kids ex_path [of "\<lambda>ps. k = nkey d @ ps \<and> _ ps"]
          del: node_at.simps(2))
  qed
  then show "k \<in> set (to_add r) \<longleftrightarrow> (\<exists>ps. k = nkey d @ ps \<and> needs_add (node_at c ps) (node_at d ps))"
    "k \<in> set (to_remove r) \<longleftrightarrow> (\<exists>ps. k = nkey d @ ps \<and> needs_remove (node_at c ps) (node_at d ps))"
    by blast+
qed

lemma diff_step_exact:
  assumes ss: "wf_siblings H pk ss" and d: "wf_node H d" "sized d" "nkey d = pk @ [p]"
    and nc: "\<forall>c \<in> set ss. no_collision c d"
    and IH: "\<And>c. c \<in> set ss \<Longrightarrow> nkey c = nkey d \<Longrightarrow> full_hash (slots c) \<noteq> full_hash (slots d) \<Longrightarrow>
               diff_exact (nkey d) (children c) (children d)"
  shows "k \<in> set (to_add (diff_step ss d)) \<longleftrightarrow>
      (\<exists>ps. k = pk @ p # ps \<and> ol_abs nkey ss (pk @ [p]) \<noteq> None \<and>
            needs_add (at ss (pk @ [p]) ps) (node_at d ps))"
    "k \<in> set (to_remove (diff_step ss d)) \<longleftrightarrow>
      (\<exists>ps. k = pk @ p # ps \<and> needs_remove (at ss (pk @ [p]) ps) (node_at d ps))"
proof -
  have ok: "ol_ok nkey ss" using ss by (simp add: wf_siblings_def)
  have get: "ol_get nkey (\<lambda>c. c) (pk @ [p]) ss = ol_abs nkey ss (pk @ [p])"
    by (simp add: ol_get_abs [OF ok] option.map_ident)
  have "(k \<in> set (to_add (diff_step ss d)) \<longleftrightarrow>
      (\<exists>ps. k = pk @ p # ps \<and> ol_abs nkey ss (pk @ [p]) \<noteq> None \<and>
            needs_add (at ss (pk @ [p]) ps) (node_at d ps))) \<and>
    (k \<in> set (to_remove (diff_step ss d)) \<longleftrightarrow>
      (\<exists>ps. k = pk @ p # ps \<and> needs_remove (at ss (pk @ [p]) ps) (node_at d ps)))"
  proof (cases "ol_abs nkey ss (pk @ [p])")
    case None
    then show ?thesis
      by (auto simp: diff_step_def get set_get_subtree_keys [OF d(1)] at_def needs_remove_def d(3)
          split: option.splits)
  next
    case (Some c)
    then have c: "c \<in> set ss" "nkey c = nkey d"
      using ol_abs_iff [OF ok] d(3) by auto
    then have "wf_node H c" "sized c" "no_collision c d"
      using ss nc by (auto simp: wf_siblings_def)
    from diff_pair [OF this(1) d(1) this(2) d(2) this(3) c(2) IH [OF c], of k] show ?thesis
      using Some by (simp add: diff_step_def get at_def d(3))
  qed
  then show "k \<in> set (to_add (diff_step ss d)) \<longleftrightarrow>
      (\<exists>ps. k = pk @ p # ps \<and> ol_abs nkey ss (pk @ [p]) \<noteq> None \<and>
            needs_add (at ss (pk @ [p]) ps) (node_at d ps))"
    "k \<in> set (to_remove (diff_step ss d)) \<longleftrightarrow>
      (\<exists>ps. k = pk @ p # ps \<and> needs_remove (at ss (pk @ [p]) ps) (node_at d ps))"
    by blast+
qed

lemma diff_exact_steps:
  assumes ss: "wf_siblings H pk ss" and os: "wf_siblings H pk os"
    and step: "\<And>d p k. d \<in> set os \<Longrightarrow> nkey d = pk @ [p] \<Longrightarrow>
      (k \<in> set (to_add (diff_step ss d)) \<longleftrightarrow>
        (\<exists>ps. k = pk @ p # ps \<and> ol_abs nkey ss (pk @ [p]) \<noteq> None \<and>
              needs_add (at ss (pk @ [p]) ps) (node_at d ps))) \<and>
      (k \<in> set (to_remove (diff_step ss d)) \<longleftrightarrow>
        (\<exists>ps. k = pk @ p # ps \<and> needs_remove (at ss (pk @ [p]) ps) (node_at d ps)))"
  shows "diff_exact pk ss os"
proof -
  have oks: "ol_ok nkey ss" "ol_ok nkey os" using ss os by (simp_all add: wf_siblings_def)
  have key: "\<exists>p. nkey c = pk @ [p]" if "c \<in> set ss \<union> set os" for c
    using that ss os by (auto simp: wf_siblings_def child_key_iff)
  have abs: "ol_abs nkey cs (pk @ [p]) = Some c \<longleftrightarrow> c \<in> set cs \<and> nkey c = pk @ [p]"
    if "ol_ok nkey cs" for cs c p using that by (rule ol_abs_iff)
  show ?thesis
    unfolding diff_exact_def
  proof (intro allI conjI)
    fix k
    have common: "(\<exists>d \<in> set os. k \<in> set (to_add (diff_step ss d))) \<longleftrightarrow>
      (\<exists>p ps. k = pk @ p # ps \<and> ol_abs nkey ss (pk @ [p]) \<noteq> None \<and> ol_abs nkey os (pk @ [p]) \<noteq> None
         \<and> needs_add (at ss (pk @ [p]) ps) (at os (pk @ [p]) ps))" (is "?L \<longleftrightarrow> ?R")
    proof
      assume ?L
      then obtain d where d: "d \<in> set os" "k \<in> set (to_add (diff_step ss d))" by blast
      obtain p where p: "nkey d = pk @ [p]" using key d(1) by blast
      with d have "ol_abs nkey os (pk @ [p]) = Some d" by (simp add: abs [OF oks(2)])
      with step [OF d(1) p, of k] d(2) show ?R by (auto simp: at_def)
    next
      assume ?R
      then obtain p ps d where k: "k = pk @ p # ps" "ol_abs nkey ss (pk @ [p]) \<noteq> None"
        "ol_abs nkey os (pk @ [p]) = Some d" "needs_add (at ss (pk @ [p]) ps) (at os (pk @ [p]) ps)"
        by blast
      then have d: "d \<in> set os" "nkey d = pk @ [p]" by (simp_all add: abs [OF oks(2)])
      with step [OF d, of k] k show ?L by (auto simp: at_def)
    qed
    have new: "(\<exists>c \<in> set ss. nkey c \<notin> nkey ` set os \<and> k \<in> set (get_subtree_keys c)) \<longleftrightarrow>
      (\<exists>p ps. k = pk @ p # ps \<and> ol_abs nkey os (pk @ [p]) = None \<and>
         needs_add (at ss (pk @ [p]) ps) (at os (pk @ [p]) ps))" (is "?L \<longleftrightarrow> ?R")
    proof
      assume ?L
      then obtain c where c: "c \<in> set ss" "nkey c \<notin> nkey ` set os" "k \<in> set (get_subtree_keys c)"
        by blast
      obtain p where p: "nkey c = pk @ [p]" using key c(1) by blast
      have "wf_node H c" using ss c(1) by (simp add: wf_siblings_def)
      moreover have "ol_abs nkey ss (pk @ [p]) = Some c" using c p by (simp add: abs [OF oks(1)])
      moreover have "ol_abs nkey os (pk @ [p]) = None" using c(2) p by (simp add: ol_abs_None)
      ultimately show ?R
        using c(3) p by (auto simp: set_get_subtree_keys at_def needs_add_def)
    next
      assume ?R
      then obtain p ps where k: "k = pk @ p # ps" "ol_abs nkey os (pk @ [p]) = None"
        "needs_add (at ss (pk @ [p]) ps) (at os (pk @ [p]) ps)"
        by blast
      then obtain c where abs_c: "ol_abs nkey ss (pk @ [p]) = Some c"
        by (auto simp: at_def needs_add_def split: option.splits)
      then have "at ss (pk @ [p]) ps = node_at c ps" by (simp add: at_def)
      moreover have c: "c \<in> set ss" "nkey c = pk @ [p]" using abs_c abs [OF oks(1)] by blast+
      moreover have "wf_node H c" using ss c(1) by (simp add: wf_siblings_def)
      ultimately have "k \<in> set (get_subtree_keys c)"
        using k by (auto simp: set_get_subtree_keys needs_add_def at_def split: option.splits)
      moreover have "nkey c \<notin> nkey ` set os" using c(2) k(2) by (simp add: ol_abs_None)
      ultimately show ?L using c(1) by blast
    qed
    have absent: "\<not> needs_add (at ss (pk @ [p]) ps) b" if "ol_abs nkey ss (pk @ [p]) = None" for p ps b
      using that by (simp add: at_def needs_add_def)
    show "k \<in> set (to_add (diff_children ss os)) \<longleftrightarrow>
      (\<exists>p ps. k = pk @ p # ps \<and> needs_add (at ss (pk @ [p]) ps) (at os (pk @ [p]) ps))"
      unfolding diff_children_sets(1) [OF oks(2)] common new
        ex_disj_distrib [symmetric] conj_disj_distribL [symmetric]
      by (intro ex_cong1 conj_cong refl) (metis absent)
    show "k \<in> set (to_remove (diff_children ss os)) \<longleftrightarrow>
      (\<exists>p ps. k = pk @ p # ps \<and> needs_remove (at ss (pk @ [p]) ps) (at os (pk @ [p]) ps))"
      (is "_ \<longleftrightarrow> ?R")
      unfolding diff_children_sets(2) [OF oks(2)]
    proof
      assume "\<exists>d \<in> set os. k \<in> set (to_remove (diff_step ss d))"
      then obtain d where d: "d \<in> set os" "k \<in> set (to_remove (diff_step ss d))" by blast
      obtain p where p: "nkey d = pk @ [p]" using key d(1) by blast
      with d have "ol_abs nkey os (pk @ [p]) = Some d" by (simp add: abs [OF oks(2)])
      with step [OF d(1) p, of k] d(2) show ?R by (auto simp: at_def)
    next
      assume ?R
      then obtain p ps where k: "k = pk @ p # ps" "needs_remove (at ss (pk @ [p]) ps) (at os (pk @ [p]) ps)"
        by blast
      then obtain d where abs_d: "ol_abs nkey os (pk @ [p]) = Some d"
        by (auto simp: at_def needs_remove_def split: option.splits)
      then have "at os (pk @ [p]) ps = node_at d ps" by (simp add: at_def)
      moreover have d: "d \<in> set os" "nkey d = pk @ [p]" using abs_d abs [OF oks(2)] by blast+
      moreover note step [OF d, of k] k
      ultimately show "\<exists>d \<in> set os. k \<in> set (to_remove (diff_step ss d))" by auto
    qed
  qed
qed

lemma diff_children_exact:
  "\<lbrakk>wf_siblings H pk ss; wf_siblings H pk os; \<forall>c \<in> set ss. \<forall>d \<in> set os. no_collision c d\<rbrakk> \<Longrightarrow>
     diff_exact pk ss os"
proof (induction ss os arbitrary: pk rule: diff_children.induct)
  case (1 ss os)
  note ss = "1.prems"(1) and os = "1.prems"(2) and nc = "1.prems"(3)
  have oks: "ol_ok nkey ss" "ol_ok nkey os" using ss os by (simp_all add: wf_siblings_def)
  show ?case
  proof (rule diff_exact_steps [OF ss os])
    fix d p k assume d: "d \<in> set os" "nkey d = pk @ [p]"
    have wf: "wf_node H d" "sized d" using os d(1) by (simp_all add: wf_siblings_def)
    have "diff_exact (nkey d) (children c) (children d)"
      if c: "c \<in> set ss" "nkey c = nkey d" "full_hash (slots c) \<noteq> full_hash (slots d)" for c
    proof (rule "1.IH" [OF d(1) _ c(3)])
      show "ol_get nkey (\<lambda>c. c) (nkey d) ss = Some c"
        using c by (simp add: ol_get_abs [OF oks(1)] option.map_ident ol_abs_iff [OF oks(1)])
      have "wf_node H c" "sized c" using ss c(1) by (simp_all add: wf_siblings_def)
      then show "wf_siblings H (nkey d) (children c)" "wf_siblings H (nkey d) (children d)"
        using wf_siblings_children [of H c] wf_siblings_children [OF wf] c(2) by simp_all
      have "no_collision c d" using nc c(1) d(1) by blast
      then show "\<forall>a \<in> set (children c). \<forall>b \<in> set (children d). no_collision a b"
        by (auto dest: no_collisionD(3))
    qed
    moreover have "\<forall>c \<in> set ss. no_collision c d" using nc d(1) by blast
    ultimately show "(k \<in> set (to_add (diff_step ss d)) \<longleftrightarrow>
        (\<exists>ps. k = pk @ p # ps \<and> ol_abs nkey ss (pk @ [p]) \<noteq> None \<and>
              needs_add (at ss (pk @ [p]) ps) (node_at d ps))) \<and>
      (k \<in> set (to_remove (diff_step ss d)) \<longleftrightarrow>
        (\<exists>ps. k = pk @ p # ps \<and> needs_remove (at ss (pk @ [p]) ps) (node_at d ps)))"
      using diff_step_exact [OF ss wf d(2), of k] by blast
  qed
qed

subsection \<open>The same for trees\<close>

definition comparable :: "tree \<Rightarrow> tree \<Rightarrow> bool" where
  "comparable s t \<longleftrightarrow> (case (root s, root t) of
     (Some a, Some b) \<Rightarrow> sized a \<and> sized b \<and> no_collision a b | _ \<Rightarrow> True)"

lemma lookup_subtree_keys:
  assumes "wf_tree H t"
  shows "k \<in> set (subtree_keys_opt (root t)) \<longleftrightarrow>
    (\<exists>m. lookup t k = Some m \<and> \<not> dummy (slots m) \<and> \<not> error (slots m))"
proof (cases "root t")
  case (Some r)
  then obtain p where "wf_node H r" "nkey r = [p]"
    using assms by (auto simp: wf_tree_def length_Suc_conv)
  then show ?thesis
    using Some by (cases k) (auto simp: subtree_keys_opt_def lookup_def set_get_subtree_keys)
qed (simp add: subtree_keys_opt_def lookup_def)

lemma tree_diff_exact:
  assumes "wf_tree H s" "wf_tree H t" "comparable s t"
  shows "k \<in> set (to_add (tree_diff s t)) \<longleftrightarrow> needs_add (lookup s k) (lookup t k)"
    "k \<in> set (to_remove (tree_diff s t)) \<longleftrightarrow> needs_remove (lookup s k) (lookup t k)"
proof -
  have "(k \<in> set (to_add (tree_diff s t)) \<longleftrightarrow> needs_add (lookup s k) (lookup t k)) \<and>
    (k \<in> set (to_remove (tree_diff s t)) \<longleftrightarrow> needs_remove (lookup s k) (lookup t k))"
  proof (cases "root s")
    case None
    then have "lookup s k = None" by (simp add: lookup_def)
    then show ?thesis
      using lookup_subtree_keys [OF assms(2), of k] None
      by (auto simp: tree_diff_def needs_add_def needs_remove_def split: option.splits)
  next
    case s: (Some a)
    show ?thesis
    proof (cases "root t")
      case None
      then have "lookup t k = None" by (simp add: lookup_def)
      then show ?thesis
        using lookup_subtree_keys [OF assms(1), of k] None s
        by (auto simp: tree_diff_def needs_add_def needs_remove_def subtree_keys_opt_def split: option.splits)
    next
      case t: (Some b)
      have sib: "wf_siblings H [] [c]" if "wf_node H c" "length (nkey c) = 1" "sized c" for c
        using that by (simp add: wf_siblings_def ol_ok_def child_key_def length_Suc_conv) force
      have one: "ol_add nkey c [] = [c]" for c
        by (simp add: ol_add_def ol_index_def bisect_left.simps insort_right_def bisect_right.simps)
      have "wf_siblings H [] [a]" "wf_siblings H [] [b]"
        using assms s t by (auto simp: wf_tree_def comparable_def intro!: sib)
      moreover have "\<forall>c \<in> set [a]. \<forall>d \<in> set [b]. no_collision c d"
        using assms(3) s t by (simp add: comparable_def)
      ultimately have ex: "diff_exact [] [a] [b]"
        by (rule diff_children_exact)
      have at: "at [c] [p] ps = (if nkey c = [p] then node_at c ps else None)" for c p ps
        by (simp add: at_def ol_abs_def)
      have none: "\<not> needs_add None x" "\<not> needs_remove x None" for x
        by (simp_all add: needs_add_def needs_remove_def)
      show ?thesis
        using ex [unfolded diff_exact_def, rule_format, of k] s t none
        by (cases k) (simp_all add: tree_diff_def one at lookup_def)
    qed
  qed
  then show "k \<in> set (to_add (tree_diff s t)) \<longleftrightarrow> needs_add (lookup s k) (lookup t k)"
    "k \<in> set (to_remove (tree_diff s t)) \<longleftrightarrow> needs_remove (lookup s k) (lookup t k)"
    by blast+
qed

end
