(* ===== verification/Hash_Tree_Sync.thy ===== *)
theory Hash_Tree_Sync
  imports Hash_Tree_Diff
begin

text \<open>
  \<open>diff\<close> against its purpose: clearing the keys it says to remove and adding those it says to add
  turns one tree into the other. This is what the universes of the agent do with a difference,
  one object at a time.
\<close>

section \<open>Applying a difference\<close>

fun clear_all :: "hash_fun \<Rightarrow> key list \<Rightarrow> tree \<Rightarrow> tree result" where
  "clear_all H [] t = Inr t"
| "clear_all H (k # ks) t = bind_res (tree_clear H k t) (clear_all H ks)"

fun add_all :: "hash_fun \<Rightarrow> (key \<Rightarrow> (string, json) dict) \<Rightarrow> key list \<Rightarrow> tree \<Rightarrow> tree result" where
  "add_all H attrs [] t = Inr t"
| "add_all H attrs (k # ks) t = bind_res (tree_add H k (attrs k) t) (add_all H attrs ks)"

definition apply_diff ::
  "hash_fun \<Rightarrow> (key \<Rightarrow> (string, json) dict) \<Rightarrow> diff_result \<Rightarrow> tree \<Rightarrow> tree result" where
  "apply_diff H attrs d t = bind_res (clear_all H (to_remove d) t) (add_all H attrs (to_add d))"

lemma tree_clear_total:
  "\<lbrakk>wf_tree H t; k \<noteq> []\<rbrakk> \<Longrightarrow> \<exists>t'. tree_clear H k t = Inr t'"
  by (simp add: tree_clear_eq)

lemma clear_all_content:
  "\<lbrakk>wf_tree H t; \<forall>k \<in> set ks. k \<noteq> []\<rbrakk> \<Longrightarrow>
     \<exists>t'. clear_all H ks t = Inr t' \<and> wf_tree H t' \<and>
          content t' = (\<lambda>k. if k \<in> set ks then None else content t k)"
proof (induction ks arbitrary: t)
  case (Cons k ks)
  then obtain u where u: "tree_clear H k t = Inr u"
    using tree_clear_total by force
  have k: "k \<noteq> []" using Cons.prems by simp
  from tree_clear_content [OF Cons.prems(1) k u] Cons.IH [of u] Cons.prems(2) u
  show ?case by (auto simp: fun_eq_iff)
qed simp

lemma add_all_content:
  "\<lbrakk>wf_tree H t; \<forall>k \<in> set ks. k \<noteq> [] \<and> hd k = p \<and> metadata_ok (attrs k);
    \<forall>r. root t = Some r \<longrightarrow> nkey r = [p]\<rbrakk> \<Longrightarrow>
     \<exists>t'. add_all H attrs ks t = Inr t' \<and> wf_tree H t' \<and>
          content t' = (\<lambda>k. if k \<in> set ks then Some (entry H k (attrs k)) else content t k)"
proof (induction ks arbitrary: t)
  case (Cons k ks)
  have k: "k \<noteq> []" "hd k = p" "metadata_ok (attrs k)"
    using Cons.prems by simp_all
  have admits: "root_admits t k"
    using Cons.prems(3) k by (simp add: root_admits_def split: option.split)
  then obtain u where u: "tree_add H k (attrs k) t = Inr u"
    using tree_add_ok_iff [OF Cons.prems(1) k(1), of "attrs k"] k(3)
    by (cases "tree_add H k (attrs k) t") auto
  note uc = tree_add_content [OF Cons.prems(1) k(1) u]
  have "nkey r = [p]" if "root u = Some r" for r
  proof -
    have "content u k \<noteq> None" using uc by simp
    then have "nkey r = [hd k]"
      using that k(1) by (auto simp: content_def split: list.splits if_splits)
    then show ?thesis using k(2) by simp
  qed
  with Cons.IH [of u] Cons.prems(2) uc u show ?case by (auto simp: fun_eq_iff)
qed simp

section \<open>Facts on lookup and content\<close>

lemma node_at_subnode: "\<lbrakk>wf_node H n; node_at n ps = Some m\<rbrakk> \<Longrightarrow> m \<in> set (subnodes n)"
proof (induction n ps rule: node_at.induct)
  case (2 n p ps)
  from "2.prems"(2) obtain c where c: "get_child (nkey n @ [p]) n = Some c" "node_at c ps = Some m"
    by (auto split: option.splits)
  note child = get_child_wf [OF wf_nodeD(1) [OF "2.prems"(1)] c(1)]
  have "c \<in> set (children n)"
    using c(1) by (simp add: get_child_iff [OF wf_nodeD(1) [OF "2.prems"(1)]])
  with "2.IH" [OF c(1) child(1) c(2)] child_subnodes show ?case by blast
qed simp

lemma lookup_subnode:
  assumes "wf_tree H t" "lookup t k = Some m"
  obtains r where "root t = Some r" "m \<in> set (subnodes r)"
  using assms by (elim lookup_Some) (auto simp: wf_tree_def dest: node_at_subnode)

lemma content_root:
  assumes "wf_tree H t" "root t = Some r"
  shows "\<exists>k. content t k \<noteq> None"
proof -
  have "wf_node H r" "length (nkey r) = 1" using assms by (simp_all add: wf_tree_def)
  then obtain p qs where "nkey r = [p]" "visible r qs \<noteq> None"
    using some_visible by (metis One_nat_def length_0_conv length_Suc_conv)
  then have "content t (p # qs) \<noteq> None" using assms by (simp add: content_def)
  then show ?thesis by blast
qed

lemma content_Some_root:
  assumes "content t k = Some x"
  obtains r where "root t = Some r" "k \<noteq> []" "nkey r = [hd k]"
  using assms by (auto simp: content_def split: option.splits list.splits if_splits)

lemma content_eq_hashes:
  assumes "wf_tree H s" "wf_tree H t" "map_option fst \<circ> content s = map_option fst \<circ> content t"
    and "root s = Some a"
  obtains b where "root t = Some b" "nkey a = nkey b" "full_hash (slots a) = full_hash (slots b)"
proof -
  have eq: "map_option fst (content s k) = map_option fst (content t k)" for k
    using fun_cong [OF assms(3), of k] by simp
  obtain k x where k: "content s k = Some x"
    using content_root [OF assms(1,4)] by auto
  then obtain y where y: "content t k = Some y"
    using eq [of k] by (cases "content t k") auto
  from k assms(4) have ak: "k \<noteq> []" "nkey a = [hd k]"
    by (auto elim: content_Some_root)
  from y obtain b where b: "root t = Some b" "nkey b = [hd k]"
    by (auto elim: content_Some_root)
  have "hash_at a qs = hash_at b qs" for qs
    using eq [of "hd k # qs"] assms(4) b ak by (simp add: content_def hash_at_def)
  then have "full_hash (slots a) = full_hash (slots b)"
    using assms(1,2,4) b ak by (intro hash_canonical) (auto simp: wf_tree_def)
  with that b ak show thesis by simp
qed

definition error_free :: "tree \<Rightarrow> bool" where
  "error_free t \<longleftrightarrow> (case root t of None \<Rightarrow> True | Some r \<Rightarrow> list_all (\<lambda>a. \<not> error (slots a)) (subnodes r))"

lemma lookup_error_free:
  "\<lbrakk>wf_tree H t; error_free t; lookup t k = Some m\<rbrakk> \<Longrightarrow> \<not> error (slots m)"
  by (erule (1) lookup_subnode) (simp add: error_free_def list_all_iff)

lemma lookup_slots_ok:
  "\<lbrakk>wf_tree H t; lookup t k = Some m\<rbrakk> \<Longrightarrow> \<exists>h. partial_hash (slots m) = Some h"
  using lookup_key [of H t k m] wf_nodeD(1) [of H m]
  by (auto simp: wf_inner_def slots_ok_def split: option.splits)

text \<open>Where \<open>diff\<close> reports nothing, the contents agree.\<close>

lemma diff_silent:
  assumes wf: "wf_tree H s" "wf_tree H t" and cmp: "comparable s t"
    and ef: "error_free s" "error_free t"
    and no: "\<not> needs_add (lookup s k) (lookup t k)" "\<not> needs_remove (lookup s k) (lookup t k)"
  shows "content s k = content t k"
proof (cases "lookup s k")
  case None
  then show ?thesis
    using no lookup_error_free [OF wf(2) ef(2), of k]
    by (auto simp: content_lookup needs_remove_def info_def split: option.splits)
next
  case x: (Some x)
  note ex = lookup_error_free [OF wf(1) ef(1) x]
  show ?thesis
  proof (cases "lookup t k")
    case None
    then show ?thesis
      using no x ex by (auto simp: content_lookup needs_add_def info_def)
  next
    case y: (Some y)
    note ey = lookup_error_free [OF wf(2) ef(2) y]
    have "partial_hash (slots x) = partial_hash (slots y)"
      using no x y ex ey by (auto simp: needs_add_def needs_remove_def)
    moreover obtain a b where "root s = Some a" "x \<in> set (subnodes a)" "root t = Some b" "y \<in> set (subnodes b)"
      using lookup_subnode [OF wf(1) x] lookup_subnode [OF wf(2) y] by metis
    then have "partial_hash (slots x) = partial_hash (slots y) \<longrightarrow> dummy (slots x) = dummy (slots y)"
      using cmp by (auto simp: comparable_def no_collision_def list_all_iff)
    ultimately show ?thesis
      using x y ex ey by (simp add: content_lookup info_def)
  qed
qed

lemma apply_diff_content:
  assumes wf: "wf_tree H s" "wf_tree H t" and cmp: "comparable s t"
    and ef: "error_free s" "error_free t"
    and attrs: "\<And>k x. content s k = Some x \<Longrightarrow> x = entry H k (attrs k) \<and> metadata_ok (attrs k)"
  shows "\<exists>u. apply_diff H attrs (tree_diff s t) t = Inr u \<and> wf_tree H u \<and> content u = content s"
proof -
  let ?d = "tree_diff s t"
  note exact = tree_diff_exact [OF wf cmp]
  have nonempty: "k \<noteq> []" if "needs_remove (lookup s k) (lookup t k)" for k
    using that by (auto simp: needs_remove_def lookup_def split: option.splits)
  then obtain c where c: "clear_all H (to_remove ?d) t = Inr c" "wf_tree H c"
    "content c = (\<lambda>k. if k \<in> set (to_remove ?d) then None else content t k)"
    using clear_all_content [OF wf(2), of "to_remove ?d"] exact(2) by blast
  have added: "content s k = Some (entry H k (attrs k)) \<and> metadata_ok (attrs k)"
    if "k \<in> set (to_add ?d)" for k
  proof -
    have "content s k \<noteq> None"
      using that exact(1) by (auto simp: needs_add_def content_lookup info_def split: option.splits)
    then show ?thesis using attrs by auto
  qed
  have gone: "content s k = None" if "k \<in> set (to_remove ?d)" for k
    using that exact(2) by (auto simp: needs_remove_def content_lookup info_def split: option.splits)
  have same: "content s k = content t k" if "k \<notin> set (to_add ?d)" "k \<notin> set (to_remove ?d)" for k
    using that diff_silent [OF wf cmp ef, of k] exact by blast
  have sub: "content s k \<noteq> None" if "content c k \<noteq> None" for k
    using that c(3) added same by (metis option.discI)
  obtain u where "add_all H attrs (to_add ?d) c = Inr u" "wf_tree H u"
    "content u = (\<lambda>k. if k \<in> set (to_add ?d) then Some (entry H k (attrs k)) else content c k)"
  proof (cases "root s")
    case None
    then have "to_add ?d = []" by (simp add: tree_diff_def)
    with c that show thesis by simp
  next
    case (Some a)
    then obtain p where p: "nkey a = [p]"
      using wf(1) by (auto simp: wf_tree_def length_Suc_conv)
    have "k \<noteq> [] \<and> hd k = p \<and> metadata_ok (attrs k)" if "k \<in> set (to_add ?d)" for k
      using added [OF that] Some p by (auto elim: content_Some_root)
    moreover have "nkey r = [p]" if r: "root c = Some r" for r
    proof -
      obtain k x where k: "content c k = Some x" using content_root [OF c(2) r] by auto
      then obtain y where "content s k = Some y" using sub [of k] by auto
      with k r Some p show ?thesis by (auto elim!: content_Some_root)
    qed
    ultimately show thesis
      using add_all_content [OF c(2), of "to_add ?d" p attrs] that by blast
  qed
  moreover have "content u = content s"
    using calculation(3) c(3) added gone same by (auto simp: fun_eq_iff)
  ultimately show ?thesis
    using c(1) by (auto simp: apply_diff_def)
qed

end
