(* ===== verification/Hash_Tree_Include.thy ===== *)
theory Hash_Tree_Include
  imports Hash_Tree_Sync
begin

text \<open>
  \<open>include\<close>: what it adds when it succeeds, what its rollback leaves when it fails, and the
  metadata search.
\<close>

section \<open>include\<close>

definition included :: "hash_fun \<Rightarrow> (key option \<times> (string, json) dict) list \<Rightarrow> key \<Rightarrow> (string \<times> bool) option" where
  "included H nodes k = map_of (rev (map (\<lambda>(key, attrs). (the key, entry H (the key) attrs)) nodes)) k"

lemma tree_add_wf:
  "\<lbrakk>wf_tree H t; tree_add H key kwargs t = Inr t'\<rbrakk> \<Longrightarrow> wf_tree H t'"
  using tree_add_content [of H t key kwargs t'] by (cases "key = []") (simp_all add: tree_add_def)

lemma include_loop_content:
  "\<lbrakk>wf_tree H t; \<forall>(key, attrs) \<in> set nodes. key \<noteq> Some []; include_loop H nodes cache t = (None, c, t')\<rbrakk> \<Longrightarrow>
     wf_tree H t' \<and> content t' = (\<lambda>k. case included H nodes k of None \<Rightarrow> content t k | Some x \<Rightarrow> Some x)"
proof (induction H nodes cache t rule: include_loop.induct)
  case (1 H cache t)
  then show ?case by (simp add: included_def)
next
  case (2 H key attrs nodes cache t)
  from "2.prems" obtain k u where k: "key = Some k" "tree_add H k attrs t = Inr u" "k \<noteq> []"
    and rest: "include_loop H nodes (cache @ [k]) u = (None, c, t')"
    by (auto split: option.splits sum.splits)
  note add = tree_add_content [OF "2.prems"(1) k(3,2)]
  have "wf_tree H t' \<and> content t' = (\<lambda>k. case included H nodes k of None \<Rightarrow> content u k | Some x \<Rightarrow> Some x)"
    using "2.IH" [OF k(1,2)] add rest "2.prems"(2) by simp
  with add k(1) show ?case
    by (auto simp: fun_eq_iff included_def map_add_def split: option.splits)
qed

lemma include_success:
  assumes "wf_tree H t" "\<forall>(key, attrs) \<in> set nodes. key \<noteq> Some []" "tree_include H nodes t = (None, t')"
  shows "wf_tree H t'"
    "content t' = (\<lambda>k. case included H nodes k of None \<Rightarrow> content t k | Some x \<Rightarrow> Some x)"
proof -
  obtain c where "include_loop H nodes [] t = (None, c, t')"
    using assms(3) by (auto simp: tree_include_def split: prod.splits option.splits)
  from include_loop_content [OF assms(1,2) this]
  show "wf_tree H t'"
    "content t' = (\<lambda>k. case included H nodes k of None \<Rightarrow> content t k | Some x \<Rightarrow> Some x)"
    by blast+
qed

lemma include_no_key:
  "include_loop H nodes cache t = (None, c, t') \<Longrightarrow> None \<notin> fst ` set nodes"
  by (induction H nodes cache t rule: include_loop.induct) (auto split: option.splits sum.splits)

lemma tree_eq_content:
  assumes "wf_tree H u" "wf_tree H v" "content u = content v"
  shows "tree_eq u v"
proof (cases "root u")
  case None
  then have "root v = None"
    using content_eq_hashes [OF assms(2,1)] assms(3) by (cases "root v") auto
  with None show ?thesis by (simp add: tree_eq_def)
next
  case (Some a)
  have "map_option fst \<circ> content u = map_option fst \<circ> content v"
    using assms(3) by simp
  from content_eq_hashes [OF assms(1,2) this Some] obtain b where
    "root v = Some b" "nkey a = nkey b" "full_hash (slots a) = full_hash (slots b)" by blast
  with Some show ?thesis
    by (simp add: tree_eq_def)
qed

lemma include_loop_changes:
  "\<lbrakk>wf_tree H t; \<forall>(key, attrs) \<in> set nodes. key \<noteq> Some []; include_loop H nodes cache t = (e, c, t')\<rbrakk> \<Longrightarrow>
     wf_tree H t' \<and> (\<forall>k. content t' k \<noteq> content t k \<longrightarrow> k \<in> set c) \<and> set cache \<subseteq> set c \<and>
     set c \<subseteq> set cache \<union> {k. \<exists>attrs. (Some k, attrs) \<in> set nodes}"
proof (induction H nodes cache t rule: include_loop.induct)
  case (2 H key attrs nodes cache t)
  show ?case
  proof (cases key)
    case None
    then show ?thesis using "2.prems" by auto
  next
    case (Some k)
    show ?thesis
    proof (cases "tree_add H k attrs t")
      case (Inl err)
      then show ?thesis using "2.prems" Some by auto
    next
      case (Inr u)
      have k: "k \<noteq> []" using "2.prems"(2) Some by auto
      note add = tree_add_content [OF "2.prems"(1) k Inr]
      have "wf_tree H t' \<and> (\<forall>k. content t' k \<noteq> content u k \<longrightarrow> k \<in> set c) \<and> set (cache @ [k]) \<subseteq> set c \<and>
        set c \<subseteq> set (cache @ [k]) \<union> {k. \<exists>attrs. (Some k, attrs) \<in> set nodes}"
        using "2.IH" [OF Some Inr] add "2.prems"(2,3) Some Inr by simp
      then show ?thesis
        using add Some by (auto split: if_splits)
    qed
  qed
qed simp

lemma pop_all_content:
  "\<lbrakk>wf_tree H t; \<forall>k \<in> set ks. k \<noteq> []\<rbrakk> \<Longrightarrow>
     \<exists>t'. pop_all H ks t = (None, t') \<and> wf_tree H t' \<and>
          content t' = (\<lambda>k. if \<exists>c \<in> set ks. take (length c) k = c then None else content t k)"
proof (induction ks arbitrary: t)
  case (Cons k ks)
  have k: "k \<noteq> []" using Cons.prems by simp
  obtain r u where u: "tree_pop H k t = Inr (r, u)"
    using tree_pop_eq [OF Cons.prems(1) k] by simp
  note pop = tree_pop_content [OF Cons.prems(1) k u]
  from Cons.IH [OF pop(1)] Cons.prems(2) obtain v where "pop_all H ks u = (None, v)" "wf_tree H v"
    "content v = (\<lambda>k. if \<exists>c \<in> set ks. take (length c) k = c then None else content u k)"
    by auto
  then show ?case
    using u by (auto simp: pop(2))
qed simp

text \<open>The rollback pops the whole subtree of every key it has seen.\<close>

lemma include_failure:
  assumes wf: "wf_tree H t" and keys: "\<forall>(key, attrs) \<in> set nodes. key \<noteq> Some []"
    and fail: "tree_include H nodes t = (Some e, t')"
    and new: "\<And>k attrs k'. (Some k, attrs) \<in> set nodes \<Longrightarrow> take (length k) k' = k \<Longrightarrow> content t k' = None"
  shows "wf_tree H t'" "content t' = content t"
proof -
  obtain e0 c u where loop: "include_loop H nodes [] t = (e0, c, u)"
    by (metis prod_cases3)
  note ch = include_loop_changes [OF wf keys loop]
  have "\<forall>k \<in> set c. k \<noteq> []" using ch keys by auto
  then obtain v where v: "pop_all H c u = (None, v)" "wf_tree H v"
    "content v = (\<lambda>k. if \<exists>x \<in> set c. take (length x) k = x then None else content u k)"
    using pop_all_content [of H u c] ch by blast
  have t': "t' = v"
    using fail loop v(1) by (auto simp: tree_include_def split: option.splits)
  then show "wf_tree H t'" using v by simp
  have "content v k = content t k" for k
  proof (cases "\<exists>x \<in> set c. take (length x) k = x")
    case True
    then obtain x attrs where "(Some x, attrs) \<in> set nodes" "take (length x) k = x"
      using ch by auto
    then have "content t k = None" by (rule new)
    with True v(3) show ?thesis by simp
  next
    case False
    then have "k \<notin> set c" by (metis take_all_iff order_refl)
    with False v(3) ch show ?thesis by auto
  qed
  with t' show "content t' = content t" by blast
qed

section \<open>Search by metadata\<close>

definition metadata_hit :: "string \<Rightarrow> json \<Rightarrow> bool \<Rightarrow> node \<Rightarrow> bool" where
  "metadata_hit k v present n \<longleftrightarrow> \<not> dummy (slots n) \<and>
     (case kv_get k (metadata (slots n)) of Some w \<Rightarrow> present \<and> w = v | None \<Rightarrow> \<not> present)"

lemma node_count_children: "node_count n = Suc (sum_list (map node_count (children n)))"
  by (cases n) simp

lemma find_metadata_loop_set:
  "sum_list (map node_count visit) \<le> fuel \<Longrightarrow>
     set (find_metadata_loop fuel k v present visit result) =
       set result \<union> {nkey m | m. m \<in> (\<Union>n \<in> set visit. set (subnodes n)) \<and> metadata_hit k v present m}"
proof (induction fuel k v present visit result rule: find_metadata_loop.induct)
  case (1 k v present visit result)
  then have "visit = []"
    by (cases visit) (auto simp: node_count_children)
  then show ?case by simp
next
  case (3 fuel k v present cur visit result)
  have hit: "(case kv_get k (metadata (slots cur)) of
        Some w \<Rightarrow> w = v \<and> \<not> dummy (slots cur) \<and> present
      | None \<Rightarrow> \<not> present \<and> \<not> dummy (slots cur)) = metadata_hit k v present cur"
    by (auto simp: metadata_hit_def split: option.split)
  have "set (subnodes cur) = insert cur (\<Union>n \<in> set (children cur). set (subnodes n))"
    by (cases cur) auto
  moreover have "sum_list (map node_count (visit @ children cur)) \<le> fuel"
    using "3.prems" node_count_children [of cur] by simp
  note "3.IH" [OF refl this, unfolded hit]
  ultimately show ?case
    unfolding find_metadata_loop.simps hit Let_def by auto
qed simp

lemma find_by_metadata_set:
  "set (find_by_metadata' k v present t) =
     (case root t of None \<Rightarrow> {} | Some r \<Rightarrow> {nkey m | m. m \<in> set (subnodes r) \<and> metadata_hit k v present m})"
  by (auto simp: find_by_metadata'_def find_metadata_loop_set split: option.split)

lemma subnode_at:
  "\<lbrakk>wf_node H n; m \<in> set (subnodes n)\<rbrakk> \<Longrightarrow> \<exists>ps. node_at n ps = Some m"
proof (induction n)
  case (Node s cs)
  show ?case
  proof (cases "m = Node s cs")
    case True
    then have "node_at (Node s cs) [] = Some m" by simp
    then show ?thesis by blast
  next
    case False
    then obtain c where c: "c \<in> set cs" "m \<in> set (subnodes c)"
      using Node.prems by auto
    note inner = wf_nodeD(1) [OF Node.prems(1)]
    have "wf_node H c" and "child_key (skey s) (nkey c)"
      using inner c by (auto simp: wf_inner_def)
    then obtain p ps where "nkey c = skey s @ [p]" "node_at c ps = Some m"
      using Node.IH [OF c(1)] c(2) by (auto simp: child_key_iff)
    then have "node_at (Node s cs) (p # ps) = Some m"
      using c(1) get_child_iff [OF inner, of "skey s @ [p]" c] by simp
    then show ?thesis by blast
  qed
qed

text \<open>The search finds exactly the keys whose visible node has the metadata.\<close>

lemma find_by_metadata_lookup:
  assumes "wf_tree H t"
  shows "key \<in> set (find_by_metadata' k v present t) \<longleftrightarrow>
    (\<exists>m. lookup t key = Some m \<and> metadata_hit k v present m)"
proof (cases "root t")
  case None
  then show ?thesis by (simp add: find_by_metadata_set lookup_def)
next
  case (Some r)
  then obtain p where r: "wf_node H r" "nkey r = [p]"
    using assms by (auto simp: wf_tree_def length_Suc_conv)
  have at: "m \<in> set (subnodes r) \<and> nkey m = key \<longleftrightarrow> lookup t key = Some m" for m
  proof
    assume m: "m \<in> set (subnodes r) \<and> nkey m = key"
    then obtain ps where "node_at r ps = Some m" using subnode_at [OF r(1)] by blast
    with node_at_key [OF r(1) this] m r(2) Some show "lookup t key = Some m"
      by (auto simp: lookup_def)
  next
    assume l: "lookup t key = Some m"
    then show "m \<in> set (subnodes r) \<and> nkey m = key"
      using lookup_key [OF assms l] lookup_subnode [OF assms l] Some by auto
  qed
  have "key \<in> set (find_by_metadata' k v present t) \<longleftrightarrow>
    (\<exists>m. m \<in> set (subnodes r) \<and> nkey m = key \<and> metadata_hit k v present m)"
    using Some by (auto simp: find_by_metadata_set)
  then show ?thesis using at by blast
qed

end
