(* ===== verification/Hash_Tree_Text.thy ===== *)
theory Hash_Tree_Text
  imports Hash_Tree_Facts
begin

text \<open>
  The text form of a tree: what \<open>str\<close> prints, \<open>from_string\<close> reads back. The database keeps trees
  in this form.
\<close>

definition printable_slots :: "slots \<Rightarrow> bool" where
  "printable_slots s \<longleftrightarrow> ol_ok fst (metadata s) \<and> list_all (\<lambda>kv. json_ok (snd kv)) (metadata s)
     \<and> full_hash s \<noteq> None \<and> full_hash s \<noteq> Some []"

fun printable :: "node \<Rightarrow> bool" where
  "printable (Node s cs) \<longleftrightarrow> printable_slots s \<and> ol_ok nkey cs \<and> list_all printable cs"

lemma ol_include_sorted:
  assumes "ol_ok key xs"
  shows "ol_include key xs [] = xs"
proof -
  have "ol_ok key (ol_include key xs [])"
    by (simp add: ol_include_eq_update ol_update_fold ol.fold_inv)
  moreover have "ol_abs key (ol_include key xs []) k = ol_abs key xs k" for k
  proof -
    have "distinct (map fst (map (\<lambda>x. (key x, x)) xs))"
      using ol_ok_distinct [OF assms] by (simp add: comp_def)
    then have "map_of (rev (map (\<lambda>x. (key x, x)) xs)) = map_of (map (\<lambda>x. (key x, x)) xs)"
      by (intro ext map_of_eq_of_distinct_set) (simp_all add: rev_map [symmetric] del: map_map)
    then show ?thesis
      by (simp add: ol_include_eq_update ol_update_fold ol.lookup_fold)
        (simp add: ol_abs_def split: option.split)
  qed
  ultimately show ?thesis
    using assms by (intro ol_canonical) auto
qed

lemma json_key_json [simp]: "json_key (key_json k) = Inr k"
  by (induction k) (simp_all add: key_json_def)

lemma json_opt_str_json [simp]: "json_opt_str (str_json h) = Inr h"
  by (cases h) (simp_all add: str_json_def)

lemma json_ok_parts [simp]: "json_ok (key_json k)" "json_ok (str_json h)"
  by (simp_all add: key_json_def str_json_def list_all_iff split: option.split)

lemma json_ok_node: "printable n \<Longrightarrow> json_ok (node_to_dict n)"
proof (induction n)
  case (Node s cs)
  have "distinct (map fst (metadata s))"
    using Node.prems by (auto simp: printable_slots_def dest: ol_ok_distinct)
  with Node show ?case
    by (auto simp: printable_slots_def list_all_iff)
qed

lemma build_node: "printable n \<Longrightarrow> build_tree (node_to_dict n) = Inr n"
proof (induction n)
  case (Node s cs)
  have "\<forall>c \<in> set cs. build_tree (node_to_dict c) = Inr c"
    using Node by (simp add: list_all_iff)
  then have "traverse_res build_tree (map node_to_dict cs) = Inr cs"
    by (induction cs) auto
  moreover have "ol_include nkey cs [] = cs" "ol_include fst (metadata s) [] = metadata s"
    using Node.prems by (simp_all add: ol_include_sorted printable_slots_def)
  moreover have "or_str (full_hash s) (partial_hash s) = full_hash s"
    using Node.prems by (auto simp: printable_slots_def or_str_def)
  ultimately show ?case
    by (simp add: obj_member_def new_node_def)
qed

lemma from_string_str:
  assumes "\<And>r. root t = Some r \<Longrightarrow> printable r"
  shows "from_string (tree_str t) rk hp = Inr (new_tree (root t) rk hp)"
proof (cases "root t")
  case None
  have "json_loads (json_dumps (JObj [])) = Inr (JObj [])"
    by (rule json_loads_dumps) simp
  then show ?thesis
    using None by (simp add: tree_str_def from_string_def)
next
  case (Some r)
  then have "json_loads (tree_str t) = Inr (node_to_dict r)"
    using assms json_ok_node by (simp add: tree_str_def json_loads_dumps)
  moreover have "json_truth (node_to_dict r)" by (cases r) simp
  ultimately show ?thesis
    using Some assms build_node by (simp add: from_string_def new_tree_def)
qed

end
