(* ===== verification/Hash_Tree_Props.thy ===== *)
theory Hash_Tree_Props
  imports Hash_Tree_Include Hash_Tree_Text
begin

text \<open>
  The properties of the structured hash tree, each with a concrete instance. The instances hash
  with \<open>toy_hash\<close>, which takes the last 64 characters of the text in reverse: no collision occurs
  on the small trees used here.
\<close>

definition toy_hash :: hash_fun where
  "toy_hash s = take 64 (rev s @ replicate 64 CHR ''0'')"

definition ok_tree :: "tree result \<Rightarrow> tree" where
  "ok_tree r = (case r of Inr t \<Rightarrow> t | Inl _ \<Rightarrow> empty_tree)"

definition tree1 :: tree where
  "tree1 = ok_tree (tree_add toy_hash [''a'', ''b''] [(''x'', JInt 1)] empty_tree)"

definition tree2 :: tree where
  "tree2 = ok_tree (tree_add toy_hash [''a''] [(''x'', JBool True)] tree1)"

definition tree3 :: tree where
  "tree3 = ok_tree (tree_add toy_hash [''a'', ''c''] [(''y'', JStr ''z'')] tree1)"

section \<open>Operations as map updates\<close>

text \<open>C30. On a tree with the invariant, \<open>add\<close> keeps the invariant and makes exactly the given key
  visible, with the hash of its attributes and its error flag; every other key keeps what it had.\<close>

theorem tree_add_refines:
  assumes "wf_tree H t" "key \<noteq> []" "tree_add H key kwargs t = Inr t'"
  shows "wf_tree H t' \<and> content t' = (content t)(key \<mapsto> entry H key kwargs)"
  using assms by (rule tree_add_content)

theorem tree_add_refines_witness:
  "wf_tree toy_hash tree2 \<and> content tree2 = (content tree1)([''a''] \<mapsto> entry toy_hash [''a''] [(''x'', JBool True)])"
proof (rule tree_add_refines)
  show "wf_tree toy_hash tree1" by code_simp
  show "tree_add toy_hash [''a''] [(''x'', JBool True)] tree1 = Inr tree2" by code_simp
qed simp

text \<open>\<open>add\<close> raises exactly when the metadata is not a dictionary or the first part of the key
  is not the root's key (\<open>MultipleRootTreeError\<close>).\<close>

theorem tree_add_raises:
  assumes "wf_tree H t" "key \<noteq> []"
  shows "is_ok (tree_add H key kwargs t) \<longleftrightarrow> metadata_ok kwargs \<and> root_admits t key"
  using assms by (rule tree_add_ok_iff)

theorem tree_add_raises_witness:
  "\<not> is_ok (tree_add toy_hash [''b'', ''c''] [] tree1) \<and> is_ok (tree_add toy_hash [''a'', ''d''] [] tree1)"
proof -
  have wf: "wf_tree toy_hash tree1" by code_simp
  have "\<not> root_admits tree1 [''b'', ''c'']" "root_admits tree1 [''a'', ''d'']" "metadata_ok []"
    by code_simp+
  then show ?thesis
    by (simp add: tree_add_raises [OF wf])
qed

text \<open>\<open>pop\<close> never raises on a non-empty key, returns the subtree at the key when there is one,
  keeps the invariant and removes from the content exactly the key and everything below it.\<close>

theorem tree_pop_refines:
  assumes "wf_tree H t" "key \<noteq> []"
  shows "\<exists>t'. tree_pop H key t = Inr (map_option (\<lambda>c. new_tree (Some c) None False) (lookup t key), t')
    \<and> wf_tree H t' \<and> content t' = (\<lambda>k. if take (length key) k = key then None else content t k)"
proof -
  obtain t' where
    t': "tree_pop H key t = Inr (map_option (\<lambda>c. new_tree (Some c) None False) (lookup t key), t')"
    using tree_pop_eq [OF assms] by blast
  then show ?thesis
    using tree_pop_content [OF assms t'] by auto
qed

theorem tree_pop_refines_witness:
  "\<exists>t'. tree_pop toy_hash [''a'', ''c''] tree3
      = Inr (map_option (\<lambda>c. new_tree (Some c) None False) (lookup tree3 [''a'', ''c'']), t')
    \<and> wf_tree toy_hash t'
    \<and> content t' = (\<lambda>k. if take (length [''a'', ''c'']) k = [''a'', ''c''] then None else content tree3 k)"
  by (rule tree_pop_refines) (code_simp, simp)

text \<open>C31. \<open>clear\<close> never raises on a non-empty key, keeps the invariant (no dummy leaf is left) and
  makes exactly the given key invisible; what is below it stays.\<close>

theorem tree_clear_refines:
  assumes "wf_tree H t" "key \<noteq> []"
  shows "\<exists>t'. tree_clear H key t = Inr t' \<and> wf_tree H t' \<and> content t' = (content t)(key := None)"
  using tree_clear_total [OF assms] tree_clear_content [OF assms] by blast

theorem tree_clear_refines_witness:
  "\<exists>t'. tree_clear toy_hash [''a''] tree2 = Inr t' \<and> wf_tree toy_hash t'
    \<and> content t' = (content tree2)([''a''] := None)"
  by (rule tree_clear_refines) (code_simp, simp)

section \<open>Hashes\<close>

text \<open>C32. The root hash is a function of the content: two trees with the invariant, the same root
  key and the same visible keys and attribute hashes have the same root hash, however they came
  about (placeholders, cleared nodes and the order of updates leave no trace).\<close>

theorem root_hash_of_content:
  assumes "wf_tree H s" "wf_tree H t" "root_key s = root_key t"
    and "map_option fst \<circ> content s = map_option fst \<circ> content t"
  shows "root_full_hash H s = root_full_hash H t"
proof (cases "root s")
  case None
  then have "root t = None"
    using content_eq_hashes [OF assms(2,1) assms(4) [symmetric]] by (cases "root t") auto
  with None assms(3) show ?thesis by (simp add: root_full_hash_def)
next
  case (Some a)
  from content_eq_hashes [OF assms(1,2,4) Some] obtain b where
    "root t = Some b" "full_hash (slots a) = full_hash (slots b)" by blast
  with Some show ?thesis by (simp add: root_full_hash_def)
qed

definition tree1' :: tree where
  "tree1' = ok_tree (tree_clear toy_hash [''a''] tree2)"

theorem root_hash_of_content_witness:
  "root_full_hash toy_hash tree1' = root_full_hash toy_hash tree1"
proof (rule root_hash_of_content)
  show wf1: "wf_tree toy_hash tree1" by code_simp
  have wf2: "wf_tree toy_hash tree2" by code_simp
  show "wf_tree toy_hash tree1'" "root_key tree1' = root_key tree1" by code_simp+
  have "tree_clear toy_hash [''a''] tree2 = Inr tree1'" by code_simp
  moreover have "tree_add toy_hash [''a''] [(''x'', JBool True)] tree1 = Inr tree2" by code_simp
  moreover have "content tree1 [''a''] = None" by code_simp
  ultimately have "content tree1' = content tree1"
    using tree_clear_content(2) [OF wf2] tree_add_content [OF wf1] by (metis fun_upd_triv fun_upd_upd list.discI)
  then show "map_option fst \<circ> content tree1' = map_option fst \<circ> content tree1" by simp
qed

text \<open>C33. Conversely equal root hashes mean equal contents, as long as the hash does not collide on
  the texts of the two trees: the same keys are visible with the same attribute hashes.\<close>

theorem content_of_root_hash:
  assumes "wf_tree H s" "wf_tree H t" "comparable s t" "root s = Some a" "root t = Some b"
    and "root_full_hash H s = root_full_hash H t"
  shows "map_option fst (content s k) = map_option fst (content t k)"
proof -
  have wf: "wf_node H a" "wf_node H b" "length (nkey a) = 1"
    and cmp: "sized a" "sized b" "no_collision a b"
    using assms by (simp_all add: wf_tree_def comparable_def)
  have "full_hash (slots a) = full_hash (slots b)"
    using assms by (simp add: root_full_hash_def)
  note same = merkle [OF wf(1,2) cmp this]
  have key: "nkey a = nkey b" using same [of "[]"] by (simp add: same_node_def)
  have "map_option fst (visible a qs) = map_option fst (visible b qs)" for qs
    using same [of qs] by (auto simp: visible_def info_def same_node_def elim!: option.rel_cases)
  then show ?thesis
    using assms key by (cases k) (simp_all add: content_def)
qed

theorem content_of_root_hash_witness:
  "map_option fst (content tree1' [''a'', ''b'']) = map_option fst (content tree1 [''a'', ''b''])"
  by (rule content_of_root_hash [of toy_hash tree1' tree1 "the (root tree1')" "the (root tree1)"])
     code_simp+

section \<open>Differences\<close>

text \<open>C2. \<open>diff\<close> is exact: it reports a key to add or to remove exactly when the nodes the two trees
  have at that key call for it, although it does not look into subtrees whose hashes are equal.\<close>

theorem diff_reports_exactly:
  assumes "wf_tree H s" "wf_tree H t" "comparable s t"
  shows "(k \<in> set (to_add (tree_diff s t)) \<longleftrightarrow> needs_add (lookup s k) (lookup t k)) \<and>
    (k \<in> set (to_remove (tree_diff s t)) \<longleftrightarrow> needs_remove (lookup s k) (lookup t k))"
  using tree_diff_exact [OF assms] by blast

theorem diff_reports_exactly_witness:
  "[''a'', ''c''] \<in> set (to_add (tree_diff tree3 tree2)) \<and> [''a''] \<in> set (to_remove (tree_diff tree3 tree2))
    \<and> [''a'', ''b''] \<notin> set (to_add (tree_diff tree3 tree2))"
proof -
  have "wf_tree toy_hash tree3" "wf_tree toy_hash tree2" "comparable tree3 tree2" by code_simp+
  note d = diff_reports_exactly [OF this]
  have "needs_add (lookup tree3 [''a'', ''c'']) (lookup tree2 [''a'', ''c''])"
    "needs_remove (lookup tree3 [''a'']) (lookup tree2 [''a''])"
    "\<not> needs_add (lookup tree3 [''a'', ''b'']) (lookup tree2 [''a'', ''b''])" by code_simp+
  then show ?thesis using d by blast
qed

text \<open>C1. \<open>diff\<close> does what its comment says, calculate the operations that transform the other tree
  into this one: clearing and adding what it reports never raises and yields a tree with the same
  content, the same root hash, and equal under \<open>__eq__\<close>.\<close>

theorem apply_diff_converges:
  assumes "wf_tree H s" "wf_tree H t" "comparable s t" "error_free s" "error_free t"
    and "\<And>k x. content s k = Some x \<Longrightarrow> x = entry H k (attrs k) \<and> metadata_ok (attrs k)"
  shows "\<exists>u. apply_diff H attrs (tree_diff s t) t = Inr u \<and> content u = content s \<and> tree_eq u s"
proof -
  obtain u where u: "apply_diff H attrs (tree_diff s t) t = Inr u" "wf_tree H u" "content u = content s"
    using apply_diff_content [OF assms] by blast
  have "tree_eq u s"
    using tree_eq_content [OF u(2) assms(1) u(3)] .
  with u show ?thesis by blast
qed

definition attrs3 :: "key \<Rightarrow> (string, json) dict" where
  "attrs3 k = (if k = [''a'', ''b''] then [(''x'', JInt 1)] else [(''y'', JStr ''z'')])"

lemma content_tree3:
  "content tree3 = (Map.empty)([''a'', ''b''] \<mapsto> entry toy_hash [''a'', ''b''] [(''x'', JInt 1)],
     [''a'', ''c''] \<mapsto> entry toy_hash [''a'', ''c''] [(''y'', JStr ''z'')])"
proof -
  have wf: "wf_tree toy_hash empty_tree" "wf_tree toy_hash tree1" by code_simp+
  have add: "tree_add toy_hash [''a'', ''b''] [(''x'', JInt 1)] empty_tree = Inr tree1"
    "tree_add toy_hash [''a'', ''c''] [(''y'', JStr ''z'')] tree1 = Inr tree3" by code_simp+
  have "content empty_tree = Map.empty"
    by (simp add: content_def new_tree_def fun_eq_iff)
  then show ?thesis
    using tree_add_content [OF wf(1) _ add(1)] tree_add_content [OF wf(2) _ add(2)] by simp
qed

theorem apply_diff_converges_witness:
  "\<exists>u. apply_diff toy_hash attrs3 (tree_diff tree3 tree2) tree2 = Inr u \<and> content u = content tree3
    \<and> tree_eq u tree3"
proof (rule apply_diff_converges)
  show "wf_tree toy_hash tree3" "wf_tree toy_hash tree2" "comparable tree3 tree2"
    "error_free tree3" "error_free tree2" by code_simp+
next
  fix k x assume "content tree3 k = Some x"
  then show "x = entry toy_hash k (attrs3 k) \<and> metadata_ok (attrs3 k)"
    by (auto simp: content_tree3 attrs3_def metadata_ok_def split: if_splits)
qed

section \<open>include\<close>

text \<open>The order in which \<open>include\<close> gets its nodes does not matter: with distinct keys, two
  successful calls with the same nodes in different orders give the same content and root hash.\<close>

theorem include_order_independent:
  assumes "wf_tree H t" "set nodes = set nodes'" "distinct (map fst nodes)" "distinct (map fst nodes')"
    and "Some [] \<notin> fst ` set nodes"
    and "tree_include H nodes t = (None, u)" "tree_include H nodes' t = (None, u')"
  shows "content u = content u' \<and> tree_eq u u'"
proof -
  have ne: "\<forall>(key, attrs) \<in> set nodes. key \<noteq> Some []" "\<forall>(key, attrs) \<in> set nodes'. key \<noteq> Some []"
    using assms(2,5) by force+
  note inc = include_success [OF assms(1) ne(1) assms(6)] include_success [OF assms(1) ne(2) assms(7)]
  have keyed: "None \<notin> fst ` set nodes"
    using assms(6) include_no_key by (auto simp: tree_include_def split: prod.splits option.splits)
  have "included H nodes k = included H nodes' k" for k
    unfolding included_def
  proof (rule map_of_eq_of_distinct_set)
    have keys: "map fst (rev (map (\<lambda>(key, attrs). (the key, entry H (the key) attrs)) ns))
      = rev (map the (map fst ns))" for ns :: "(key option \<times> (string, json) dict) list"
      by (induction ns) auto
    have "inj_on the (fst ` set nodes)" "inj_on the (fst ` set nodes')"
      using keyed assms(2) by (auto simp: inj_on_def) (metis fst_conv imageI option.expand)+
    then show "distinct (map fst (rev (map (\<lambda>(key, attrs). (the key, entry H (the key) attrs)) nodes)))"
      "distinct (map fst (rev (map (\<lambda>(key, attrs). (the key, entry H (the key) attrs)) nodes')))"
      unfolding keys using assms(3,4) by (simp_all only: distinct_rev distinct_map set_map simp_thms)
  qed (use assms(2) in simp)
  then have eq: "content u = content u'"
    using inc(2,4) by (simp add: fun_eq_iff)
  moreover have "tree_eq u u'"
    using tree_eq_content [OF inc(1,3) eq] .
  ultimately show ?thesis by blast
qed

theorem include_order_independent_witness:
  "content (snd (tree_include toy_hash [(Some [''a''], [(''x'', JBool True)]), (Some [''a'', ''c''], [])] tree1))
    = content (snd (tree_include toy_hash [(Some [''a'', ''c''], []), (Some [''a''], [(''x'', JBool True)])] tree1))
   \<and> tree_eq
    (snd (tree_include toy_hash [(Some [''a''], [(''x'', JBool True)]), (Some [''a'', ''c''], [])] tree1))
    (snd (tree_include toy_hash [(Some [''a'', ''c''], []), (Some [''a''], [(''x'', JBool True)])] tree1))"
proof (rule include_order_independent)
  show "wf_tree toy_hash tree1" by code_simp
  have "fst (tree_include toy_hash [(Some [''a''], [(''x'', JBool True)]), (Some [''a'', ''c''], [])] tree1) = None"
    "fst (tree_include toy_hash [(Some [''a'', ''c''], []), (Some [''a''], [(''x'', JBool True)])] tree1) = None"
    by code_simp+
  then show "tree_include toy_hash [(Some [''a''], [(''x'', JBool True)]), (Some [''a'', ''c''], [])] tree1
      = (None, snd (tree_include toy_hash [(Some [''a''], [(''x'', JBool True)]), (Some [''a'', ''c''], [])] tree1))"
    "tree_include toy_hash [(Some [''a'', ''c''], []), (Some [''a''], [(''x'', JBool True)])] tree1
      = (None, snd (tree_include toy_hash [(Some [''a'', ''c''], []), (Some [''a''], [(''x'', JBool True)])] tree1))"
    by (simp_all add: prod_eq_iff)
qed auto

text \<open>When \<open>include\<close> fails on nodes whose keys, and keys below them, were not visible before,
  its rollback restores the content and the invariant.\<close>

theorem include_rollback:
  assumes "wf_tree H t" "Some [] \<notin> fst ` set nodes" "tree_include H nodes t = (Some e, t')"
    and "\<And>k attrs k'. (Some k, attrs) \<in> set nodes \<Longrightarrow> take (length k) k' = k \<Longrightarrow> content t k' = None"
  shows "wf_tree H t' \<and> content t' = content t"
proof -
  have "\<forall>(key, attrs) \<in> set nodes. key \<noteq> Some []"
    using assms(2) by force
  note fail = include_failure [OF assms(1) this assms(3)]
  have "wf_tree H t'" by (rule fail(1)) (rule assms(4))
  moreover have "content t' = content t" by (rule fail(2)) (rule assms(4))
  ultimately show ?thesis by blast
qed

theorem include_rollback_witness:
  "wf_tree toy_hash (snd (tree_include toy_hash [(Some [''a''], []), (Some [''b''], [])] empty_tree))
    \<and> content (snd (tree_include toy_hash [(Some [''a''], []), (Some [''b''], [])] empty_tree)) = content empty_tree"
proof (rule include_rollback)
  show "wf_tree toy_hash empty_tree" by code_simp
  have "fst (tree_include toy_hash [(Some [''a''], []), (Some [''b''], [])] empty_tree)
    = Some (MultipleRootTreeError [''b''] [''a''])" by code_simp
  then show "tree_include toy_hash [(Some [''a''], []), (Some [''b''], [])] empty_tree
    = (Some (MultipleRootTreeError [''b''] [''a'']),
       snd (tree_include toy_hash [(Some [''a''], []), (Some [''b''], [])] empty_tree))"
    by (simp add: prod_eq_iff)
qed (auto simp: content_def new_tree_def)

text \<open>Without that condition the rollback loses data: an \<open>include\<close> that fails on its second
  node pops the key of the first, which it had only updated, with the subtree that was there
  before the call.\<close>

theorem include_rollback_loses_data:
  "content tree1 [''a'', ''b''] \<noteq> None \<and>
   fst (tree_include toy_hash [(Some [''a''], []), (Some [''b''], [])] tree1)
     = Some (MultipleRootTreeError [''b''] [''a'']) \<and>
   root (snd (tree_include toy_hash [(Some [''a''], []), (Some [''b''], [])] tree1)) = None"
  by (intro conjI; code_simp)

section \<open>Metadata and text form\<close>

text \<open>The metadata search returns exactly the keys whose node is visible and has (or, for
  \<open>find_no_metadata\<close>, lacks) the metadata: the breadth-first loop visits every node.\<close>

theorem find_by_metadata_exact:
  assumes "wf_tree H t"
  shows "key \<in> set (find_by_metadata' k v present t) \<longleftrightarrow>
    (\<exists>m. tree_find t key = Inr (Some m) \<and> metadata_hit k v present m)"
proof (cases "key = []")
  case True
  have "lookup t [] = None" by (simp add: lookup_def split: option.split)
  moreover have "tree_find t [] \<noteq> Inr (Some m)" for m
    using assms by (auto simp: tree_find_def get_node_and_parent_stack_def wf_tree_def split: option.splits)
  ultimately show ?thesis
    using find_by_metadata_lookup [OF assms, of key k v present] True by simp
next
  case False
  then show ?thesis
    using find_by_metadata_lookup [OF assms] tree_find_lookup [OF assms] by simp
qed

definition tree4 :: tree where
  "tree4 = ok_tree (tree_add toy_hash [''a'', ''c''] [(''_metadata'', JObj [(''pending'', JBool True)])] tree2)"

theorem find_by_metadata_exact_witness:
  "[''a'', ''c''] \<in> set (find_by_metadata' ''pending'' (JBool True) True tree4)"
proof -
  have "wf_tree toy_hash tree4" by code_simp
  moreover have "tree_find tree4 [''a'', ''c''] = Inr (Some (the (lookup tree4 [''a'', ''c''])))" by code_simp
  moreover have "metadata_hit ''pending'' (JBool True) True (the (lookup tree4 [''a'', ''c'']))" by code_simp
  ultimately show ?thesis
    using find_by_metadata_exact by blast
qed

text \<open>C35. \<open>from_string\<close> reads back what \<open>str\<close> prints: nodes, hashes, flags, metadata and order.\<close>

theorem from_string_of_str:
  assumes "\<And>r. root t = Some r \<Longrightarrow> printable r"
  shows "from_string (tree_str t) rk hp = Inr (new_tree (root t) rk hp)"
  using assms by (rule from_string_str)

theorem from_string_of_str_witness:
  "from_string (tree_str tree4) None True = Inr (new_tree (root tree4) None True)"
proof (rule from_string_of_str)
  fix r assume "root tree4 = Some r"
  then have "r = the (root tree4)" by simp
  moreover have "printable (the (root tree4))" by code_simp
  ultimately show "printable r" by simp
qed

end
