(* ===== verification/Hash_Ring.thy ===== *)
theory Hash_Ring
  imports Ordered_List "HOL-Library.Multiset"
begin

text \<open>
  \<open>aim/common/hashring.py\<close>: the consistent hash ring that spreads tenants over agents. The hash
  of a string, \<open>_hash\<close> (MD5 of the base64 form, read as a number), is the parameter \<open>H\<close>. Weights,
  virtual nodes and replicas are natural numbers; a weight may be absent.
\<close>

section \<open>The ring and its operations\<close>

record star =
  h4sh :: nat
  snode :: string

record hash_ring =
  rnodes :: "(string, nat option) dict"
  ring :: "star list"
  vnodes :: nat
  replicas :: nat
  default_weight :: nat

definition hashi :: "(string \<Rightarrow> nat) \<Rightarrow> hash_ring \<Rightarrow> string \<Rightarrow> nat option \<Rightarrow> nat list" where
  "hashi H r node weight =
     (let w = (case weight of Some w \<Rightarrow> w | None \<Rightarrow> default_weight r)
      in map (\<lambda>x. H (node @ nat_str x)) [0..<vnodes r * w])"

text \<open>\<open>list.remove(Star(x))\<close>: the first star with that hash, none raises \<open>ValueError\<close>, which is caught.\<close>

fun remove_star :: "nat \<Rightarrow> star list \<Rightarrow> star list" where
  "remove_star x [] = []"
| "remove_star x (s # ss) = (if h4sh s = x then ss else s # remove_star x ss)"

definition remove_one :: "(string \<Rightarrow> nat) \<Rightarrow> string \<Rightarrow> hash_ring \<Rightarrow> hash_ring" where
  "remove_one H node r =
     (case dict_get (rnodes r) node of
        None \<Rightarrow> r
      | Some weight \<Rightarrow> r\<lparr>rnodes := dict_del node (rnodes r),
                           ring := fold remove_star (hashi H r node weight) (ring r)\<rparr>)"

fun remove_nodes :: "(string \<Rightarrow> nat) \<Rightarrow> string list \<Rightarrow> hash_ring \<Rightarrow> hash_ring" where
  "remove_nodes H [] r = r"
| "remove_nodes H (node # nodes) r = remove_nodes H nodes (remove_one H node r)"

definition remove_node :: "(string \<Rightarrow> nat) \<Rightarrow> string \<Rightarrow> hash_ring \<Rightarrow> hash_ring" where
  "remove_node H node r = remove_nodes H [node] r"

definition constellation :: "(string \<Rightarrow> nat) \<Rightarrow> hash_ring \<Rightarrow> string \<times> nat option \<Rightarrow> star list" where
  "constellation H r nw = map (\<lambda>h. \<lparr>h4sh = h, snode = fst nw\<rparr>) (hashi H r (fst nw) (snd nw))"

text \<open>
  \<open>add_nodes\<close>. The code removes the intersection of two key sets in an order Python leaves open;
  the model takes the order of the ring's own dictionary.
\<close>

definition add_nodes :: "(string \<Rightarrow> nat) \<Rightarrow> (string, nat option) dict \<Rightarrow> hash_ring \<Rightarrow> hash_ring" where
  "add_nodes H nodes r =
     (let r1 = remove_nodes H (filter (\<lambda>n. n \<in> set (dict_keys nodes)) (dict_keys (rnodes r))) r
      in r1\<lparr>ring := fold (insort_right h4sh) (concat (map (constellation H r1) nodes)) (ring r1),
            rnodes := dict_update (rnodes r1) nodes\<rparr>)"

definition add_node :: "(string \<Rightarrow> nat) \<Rightarrow> string \<Rightarrow> nat option \<Rightarrow> hash_ring \<Rightarrow> hash_ring" where
  "add_node H node weight r = add_nodes H [(node, weight)] r"

definition new_ring ::
  "(string \<Rightarrow> nat) \<Rightarrow> (string, nat option) dict \<Rightarrow> nat \<Rightarrow> nat \<Rightarrow> nat \<Rightarrow> hash_ring" where
  "new_ring H nodes vn reps dw =
     add_nodes H nodes \<lparr>rnodes = [], ring = [], vnodes = vn, replicas = reps, default_weight = dw\<rparr>"

text \<open>Python's indexing with a possibly negative index.\<close>

definition py_nth :: "'a list \<Rightarrow> int \<Rightarrow> 'a" where
  "py_nth xs i = xs ! nat (if i < 0 then i + int (length xs) else i)"

fun assign_loop :: "nat \<Rightarrow> star list \<Rightarrow> nat \<Rightarrow> nat list \<Rightarrow> string list \<Rightarrow> string list" where
  "assign_loop reps rg index [] result = result"
| "assign_loop reps rg index (x # xs) result =
     (if length result = reps then result
      else let node = snode (py_nth rg (int index - int x)) in
        assign_loop reps rg index xs (if node \<notin> set result then result @ [node] else result))"

definition assign_key :: "(string \<Rightarrow> nat) \<Rightarrow> string \<Rightarrow> hash_ring \<Rightarrow> string list result" where
  "assign_key H key r =
     (let rg = ring r;
          i = bisect_right h4sh rg (H key) 0 (length rg);
          index = (if i = length rg then 0 else i)
      in if rg = [] then Inl IndexError
         else Inr (assign_loop (replicas r) rg index [0..<length rg] [snode (rg ! index)]))"

definition ring_len :: "hash_ring \<Rightarrow> nat" where
  "ring_len r = length (rnodes r)"

section \<open>The invariant\<close>

text \<open>
  The stars a configuration stands for; the ring holds exactly these, sorted. Two stars with the
  same hash make \<open>remove\<close> ambiguous, so the facts on removal ask for distinct hashes.
\<close>

definition stars_of :: "(string \<Rightarrow> nat) \<Rightarrow> hash_ring \<Rightarrow> star list" where
  "stars_of H r = concat (map (constellation H r) (rnodes r))"

definition ring_ok :: "(string \<Rightarrow> nat) \<Rightarrow> hash_ring \<Rightarrow> bool" where
  "ring_ok H r \<longleftrightarrow> dict_ok (rnodes r) \<and> sorted (map h4sh (ring r)) \<and> mset (ring r) = mset (stars_of H r)"

definition no_star_collision :: "(string \<Rightarrow> nat) \<Rightarrow> hash_ring \<Rightarrow> bool" where
  "no_star_collision H r \<longleftrightarrow> distinct (map h4sh (stars_of H r))"

lemma remove_star_filter:
  "distinct (map h4sh ss) \<Longrightarrow> remove_star x ss = filter (\<lambda>s. h4sh s \<noteq> x) ss"
proof (induction ss)
  case (Cons s ss)
  then have "\<forall>t \<in> set ss. h4sh t \<noteq> h4sh s" by (auto simp: image_iff)
  then have "filter (\<lambda>t. h4sh t \<noteq> h4sh s) ss = ss" by (simp add: filter_True)
  with Cons show ?case by (cases "h4sh s = x") auto
qed simp

lemma fold_remove_star:
  "distinct (map h4sh ss) \<Longrightarrow> fold remove_star xs ss = filter (\<lambda>s. h4sh s \<notin> set xs) ss"
proof (induction xs arbitrary: ss)
  case (Cons x xs)
  have "distinct (map h4sh (filter (\<lambda>s. h4sh s \<noteq> x) ss))"
    using Cons.prems by (simp add: distinct_map_filter)
  with Cons show ?case
    by (simp add: remove_star_filter conj_commute)
qed simp

lemma constellation_cong:
  "\<lbrakk>vnodes r = vnodes r'; default_weight r = default_weight r'\<rbrakk> \<Longrightarrow> constellation H r = constellation H r'"
  by (simp add: fun_eq_iff constellation_def hashi_def split: option.split)

lemma snode_constellation: "s \<in> set (constellation H r nw) \<Longrightarrow> snode s = fst nw"
  by (auto simp: constellation_def)

lemma stars_of_del:
  "stars_of H (r\<lparr>rnodes := dict_del n d\<rparr>) = filter (\<lambda>s. snode s \<noteq> n) (stars_of H (r\<lparr>rnodes := d\<rparr>))"
proof -
  have con: "constellation H (r\<lparr>rnodes := c\<rparr>) = constellation H r" for c
    by (rule constellation_cong) simp_all
  have "filter (\<lambda>s. snode s \<noteq> n) (constellation H r kw) = (if fst kw = n then [] else constellation H r kw)" for kw
    by (auto simp: filter_empty_conv filter_id_conv dest: snode_constellation)
  then show ?thesis
    by (induction d) (auto simp: stars_of_def con)
qed

lemma distinct_sorted_eq:
  assumes "sorted (map h4sh xs)" "sorted (map h4sh ys)" "mset xs = mset ys" "distinct (map h4sh ys)"
  shows "xs = ys"
proof (rule ol_ok_set_eq [where key = h4sh])
  have "mset (map h4sh xs) = mset (map h4sh ys)" using assms(3) by simp
  then have "distinct (map h4sh xs)" using assms(4) by (metis mset_eq_imp_distinct_iff)
  then show "ol_ok h4sh xs" "ol_ok h4sh ys"
    using assms by (simp_all add: ol_ok_def strict_sorted_iff)
qed (metis assms(3) set_mset_mset)

text \<open>The ring is a function of the configuration, in whatever order its nodes came and went.\<close>

lemma stars_of_mset:
  "mset (stars_of H r) = (\<Sum>nw \<in># mset (rnodes r). mset (constellation H r nw))"
  by (simp add: stars_of_def mset_concat comp_def mset_map sum_mset_sum_list [symmetric])

lemma ring_canonical:
  assumes ok: "ring_ok H a" "ring_ok H b" and nc: "no_star_collision H b"
    and conf: "vnodes a = vnodes b" "default_weight a = default_weight b"
    and nodes: "map_of (rnodes a) = map_of (rnodes b)"
  shows "ring a = ring b"
proof -
  have d: "distinct (map fst (rnodes a))" "distinct (map fst (rnodes b))"
    using ok by (simp_all add: ring_ok_def dict_ok_def)
  have "set (rnodes a) = set (rnodes b)"
    using nodes d by (metis map_of_inject_set)
  then have "mset (rnodes a) = mset (rnodes b)"
    using d by (simp add: set_eq_iff_mset_eq_distinct distinct_map)
  then have "mset (stars_of H a) = mset (stars_of H b)"
    using constellation_cong [OF conf] by (simp add: stars_of_mset)
  moreover have "distinct (map h4sh (ring b))"
    using ok(2) nc by (auto simp: ring_ok_def no_star_collision_def dest: arg_cong [of _ _ "image_mset h4sh"])
      (metis mset_eq_imp_distinct_iff mset_map)
  ultimately show ?thesis
    using ok by (intro distinct_sorted_eq) (simp_all add: ring_ok_def)
qed

section \<open>Adding and removing nodes\<close>

lemma insort_right_mset: "mset (insort_right key x xs) = add_mset x (mset xs)"
proof -
  have "mset xs = mset (take n xs) + mset (drop n xs)" for n
    by (metis append_take_drop_id mset_append)
  then show ?thesis
    unfolding insort_right_def Let_def by simp
qed

lemma fold_insort_sorted: "sorted (map h4sh xs) \<Longrightarrow> sorted (map h4sh (fold (insort_right h4sh) ss xs))"
  by (induction ss arbitrary: xs) (simp_all add: insort_right_sorted)

lemma fold_insort_mset: "mset (fold (insort_right h4sh) ss xs) = mset ss + mset xs"
  by (induction ss arbitrary: xs) (simp_all add: insort_right_mset)

lemma rnodes_self: "r\<lparr>rnodes := rnodes r\<rparr> = r"
  by simp

lemma add_fresh_ok:
  assumes ok: "ring_ok H r" and fresh: "distinct (map fst (rnodes r @ nodes))"
  shows "ring_ok H (r\<lparr>ring := fold (insort_right h4sh) (concat (map (constellation H r) nodes)) (ring r),
                     rnodes := dict_update (rnodes r) nodes\<rparr>)"
proof -
  have upd: "dict_update (rnodes r) nodes = rnodes r @ nodes"
    by (rule dict_update_fresh [OF fresh])
  have "stars_of H (r\<lparr>ring := x, rnodes := d @ nodes\<rparr>)
      = concat (map (constellation H r) d) @ concat (map (constellation H r) nodes)" for x d
    using constellation_cong [of "r\<lparr>ring := x, rnodes := d @ nodes\<rparr>" r H]
    by (simp add: stars_of_def)
  then show ?thesis
    using ok fresh unfolding ring_ok_def upd
    by (simp add: stars_of_def fold_insort_mset fold_insort_sorted dict_ok_def)
qed

lemma ring_distinct:
  assumes "ring_ok H r" "no_star_collision H r"
  shows "distinct (map h4sh (ring r))"
proof -
  have "mset (map h4sh (ring r)) = mset (map h4sh (stars_of H r))"
    using assms(1) by (simp add: ring_ok_def)
  then show ?thesis
    using assms(2) unfolding no_star_collision_def by (metis mset_eq_imp_distinct_iff)
qed

lemma map_of_stars:
  assumes "dict_ok d" "dict_get d n = Some w"
  shows "set (constellation H r (n, w)) = {s \<in> set (concat (map (constellation H r) d)). snode s = n}"
proof -
  have "(n, w') \<in> set d \<longleftrightarrow> w' = w" for w'
    using assms by (metis dict_ok_def map_of_eq_Some_iff option.inject)
  then have "s \<in> set (concat (map (constellation H r) d)) \<and> snode s = n \<longleftrightarrow>
      s \<in> set (constellation H r (n, w))" for s
    using snode_constellation by fastforce
  then show ?thesis by blast
qed

lemma remove_one_ok:
  assumes ok: "ring_ok H r" and nc: "no_star_collision H r"
  shows "ring_ok H (remove_one H n r) \<and> no_star_collision H (remove_one H n r)
    \<and> ring (remove_one H n r) = filter (\<lambda>s. snode s \<noteq> n) (ring r)"
proof (cases "dict_get (rnodes r) n")
  case None
  then have "n \<notin> fst ` set (rnodes r)" by (simp add: map_of_eq_None_iff)
  then have "\<forall>s \<in> set (stars_of H r). snode s \<noteq> n"
    by (force simp: stars_of_def dest: snode_constellation)
  moreover have "set (ring r) = set (stars_of H r)"
    using ok by (metis ring_ok_def set_mset_mset)
  ultimately show ?thesis
    using None ok nc by (simp add: remove_one_def filter_True)
next
  case (Some w)
  have set: "set (ring r) = set (stars_of H r)"
    using ok by (metis ring_ok_def set_mset_mset)
  have inj: "inj_on h4sh (set (stars_of H r))"
    using nc by (simp add: no_star_collision_def distinct_map)
  have own: "set (constellation H r (n, w)) = {s \<in> set (stars_of H r). snode s = n}"
    using map_of_stars [OF _ Some] ok by (simp add: ring_ok_def stars_of_def)
  have hashes: "set (hashi H r n w) = h4sh ` set (constellation H r (n, w))"
    by (auto simp: constellation_def image_iff)
  have gone: "h4sh s \<in> set (hashi H r n w) \<longleftrightarrow> snode s = n" if "s \<in> set (stars_of H r)" for s
    unfolding hashes own using that inj by (auto simp: inj_on_def)
  have "fold remove_star (hashi H r n w) (ring r) = filter (\<lambda>s. h4sh s \<notin> set (hashi H r n w)) (ring r)"
    by (rule fold_remove_star) (rule ring_distinct [OF ok nc])
  also have "\<dots> = filter (\<lambda>s. snode s \<noteq> n) (ring r)"
    using gone set by (intro filter_cong) auto
  finally have rg: "ring (remove_one H n r) = filter (\<lambda>s. snode s \<noteq> n) (ring r)"
    using Some by (simp add: remove_one_def)
  have "stars_of H (remove_one H n r) = stars_of H (r\<lparr>rnodes := dict_del n (rnodes r)\<rparr>)"
    using Some constellation_cong [of "remove_one H n r" "r\<lparr>rnodes := dict_del n (rnodes r)\<rparr>" H]
    by (simp add: stars_of_def remove_one_def)
  then have st: "stars_of H (remove_one H n r) = filter (\<lambda>s. snode s \<noteq> n) (stars_of H r)"
    by (simp only: stars_of_del rnodes_self)
  have "dict_ok (rnodes (remove_one H n r))"
    using Some ok by (auto simp: remove_one_def ring_ok_def)
  moreover have "sorted (map h4sh (filter (\<lambda>s. snode s \<noteq> n) (ring r)))"
    using ok by (simp add: ring_ok_def sorted_filter)
  moreover have "distinct (map h4sh (filter (\<lambda>s. snode s \<noteq> n) (stars_of H r)))"
    using nc by (simp add: no_star_collision_def distinct_map_filter)
  ultimately show ?thesis
    using ok by (simp add: ring_ok_def no_star_collision_def rg st mset_filter)
qed

lemma remove_one_conf [simp]:
  "vnodes (remove_one H n r) = vnodes r" "default_weight (remove_one H n r) = default_weight r"
  "replicas (remove_one H n r) = replicas r"
  by (simp_all add: remove_one_def split: option.split)

lemma remove_nodes_conf [simp]:
  "vnodes (remove_nodes H ns r) = vnodes r" "default_weight (remove_nodes H ns r) = default_weight r"
  "replicas (remove_nodes H ns r) = replicas r"
  by (induction ns arbitrary: r) simp_all

lemma rnodes_remove_one:
  "dict_get (rnodes (remove_one H n r)) k = (if k = n then None else dict_get (rnodes r) k)"
  by (auto simp: remove_one_def dict_simps split: option.split)

lemma remove_nodes_ok:
  "\<lbrakk>ring_ok H r; no_star_collision H r\<rbrakk> \<Longrightarrow>
     ring_ok H (remove_nodes H ns r) \<and> no_star_collision H (remove_nodes H ns r)
     \<and> ring (remove_nodes H ns r) = filter (\<lambda>s. snode s \<notin> set ns) (ring r)
     \<and> dict_get (rnodes (remove_nodes H ns r)) = (\<lambda>k. if k \<in> set ns then None else dict_get (rnodes r) k)"
proof (induction ns arbitrary: r)
  case (Cons n ns)
  note one = remove_one_ok [OF Cons.prems, of n]
  then have "ring_ok H (remove_one H n r)" "no_star_collision H (remove_one H n r)" by simp_all
  from Cons.IH [OF this] one show ?case
    by (auto simp: rnodes_remove_one conj_commute fun_eq_iff)
qed simp

lemma add_nodes_ok:
  assumes ok: "ring_ok H r" and nc: "no_star_collision H r" and nodes: "dict_ok nodes"
  shows "ring_ok H (add_nodes H nodes r)"
    "dict_get (rnodes (add_nodes H nodes r)) k = (case dict_get nodes k of None \<Rightarrow> dict_get (rnodes r) k | Some w \<Rightarrow> Some w)"
proof -
  define common where "common = filter (\<lambda>n. n \<in> set (dict_keys nodes)) (dict_keys (rnodes r))"
  define r1 where "r1 = remove_nodes H common r"
  note rm = remove_nodes_ok [OF ok nc, of common, folded r1_def]
  have "k \<notin> fst ` set (rnodes r1)" if "k \<in> fst ` set nodes" for k
  proof (cases "k \<in> set common")
    case True
    then have "dict_get (rnodes r1) k = None" using rm by simp
    then show ?thesis by (simp add: map_of_eq_None_iff)
  next
    case False
    then have "k \<notin> fst ` set (rnodes r)" using that by (auto simp: common_def dict_keys_def)
    then have "dict_get (rnodes r1) k = None" using rm by (simp add: map_of_eq_None_iff)
    then show ?thesis by (simp add: map_of_eq_None_iff)
  qed
  then have fresh: "distinct (map fst (rnodes r1 @ nodes))"
    using rm nodes by (auto simp: ring_ok_def dict_ok_def)
  have eq: "add_nodes H nodes r = r1\<lparr>ring := fold (insort_right h4sh) (concat (map (constellation H r1) nodes)) (ring r1),
            rnodes := dict_update (rnodes r1) nodes\<rparr>"
    by (simp add: add_nodes_def common_def r1_def Let_def)
  show "ring_ok H (add_nodes H nodes r)"
    unfolding eq using rm by (intro add_fresh_ok fresh) simp
  have "map_of (rev nodes) k = map_of nodes k"
    using nodes by (intro map_of_eq_of_distinct_set) (simp_all add: dict_ok_def rev_map [symmetric])
  moreover have "k \<in> set common \<longleftrightarrow> dict_get nodes k \<noteq> None \<and> dict_get (rnodes r) k \<noteq> None"
    by (auto simp: common_def dict_keys_def map_of_eq_None_iff)
  ultimately show "dict_get (rnodes (add_nodes H nodes r)) k
      = (case dict_get nodes k of None \<Rightarrow> dict_get (rnodes r) k | Some w \<Rightarrow> Some w)"
    using rm by (auto simp: eq dict_get_update split: option.split)
qed

section \<open>Assigning keys\<close>

text \<open>The star that owns a hash: the next one clockwise.\<close>

definition owner :: "star list \<Rightarrow> nat \<Rightarrow> star" where
  "owner rg h = (case find (\<lambda>s. h < h4sh s) rg of Some s \<Rightarrow> s | None \<Rightarrow> hd rg)"

lemma owner_nth:
  fixes h :: nat
  assumes "sorted (map h4sh rg)" "rg \<noteq> []"
  defines "i \<equiv> bisect_right h4sh rg h 0 (length rg)"
  shows "rg ! (if i = length rg then 0 else i) = owner rg h" "(if i = length rg then 0 else i) < length rg"
proof -
  have i: "i \<le> length rg" "\<And>j. j < length rg \<Longrightarrow> h < h4sh (rg ! j) \<longleftrightarrow> i \<le> j"
    using bisect_right_pos [OF assms(1), where k = h] by (simp_all add: i_def)
  show "(if i = length rg then 0 else i) < length rg"
    using i(1) assms(2) by auto
  show "rg ! (if i = length rg then 0 else i) = owner rg h"
  proof (cases "i = length rg")
    case True
    then have "\<forall>s \<in> set rg. \<not> h < h4sh s"
      using i(2) by (auto simp: in_set_conv_nth)
    then have "find (\<lambda>s. h < h4sh s) rg = None"
      by (simp add: find_None_iff)
    with True assms(2) show ?thesis by (simp add: owner_def hd_conv_nth)
  next
    case False
    with i(1) have "i < length rg" by simp
    then have "find (\<lambda>s. h < h4sh s) rg = Some (rg ! i)"
      using i(2) by (auto simp: find_Some_iff intro!: exI [of _ i])
    with False show ?thesis by (simp add: owner_def)
  qed
qed

lemma find_append:
  "find P (xs @ ys) = (case find P xs of Some x \<Rightarrow> Some x | None \<Rightarrow> find P ys)"
  by (induction xs) auto

lemma owner_insort:
  assumes "rg \<noteq> []"
  shows "owner (insort_right h4sh x rg) h \<in> {owner rg h, x}"
proof -
  define b where "b = bisect_right h4sh rg (h4sh x) 0 (length rg)"
  have ins: "insort_right h4sh x rg = take b rg @ x # drop b rg"
    by (simp add: insort_right_def b_def Let_def)
  have "find (\<lambda>s. h < h4sh s) rg = find (\<lambda>s. h < h4sh s) (take b rg @ drop b rg)"
    by simp
  then have old: "find (\<lambda>s. h < h4sh s) rg = (case find (\<lambda>s. h < h4sh s) (take b rg) of
      Some s \<Rightarrow> Some s | None \<Rightarrow> find (\<lambda>s. h < h4sh s) (drop b rg))"
    by (simp only: find_append)
  have "hd (take b rg @ x # drop b rg) \<in> {hd rg, x}"
    using assms by (cases "b = 0") (auto simp: hd_append)
  with old show ?thesis
    by (auto simp: ins owner_def find_append split: option.splits)
qed

lemma insort_right_not_Nil: "insort_right key x xs \<noteq> []"
  by (simp add: insort_right_def Let_def)

lemma owner_fold_insort:
  "\<lbrakk>rg \<noteq> []; \<forall>s \<in> set ss. snode s = n\<rbrakk> \<Longrightarrow>
     snode (owner (fold (insort_right h4sh) ss rg) h) \<in> {snode (owner rg h), n}"
proof (induction ss arbitrary: rg)
  case (Cons s ss)
  have "snode (owner (insort_right h4sh s rg) h) \<in> {snode (owner rg h), n}"
    using owner_insort [OF Cons.prems(1), of s h] Cons.prems(2) by auto
  moreover have "snode (owner (fold (insort_right h4sh) ss (insort_right h4sh s rg)) h)
      \<in> {snode (owner (insort_right h4sh s rg) h), n}"
    using Cons.prems by (intro Cons.IH) (simp_all add: insort_right_not_Nil)
  ultimately show ?case by auto
qed simp

lemma owner_filter:
  assumes "Q (owner rg h)" "rg \<noteq> []"
  shows "owner (filter Q rg) h = owner rg h"
proof (cases "find (\<lambda>s. h < h4sh s) rg")
  case None
  then have "find (\<lambda>s. h < h4sh s) (filter Q rg) = None"
    by (auto simp: find_None_iff)
  with None assms show ?thesis
    by (cases rg) (auto simp: owner_def)
next
  case (Some s)
  then have "Q s" using assms by (simp add: owner_def)
  with Some have "find (\<lambda>s. h < h4sh s) (filter Q rg) = Some s"
    by (induction rg) (auto split: if_splits)
  with Some show ?thesis by (simp add: owner_def)
qed

lemma assign_loop_facts:
  assumes "distinct result" "length result \<le> reps"
  shows "distinct (assign_loop reps rg i xs result)"
    "\<exists>more. assign_loop reps rg i xs result = result @ more"
    "set (assign_loop reps rg i xs result) \<subseteq> set result \<union> (\<lambda>x. snode (py_nth rg (int i - int x))) ` set xs"
    "length (assign_loop reps rg i xs result) \<le> reps"
    "length (assign_loop reps rg i xs result) < reps \<Longrightarrow>
       (\<lambda>x. snode (py_nth rg (int i - int x))) ` set xs \<subseteq> set (assign_loop reps rg i xs result)"
  using assms
proof (induction reps rg i xs result rule: assign_loop.induct)
  case (2 reps rg index x xs result)
  let ?n = "snode (py_nth rg (int index - int x))"
  let ?r = "if ?n \<notin> set result then result @ [?n] else result"
  {
    case 1 with 2 show ?case by (auto simp: Let_def)
  next
    case 2
    show ?case
    proof (cases "length result = reps")
      case False
      then have "\<exists>more. assign_loop reps rg index xs ?r = ?r @ more"
        using "2.IH"(2) [OF False refl] 2 by auto
      then obtain more where "assign_loop reps rg index xs ?r = ?r @ more" by blast
      with False show ?thesis by (auto simp: Let_def)
    qed simp
  next
    case 3
    show ?case
    proof (cases "length result = reps")
      case False
      then have "set (assign_loop reps rg index xs ?r) \<subseteq> set ?r \<union> (\<lambda>x. snode (py_nth rg (int index - int x))) ` set xs"
        using "2.IH"(3) [OF False refl] 3 by auto
      with False show ?thesis by (auto simp: Let_def split: if_splits)
    qed auto
  next
    case 4 with 2 show ?case by (auto simp: Let_def)
  next
    case 5
    then have False': "length result \<noteq> reps" by auto
    then have l: "length (assign_loop reps rg index xs ?r) < reps"
      using 5 by (simp add: Let_def)
    have d: "distinct ?r" "length ?r \<le> reps" using 5 False' by auto
    have "(\<lambda>x. snode (py_nth rg (int index - int x))) ` set xs \<subseteq> set (assign_loop reps rg index xs ?r)"
      using "2.IH"(5) [OF False' refl l d] by simp
    moreover obtain more where "assign_loop reps rg index xs ?r = ?r @ more"
      using "2.IH"(2) [OF False' refl d] by blast
    then have "?n \<in> set (assign_loop reps rg index xs ?r)" by auto
    ultimately show ?case using False' by (simp add: Let_def)
  }
qed auto

lemma py_nth_around:
  assumes "i < length rg"
  shows "(\<lambda>x. snode (py_nth rg (int i - int x))) ` set [0..<length rg] = snode ` set rg"
proof -
  have idx: "nat (if int i - int x < 0 then int i - int x + int (length rg) else int i - int x) < length rg"
    if "x < length rg" for x using that assms by auto
  have "py_nth rg (int i - int x) \<in> set rg" if "x < length rg" for x
    unfolding py_nth_def by (rule nth_mem) (rule idx [OF that])
  then have sub: "(\<lambda>x. py_nth rg (int i - int x)) ` set [0..<length rg] \<subseteq> set rg"
    by auto
  have ex: "\<exists>x < length rg. py_nth rg (int i - int x) = rg ! j" if "j < length rg" for j
  proof -
    have "py_nth rg (int i - int (if j \<le> i then i - j else i + length rg - j)) = rg ! j"
      using that assms by (auto simp: py_nth_def nat_diff_distrib of_nat_diff)
    moreover have "(if j \<le> i then i - j else i + length rg - j) < length rg"
      using that assms by auto
    ultimately show ?thesis by blast
  qed
  have "(\<lambda>x. py_nth rg (int i - int x)) ` set [0..<length rg] = set rg"
  proof (rule antisym [OF sub], rule subsetI)
    fix s assume "s \<in> set rg"
    then obtain j where "j < length rg" "rg ! j = s" by (auto simp: in_set_conv_nth)
    with ex obtain x where "x < length rg" "py_nth rg (int i - int x) = s" by blast
    then show "s \<in> (\<lambda>x. py_nth rg (int i - int x)) ` set [0..<length rg]" by auto
  qed
  then have "snode ` (\<lambda>x. py_nth rg (int i - int x)) ` set [0..<length rg] = snode ` set rg"
    by (rule arg_cong)
  then show ?thesis by (simp only: image_image)
qed

lemma ring_nodes:
  assumes "ring_ok H r" "s \<in> set (ring r)"
  shows "snode s \<in> set (dict_keys (rnodes r))"
proof -
  have "s \<in> set (stars_of H r)"
    using assms by (metis ring_ok_def set_mset_mset)
  then show ?thesis
    by (force simp: stars_of_def dict_keys_def dest: snode_constellation)
qed

lemma assign_key_facts:
  assumes ok: "ring_ok H r" and "ring r \<noteq> []" and "0 < replicas r"
  obtains res where "assign_key H key r = Inr res" "distinct res" "res \<noteq> []"
    "set res \<subseteq> snode ` set (ring r)"
    "length res = min (replicas r) (card (snode ` set (ring r)))"
    "hd res = snode (owner (ring r) (H key))"
proof -
  have sorted: "sorted (map h4sh (ring r))" using ok by (simp add: ring_ok_def)
  define i where "i = (if bisect_right h4sh (ring r) (H key) 0 (length (ring r)) = length (ring r) then 0
    else bisect_right h4sh (ring r) (H key) 0 (length (ring r)))"
  have i: "ring r ! i = owner (ring r) (H key)" "i < length (ring r)"
    unfolding i_def by (rule owner_nth [OF sorted assms(2)])+
  let ?start = "[snode (owner (ring r) (H key))]"
  define res where "res = assign_loop (replicas r) (ring r) i [0..<length (ring r)] ?start"
  have start: "distinct ?start" "length ?start \<le> replicas r" using assms(3) by simp_all
  note facts = assign_loop_facts [OF start, of "ring r" i "[0..<length (ring r)]", folded res_def,
      unfolded py_nth_around [OF i(2)]]
  have own: "snode (owner (ring r) (H key)) \<in> snode ` set (ring r)"
    using i by (metis imageI nth_mem)
  have sub: "set res \<subseteq> snode ` set (ring r)" using facts(3) own by auto
  obtain more where more: "res = ?start @ more" using facts(2) by blast
  have len: "length res = card (set res)" using facts(1) by (simp add: distinct_card)
  have "length res = min (replicas r) (card (snode ` set (ring r)))"
  proof (cases "length res < replicas r")
    case True
    then have "set res = snode ` set (ring r)" using facts(5) sub by blast
    with len True show ?thesis by simp
  next
    case False
    then have "length res = replicas r" using facts(4) by simp
    moreover have "card (set res) \<le> card (snode ` set (ring r))"
      using sub by (intro card_mono) auto
    ultimately show ?thesis using len by simp
  qed
  moreover have "assign_key H key r = Inr res"
    using assms(2) i(1) by (simp add: assign_key_def res_def i_def Let_def)
  ultimately show thesis
    using that facts(1) sub more by simp
qed

section \<open>Properties\<close>

text \<open>The value of a result that is one; an exception has none.\<close>

definition the_ok :: "'a list result \<Rightarrow> 'a list" where
  "the_ok r = (case r of Inr x \<Rightarrow> x | Inl _ \<Rightarrow> [])"

text \<open>The instances hash a string to a small number; the rings below have no collision.\<close>

definition toy_md5 :: "string \<Rightarrow> nat" where
  "toy_md5 s = foldl (\<lambda>a c. (a * 3 + of_char c) mod 61) 0 s"

definition ring2 :: hash_ring where
  "ring2 = new_ring toy_md5 [(''a'', None), (''b'', Some 1)] 3 1 1"

text \<open>C37. A non-empty ring assigns to every key distinct nodes of the ring: as many as the replicas
  asked for, or all nodes when there are fewer, the owner of the key's hash (the next star
  clockwise) first.\<close>

theorem assign_key_nodes:
  assumes "ring_ok H r" "ring r \<noteq> []" "0 < replicas r"
  shows "\<exists>res. assign_key H key r = Inr res \<and> distinct res \<and> set res \<subseteq> set (dict_keys (rnodes r)) \<and>
    length res = min (replicas r) (card (snode ` set (ring r))) \<and> hd res = snode (owner (ring r) (H key))"
proof -
  obtain res where "assign_key H key r = Inr res" "distinct res" "set res \<subseteq> snode ` set (ring r)"
    "length res = min (replicas r) (card (snode ` set (ring r)))" "hd res = snode (owner (ring r) (H key))"
    using assign_key_facts [OF assms] by metis
  with ring_nodes [OF assms(1)] show ?thesis by blast
qed

theorem assign_key_nodes_witness:
  "\<exists>res. assign_key toy_md5 ''k'' ring2 = Inr res \<and> distinct res \<and> set res \<subseteq> set (dict_keys (rnodes ring2)) \<and>
    length res = min (replicas ring2) (card (snode ` set (ring ring2)))
    \<and> hd res = snode (owner (ring ring2) (toy_md5 ''k''))"
  by (rule assign_key_nodes) code_simp+

text \<open>The ring is reproducible: two rings with the same nodes, weights and settings are equal
  and assign every key alike, in whatever order the nodes were added (no two stars colliding).\<close>

theorem assign_key_reproducible:
  assumes "ring_ok H a" "ring_ok H b" "no_star_collision H b"
    and "vnodes a = vnodes b" "default_weight a = default_weight b" "replicas a = replicas b"
    and "dict_get (rnodes a) = dict_get (rnodes b)"
  shows "ring a = ring b \<and> assign_key H key a = assign_key H key b"
  using ring_canonical [OF assms(1-5,7)] assms(6) by (simp add: assign_key_def Let_def)

definition ring2' :: hash_ring where
  "ring2' = add_node toy_md5 ''a'' None (new_ring toy_md5 [(''b'', Some 1)] 3 1 1)"

theorem assign_key_reproducible_witness:
  "ring ring2' = ring ring2 \<and> assign_key toy_md5 ''k'' ring2' = assign_key toy_md5 ''k'' ring2"
proof (rule assign_key_reproducible)
  have "rnodes ring2 = [(''a'', None), (''b'', Some 1)]" "rnodes ring2' = [(''b'', Some 1), (''a'', None)]"
    by code_simp+
  then show "dict_get (rnodes ring2') = dict_get (rnodes ring2)" by (simp add: fun_eq_iff)
qed code_simp+

text \<open>C38. Adding and removing nodes keep the ring invariant (the stars of the configured nodes,
  sorted) and update the node table as a map.\<close>

theorem ring_updates_ok:
  assumes "ring_ok H r" "no_star_collision H r" "dict_ok nodes"
  shows "ring_ok H (add_nodes H nodes r) \<and> ring_ok H (remove_nodes H ns r) \<and>
    dict_get (rnodes (add_nodes H nodes r)) k
      = (case dict_get nodes k of None \<Rightarrow> dict_get (rnodes r) k | Some w \<Rightarrow> Some w) \<and>
    dict_get (rnodes (remove_nodes H ns r)) k = (if k \<in> set ns then None else dict_get (rnodes r) k)"
  using add_nodes_ok [OF assms] remove_nodes_ok [OF assms(1,2)] by simp

theorem ring_updates_ok_witness:
  "ring_ok toy_md5 (add_nodes toy_md5 [(''a'', Some 2)] ring2) \<and> ring_ok toy_md5 (remove_nodes toy_md5 [''b''] ring2) \<and>
    dict_get (rnodes (add_nodes toy_md5 [(''a'', Some 2)] ring2)) ''b''
      = (case dict_get [(''a'', Some 2)] ''b'' of None \<Rightarrow> dict_get (rnodes ring2) ''b'' | Some w \<Rightarrow> Some w) \<and>
    dict_get (rnodes (remove_nodes toy_md5 [''b''] ring2)) ''b''
      = (if ''b'' \<in> set [''b''] then None else dict_get (rnodes ring2) ''b'')"
  by (rule ring_updates_ok) code_simp+

text \<open>C39. Minimal disruption: adding a node moves a key only to the new node, and removing a node
  moves only the keys it owned.\<close>

theorem ring_minimal_disruption:
  assumes "ring_ok H r" "no_star_collision H r" "ring r \<noteq> []" "0 < replicas r"
    and "dict_get (rnodes r) n = None"
  shows "is_ok (assign_key H key (add_node H n w r)) \<and>
     hd (the_ok (assign_key H key (add_node H n w r))) \<in> {hd (the_ok (assign_key H key r)), n} \<and>
     (m \<noteq> hd (the_ok (assign_key H key r)) \<longrightarrow>
       is_ok (assign_key H key (remove_node H m r)) \<and>
       hd (the_ok (assign_key H key (remove_node H m r))) = hd (the_ok (assign_key H key r)))"
proof -
  obtain res where res: "assign_key H key r = Inr res" "hd res = snode (owner (ring r) (H key))"
    using assign_key_facts [OF assms(1,3,4)] by metis
  have add_eq: "add_node H n w r = r\<lparr>ring := fold (insort_right h4sh) (constellation H r (n, w)) (ring r),
      rnodes := dict_set n w (rnodes r)\<rparr>"
  proof -
    have "filter (\<lambda>k. k = n) (map fst (rnodes r)) = []"
      using assms(5) by (auto simp: filter_empty_conv map_of_eq_None_iff)
    then show ?thesis
      by (simp add: add_node_def add_nodes_def dict_keys_def Let_def)
  qed
  have ok: "ring_ok H (add_node H n w r)"
    unfolding add_node_def by (rule add_nodes_ok [OF assms(1,2)]) (simp add: dict_ok_def)
  have ne: "ring (add_node H n w r) \<noteq> []"
    using assms(3) fold_insort_mset [of "constellation H r (n, w)" "ring r"] by (auto simp: add_eq)
  have reps': "0 < replicas (add_node H n w r)" using assms(4) by (simp add: add_eq)
  obtain res' where res': "assign_key H key (add_node H n w r) = Inr res'"
    "hd res' = snode (owner (ring (add_node H n w r)) (H key))"
    using assign_key_facts [OF ok ne reps', of key] by metis
  have "hd res' \<in> {hd res, n}"
    unfolding res(2) res'(2) add_eq using owner_fold_insort [OF assms(3)]
    by (simp add: snode_constellation)
  moreover have "is_ok (assign_key H key (remove_node H m r)) \<and>
       hd (the_ok (assign_key H key (remove_node H m r))) = hd res" if m: "m \<noteq> hd res"
  proof -
    note rm = remove_nodes_ok [OF assms(1,2), of "[m]", folded remove_node_def]
    have own: "snode (owner (ring r) (H key)) \<noteq> m" using m res(2) by simp
    note same = owner_filter [where Q = "\<lambda>s. snode s \<noteq> m", OF own assms(3)]
    have "owner (ring r) (H key) \<in> set (ring r)"
      using owner_nth [OF _ assms(3)] assms(1) by (metis nth_mem ring_ok_def)
    then have ne': "ring (remove_node H m r) \<noteq> []"
      using rm own by (auto simp: filter_empty_conv)
    have reps: "0 < replicas (remove_node H m r)" using assms(4) by (simp add: remove_node_def)
    obtain res'' where "assign_key H key (remove_node H m r) = Inr res''"
      "hd res'' = snode (owner (ring (remove_node H m r)) (H key))"
      using assign_key_facts [OF _ ne' reps, of H key] rm by metis
    with rm same res(2) show ?thesis by (simp add: the_ok_def)
  qed
  ultimately show ?thesis
    using res res' by (simp add: the_ok_def)
qed

theorem ring_minimal_disruption_witness:
  "is_ok (assign_key toy_md5 ''k'' (add_node toy_md5 ''c'' None ring2)) \<and>
     hd (the_ok (assign_key toy_md5 ''k'' (add_node toy_md5 ''c'' None ring2)))
       \<in> {hd (the_ok (assign_key toy_md5 ''k'' ring2)), ''c''} \<and>
     is_ok (assign_key toy_md5 ''k'' (remove_node toy_md5 ''zz'' ring2)) \<and>
     hd (the_ok (assign_key toy_md5 ''k'' (remove_node toy_md5 ''zz'' ring2)))
       = hd (the_ok (assign_key toy_md5 ''k'' ring2))"
proof -
  have main: "is_ok (assign_key toy_md5 ''k'' (add_node toy_md5 ''c'' None ring2)) \<and>
     hd (the_ok (assign_key toy_md5 ''k'' (add_node toy_md5 ''c'' None ring2)))
       \<in> {hd (the_ok (assign_key toy_md5 ''k'' ring2)), ''c''} \<and>
     (''zz'' \<noteq> hd (the_ok (assign_key toy_md5 ''k'' ring2)) \<longrightarrow>
       is_ok (assign_key toy_md5 ''k'' (remove_node toy_md5 ''zz'' ring2)) \<and>
       hd (the_ok (assign_key toy_md5 ''k'' (remove_node toy_md5 ''zz'' ring2)))
         = hd (the_ok (assign_key toy_md5 ''k'' ring2)))"
    by (rule ring_minimal_disruption) code_simp+
  have "''zz'' \<noteq> hd (the_ok (assign_key toy_md5 ''k'' ring2))"
    by code_simp
  with main show ?thesis by blast
qed

definition colliding_ring :: hash_ring where
  "colliding_ring = new_ring toy_md5 [(''aid-1'', None), (''aid-11'', None)] 11 1 1"

text \<open>Stars are named by the node id followed by the star's number, so that two ids of which one
  continues the other with digits share stars under every hash function (\<open>aid-1\<close> number 10 and
  \<open>aid-11\<close> number 0). Removing \<open>aid-11\<close> then removes the other node's star and leaves one of its
  own: keys are still assigned to the removed node.\<close>

theorem star_names_collide:
  "(hashi H r ''aid-1'' (Some 11) ! 10 = hashi H r ''aid-11'' (Some 11) ! 0 \<or> vnodes r = 0)
   \<and> dict_keys (rnodes (remove_node toy_md5 ''aid-11'' colliding_ring)) = [''aid-1'']
   \<and> assign_key toy_md5 ''tn1'' (remove_node toy_md5 ''aid-11'' colliding_ring) = Inr [''aid-11'']"
proof -
  have "nat_str 10 = ''10''" "nat_str 0 = ''0''" by code_simp+
  then have "hashi H r ''aid-1'' (Some 11) ! 10 = hashi H r ''aid-11'' (Some 11) ! 0 \<or> vnodes r = 0"
    by (cases "vnodes r") (simp_all add: hashi_def Let_def)
  moreover have "dict_keys (rnodes (remove_node toy_md5 ''aid-11'' colliding_ring)) = [''aid-1'']"
    "assign_key toy_md5 ''tn1'' (remove_node toy_md5 ''aid-11'' colliding_ring) = Inr [''aid-11'']"
    by code_simp+
  ultimately show ?thesis by blast
qed

end
