(* ===== verification/Aim_Utils.thy ===== *)
theory Aim_Utils
  imports Json Complex_Main "HOL-Library.Multiset"
begin

text \<open>
  \<open>aim/common/utils.py\<close>: comparison of nested values up to order, small string helpers, back-off and
  the retry loop around the agent's threads, stopping a thread. Times are rationals (seconds);
  the clock, the random numbers, the outcomes of the wrapped function and the thread's state are
  sequences given to the model.
\<close>

section \<open>Comparison\<close>

text \<open>\<open>deep_sort\<close>: dictionaries by key, lists by their JSON text, innermost first.\<close>

fun deep_sort :: "json \<Rightarrow> json" where
  "deep_sort (JObj kvs) = JObj (map (\<lambda>kv. (fst kv, deep_sort (snd kv))) (sort_key fst kvs))"
| "deep_sort (JList xs) = JList (sort_key json_dumps (map deep_sort xs))"
| "deep_sort v = v"

definition is_equal :: "json \<Rightarrow> json \<Rightarrow> bool" where
  "is_equal a b \<longleftrightarrow> deep_sort a = deep_sort b"

definition cmp :: "'a :: linorder \<Rightarrow> 'a \<Rightarrow> int" where
  "cmp x y = (if x > y then 1 else 0) - (if x < y then 1 else 0)"

section \<open>Strings\<close>

definition is_upper :: "char \<Rightarrow> bool" where
  "is_upper c \<longleftrightarrow> CHR ''A'' \<le> c \<and> c \<le> CHR ''Z''"

definition is_lower :: "char \<Rightarrow> bool" where
  "is_lower c \<longleftrightarrow> CHR ''a'' \<le> c \<and> c \<le> CHR ''z''"

definition to_upper :: "char \<Rightarrow> char" where
  "to_upper c = (if is_lower c then char_of (of_char c - 32 :: nat) else c)"

definition to_lower :: "char \<Rightarrow> char" where
  "to_lower c = (if is_upper c then char_of (of_char c + 32 :: nat) else c)"

definition lower :: "string \<Rightarrow> string" where
  "lower s = map to_lower s"

definition stob :: "string \<Rightarrow> bool option" where
  "stob s = (if lower s \<in> {''true'', ''yes'', ''t'', ''y'', ''1''} then Some True
             else if lower s \<in> {''false'', ''no'', ''f'', ''n'', ''0''} then Some False
             else None)"

text \<open>The two substitutions of \<open>camel_to_snake\<close>, leftmost matches first, not overlapping.\<close>

function camel_sub1 :: "string \<Rightarrow> string" where
  "camel_sub1 (c # u # l # rest) =
     (if c \<noteq> CHR 0x0A \<and> is_upper u \<and> is_lower l
      then c # CHR ''_'' # u # takeWhile is_lower (l # rest) @ camel_sub1 (dropWhile is_lower (l # rest))
      else c # camel_sub1 (u # l # rest))"
| "camel_sub1 [] = []"
| "camel_sub1 [c] = [c]"
| "camel_sub1 [c, d] = [c, d]"
  by pat_completeness auto
termination
  by (relation "measure length") (auto simp: le_imp_less_Suc less_SucI length_dropWhile_le)

fun camel_sub2 :: "string \<Rightarrow> string" where
  "camel_sub2 (c # u # rest) =
     (if (is_lower c \<or> is_digit c) \<and> is_upper u then c # CHR ''_'' # u # camel_sub2 rest
      else c # camel_sub2 (u # rest))"
| "camel_sub2 s = s"

definition camel_to_snake :: "string \<Rightarrow> string" where
  "camel_to_snake name = lower (camel_sub2 (camel_sub1 name))"

definition capitalize :: "string \<Rightarrow> string" where
  "capitalize s = (case s of [] \<Rightarrow> [] | c # cs \<Rightarrow> to_upper c # lower cs)"

definition snake_to_lower_camel :: "string \<Rightarrow> string" where
  "snake_to_lower_camel name =
     (case py_split (CHR ''_'') name of [] \<Rightarrow> [] | w # ws \<Rightarrow> w @ concat (map capitalize ws))"

text \<open>
  \<open>sanitize_name\<close>: the digest of the type and the components, each closed by a NUL, in lower-case
  base 32 without padding. \<open>digest\<close> stands for \<open>b32encode(sha256(text))\<close>.
\<close>

definition sanitize_text :: "string \<Rightarrow> string list \<Rightarrow> string" where
  "sanitize_text type args = concat (map (\<lambda>s. s @ [CHR 0x00]) (type # args))"

definition rstrip :: "char \<Rightarrow> string \<Rightarrow> string" where
  "rstrip c s = rev (dropWhile (\<lambda>x. x = c) (rev s))"

definition sanitize_name :: "(string \<Rightarrow> string) \<Rightarrow> string \<Rightarrow> string list \<Rightarrow> string" where
  "sanitize_name digest type args = lower (rstrip (CHR ''='') (digest (sanitize_text type args)))"

section \<open>Waiting and retrying\<close>

text \<open>\<open>wait_for_next_cycle\<close>: the time slept.\<close>

definition wait_for_next_cycle :: "rat \<Rightarrow> rat \<Rightarrow> rat \<Rightarrow> rat" where
  "wait_for_next_cycle now start_time polling_interval =
     (let elapsed = now - start_time in
      if elapsed < polling_interval then polling_interval - elapsed else 0)"

text \<open>
  \<open>get_backoff_time\<close>: \<open>random.random() * 2 ** n\<close>, at most \<open>max_time\<close>; the product overflows a float
  from \<open>n = 1024\<close> on. The tracking of failed operations calls it with \<open>-1\<close> as well.
\<close>

definition get_backoff_time :: "rat \<Rightarrow> rat \<Rightarrow> int \<Rightarrow> rat" where
  "get_backoff_time rnd max_time n =
     (if 1024 \<le> n then max_time else min (rnd * (if 0 \<le> n then 2 ^ nat n else 1 / 2 ^ nat (- n))) max_time)"

text \<open>\<open>exponential_backoff\<close>: the time slept and the counter, one up.\<close>

definition exponential_backoff :: "rat \<Rightarrow> rat \<Rightarrow> nat option \<Rightarrow> rat \<times> nat" where
  "exponential_backoff rnd max_time tentative =
     (let n = (case tentative of None \<Rightarrow> 0 | Some n \<Rightarrow> n) in (get_backoff_time rnd max_time (int n), Suc n))"

text \<open>
  \<open>retry_loop\<close>: what one call of the wrapped function does, and how the loop ends: with a value, by
  \<open>StopLoop\<close>, by an exception raised again, or not at all on the given outcomes.
\<close>

datatype 'a outcome = Done 'a | StopLoop | ThreadExit | Failed exc

datatype 'a loop_end = Returned 'a | Stopped | Exited | GaveUp exc | Running "nat option"

fun retry_loop :: "nat \<Rightarrow> bool \<Rightarrow> 'a outcome list \<Rightarrow> nat option \<Rightarrow> 'a loop_end \<times> nat" where
  "retry_loop max_retries ret [] retries = (Running retries, 0)"
| "retry_loop max_retries ret (out # outs) retries =
     (case out of
        Done x \<Rightarrow>
          if ret then (Returned x, 1)
          else (let (e, n) = retry_loop max_retries ret outs None in (e, Suc n))
      | StopLoop \<Rightarrow> (Stopped, 1)
      | ThreadExit \<Rightarrow> (Exited, 1)
      | Failed e \<Rightarrow>
          (let r = Suc (case retries of None \<Rightarrow> 0 | Some n \<Rightarrow> n) in
           if max_retries \<le> r then (GaveUp e, 1)
           else (let (e', n) = retry_loop max_retries ret outs (Some r) in (e', Suc n))))"

text \<open>\<open>schedule_next_event\<close>, with \<open>random.randrange\<close>'s result; an empty range raises.\<close>

definition py_int :: "rat \<Rightarrow> int" where
  "py_int q = (if 0 \<le> q then \<lfloor>q\<rfloor> else \<lceil>q\<rceil>)"

definition schedule_next_event :: "rat \<Rightarrow> int \<Rightarrow> rat \<Rightarrow> rat \<Rightarrow> rat result" where
  "schedule_next_event now rnd interval deviation =
     (if py_int (interval * deviation) \<le> py_int (- interval * deviation) then Inl ValueError
      else Inr (now + interval + of_int rnd))"

section \<open>Stopping a thread\<close>

text \<open>
  \<open>AIMThread.kill\<close> on a started thread: \<open>obs i\<close> is what the \<open>i\<close>-th look at the thread and the
  clock shows (is the thread dead, the time). The loop looks once per round; fuel bounds the
  rounds. The result: the rounds slept, and whether the final \<open>raise\<close> is reached. That \<open>raise\<close>
  has no exception to raise again, so Python raises \<open>RuntimeError\<close>.
\<close>

fun kill_wait :: "nat \<Rightarrow> (nat \<Rightarrow> bool \<times> rat) \<Rightarrow> rat \<Rightarrow> rat \<Rightarrow> nat \<Rightarrow> nat \<times> nat" where
  "kill_wait 0 obs start timeout i = (0, i)"
| "kill_wait (Suc fuel) obs start timeout i =
     (if \<not> fst (obs i) \<and> start + timeout < snd (obs i)
      then (let (rounds, j) = kill_wait fuel obs start timeout (Suc i) in (Suc rounds, j))
      else (0, i))"

definition thread_kill :: "nat \<Rightarrow> (nat \<Rightarrow> bool \<times> rat) \<Rightarrow> bool \<Rightarrow> rat \<Rightarrow> nat \<times> unit result" where
  "thread_kill fuel obs wait timeout =
     (if wait then
        (let start = snd (obs 0); (rounds, i) = kill_wait fuel obs start timeout 1 in
         (rounds, if fst (obs (Suc i)) then Inr () else Inl (OtherError ''RuntimeError'')))
      else (0, Inr ()))"

section \<open>Facts\<close>

lemma lower_Nil [simp]: "lower [] = []" and lower_Cons [simp]: "lower (c # s) = to_lower c # lower s"
  by (simp_all add: lower_def)

lemma deep_sort_json_ok: "json_ok v \<Longrightarrow> json_ok (deep_sort v)"
proof (induction v)
  case (JObj kvs)
  have "distinct (map fst (sort_key fst kvs))"
    using JObj.prems by (metis json_ok.simps(2) mset_eq_imp_distinct_iff mset_map mset_sort)
  with JObj show ?case
    by (auto simp: list_all_iff comp_def)
qed (auto simp: list_all_iff)

text \<open>Lists that are permutations of each other are equal.\<close>

lemma deep_sort_perm:
  assumes "mset xs = mset ys" "\<forall>x \<in> set xs. json_ok x"
  shows "deep_sort (JList xs) = deep_sort (JList ys)"
proof -
  have "\<forall>y \<in> set ys. json_ok y" using assms by (metis set_mset_mset)
  then have "inj_on json_dumps (set (map deep_sort xs))"
    using assms deep_sort_json_ok json_dumps_inj by (auto simp: inj_on_def)
  moreover have "mset (map deep_sort xs) = mset (sort_key json_dumps (map deep_sort ys))"
    using assms(1) by simp
  ultimately have "sort_key json_dumps (map deep_sort xs) = sort_key json_dumps (map deep_sort ys)"
    by (intro sort_key_inj_key_eq) auto
  then show ?thesis by simp
qed

lemma sanitize_text_inj:
  assumes "\<forall>s \<in> set (t # as). CHR 0x00 \<notin> set s" "\<forall>s \<in> set (u # bs). CHR 0x00 \<notin> set s"
    and "sanitize_text t as = sanitize_text u bs"
  shows "t = u \<and> as = bs"
proof -
  have split: "py_split (CHR 0x00) (concat (map (\<lambda>s. s @ [CHR 0x00]) xs)) = xs @ [[]]"
    if "\<forall>s \<in> set xs. CHR 0x00 \<notin> set s" for xs
    using that by (induction xs) (simp_all add: py_split_sep)
  have "(t # as) @ [[]] = (u # bs) @ [[]]"
    using split [OF assms(1)] split [OF assms(2)] assms(3) unfolding sanitize_text_def by metis
  then show ?thesis by simp
qed

text \<open>The longest run of failures, \<open>k\<close> failures having come before.\<close>

fun fails :: "'a outcome \<Rightarrow> bool" where
  "fails (Failed e) = True"
| "fails _ = False"

fun goes_on :: "'a outcome \<Rightarrow> bool" where
  "goes_on (Done x) = True"
| "goes_on (Failed e) = True"
| "goes_on _ = False"

fun longest_run :: "nat \<Rightarrow> 'a outcome list \<Rightarrow> nat" where
  "longest_run k [] = k"
| "longest_run k (out # outs) = (if fails out then longest_run (Suc k) outs else max k (longest_run 0 outs))"

lemma longest_run_ge: "k \<le> longest_run k outs"
  by (induction k outs rule: longest_run.induct) auto

lemma fst_counted [simp]: "fst (case p of (e, n) \<Rightarrow> (e, Suc n)) = fst p"
  by (cases p) simp

lemma retry_loop_gives_up:
  "\<lbrakk>list_all goes_on outs; (case retries of None \<Rightarrow> 0 | Some k \<Rightarrow> k) < m\<rbrakk> \<Longrightarrow>
     (\<exists>e. fst (retry_loop m False outs retries) = GaveUp e) \<longleftrightarrow>
     m \<le> longest_run (case retries of None \<Rightarrow> 0 | Some k \<Rightarrow> k) outs"
proof (induction outs arbitrary: retries)
  case (Cons out outs)
  define k where "k = (case retries of None \<Rightarrow> 0 | Some k \<Rightarrow> k)"
  have k: "k < m" using Cons.prems by (simp add: k_def)
  consider x where "out = Done x" | e where "out = Failed e"
    using Cons.prems by (cases out) auto
  then show ?case
  proof cases
    case 1
    then show ?thesis
      using Cons.IH [of None] Cons.prems k by (auto simp: k_def [symmetric])
  next
    case 2
    show ?thesis
    proof (cases "m \<le> Suc k")
      case True
      then have "m \<le> longest_run (Suc k) outs"
        using longest_run_ge [of "Suc k" outs] by simp
      with True 2 show ?thesis by (simp add: k_def [symmetric] Let_def)
    next
      case False
      then show ?thesis
        using 2 Cons.IH [of "Some (Suc k)"] Cons.prems
        by (simp add: k_def [symmetric] Let_def)
    qed
  qed
qed simp

section \<open>Properties\<close>

text \<open>\<open>is_equal\<close> does not see the order of list elements, at any nesting level where the lists
  are compared.\<close>

theorem is_equal_permutation:
  assumes "mset xs = mset ys" "\<forall>x \<in> set xs. json_ok x"
  shows "is_equal (JList xs) (JList ys) \<and> is_equal (JObj [(k, JList xs)]) (JObj [(k, JList ys)])"
  using deep_sort_perm [OF assms] by (simp add: is_equal_def)

theorem is_equal_permutation_witness:
  "is_equal (JList [JInt 2, JStr ''a'']) (JList [JStr ''a'', JInt 2])
    \<and> is_equal (JObj [(''k'', JList [JInt 2, JStr ''a''])]) (JObj [(''k'', JList [JStr ''a'', JInt 2])])"
  by (rule is_equal_permutation) simp_all

text \<open>The names \<open>sanitize_name\<close> digests are different texts for different arguments, as long as
  no argument has a NUL character: the separator keeps components apart.\<close>

theorem sanitize_name_text_injective:
  assumes "\<forall>s \<in> set (t # as). CHR 0x00 \<notin> set s" "\<forall>s \<in> set (u # bs). CHR 0x00 \<notin> set s"
    and "(t, as) \<noteq> (u, bs)"
  shows "sanitize_text t as \<noteq> sanitize_text u bs"
  using sanitize_text_inj [OF assms(1,2)] assms(3) by blast

theorem sanitize_name_text_injective_witness:
  "sanitize_text ''sg'' [''ab'', ''c''] \<noteq> sanitize_text ''sg'' [''a'', ''bc'']"
  by (rule sanitize_name_text_injective) simp_all

text \<open>The retry loop raises the failure again exactly when the outcomes contain \<open>max_retries\<close>
  failures in a row; a success in between resets the count.\<close>

theorem retry_loop_gives_up_iff:
  assumes "0 < m" "list_all goes_on outs"
  shows "(\<exists>e. fst (retry_loop m False outs None) = GaveUp e) \<longleftrightarrow> m \<le> longest_run 0 outs"
  using retry_loop_gives_up [OF assms(2), of None m] assms(1) by simp

theorem retry_loop_gives_up_iff_witness:
  "(\<exists>e. fst (retry_loop 2 False [Failed KeyError, Done (), Failed KeyError, Failed ValueError] None) = GaveUp e)
    \<and> \<not> (\<exists>e. fst (retry_loop 2 False [Failed KeyError, Done (), Failed KeyError] None) = GaveUp e)"
  using retry_loop_gives_up_iff [of 2 "[Failed KeyError, Done (), Failed KeyError, Failed ValueError]"]
    retry_loop_gives_up_iff [of 2 "[Failed KeyError, Done (), Failed KeyError]"] by simp

text \<open>\<open>kill(wait=True)\<close> does not wait: as long as the timeout has not passed its loop ends in the
  first round, and a thread still alive then makes it raise \<open>RuntimeError\<close> at once.\<close>

theorem thread_kill_does_not_wait:
  assumes "snd (obs 1) \<le> snd (obs 0) + timeout"
  shows "thread_kill (Suc fuel) obs True timeout
    = (0, if fst (obs 2) then Inr () else Inl (OtherError ''RuntimeError''))"
  using assms by (simp add: thread_kill_def numeral_2_eq_2)

theorem thread_kill_does_not_wait_witness:
  "thread_kill 5 (\<lambda>i. (False, of_nat i)) True 10 = (0, Inl (OtherError ''RuntimeError''))"
  using thread_kill_does_not_wait [of "\<lambda>i. (False, of_nat i)" 10 4] by (simp add: eval_nat_numeral)

end
