(* ===== verification/Resource_Base.thy ===== *)
theory Resource_Base
  imports Hash_Tree
begin

text \<open>
  \<open>aim/api/types.py\<close> and the base classes of \<open>aim/api/resource.py\<close>: attribute schemas (JSON schema
  values), resource classes, resource objects with their constructor, identity, names and
  comparison. A class is a record \<open>klass\<close>; an object is its class name and the dictionary of its
  attributes. The configuration read by constructors (\<open>cfg.CONF.aim\<close>, generated uuids) is the
  record \<open>conf\<close>. Names of ACI objects come from the \<open>apicapi\<close> package and are parameters.
\<close>

section \<open>Attribute types\<close>

definition t_type :: "string \<Rightarrow> json" where "t_type s = JObj [(''type'', JStr s)]"

definition UNSPECIFIED :: string where "UNSPECIFIED = ''unspecified''"

definition t_enum :: "json list \<Rightarrow> json" where
  "t_enum args = JObj [(''type'', JStr ''string''), (''enum'', JList args)]"

definition t_string :: "nat option \<Rightarrow> json" where
  "t_string len = (case len of
      None \<Rightarrow> JObj [(''type'', JStr ''string'')]
    | Some n \<Rightarrow> JObj [(''type'', JStr ''string''), (''maxLength'', JInt (int n))])"

definition t_array :: "json \<Rightarrow> json" where
  "t_array items = JObj [(''type'', JStr ''array''), (''items'', items)]"

definition t_list_of_dicts :: "(string \<times> json) list \<Rightarrow> json" where
  "t_list_of_dicts keys = t_array (JObj [(''type'', JStr ''object''), (''properties'', JObj (dict_update [] keys))])"

definition t_pattern :: "string \<Rightarrow> json" where
  "t_pattern p = JObj [(''type'', JStr ''string''), (''pattern'', JStr p)]"

definition t_one_of :: "json list \<Rightarrow> json" where
  "t_one_of ts = JObj [(''type'', JStr ''string''), (''oneOf'', JList ts)]"

definition t_bool :: json where "t_bool = t_type ''boolean''"
definition t_integer :: json where "t_integer = t_type ''integer''"
definition t_name :: json where "t_name = t_pattern ''^[a-zA-Z0-9_.:-]{0,63}$''"
definition t_list_of_names :: json where "t_list_of_names = t_array t_name"
definition t_list_of_ids :: json where "t_list_of_ids = t_array (t_string (Some 36))"
definition t_list_of_strings :: json where "t_list_of_strings = t_array (t_string None)"
definition t_number :: json where "t_number = t_type ''number''"
definition t_positive_number :: json where
  "t_positive_number = JObj [(''type'', JStr ''number''), (''minimum'', JInt 0)]"
definition t_id :: json where "t_id = t_string (Some 36)"

definition t_ipv4 :: json where
  "t_ipv4 = t_pattern (''^([0-9]{1,3}'' @ [backslash] @ ''.){3}[0-9]{1,3}$'')"

definition t_ipv4_cidr :: json where
  "t_ipv4_cidr = t_pattern (''^([0-9]{1,3}'' @ [backslash] @ ''.){3}[0-9]{1,3}(/([0-9]|[1-2][0-9]|3[0-2]))?$'')"

text \<open>The pattern of IPv6 addresses, and what \<open>ipv6_cidr\<close> appends to it.\<close>

definition ipv6_octets :: string where
  "ipv6_octets = ''25[0-5]|2[0-4]d|1dd|[1-9]?d)(.(25[0-5]|2[0-4]d|1dd|[1-9]?d)){3})''"

definition ipv6_body :: string where
  "ipv6_body = ''^s*((([0-9A-Fa-f]{1,4}:){7}([0-9A-Fa-f]{1,4}|:))|(([0-9A-Fa-f]{1,4}:){6}(:[0-9A-Fa-f]{1,4}|((''
     @ ipv6_octets @ ''|:))|(([0-9A-Fa-f]{1,4}:){5}(((:[0-9A-Fa-f]{1,4}){1,2})|:((''
     @ ipv6_octets @ ''|:))|(([0-9A-Fa-f]{1,4}:){4}(((:[0-9A-Fa-f]{1,4}){1,3})|((:[0-9A-Fa-f]{1,4})?:((''
     @ ipv6_octets @ '')|:))|(([0-9A-Fa-f]{1,4}:){3}(((:[0-9A-Fa-f]{1,4}){1,4})|((:[0-9A-Fa-f]{1,4}){0,2}:((''
     @ ipv6_octets @ '')|:))|(([0-9A-Fa-f]{1,4}:){2}(((:[0-9A-Fa-f]{1,4}){1,5})|((:[0-9A-Fa-f]{1,4}){0,3}:((''
     @ ipv6_octets @ '')|:))|(([0-9A-Fa-f]{1,4}:){1}(((:[0-9A-Fa-f]{1,4}){1,6})|((:[0-9A-Fa-f]{1,4}){0,4}:((''
     @ ipv6_octets @ '')|:))|(:(((:[0-9A-Fa-f]{1,4}){1,7})|((:[0-9A-Fa-f]{1,4}){0,5}:((''
     @ ipv6_octets @ '')|:)))(%.+)?s*''"

definition t_ipv6 :: json where "t_ipv6 = t_pattern (ipv6_body @ ''$'')"

definition t_ip :: json where "t_ip = t_one_of [t_ipv4, t_ipv6]"

definition t_ipv6_cidr :: json where
  "t_ipv6_cidr = t_pattern (ipv6_body @ ''(/([0-9]|[1-9][0-9]|1[0-1][0-9]|12[0-8]))?$'')"

definition t_ip_cidr :: json where "t_ip_cidr = t_one_of [t_ipv4_cidr, t_ipv6_cidr]"

text \<open>The tables of well-known numbers.\<close>

definition t_tcp_flags :: "(string, string) dict" where "t_tcp_flags = [(UNSPECIFIED, [])]"

definition t_ports_table :: "(string, string) dict" where
  "t_ports_table = [(''0'', UNSPECIFIED), (''20'', ''ftpData''), (''25'', ''smtp''), (''53'', ''dns''),
     (''80'', ''http''), (''110'', ''pop3''), (''443'', ''https''), (''554'', ''rstp'')]"

definition t_arp_opcode :: "(string, string) dict" where
  "t_arp_opcode = [(''0'', UNSPECIFIED), (''1'', ''req''), (''2'', ''reply'')]"

definition t_ether_type :: "(string, string) dict" where
  "t_ether_type = [(''0'', UNSPECIFIED), (''0x22F3'', ''trill''), (''0x806'', ''arp''),
     (''0x8847'', ''mpls_ucast''), (''0x88E5'', ''mac_security''), (''0x8906'', ''fcoe''), (''0xABCD'', ''ip'')]"

definition t_icmpv4_type :: "(string, string) dict" where
  "t_icmpv4_type = [(''0'', ''echo-rep''), (''3'', ''dst-unreach''), (''4'', ''src-quench''), (''8'', ''echo''),
     (''11'', ''time-exceeded''), (''255'', UNSPECIFIED)]"

definition t_icmpv4_code :: "(string, string) dict" where
  "t_icmpv4_code = [(''0'', ''no-code''), (''0xffff'', UNSPECIFIED)]"

definition t_icmpv6_type :: "(string, string) dict" where
  "t_icmpv6_type = [(''0'', UNSPECIFIED), (''1'', ''dst-unreach''), (''3'', ''time-exceeded''),
     (''128'', ''echo-req''), (''129'', ''echo-rep''), (''135'', ''nbr-solicit''), (''136'', ''nbr-advert''),
     (''137'', ''redirect'')]"

definition t_icmpv6_code :: "(string, string) dict" where
  "t_icmpv6_code = [(''0xffff'', UNSPECIFIED)]"

definition t_ip_protocol :: "(string, string) dict" where
  "t_ip_protocol = [(''0'', UNSPECIFIED), (''1'', ''icmp''), (''2'', ''igmp''), (''6'', ''tcp''), (''8'', ''egp''),
     (''9'', ''igp''), (''17'', ''udp''), (''50'', ''esp''), (''58'', ''icmpv6''), (''88'', ''eigrp''),
     (''89'', ''ospfigp''), (''103'', ''pim''), (''115'', ''l2tp'')]"

definition t_ethertype :: "(string, string) dict" where
  "t_ethertype = [(''0'', UNSPECIFIED), (''1'', ''ipv4''), (''2'', ''ipv6'')]"

definition t_spmodes :: "(string, string) dict" where
  "t_spmodes = [(''0'', ''regular''), (''1'', ''native''), (''2'', ''untagged'')]"

text \<open>\<open>t.ports\<close> used as a schema: the table itself, as \<open>VmmInjectedService\<close> passes it.\<close>

definition t_ports :: json where
  "t_ports = JObj (map (\<lambda>(k, v). (k, JStr v)) t_ports_table)"

definition t_port :: json where
  "t_port = t_one_of [t_enum (map (JStr \<circ> snd) t_ports_table),
     t_pattern ''^([0-9]{1,4}|[1-5][0-9]{4}|6[0-4][0-9]{3}|65[0-4][0-9]{2}|655[0-2][0-9]|6553[0-5])$'']"

definition t_mac_address :: json where
  "t_mac_address = t_pattern ''^([0-9a-fA-F][0-9a-fA-F]:){5}([0-9a-fA-F][0-9a-fA-F])$''"

definition t_object :: "(string \<times> json) list \<Rightarrow> json" where
  "t_object props = JObj [(''type'', JStr ''object''), (''properties'', JObj props)]"

definition t_static_path :: json where
  "t_static_path = t_object [(''encap'', t_string None), (''path'', t_string None),
     (''mode'', t_one_of [t_enum (map (JStr \<circ> snd) t_spmodes)]), (''host'', t_string None)]"

definition t_list_of_static_paths :: json where "t_list_of_static_paths = t_array t_static_path"
definition t_ip_cidr_obj :: json where "t_ip_cidr_obj = t_object [(''addr'', t_ip_cidr)]"
definition t_list_of_ip_cidr_obj :: json where "t_list_of_ip_cidr_obj = t_array t_ip_cidr_obj"
definition t_next_hop :: json where
  "t_next_hop = t_object [(''addr'', t_ip), (''preference'', t_string None)]"
definition t_list_of_next_hop :: json where "t_list_of_next_hop = t_array t_next_hop"
definition t_epoch :: json where "t_epoch = t_integer"

section \<open>Classes\<close>

type_synonym kwargs = "(string, json) dict"

record conf =
  gen1_hw :: bool
  system_id :: string
  fresh_uuid :: string

text \<open>
  \<open>aci_mo_name\<close> and \<open>tree_parent\<close> are \<open>None\<close> when the class does not define the attribute;
  \<open>tree_parent\<close> is \<open>Some None\<close> for the class of a root. \<open>fixed_root\<close> is a class attribute \<open>root\<close>.
  \<open>ctor\<close> gives the defaults and keyword arguments \<open>__init__\<close> hands to the base class.
\<close>

record klass =
  kname :: string
  identity_attributes :: "(string \<times> json) list"
  other_attributes :: "(string \<times> json) list"
  db_attributes :: "(string \<times> json) list"
  sorted_attributes :: "string list"
  aci_mo_name :: "string option"
  tree_parent :: "string option option"
  is_aci :: bool
  is_root :: bool
  fixed_root :: "string option"
  ctor :: "conf \<Rightarrow> kwargs \<Rightarrow> (kwargs \<times> kwargs) result"

definition plain_ctor :: "kwargs \<Rightarrow> conf \<Rightarrow> kwargs \<Rightarrow> (kwargs \<times> kwargs) result" where
  "plain_ctor d conf kwargs = Inr (d, kwargs)"

text \<open>\<open>int(x)\<close> on a value.\<close>

definition int_of_string :: "string \<Rightarrow> int option" where
  "int_of_string s =
     (let body = skip_ws (rev (skip_ws (rev s)));
          (neg, digits) = (case body of
             c # cs \<Rightarrow> if c = CHR ''-'' then (True, cs) else if c = CHR ''+'' then (False, cs) else (False, body)
           | [] \<Rightarrow> (False, []))
      in if digits \<noteq> [] \<and> list_all is_digit digits
         then Some (if neg then - int (nat_val digits) else int (nat_val digits)) else None)"

fun json_to_int :: "json \<Rightarrow> int result" where
  "json_to_int (JInt i) = Inr i"
| "json_to_int (JBool b) = Inr (if b then 1 else 0)"
| "json_to_int (JStr s) = (case int_of_string s of Some i \<Rightarrow> Inr i | None \<Rightarrow> Inl ValueError)"
| "json_to_int _ = Inl TypeError"

section \<open>Objects\<close>

record obj =
  oclass :: string
  ofields :: "(string, json) dict"

definition attributes :: "klass \<Rightarrow> string list" where
  "attributes k = map fst (identity_attributes k) @ map fst (other_attributes k)
     @ map fst (db_attributes k) @ [''epoch'']"

definition user_attributes :: "klass \<Rightarrow> string list" where
  "user_attributes k = map fst (identity_attributes k) @ map fst (other_attributes k)"

definition non_user_attributes :: "klass \<Rightarrow> string list" where
  "non_user_attributes k = map fst (db_attributes k) @ [''epoch'']"

text \<open>\<open>ResourceBase.__init__\<close>.\<close>

definition given :: "kwargs \<Rightarrow> string \<Rightarrow> bool" where
  "given kwargs k \<longleftrightarrow> (case dict_get kwargs k of None \<Rightarrow> False | Some v \<Rightarrow> v \<noteq> JNull)"

definition resource_init :: "klass \<Rightarrow> kwargs \<Rightarrow> kwargs \<Rightarrow> obj result" where
  "resource_init k defaults kwargs =
     (let unset = filter (\<lambda>a. \<not> given kwargs a \<and> dict_get defaults a = None) (map fst (identity_attributes k));
          defaults' = (if dict_get (other_attributes k) ''display_name'' \<noteq> None
                          \<and> dict_get defaults ''display_name'' = None
                       then dict_set ''display_name'' (JStr []) defaults else defaults);
          set_default = json_truth (dict_getd kwargs ''_set_default'' (JBool True));
          kwargs' = dict_del ''_set_default'' kwargs
      in if unset \<noteq> [] then Inl (IdentityAttributesMissing (kname k) unset)
         else Inr \<lparr>oclass = kname k,
                   ofields = dict_update (if set_default then dict_update [] defaults' else []) kwargs'\<rparr>)"

text \<open>The constructor of a class: its own \<open>__init__\<close>, \<open>AciResourceBase\<close>'s check, \<open>ResourceBase\<close>.\<close>

definition make_obj :: "conf \<Rightarrow> klass \<Rightarrow> kwargs \<Rightarrow> obj result" where
  "make_obj conf k kwargs =
     bind_res (ctor k conf kwargs) (\<lambda>(defaults, kw).
       if is_aci k \<and> tree_parent k = None then Inl (AciResourceDefinitionError ''_tree_parent'' (kname k))
       else if is_aci k \<and> aci_mo_name k = None then Inl (AciResourceDefinitionError ''_aci_mo_name'' (kname k))
       else resource_init k defaults kw)"

text \<open>Attribute access: \<open>epoch\<close> is \<open>None\<close> when it was never set.\<close>

definition get_attr :: "obj \<Rightarrow> string \<Rightarrow> json result" where
  "get_attr r a = (case dict_get (ofields r) a of
      Some v \<Rightarrow> Inr v
    | None \<Rightarrow> if a = ''epoch'' then Inr JNull else Inl AttributeError)"

definition get_attr_or :: "obj \<Rightarrow> string \<Rightarrow> json \<Rightarrow> json" where
  "get_attr_or r a d = (case get_attr r a of Inr v \<Rightarrow> v | Inl _ \<Rightarrow> d)"

text \<open>\<open>str\<close> of an attribute value; identity attributes are strings or numbers, other values print
  in their JSON form here.\<close>

fun py_str :: "json \<Rightarrow> string" where
  "py_str JNull = ''None''"
| "py_str (JBool b) = (if b then ''True'' else ''False'')"
| "py_str (JInt i) = int_str i"
| "py_str (JStr s) = s"
| "py_str v = json_dumps v"

definition identity :: "klass \<Rightarrow> obj \<Rightarrow> string list result" where
  "identity k r = traverse_res (\<lambda>a. bind_res (get_attr r a) (\<lambda>v. Inr (py_str v))) (map fst (identity_attributes k))"

definition members :: "klass \<Rightarrow> obj \<Rightarrow> (string, json) dict" where
  "members k r =
     concat (map (\<lambda>a. case dict_get (ofields r) a of Some v \<Rightarrow> [(a, v)] | None \<Rightarrow> [])
       (attributes k @ [''pe_existing'', ''_error'', ''_pending'']))"

text \<open>
  \<open>user_equal\<close>. A list of dictionaries is sorted by the sorted items of each, any other list by its
  elements; the elements are strings or dictionaries with string values.
\<close>

definition item_key :: "json \<Rightarrow> string list" where
  "item_key v = (case v of
      JObj kvs \<Rightarrow> concat (map (\<lambda>(k, w). [k, py_str w]) (sort_key fst kvs)) | _ \<Rightarrow> [py_str v])"

definition canonical_item :: "json \<Rightarrow> json" where
  "canonical_item v = (case v of JObj kvs \<Rightarrow> JObj (sort_key fst kvs) | _ \<Rightarrow> v)"

definition sort_if_list :: "klass \<Rightarrow> string \<Rightarrow> json option \<Rightarrow> json option" where
  "sort_if_list k a v = (case v of
      Some (JList xs) \<Rightarrow>
        Some (JList (map canonical_item (if a \<in> set (sorted_attributes k) then xs else sort_key item_key xs)))
    | _ \<Rightarrow> v)"

definition lookup_attr :: "obj \<Rightarrow> string \<Rightarrow> json option" where
  "lookup_attr r a = (case get_attr r a of Inr v \<Rightarrow> Some v | Inl _ \<Rightarrow> None)"

definition user_equal :: "klass \<Rightarrow> obj \<Rightarrow> obj \<Rightarrow> bool" where
  "user_equal k a b \<longleftrightarrow> oclass a = oclass b \<and>
     list_all (\<lambda>x. sort_if_list k x (lookup_attr a x) = sort_if_list k x (lookup_attr b x)) (user_attributes k)"

section \<open>Names of ACI objects\<close>

text \<open>What the classes use of \<open>apicapi\<close>: names from identities and back.\<close>

record apic_api =
  mo_dn :: "string \<Rightarrow> string list \<Rightarrow> string"
  mo_rn :: "string \<Rightarrow> string list \<Rightarrow> string"
  rn_params :: "string \<Rightarrow> nat"
  decompose_rns :: "string \<Rightarrow> string \<Rightarrow> string list option"
  decompose_root :: "string \<Rightarrow> string \<Rightarrow> (string \<times> string) option"

definition mo_of :: "klass \<Rightarrow> string" where
  "mo_of k = (case aci_mo_name k of Some m \<Rightarrow> m | None \<Rightarrow> [])"

definition obj_dn :: "apic_api \<Rightarrow> klass \<Rightarrow> obj \<Rightarrow> string result" where
  "obj_dn api k r = bind_res (identity k r) (\<lambda>i. Inr (mo_dn api (mo_of k) i))"

definition obj_rn :: "apic_api \<Rightarrow> klass \<Rightarrow> obj \<Rightarrow> string result" where
  "obj_rn api k r = bind_res (identity k r) (\<lambda>i.
     let n = rn_params api (mo_of k) in
     Inr (if n > 0 then mo_rn api (mo_of k) (drop (length i - n) i) else mo_rn api (mo_of k) []))"

text \<open>\<open>decompose_rns\<close> stands for \<open>filter_rns(aci_decompose_with_type(dn, mo))\<close>, \<open>None\<close> for
  \<open>InvalidNameFormat\<close>.\<close>

definition from_dn :: "apic_api \<Rightarrow> conf \<Rightarrow> klass \<Rightarrow> string \<Rightarrow> obj result" where
  "from_dn api conf k dn =
     (case decompose_rns api dn (mo_of k) of
        None \<Rightarrow> Inl (InvalidDNForAciResource dn (kname k))
      | Some rns \<Rightarrow>
          if length rns < length (identity_attributes k) then Inl (InvalidDNForAciResource dn (kname k))
          else make_obj conf k (zip (map fst (identity_attributes k)) (map JStr rns)))"

text \<open>\<open>root\<close>: the name of the topmost object of the DN; of a root class, its own.\<close>

definition obj_root :: "apic_api \<Rightarrow> klass \<Rightarrow> obj \<Rightarrow> string result" where
  "obj_root api k r =
     (case fixed_root k of
        Some s \<Rightarrow> Inr s
      | None \<Rightarrow>
          if is_root k then obj_rn api k r
          else bind_res (obj_dn api k r) (\<lambda>dn.
            case decompose_root api dn (mo_of k) of
              None \<Rightarrow> Inl TypeError
            | Some (mo, rn) \<Rightarrow> Inr (if rn_params api mo > 0 then mo_rn api mo [rn] else mo_rn api mo [])))"

definition root_ref_attribute :: "klass \<Rightarrow> string result" where
  "root_ref_attribute k = (case identity_attributes k of [] \<Rightarrow> Inl IndexError | (a, _) # _ \<Rightarrow> Inr a)"

end
