(* ===== verification/Resources.thy ===== *)
theory Resources
  imports Resource_Base
begin

text \<open>
  The resource classes of \<open>aim/api/resource.py\<close>: attributes with their schemas, the class of the
  ACI object, the parent class and the constructor's defaults.
\<close>

section \<open>\<open>aim/api/resource.py\<close>\<close>

definition Tenant :: klass where
  "Tenant =
    \<lparr>kname = ''Tenant'',
     identity_attributes = [(''name'', t_name)],
     other_attributes = [(''display_name'', t_name),
                    (''monitored'', t_bool),
                    (''descr'', t_string None)],
     db_attributes = [],
     sorted_attributes = [],
     aci_mo_name = Some ''fvTenant'', tree_parent = Some None, is_aci = True, is_root = True, fixed_root = None,
     ctor = plain_ctor [(''monitored'', JBool False),
                 (''descr'', JStr [])]\<rparr>"

definition Infra :: klass where
  "Infra =
    \<lparr>kname = ''Infra'',
     identity_attributes = [],
     other_attributes = [(''name'', t_name)],
     db_attributes = [],
     sorted_attributes = [],
     aci_mo_name = Some ''infraInfra'', tree_parent = Some None, is_aci = True, is_root = True, fixed_root = None,
     ctor = (\<lambda>conf kwargs. Inr ([], [(''name'', JStr ''infra''), (''monitored'', JBool True)]))\<rparr>"

definition NetflowVMMExporterPol :: klass where
  "NetflowVMMExporterPol =
    \<lparr>kname = ''NetflowVMMExporterPol'',
     identity_attributes = [(''name'', t_name)],
     other_attributes = [(''display_name'', t_name),
                    (''monitored'', t_bool),
                    (''dst_addr'', t_string None),
                    (''dst_port'', t_string None),
                    (''src_addr'', t_string None),
                    (''ver'', t_enum [JStr ''v5'', JStr ''v9'', JStr ''cisco-v1''])],
     db_attributes = [],
     sorted_attributes = [],
     aci_mo_name = Some ''netflowVmmExporterPol'', tree_parent = Some (Some ''Infra''), is_aci = True, is_root = False, fixed_root = None,
     ctor = plain_ctor [(''dst_addr'', JStr []),
                 (''dst_port'', JStr ''unspecified''),
                 (''src_addr'', JStr ''0.0.0.0''),
                 (''ver'', JStr ''v5''),
                 (''monitored'', JBool False)]\<rparr>"

definition BridgeDomain :: klass where
  "BridgeDomain =
    \<lparr>kname = ''BridgeDomain'',
     identity_attributes = [(''tenant_name'', t_name),
                       (''name'', t_name)],
     other_attributes = [(''display_name'', t_name),
                    (''vrf_name'', t_name),
                    (''enable_arp_flood'', t_bool),
                    (''enable_routing'', t_bool),
                    (''limit_ip_learn_to_subnets'', t_bool),
                    (''ip_learning'', t_bool),
                    (''l2_unknown_unicast_mode'', t_enum [JStr [], JStr ''flood'', JStr ''proxy'']),
                    (''ep_move_detect_mode'', t_enum [JStr [], JStr ''garp'']),
                    (''l3out_names'', t_list_of_names),
                    (''monitored'', t_bool)],
     db_attributes = [],
     sorted_attributes = [],
     aci_mo_name = Some ''fvBD'', tree_parent = Some (Some ''Tenant''), is_aci = True, is_root = False, fixed_root = None,
     ctor = (\<lambda>conf kwargs. Inr (
       [(''vrf_name'', JStr []), (''enable_arp_flood'', JBool True), (''enable_routing'', JBool True),
        (''limit_ip_learn_to_subnets'', JBool False), (''ip_learning'', JBool True),
        (''l2_unknown_unicast_mode'', JStr ''proxy''),
        (''ep_move_detect_mode'', JStr (if gen1_hw conf then ''garp'' else [])),
        (''l3out_names'', JList []), (''monitored'', JBool False)], kwargs))\<rparr>"

definition Agent :: klass where
  "Agent =
    \<lparr>kname = ''Agent'',
     identity_attributes = [(''id'', t_id)],
     other_attributes = [(''agent_type'', t_string (Some 255)),
                    (''host'', t_string (Some 255)),
                    (''binary_file'', t_string (Some 255)),
                    (''admin_state_up'', t_bool),
                    (''description'', t_string (Some 255)),
                    (''hash_trees'', t_list_of_ids),
                    (''version'', t_string None)],
     db_attributes = [(''heartbeat_timestamp'', t_string None)],
     sorted_attributes = [],
     aci_mo_name = None, tree_parent = None, is_aci = False, is_root = False, fixed_root = None,
     ctor = (\<lambda>conf kwargs. Inr ([(''admin_state_up'', JBool True), (''id'', JStr (fresh_uuid conf))], kwargs))\<rparr>"

definition Subnet :: klass where
  "Subnet =
    \<lparr>kname = ''Subnet'',
     identity_attributes = [(''tenant_name'', t_name),
                       (''bd_name'', t_name),
                       (''gw_ip_mask'', t_ip_cidr)],
     other_attributes = [(''scope'', t_enum [JStr [], JStr ''public'', JStr ''private'', JStr ''shared'']),
                    (''display_name'', t_name),
                    (''monitored'', t_bool)],
     db_attributes = [],
     sorted_attributes = [],
     aci_mo_name = Some ''fvSubnet'', tree_parent = Some (Some ''BridgeDomain''), is_aci = True, is_root = False, fixed_root = None,
     ctor = plain_ctor [(''scope'', JStr ''public''),
                 (''monitored'', JBool False)]\<rparr>"

definition VRF :: klass where
  "VRF =
    \<lparr>kname = ''VRF'',
     identity_attributes = [(''tenant_name'', t_name),
                       (''name'', t_name)],
     other_attributes = [(''display_name'', t_name),
                    (''policy_enforcement_pref'', t_enum [JStr [], JStr ''enforced'', JStr ''unenforced'']),
                    (''monitored'', t_bool)],
     db_attributes = [],
     sorted_attributes = [],
     aci_mo_name = Some ''fvCtx'', tree_parent = Some (Some ''Tenant''), is_aci = True, is_root = False, fixed_root = None,
     ctor = plain_ctor [(''policy_enforcement_pref'', JStr ''enforced''),
                 (''monitored'', JBool False)]\<rparr>"

definition ApplicationProfile :: klass where
  "ApplicationProfile =
    \<lparr>kname = ''ApplicationProfile'',
     identity_attributes = [(''tenant_name'', t_name),
                       (''name'', t_name)],
     other_attributes = [(''display_name'', t_name),
                    (''monitored'', t_bool)],
     db_attributes = [],
     sorted_attributes = [],
     aci_mo_name = Some ''fvAp'', tree_parent = Some (Some ''Tenant''), is_aci = True, is_root = False, fixed_root = None,
     ctor = plain_ctor [(''monitored'', JBool False)]\<rparr>"

definition EndpointGroup :: klass where
  "EndpointGroup =
    \<lparr>kname = ''EndpointGroup'',
     identity_attributes = [(''tenant_name'', t_name),
                       (''app_profile_name'', t_name),
                       (''name'', t_name)],
     other_attributes = [(''display_name'', t_name),
                    (''bd_name'', t_name),
                    (''policy_enforcement_pref'', t_enum [JStr [], JStr ''enforced'', JStr ''unenforced'']),
                    (''provided_contract_names'', t_list_of_names),
                    (''consumed_contract_names'', t_list_of_names),
                    (''openstack_vmm_domain_names'', t_list_of_names),
                    (''physical_domain_names'', t_list_of_names),
                    (''vmm_domains'', t_list_of_dicts [(''type'', t_name), (''name'', t_name)]),
                    (''physical_domains'', t_list_of_dicts [(''name'', t_name)]),
                    (''epg_contract_masters'', t_list_of_dicts [(''app_profile_name'', t_name), (''name'', t_name)]),
                    (''monitored'', t_bool),
                    (''sync'', t_bool),
                    (''qos_name'', t_name)],
     db_attributes = [],
     sorted_attributes = [],
     aci_mo_name = Some ''fvAEPg'', tree_parent = Some (Some ''ApplicationProfile''), is_aci = True, is_root = False, fixed_root = None,
     ctor = plain_ctor [(''bd_name'', JStr []),
                 (''provided_contract_names'', JList []),
                 (''consumed_contract_names'', JList []),
                 (''openstack_vmm_domain_names'', JList []),
                 (''physical_domain_names'', JList []),
                 (''vmm_domains'', JList []),
                 (''physical_domains'', JList []),
                 (''policy_enforcement_pref'', JStr ''unenforced''),
                 (''epg_contract_masters'', JList []),
                 (''qos_name'', JStr []),
                 (''monitored'', JBool False),
                 (''sync'', JBool True)]\<rparr>"

definition EPGStaticPath :: klass where
  "EPGStaticPath =
    \<lparr>kname = ''EPGStaticPath'',
     identity_attributes = [(''tenant_name'', t_name),
                       (''app_profile_name'', t_name),
                       (''epg_name'', t_name),
                       (''path'', t_static_path)],
     other_attributes = [(''mode'', t_enum [JStr ''regular'', JStr ''native'', JStr ''untagged'']),
                    (''encap'', t_name),
                    (''host'', t_name),
                    (''monitored'', t_bool)],
     db_attributes = [],
     sorted_attributes = [],
     aci_mo_name = Some ''fvRsPathAtt'', tree_parent = Some (Some ''EndpointGroup''), is_aci = True, is_root = False, fixed_root = None,
     ctor = plain_ctor [(''mode'', JStr ''regular''),
                 (''encap'', JStr []),
                 (''host'', JStr []),
                 (''monitored'', JBool False)]\<rparr>"

definition EPGSubnet :: klass where
  "EPGSubnet =
    \<lparr>kname = ''EPGSubnet'',
     identity_attributes = [(''tenant_name'', t_name),
                       (''app_profile_name'', t_name),
                       (''epg_name'', t_name),
                       (''gw_ip_mask'', t_ip_cidr)],
     other_attributes = [(''scope'', t_enum [JStr [], JStr ''public'', JStr ''private'', JStr ''shared'']),
                    (''display_name'', t_name),
                    (''monitored'', t_bool)],
     db_attributes = [],
     sorted_attributes = [],
     aci_mo_name = Some ''fvSubnet__epg'', tree_parent = Some (Some ''EndpointGroup''), is_aci = True, is_root = False, fixed_root = None,
     ctor = plain_ctor [(''scope'', JStr ''public''),
                 (''monitored'', JBool False)]\<rparr>"

definition Filter :: klass where
  "Filter =
    \<lparr>kname = ''Filter'',
     identity_attributes = [(''tenant_name'', t_name),
                       (''name'', t_name)],
     other_attributes = [(''display_name'', t_name),
                    (''monitored'', t_bool)],
     db_attributes = [],
     sorted_attributes = [],
     aci_mo_name = Some ''vzFilter'', tree_parent = Some (Some ''Tenant''), is_aci = True, is_root = False, fixed_root = None,
     ctor = plain_ctor [(''monitored'', JBool False)]\<rparr>"

definition FilterEntry :: klass where
  "FilterEntry =
    \<lparr>kname = ''FilterEntry'',
     identity_attributes = [(''tenant_name'', t_name),
                       (''filter_name'', t_name),
                       (''name'', t_name)],
     other_attributes = [(''display_name'', t_name),
                    (''arp_opcode'', t_string None),
                    (''ether_type'', t_string None),
                    (''ip_protocol'', t_string None),
                    (''icmpv4_type'', t_string None),
                    (''icmpv6_type'', t_string None),
                    (''source_from_port'', t_port),
                    (''source_to_port'', t_port),
                    (''dest_from_port'', t_port),
                    (''dest_to_port'', t_port),
                    (''tcp_flags'', t_string None),
                    (''stateful'', t_bool),
                    (''fragment_only'', t_bool),
                    (''monitored'', t_bool)],
     db_attributes = [],
     sorted_attributes = [],
     aci_mo_name = Some ''vzEntry'', tree_parent = Some (Some ''Filter''), is_aci = True, is_root = False, fixed_root = None,
     ctor = plain_ctor [(''arp_opcode'', JStr ''unspecified''),
                 (''ether_type'', JStr ''unspecified''),
                 (''ip_protocol'', JStr ''unspecified''),
                 (''icmpv4_type'', JStr ''unspecified''),
                 (''icmpv6_type'', JStr ''unspecified''),
                 (''source_from_port'', JStr ''unspecified''),
                 (''source_to_port'', JStr ''unspecified''),
                 (''dest_from_port'', JStr ''unspecified''),
                 (''dest_to_port'', JStr ''unspecified''),
                 (''tcp_flags'', JStr ''unspecified''),
                 (''stateful'', JBool False),
                 (''fragment_only'', JBool False),
                 (''monitored'', JBool False)]\<rparr>"

definition Contract :: klass where
  "Contract =
    \<lparr>kname = ''Contract'',
     identity_attributes = [(''tenant_name'', t_name),
                       (''name'', t_name)],
     other_attributes = [(''scope'', t_enum [JStr [], JStr ''tenant'', JStr ''context'', JStr ''global'', JStr ''application-profile'']),
                    (''display_name'', t_name),
                    (''monitored'', t_bool)],
     db_attributes = [],
     sorted_attributes = [],
     aci_mo_name = Some ''vzBrCP'', tree_parent = Some (Some ''Tenant''), is_aci = True, is_root = False, fixed_root = None,
     ctor = plain_ctor [(''scope'', JStr ''context''),
                 (''monitored'', JBool False)]\<rparr>"

definition ContractSubject :: klass where
  "ContractSubject =
    \<lparr>kname = ''ContractSubject'',
     identity_attributes = [(''tenant_name'', t_name),
                       (''contract_name'', t_name),
                       (''name'', t_name)],
     other_attributes = [(''display_name'', t_name),
                    (''in_filters'', t_list_of_names),
                    (''out_filters'', t_list_of_names),
                    (''bi_filters'', t_list_of_names),
                    (''service_graph_name'', t_name),
                    (''in_service_graph_name'', t_name),
                    (''out_service_graph_name'', t_name),
                    (''monitored'', t_bool)],
     db_attributes = [],
     sorted_attributes = [],
     aci_mo_name = Some ''vzSubj'', tree_parent = Some (Some ''Contract''), is_aci = True, is_root = False, fixed_root = None,
     ctor = plain_ctor [(''in_filters'', JList []),
                 (''out_filters'', JList []),
                 (''bi_filters'', JList []),
                 (''service_graph_name'', JStr []),
                 (''in_service_graph_name'', JStr []),
                 (''out_service_graph_name'', JStr []),
                 (''monitored'', JBool False)]\<rparr>"

definition OutOfBandContract :: klass where
  "OutOfBandContract =
    \<lparr>kname = ''OutOfBandContract'',
     identity_attributes = [(''tenant_name'', t_name),
                       (''name'', t_name)],
     other_attributes = [(''scope'', t_enum [JStr [], JStr ''tenant'', JStr ''context'', JStr ''global'', JStr ''application-profile'']),
                    (''display_name'', t_name),
                    (''monitored'', t_bool)],
     db_attributes = [],
     sorted_attributes = [],
     aci_mo_name = Some ''vzOOBBrCP'', tree_parent = Some (Some ''Tenant''), is_aci = True, is_root = False, fixed_root = None,
     ctor = plain_ctor [(''scope'', JStr ''context''),
                 (''monitored'', JBool False)]\<rparr>"

definition OutOfBandContractSubject :: klass where
  "OutOfBandContractSubject =
    \<lparr>kname = ''OutOfBandContractSubject'',
     identity_attributes = [(''tenant_name'', t_name),
                       (''contract_name'', t_name),
                       (''name'', t_name)],
     other_attributes = [(''display_name'', t_name),
                    (''in_filters'', t_list_of_names),
                    (''out_filters'', t_list_of_names),
                    (''bi_filters'', t_list_of_names),
                    (''service_graph_name'', t_name),
                    (''in_service_graph_name'', t_name),
                    (''out_service_graph_name'', t_name),
                    (''monitored'', t_bool)],
     db_attributes = [],
     sorted_attributes = [],
     aci_mo_name = Some ''vzSubj__tn'', tree_parent = Some (Some ''OutOfBandContract''), is_aci = True, is_root = False, fixed_root = None,
     ctor = plain_ctor [(''in_filters'', JList []),
                 (''out_filters'', JList []),
                 (''bi_filters'', JList []),
                 (''service_graph_name'', JStr []),
                 (''in_service_graph_name'', JStr []),
                 (''out_service_graph_name'', JStr []),
                 (''monitored'', JBool False)]\<rparr>"

definition Endpoint :: klass where
  "Endpoint =
    \<lparr>kname = ''Endpoint'',
     identity_attributes = [(''uuid'', t_id)],
     other_attributes = [(''display_name'', t_name),
                    (''epg_tenant_name'', t_name),
                    (''epg_app_profile_name'', t_name),
                    (''epg_name'', t_name)],
     db_attributes = [],
     sorted_attributes = [],
     aci_mo_name = None, tree_parent = None, is_aci = False, is_root = False, fixed_root = None,
     ctor = plain_ctor [(''epg_name'', JNull),
                 (''epg_tenant_name'', JNull),
                 (''epg_app_profile_name'', JNull)]\<rparr>"

definition VMMPolicy :: klass where
  "VMMPolicy =
    \<lparr>kname = ''VMMPolicy'',
     identity_attributes = [(''type'', t_enum [JStr ''VMWare'', JStr ''OpenStack'', JStr ''Kubernetes''])],
     other_attributes = [(''monitored'', t_bool),
                    (''display_name'', t_name)],
     db_attributes = [],
     sorted_attributes = [],
     aci_mo_name = Some ''vmmProvP'', tree_parent = Some None, is_aci = True, is_root = True, fixed_root = None,
     ctor = plain_ctor [(''monitored'', JBool False)]\<rparr>"

definition VMMDomain :: klass where
  "VMMDomain =
    \<lparr>kname = ''VMMDomain'',
     identity_attributes = [(''type'', t_enum [JStr ''VMWare'', JStr ''OpenStack'', JStr ''Kubernetes'']),
                       (''name'', t_name)],
     other_attributes = [(''monitored'', t_bool),
                    (''display_name'', t_name),
                    (''enforcement_pref'', t_enum [JStr ''sw'', JStr ''hw'', JStr ''unknown'']),
                    (''mode'', t_enum [JStr ''default'', JStr ''n1kv'', JStr ''unknown'', JStr ''ovs'', JStr ''k8s'']),
                    (''mcast_address'', t_string None),
                    (''encap_mode'', t_enum [JStr ''unknown'', JStr ''vlan'', JStr ''vxlan'']),
                    (''pref_encap_mode'', t_enum [JStr ''unspecified'', JStr ''vlan'', JStr ''vxlan'']),
                    (''vlan_pool_name'', t_name),
                    (''vlan_pool_type'', t_enum [JStr ''static'', JStr ''dynamic'']),
                    (''mcast_addr_pool_name'', t_name)],
     db_attributes = [],
     sorted_attributes = [],
     aci_mo_name = Some ''vmmDomP'', tree_parent = Some (Some ''VMMPolicy''), is_aci = True, is_root = False, fixed_root = None,
     ctor = (\<lambda>conf kwargs.
       let vmm_type = dict_get kwargs ''type'';
           d = [(''monitored'', JBool False), (''enforcement_pref'', JStr ''hw''), (''mode'', JStr ''default''),
                (''mcast_address'', JStr ''0.0.0.0''), (''encap_mode'', JStr ''unknown''),
                (''pref_encap_mode'', JStr ''unspecified''), (''vlan_pool_name'', JStr []),
                (''vlan_pool_type'', JStr ''dynamic''), (''mcast_addr_pool_name'', JStr [])];
           d1 = (if vmm_type = Some (JStr ''Kubernetes'')
                 then dict_update d [(''enforcement_pref'', JStr ''sw''), (''mode'', JStr ''k8s'')]
                 else if vmm_type = Some (JStr ''OpenStack'')
                 then dict_update d [(''enforcement_pref'', JStr ''sw''), (''mode'', JStr ''ovs'')]
                 else d)
       in Inr (case dict_get kwargs ''encap_mode'' of
            Some m \<Rightarrow> if json_truth m \<and> m \<noteq> JStr ''unknown'' then dict_set ''pref_encap_mode'' m d1 else d1
          | None \<Rightarrow> d1, kwargs))\<rparr>"

definition PhysicalDomain :: klass where
  "PhysicalDomain =
    \<lparr>kname = ''PhysicalDomain'',
     identity_attributes = [(''name'', t_name)],
     other_attributes = [(''monitored'', t_bool),
                    (''display_name'', t_name)],
     db_attributes = [],
     sorted_attributes = [],
     aci_mo_name = Some ''physDomP'', tree_parent = Some None, is_aci = True, is_root = True, fixed_root = None,
     ctor = plain_ctor [(''monitored'', JBool False)]\<rparr>"

definition L3Outside :: klass where
  "L3Outside =
    \<lparr>kname = ''L3Outside'',
     identity_attributes = [(''tenant_name'', t_name),
                       (''name'', t_name)],
     other_attributes = [(''display_name'', t_name),
                    (''vrf_name'', t_name),
                    (''l3_domain_dn'', t_string None),
                    (''bgp_enable'', t_bool),
                    (''monitored'', t_bool)],
     db_attributes = [],
     sorted_attributes = [],
     aci_mo_name = Some ''l3extOut'', tree_parent = Some (Some ''Tenant''), is_aci = True, is_root = False, fixed_root = None,
     ctor = plain_ctor [(''vrf_name'', JStr []),
                 (''l3_domain_dn'', JStr []),
                 (''bgp_enable'', JBool False),
                 (''monitored'', JBool False)]\<rparr>"

definition L3OutNodeProfile :: klass where
  "L3OutNodeProfile =
    \<lparr>kname = ''L3OutNodeProfile'',
     identity_attributes = [(''tenant_name'', t_name),
                       (''l3out_name'', t_name),
                       (''name'', t_name)],
     other_attributes = [(''display_name'', t_name),
                    (''monitored'', t_bool)],
     db_attributes = [],
     sorted_attributes = [],
     aci_mo_name = Some ''l3extLNodeP'', tree_parent = Some (Some ''L3Outside''), is_aci = True, is_root = False, fixed_root = None,
     ctor = plain_ctor [(''monitored'', JBool False)]\<rparr>"

definition L3OutNode :: klass where
  "L3OutNode =
    \<lparr>kname = ''L3OutNode'',
     identity_attributes = [(''tenant_name'', t_name),
                       (''l3out_name'', t_name),
                       (''node_profile_name'', t_name),
                       (''node_path'', t_string None)],
     other_attributes = [(''router_id'', t_ipv4),
                    (''router_id_loopback'', t_bool),
                    (''monitored'', t_bool)],
     db_attributes = [],
     sorted_attributes = [],
     aci_mo_name = Some ''l3extRsNodeL3OutAtt'', tree_parent = Some (Some ''L3OutNodeProfile''), is_aci = True, is_root = False, fixed_root = None,
     ctor = plain_ctor [(''router_id'', JStr []),
                 (''router_id_loopback'', JBool True),
                 (''monitored'', JBool False)]\<rparr>"

definition L3OutStaticRoute :: klass where
  "L3OutStaticRoute =
    \<lparr>kname = ''L3OutStaticRoute'',
     identity_attributes = [(''tenant_name'', t_name),
                       (''l3out_name'', t_name),
                       (''node_profile_name'', t_name),
                       (''node_path'', t_string None),
                       (''cidr'', t_ip_cidr)],
     other_attributes = [(''next_hop_list'', t_list_of_next_hop),
                    (''preference'', t_string None),
                    (''display_name'', t_name),
                    (''monitored'', t_bool)],
     db_attributes = [],
     sorted_attributes = [],
     aci_mo_name = Some ''ipRouteP'', tree_parent = Some (Some ''L3OutNode''), is_aci = True, is_root = False, fixed_root = None,
     ctor = plain_ctor [(''next_hop_list'', JList []),
                 (''preference'', JStr ''1''),
                 (''monitored'', JBool False)]\<rparr>"

definition L3OutInterfaceProfile :: klass where
  "L3OutInterfaceProfile =
    \<lparr>kname = ''L3OutInterfaceProfile'',
     identity_attributes = [(''tenant_name'', t_name),
                       (''l3out_name'', t_name),
                       (''node_profile_name'', t_name),
                       (''name'', t_name)],
     other_attributes = [(''display_name'', t_name),
                    (''monitored'', t_bool)],
     db_attributes = [],
     sorted_attributes = [],
     aci_mo_name = Some ''l3extLIfP'', tree_parent = Some (Some ''L3OutNodeProfile''), is_aci = True, is_root = False, fixed_root = None,
     ctor = plain_ctor [(''monitored'', JBool False)]\<rparr>"

definition L3OutInterface :: klass where
  "L3OutInterface =
    \<lparr>kname = ''L3OutInterface'',
     identity_attributes = [(''tenant_name'', t_name),
                       (''l3out_name'', t_name),
                       (''node_profile_name'', t_name),
                       (''interface_profile_name'', t_name),
                       (''interface_path'', t_string None)],
     other_attributes = [(''primary_addr_a'', t_ip_cidr),
                    (''secondary_addr_a_list'', t_list_of_ip_cidr_obj),
                    (''primary_addr_b'', t_ip_cidr),
                    (''secondary_addr_b_list'', t_list_of_ip_cidr_obj),
                    (''encap'', t_string None),
                    (''mode'', t_enum (map (JStr \<circ> snd) t_spmodes)),
                    (''host'', t_string None),
                    (''type'', t_enum [JStr ''ext-svi'']),
                    (''monitored'', t_bool)],
     db_attributes = [],
     sorted_attributes = [],
     aci_mo_name = Some ''l3extRsPathL3OutAtt'', tree_parent = Some (Some ''L3OutInterfaceProfile''), is_aci = True, is_root = False, fixed_root = None,
     ctor = plain_ctor [(''primary_addr_a'', JStr []),
                 (''secondary_addr_a_list'', JList []),
                 (''primary_addr_b'', JStr []),
                 (''secondary_addr_b_list'', JList []),
                 (''encap'', JStr []),
                 (''type'', JStr ''ext-svi''),
                 (''mode'', JStr ''regular''),
                 (''monitored'', JBool False),
                 (''host'', JStr [])]\<rparr>"

definition L3OutInterfaceBgpPeerP :: klass where
  "L3OutInterfaceBgpPeerP =
    \<lparr>kname = ''L3OutInterfaceBgpPeerP'',
     identity_attributes = [(''tenant_name'', t_name),
                       (''l3out_name'', t_name),
                       (''node_profile_name'', t_name),
                       (''interface_profile_name'', t_name),
                       (''interface_path'', t_string None),
                       (''addr'', t_ip_cidr)],
     other_attributes = [(''asn'', t_string None),
                    (''monitored'', t_bool)],
     db_attributes = [],
     sorted_attributes = [],
     aci_mo_name = Some ''bgpPeerP'', tree_parent = Some (Some ''L3OutInterface''), is_aci = True, is_root = False, fixed_root = None,
     ctor = (\<lambda>conf kwargs.
       let ok = Inr ([(''asn'', JStr ''0''), (''monitored'', JBool False)], kwargs) in
       case dict_get kwargs ''asn'' of
         None \<Rightarrow> ok
       | Some asn \<Rightarrow>
           if json_truth asn then
             bind_res (json_to_int asn) (\<lambda>n.
               if n < 0 \<or> n > 4294967295 then Inl (AciResourceValueError ''L3OutInterfaceBgpPeerP'' ''asn'') else ok)
           else ok)\<rparr>"

definition ExternalNetwork :: klass where
  "ExternalNetwork =
    \<lparr>kname = ''ExternalNetwork'',
     identity_attributes = [(''tenant_name'', t_name),
                       (''l3out_name'', t_name),
                       (''name'', t_name)],
     other_attributes = [(''display_name'', t_name),
                    (''nat_epg_dn'', t_string None),
                    (''provided_contract_names'', t_list_of_names),
                    (''consumed_contract_names'', t_list_of_names),
                    (''monitored'', t_bool)],
     db_attributes = [],
     sorted_attributes = [],
     aci_mo_name = Some ''l3extInstP'', tree_parent = Some (Some ''L3Outside''), is_aci = True, is_root = False, fixed_root = None,
     ctor = plain_ctor [(''nat_epg_dn'', JStr []),
                 (''provided_contract_names'', JList []),
                 (''consumed_contract_names'', JList []),
                 (''monitored'', JBool False)]\<rparr>"

definition ExternalNetworkProvidedContract :: klass where
  "ExternalNetworkProvidedContract =
    \<lparr>kname = ''ExternalNetworkProvidedContract'',
     identity_attributes = [(''tenant_name'', t_name),
                       (''l3out_name'', t_name),
                       (''ext_net_name'', t_name),
                       (''name'', t_name)],
     other_attributes = [(''monitored'', t_bool)],
     db_attributes = [],
     sorted_attributes = [],
     aci_mo_name = Some ''fvRsProv__Ext'', tree_parent = Some (Some ''ExternalNetwork''), is_aci = True, is_root = False, fixed_root = None,
     ctor = plain_ctor [(''monitored'', JBool False)]\<rparr>"

definition ExternalNetworkConsumedContract :: klass where
  "ExternalNetworkConsumedContract =
    \<lparr>kname = ''ExternalNetworkConsumedContract'',
     identity_attributes = [(''tenant_name'', t_name),
                       (''l3out_name'', t_name),
                       (''ext_net_name'', t_name),
                       (''name'', t_name)],
     other_attributes = [(''monitored'', t_bool)],
     db_attributes = [],
     sorted_attributes = [],
     aci_mo_name = Some ''fvRsCons__Ext'', tree_parent = Some (Some ''ExternalNetwork''), is_aci = True, is_root = False, fixed_root = None,
     ctor = plain_ctor [(''monitored'', JBool False)]\<rparr>"

definition ExternalSubnet :: klass where
  "ExternalSubnet =
    \<lparr>kname = ''ExternalSubnet'',
     identity_attributes = [(''tenant_name'', t_name),
                       (''l3out_name'', t_name),
                       (''external_network_name'', t_name),
                       (''cidr'', t_ip_cidr)],
     other_attributes = [(''display_name'', t_name),
                    (''aggregate'', t_string None),
                    (''scope'', t_string None),
                    (''monitored'', t_bool)],
     db_attributes = [],
     sorted_attributes = [],
     aci_mo_name = Some ''l3extSubnet'', tree_parent = Some (Some ''ExternalNetwork''), is_aci = True, is_root = False, fixed_root = None,
     ctor = plain_ctor [(''monitored'', JBool False),
                 (''aggregate'', JStr []),
                 (''scope'', JStr ''import-security'')]\<rparr>"

definition SecurityGroup :: klass where
  "SecurityGroup =
    \<lparr>kname = ''SecurityGroup'',
     identity_attributes = [(''tenant_name'', t_name),
                       (''name'', t_name)],
     other_attributes = [(''display_name'', t_name),
                    (''monitored'', t_bool)],
     db_attributes = [],
     sorted_attributes = [],
     aci_mo_name = Some ''hostprotPol'', tree_parent = Some (Some ''Tenant''), is_aci = True, is_root = False, fixed_root = None,
     ctor = plain_ctor [(''monitored'', JBool False)]\<rparr>"

definition SecurityGroupSubject :: klass where
  "SecurityGroupSubject =
    \<lparr>kname = ''SecurityGroupSubject'',
     identity_attributes = [(''tenant_name'', t_name),
                       (''security_group_name'', t_name),
                       (''name'', t_name)],
     other_attributes = [(''display_name'', t_name),
                    (''monitored'', t_bool)],
     db_attributes = [],
     sorted_attributes = [],
     aci_mo_name = Some ''hostprotSubj'', tree_parent = Some (Some ''SecurityGroup''), is_aci = True, is_root = False, fixed_root = None,
     ctor = plain_ctor [(''monitored'', JBool False)]\<rparr>"

definition SecurityGroupRule :: klass where
  "SecurityGroupRule =
    \<lparr>kname = ''SecurityGroupRule'',
     identity_attributes = [(''tenant_name'', t_name),
                       (''security_group_name'', t_name),
                       (''security_group_subject_name'', t_name),
                       (''name'', t_name)],
     other_attributes = [(''display_name'', t_name),
                    (''direction'', t_enum [JStr [], JStr ''ingress'', JStr ''egress'']),
                    (''ethertype'', t_enum [JStr [], JStr ''undefined'', JStr ''ipv4'', JStr ''ipv6'']),
                    (''remote_ips'', t_list_of_strings),
                    (''ip_protocol'', t_string None),
                    (''from_port'', t_port),
                    (''to_port'', t_port),
                    (''conn_track'', t_enum [JStr ''normal'', JStr ''reflexive'']),
                    (''icmp_type'', t_string None),
                    (''icmp_code'', t_string None),
                    (''remote_group_id'', t_name),
                    (''tDn'', t_string (Some 256)),
                    (''monitored'', t_bool)],
     db_attributes = [],
     sorted_attributes = [],
     aci_mo_name = Some ''hostprotRule'', tree_parent = Some (Some ''SecurityGroupSubject''), is_aci = True, is_root = False, fixed_root = None,
     ctor = plain_ctor [(''direction'', JStr ''ingress''),
                 (''ethertype'', JStr ''undefined''),
                 (''remote_ips'', JList []),
                 (''ip_protocol'', JStr ''unspecified''),
                 (''from_port'', JStr ''unspecified''),
                 (''to_port'', JStr ''unspecified''),
                 (''icmp_type'', JStr ''unspecified''),
                 (''icmp_code'', JStr ''unspecified''),
                 (''conn_track'', JStr ''reflexive''),
                 (''remote_group_id'', JStr []),
                 (''tDn'', JStr []),
                 (''monitored'', JBool False)]\<rparr>"

definition Configuration :: klass where
  "Configuration =
    \<lparr>kname = ''Configuration'',
     identity_attributes = [(''key'', t_string (Some 52)),
                       (''host'', t_string (Some 52)),
                       (''group'', t_string (Some 52))],
     other_attributes = [(''value'', t_string (Some 512))],
     db_attributes = [(''version'', t_string (Some 36))],
     sorted_attributes = [],
     aci_mo_name = None, tree_parent = None, is_aci = False, is_root = False, fixed_root = None,
     ctor = plain_ctor []\<rparr>"

definition Topology :: klass where
  "Topology =
    \<lparr>kname = ''Topology'',
     identity_attributes = [],
     other_attributes = [(''name'', t_name)],
     db_attributes = [],
     sorted_attributes = [],
     aci_mo_name = Some ''fabricTopology'', tree_parent = Some None, is_aci = True, is_root = True, fixed_root = None,
     ctor = (\<lambda>conf kwargs. Inr ([], [(''name'', JStr ''topology''), (''monitored'', JBool True)]))\<rparr>"

definition Pod :: klass where
  "Pod =
    \<lparr>kname = ''Pod'',
     identity_attributes = [(''name'', t_name)],
     other_attributes = [(''monitored'', t_bool)],
     db_attributes = [],
     sorted_attributes = [],
     aci_mo_name = Some ''fabricPod'', tree_parent = Some (Some ''Topology''), is_aci = True, is_root = False, fixed_root = Some ''topology'',
     ctor = plain_ctor [(''monitored'', JBool False)]\<rparr>"

definition VMMController :: klass where
  "VMMController =
    \<lparr>kname = ''VMMController'',
     identity_attributes = [(''domain_type'', t_name),
                       (''domain_name'', t_name),
                       (''name'', t_name)],
     other_attributes = [(''display_name'', t_name),
                    (''scope'', t_enum [JStr ''unmanaged'', JStr ''vm'', JStr ''iaas'', JStr ''network'', JStr ''MicrosoftSCVMM'', JStr ''openstack'', JStr ''kubernetes'']),
                    (''root_cont_name'', t_name),
                    (''host_or_ip'', t_name),
                    (''mode'', t_enum [JStr ''default'', JStr ''n1kv'', JStr ''unknown'', JStr ''ovs'', JStr ''k8s'']),
                    (''monitored'', t_bool)],
     db_attributes = [],
     sorted_attributes = [],
     aci_mo_name = Some ''vmmCtrlrP'', tree_parent = Some (Some ''VMMDomain''), is_aci = True, is_root = False, fixed_root = None,
     ctor = (\<lambda>conf kwargs.
       let vmm_type = dict_get kwargs ''domain_type'';
           d = [(''monitored'', JBool False), (''scope'', JStr ''vm''), (''root_cont_name'', JStr []),
                (''host_or_ip'', JStr []), (''mode'', JStr ''default'')];
           d1 = (if vmm_type = Some (JStr ''Kubernetes'')
                 then dict_update d [(''scope'', JStr ''kubernetes''), (''mode'', JStr ''k8s'')]
                 else if vmm_type = Some (JStr ''OpenStack'')
                 then dict_update d [(''scope'', JStr ''openstack''), (''mode'', JStr ''ovs'')]
                 else d)
       in Inr (case dict_get kwargs ''name'' of
            Some n \<Rightarrow> if json_truth n then dict_update d1 [(''root_cont_name'', n), (''host_or_ip'', n)] else d1
          | None \<Rightarrow> d1, kwargs))\<rparr>"

definition VmmInjectedNamespace :: klass where
  "VmmInjectedNamespace =
    \<lparr>kname = ''VmmInjectedNamespace'',
     identity_attributes = [(''domain_type'', t_name),
                       (''domain_name'', t_name),
                       (''controller_name'', t_name),
                       (''name'', t_name)],
     other_attributes = [(''display_name'', t_name)],
     db_attributes = [],
     sorted_attributes = [],
     aci_mo_name = Some ''vmmInjectedNs'', tree_parent = Some (Some ''VMMController''), is_aci = True, is_root = False, fixed_root = None,
     ctor = plain_ctor []\<rparr>"

definition VmmInjectedDeployment :: klass where
  "VmmInjectedDeployment =
    \<lparr>kname = ''VmmInjectedDeployment'',
     identity_attributes = [(''domain_type'', t_name),
                       (''domain_name'', t_name),
                       (''controller_name'', t_name),
                       (''namespace_name'', t_name),
                       (''name'', t_name)],
     other_attributes = [(''display_name'', t_name),
                    (''replicas'', t_integer)],
     db_attributes = [(''guid'', t_string None)],
     sorted_attributes = [],
     aci_mo_name = Some ''vmmInjectedDepl'', tree_parent = Some (Some ''VmmInjectedNamespace''), is_aci = True, is_root = False, fixed_root = None,
     ctor = plain_ctor [(''replicas'', JInt 0),
                 (''guid'', JStr [])]\<rparr>"

definition VmmInjectedReplicaSet :: klass where
  "VmmInjectedReplicaSet =
    \<lparr>kname = ''VmmInjectedReplicaSet'',
     identity_attributes = [(''domain_type'', t_name),
                       (''domain_name'', t_name),
                       (''controller_name'', t_name),
                       (''namespace_name'', t_name),
                       (''name'', t_name)],
     other_attributes = [(''display_name'', t_name),
                    (''deployment_name'', t_name)],
     db_attributes = [(''guid'', t_string None)],
     sorted_attributes = [],
     aci_mo_name = Some ''vmmInjectedReplSet'', tree_parent = Some (Some ''VmmInjectedNamespace''), is_aci = True, is_root = False, fixed_root = None,
     ctor = plain_ctor [(''deployment_name'', JStr []),
                 (''guid'', JStr [])]\<rparr>"

definition VmmInjectedService :: klass where
  "VmmInjectedService =
    \<lparr>kname = ''VmmInjectedService'',
     identity_attributes = [(''domain_type'', t_name),
                       (''domain_name'', t_name),
                       (''controller_name'', t_name),
                       (''namespace_name'', t_name),
                       (''name'', t_name)],
     other_attributes = [(''display_name'', t_name),
                    (''service_type'', t_enum [JStr ''clusterIp'', JStr ''externalName'', JStr ''nodePort'', JStr ''loadBalancer'']),
                    (''cluster_ip'', t_string None),
                    (''load_balancer_ip'', t_string None),
                    (''service_ports'', t_list_of_dicts [(''port'', t_ports), (''protocol'', t_string (Some 32)), (''target_port'', t_string (Some 32)), (''node_port'', t_ports)]),
                    (''endpoints'', t_list_of_dicts [(''ip'', t_string None), (''pod_name'', t_name)])],
     db_attributes = [(''guid'', t_string None)],
     sorted_attributes = [],
     aci_mo_name = Some ''vmmInjectedSvc'', tree_parent = Some (Some ''VmmInjectedNamespace''), is_aci = True, is_root = False, fixed_root = None,
     ctor = plain_ctor [(''service_type'', JStr ''clusterIp''),
                 (''cluster_ip'', JStr ''0.0.0.0''),
                 (''load_balancer_ip'', JStr ''0.0.0.0''),
                 (''service_ports'', JList []),
                 (''endpoints'', JList []),
                 (''guid'', JStr [])]\<rparr>"

definition VmmInjectedHost :: klass where
  "VmmInjectedHost =
    \<lparr>kname = ''VmmInjectedHost'',
     identity_attributes = [(''domain_type'', t_name),
                       (''domain_name'', t_name),
                       (''controller_name'', t_name),
                       (''name'', t_name)],
     other_attributes = [(''display_name'', t_name),
                    (''host_name'', t_string None),
                    (''kernel_version'', t_string None),
                    (''os'', t_string None)],
     db_attributes = [],
     sorted_attributes = [],
     aci_mo_name = Some ''vmmInjectedHost'', tree_parent = Some (Some ''VMMController''), is_aci = True, is_root = False, fixed_root = None,
     ctor = plain_ctor [(''host_name'', JStr []),
                 (''kernel_version'', JStr []),
                 (''os'', JStr [])]\<rparr>"

definition VmmInjectedContGroup :: klass where
  "VmmInjectedContGroup =
    \<lparr>kname = ''VmmInjectedContGroup'',
     identity_attributes = [(''domain_type'', t_name),
                       (''domain_name'', t_name),
                       (''controller_name'', t_name),
                       (''namespace_name'', t_name),
                       (''name'', t_name)],
     other_attributes = [(''display_name'', t_name),
                    (''host_name'', t_name),
                    (''compute_node_name'', t_name),
                    (''replica_set_name'', t_name)],
     db_attributes = [(''guid'', t_string None)],
     sorted_attributes = [],
     aci_mo_name = Some ''vmmInjectedContGrp'', tree_parent = Some (Some ''VmmInjectedNamespace''), is_aci = True, is_root = False, fixed_root = None,
     ctor = plain_ctor [(''host_name'', JStr []),
                 (''compute_node_name'', JStr []),
                 (''replica_set_name'', JStr []),
                 (''guid'', JStr [])]\<rparr>"

definition QosRequirement :: klass where
  "QosRequirement =
    \<lparr>kname = ''QosRequirement'',
     identity_attributes = [(''tenant_name'', t_name),
                       (''name'', t_name)],
     other_attributes = [(''display_name'', t_name),
                    (''dscp'', t_string None),
                    (''egress_dpp_pol'', t_name),
                    (''ingress_dpp_pol'', t_name),
                    (''monitored'', t_bool)],
     db_attributes = [],
     sorted_attributes = [],
     aci_mo_name = Some ''qosRequirement'', tree_parent = Some (Some ''Tenant''), is_aci = True, is_root = False, fixed_root = None,
     ctor = plain_ctor [(''display_name'', JStr []),
                 (''dscp'', JStr []),
                 (''egress_dpp_pol'', JStr []),
                 (''ingress_dpp_pol'', JStr []),
                 (''monitored'', JBool False)]\<rparr>"

definition QosDppPol :: klass where
  "QosDppPol =
    \<lparr>kname = ''QosDppPol'',
     identity_attributes = [(''tenant_name'', t_name),
                       (''name'', t_name)],
     other_attributes = [(''display_name'', t_name),
                    (''rate'', t_string None),
                    (''burst'', t_string None),
                    (''type'', t_enum [JStr [], JStr ''1R2C'', JStr ''2R3C'']),
                    (''mode'', t_enum [JStr [], JStr ''bit'', JStr ''packet'']),
                    (''pir'', t_string None),
                    (''be'', t_string None),
                    (''rate_unit'', t_enum [JStr [], JStr ''unspecified'', JStr ''kilo'', JStr ''mega'', JStr ''giga'']),
                    (''burst_unit'', t_enum [JStr [], JStr ''unspecified'', JStr ''kilo'', JStr ''mega'', JStr ''giga'', JStr ''msec'', JStr ''usec'']),
                    (''pir_unit'', t_enum [JStr [], JStr ''unspecified'', JStr ''kilo'', JStr ''mega'', JStr ''giga'']),
                    (''be_unit'', t_enum [JStr [], JStr ''unspecified'', JStr ''kilo'', JStr ''mega'', JStr ''giga'', JStr ''msec'', JStr ''usec'']),
                    (''conform_action'', t_enum [JStr [], JStr ''transmit'', JStr ''drop'', JStr ''mark'']),
                    (''exceed_action'', t_enum [JStr [], JStr ''transmit'', JStr ''drop'', JStr ''mark'']),
                    (''violate_action'', t_enum [JStr [], JStr ''transmit'', JStr ''drop'', JStr ''mark'']),
                    (''conform_mark_dscp'', t_string None),
                    (''exceed_mark_dscp'', t_string None),
                    (''violate_mark_dscp'', t_string None),
                    (''conform_mark_cos'', t_string None),
                    (''exceed_mark_cos'', t_string None),
                    (''violate_mark_cos'', t_string None),
                    (''admin_st'', t_enum [JStr [], JStr ''enabled'', JStr ''disabled'']),
                    (''sharing_mode'', t_enum [JStr [], JStr ''dedicated'', JStr ''shared'']),
                    (''monitored'', t_bool)],
     db_attributes = [],
     sorted_attributes = [],
     aci_mo_name = Some ''qosDppPol'', tree_parent = Some (Some ''Tenant''), is_aci = True, is_root = False, fixed_root = None,
     ctor = plain_ctor [(''display_name'', JStr []),
                 (''rate'', JStr ''0''),
                 (''pir'', JStr ''0''),
                 (''type'', JStr ''1R2C''),
                 (''mode'', JStr ''bit''),
                 (''burst'', JStr ''unspecified''),
                 (''be'', JStr ''unspecified''),
                 (''rate_unit'', JStr ''unspecified''),
                 (''burst_unit'', JStr ''unspecified''),
                 (''pir_unit'', JStr ''unspecified''),
                 (''be_unit'', JStr ''unspecified''),
                 (''conform_action'', JStr ''transmit''),
                 (''exceed_action'', JStr ''drop''),
                 (''violate_action'', JStr ''drop''),
                 (''conform_mark_dscp'', JStr ''unspecified''),
                 (''exceed_mark_dscp'', JStr ''unspecified''),
                 (''violate_mark_dscp'', JStr ''unspecified''),
                 (''conform_mark_cos'', JStr ''unspecified''),
                 (''exceed_mark_cos'', JStr ''unspecified''),
                 (''violate_mark_cos'', JStr ''unspecified''),
                 (''admin_st'', JStr ''enabled''),
                 (''sharing_mode'', JStr ''dedicated''),
                 (''monitored'', JBool False)]\<rparr>"

definition VmmVswitchPolicyGroup :: klass where
  "VmmVswitchPolicyGroup =
    \<lparr>kname = ''VmmVswitchPolicyGroup'',
     identity_attributes = [(''domain_type'', t_name),
                       (''domain_name'', t_name)],
     other_attributes = [(''monitored'', t_bool),
                    (''display_name'', t_name)],
     db_attributes = [],
     sorted_attributes = [],
     aci_mo_name = Some ''vmmVSwitchPolicyCont'', tree_parent = Some (Some ''VMMDomain''), is_aci = True, is_root = False, fixed_root = None,
     ctor = plain_ctor [(''monitored'', JBool False)]\<rparr>"

definition VmmRelationToExporterPol :: klass where
  "VmmRelationToExporterPol =
    \<lparr>kname = ''VmmRelationToExporterPol'',
     identity_attributes = [(''domain_type'', t_name),
                       (''domain_name'', t_name),
                       (''netflow_path'', t_string None)],
     other_attributes = [(''monitored'', t_bool),
                    (''active_flow_time_out'', t_string None),
                    (''idle_flow_time_out'', t_string None),
                    (''sampling_rate'', t_string None)],
     db_attributes = [],
     sorted_attributes = [],
     aci_mo_name = Some ''vmmRsVswitchExporterPol'', tree_parent = Some (Some ''VmmVswitchPolicyGroup''), is_aci = True, is_root = False, fixed_root = None,
     ctor = plain_ctor [(''monitored'', JBool False),
                 (''active_flow_time_out'', JStr ''60''),
                 (''sampling_rate'', JStr ''0''),
                 (''idle_flow_time_out'', JStr ''15'')]\<rparr>"

definition SpanVsourceGroup :: klass where
  "SpanVsourceGroup =
    \<lparr>kname = ''SpanVsourceGroup'',
     identity_attributes = [(''name'', t_name)],
     other_attributes = [(''admin_st'', t_enum [JStr ''start'', JStr ''stop'']),
                    (''monitored'', t_bool),
                    (''display_name'', t_name)],
     db_attributes = [],
     sorted_attributes = [],
     aci_mo_name = Some ''spanVSrcGrp'', tree_parent = Some (Some ''Infra''), is_aci = True, is_root = False, fixed_root = None,
     ctor = plain_ctor [(''admin_st'', JStr ''start''),
                 (''monitored'', JBool False)]\<rparr>"

definition SpanVsource :: klass where
  "SpanVsource =
    \<lparr>kname = ''SpanVsource'',
     identity_attributes = [(''vsg_name'', t_name),
                       (''name'', t_name)],
     other_attributes = [(''dir'', t_enum [JStr ''in'', JStr ''out'', JStr ''both'']),
                    (''monitored'', t_bool),
                    (''display_name'', t_name),
                    (''src_paths'', t_list_of_strings)],
     db_attributes = [],
     sorted_attributes = [],
     aci_mo_name = Some ''spanVSrc'', tree_parent = Some (Some ''SpanVsourceGroup''), is_aci = True, is_root = False, fixed_root = None,
     ctor = plain_ctor [(''dir'', JStr ''both''),
                 (''src_paths'', JList []),
                 (''monitored'', JBool False)]\<rparr>"

definition SpanVdestGroup :: klass where
  "SpanVdestGroup =
    \<lparr>kname = ''SpanVdestGroup'',
     identity_attributes = [(''name'', t_name)],
     other_attributes = [(''monitored'', t_bool),
                    (''display_name'', t_name)],
     db_attributes = [],
     sorted_attributes = [],
     aci_mo_name = Some ''spanVDestGrp'', tree_parent = Some (Some ''Infra''), is_aci = True, is_root = False, fixed_root = None,
     ctor = plain_ctor [(''monitored'', JBool False)]\<rparr>"

definition SpanVdest :: klass where
  "SpanVdest =
    \<lparr>kname = ''SpanVdest'',
     identity_attributes = [(''vdg_name'', t_name),
                       (''name'', t_name)],
     other_attributes = [(''monitored'', t_bool),
                    (''display_name'', t_name)],
     db_attributes = [],
     sorted_attributes = [],
     aci_mo_name = Some ''spanVDest'', tree_parent = Some (Some ''SpanVdestGroup''), is_aci = True, is_root = False, fixed_root = None,
     ctor = plain_ctor [(''monitored'', JBool False)]\<rparr>"

definition SpanVepgSummary :: klass where
  "SpanVepgSummary =
    \<lparr>kname = ''SpanVepgSummary'',
     identity_attributes = [(''vdg_name'', t_name),
                       (''vd_name'', t_name)],
     other_attributes = [(''monitored'', t_bool),
                    (''display_name'', t_name),
                    (''dst_ip'', t_string None),
                    (''flow_id'', t_string None),
                    (''ttl'', t_string None),
                    (''mtu'', t_string None),
                    (''mode'', t_enum [JStr ''visible'', JStr ''not-visible'']),
                    (''src_ip_prefix'', t_string None),
                    (''dscp'', t_string None)],
     db_attributes = [],
     sorted_attributes = [],
     aci_mo_name = Some ''spanVEpgSummary'', tree_parent = Some (Some ''SpanVdest''), is_aci = True, is_root = False, fixed_root = None,
     ctor = plain_ctor [(''monitored'', JBool False),
                 (''dst_ip'', JStr []),
                 (''flow_id'', JStr ''1''),
                 (''ttl'', JStr ''64''),
                 (''mtu'', JStr ''1518''),
                 (''mode'', JStr ''not-visible''),
                 (''src_ip_prefix'', JStr ''0.0.0.0''),
                 (''dscp'', JStr ''unspecified'')]\<rparr>"

definition InfraAccBundleGroup :: klass where
  "InfraAccBundleGroup =
    \<lparr>kname = ''InfraAccBundleGroup'',
     identity_attributes = [(''name'', t_name)],
     other_attributes = [(''monitored'', t_bool),
                    (''display_name'', t_name),
                    (''lag_t'', t_enum [JStr ''link'', JStr ''node'']),
                    (''span_vsource_group_names'', t_list_of_names),
                    (''span_vdest_group_names'', t_list_of_names)],
     db_attributes = [],
     sorted_attributes = [],
     aci_mo_name = Some ''infraAccBndlGrp'', tree_parent = Some (Some ''Infra''), is_aci = True, is_root = False, fixed_root = None,
     ctor = plain_ctor [(''monitored'', JBool False),
                 (''lag_t'', JStr ''link''),
                 (''span_vsource_group_names'', JList []),
                 (''span_vdest_group_names'', JList [])]\<rparr>"

definition InfraAccPortGroup :: klass where
  "InfraAccPortGroup =
    \<lparr>kname = ''InfraAccPortGroup'',
     identity_attributes = [(''name'', t_name)],
     other_attributes = [(''monitored'', t_bool),
                    (''display_name'', t_name),
                    (''span_vsource_group_names'', t_list_of_names),
                    (''span_vdest_group_names'', t_list_of_names)],
     db_attributes = [],
     sorted_attributes = [],
     aci_mo_name = Some ''infraAccPortGrp'', tree_parent = Some (Some ''Infra''), is_aci = True, is_root = False, fixed_root = None,
     ctor = plain_ctor [(''monitored'', JBool False),
                 (''span_vsource_group_names'', JList []),
                 (''span_vdest_group_names'', JList [])]\<rparr>"

definition SpanSpanlbl :: klass where
  "SpanSpanlbl =
    \<lparr>kname = ''SpanSpanlbl'',
     identity_attributes = [(''vsg_name'', t_name),
                       (''name'', t_name)],
     other_attributes = [(''monitored'', t_bool),
                    (''display_name'', t_name),
                    (''tag'', t_string None)],
     db_attributes = [],
     sorted_attributes = [],
     aci_mo_name = Some ''spanSpanLbl'', tree_parent = Some (Some ''SpanVsourceGroup''), is_aci = True, is_root = False, fixed_root = None,
     ctor = plain_ctor [(''monitored'', JBool False),
                 (''tag'', JStr [])]\<rparr>"

definition SystemSecurityGroup :: klass where
  "SystemSecurityGroup =
    \<lparr>kname = ''SystemSecurityGroup'',
     identity_attributes = [(''tenant_name'', t_name),
                       (''name'', t_name)],
     other_attributes = [(''display_name'', t_name),
                    (''monitored'', t_bool)],
     db_attributes = [],
     sorted_attributes = [],
     aci_mo_name = Some ''hostprotPol'', tree_parent = Some (Some ''Tenant''), is_aci = True, is_root = False, fixed_root = None,
     ctor = (\<lambda>conf kwargs. Inr (
       [(''tenant_name'', JStr ''common''), (''name'', JStr (system_id conf @ ''_SystemSecurityGroup'')),
        (''monitored'', JBool False)], kwargs))\<rparr>"

definition SystemSecurityGroupSubject :: klass where
  "SystemSecurityGroupSubject =
    \<lparr>kname = ''SystemSecurityGroupSubject'',
     identity_attributes = [(''tenant_name'', t_name),
                       (''security_group_name'', t_name),
                       (''name'', t_name)],
     other_attributes = [(''display_name'', t_name),
                    (''monitored'', t_bool)],
     db_attributes = [],
     sorted_attributes = [],
     aci_mo_name = Some ''hostprotSubj'', tree_parent = Some (Some ''SystemSecurityGroup''), is_aci = True, is_root = False, fixed_root = None,
     ctor = (\<lambda>conf kwargs. Inr (
       [(''tenant_name'', JStr ''common''),
        (''security_group_name'', JStr (system_id conf @ ''_SystemSecurityGroup'')),
        (''monitored'', JBool False)], kwargs))\<rparr>"

definition SystemSecurityGroupRule :: klass where
  "SystemSecurityGroupRule =
    \<lparr>kname = ''SystemSecurityGroupRule'',
     identity_attributes = [(''tenant_name'', t_name),
                       (''security_group_name'', t_name),
                       (''security_group_subject_name'', t_name),
                       (''name'', t_name)],
     other_attributes = [(''display_name'', t_name),
                    (''direction'', t_enum [JStr [], JStr ''ingress'', JStr ''egress'']),
                    (''ethertype'', t_enum [JStr [], JStr ''undefined'', JStr ''ipv4'', JStr ''ipv6'']),
                    (''remote_ips'', t_list_of_strings),
                    (''ip_protocol'', t_string None),
                    (''from_port'', t_port),
                    (''to_port'', t_port),
                    (''conn_track'', t_enum [JStr ''normal'', JStr ''reflexive'']),
                    (''icmp_type'', t_string None),
                    (''icmp_code'', t_string None),
                    (''monitored'', t_bool)],
     db_attributes = [],
     sorted_attributes = [],
     aci_mo_name = Some ''hostprotRule'', tree_parent = Some (Some ''SystemSecurityGroupSubject''), is_aci = True, is_root = False, fixed_root = None,
     ctor = (\<lambda>conf kwargs. Inr (
       [(''tenant_name'', JStr ''common''),
        (''security_group_name'', JStr (system_id conf @ ''_SystemSecurityGroup'')),
        (''direction'', JStr ''ingress''), (''ethertype'', JStr ''undefined''), (''remote_ips'', JList []),
        (''ip_protocol'', JStr ''unspecified''), (''from_port'', JStr ''unspecified''),
        (''to_port'', JStr ''unspecified''), (''icmp_type'', JStr ''unspecified''),
        (''icmp_code'', JStr ''unspecified''), (''conn_track'', JStr ''reflexive''),
        (''monitored'', JBool False)], kwargs))\<rparr>"

definition SecurityGroupRemoteIpContainer :: klass where
  "SecurityGroupRemoteIpContainer =
    \<lparr>kname = ''SecurityGroupRemoteIpContainer'',
     identity_attributes = [(''tenant_name'', t_name),
                       (''security_group_name'', t_name)],
     other_attributes = [(''name'', t_name),
                    (''display_name'', t_name),
                    (''monitored'', t_bool)],
     db_attributes = [],
     sorted_attributes = [],
     aci_mo_name = Some ''hostprotRemoteIpContainer'', tree_parent = Some (Some ''SecurityGroup''), is_aci = True, is_root = False, fixed_root = None,
     ctor = plain_ctor [(''monitored'', JBool False)]\<rparr>"

definition SecurityGroupRemoteIp :: klass where
  "SecurityGroupRemoteIp =
    \<lparr>kname = ''SecurityGroupRemoteIp'',
     identity_attributes = [(''tenant_name'', t_name),
                       (''security_group_name'', t_name),
                       (''addr'', t_ip_cidr)],
     other_attributes = [(''monitored'', t_bool),
                    (''display_name'', t_name)],
     db_attributes = [],
     sorted_attributes = [],
     aci_mo_name = Some ''hostprotRemoteIp__cont'', tree_parent = Some (Some ''SecurityGroupRemoteIpContainer''), is_aci = True, is_root = False, fixed_root = None,
     ctor = plain_ctor [(''monitored'', JBool False)]\<rparr>"

end
