(* ===== verification/Resources_More.thy ===== *)
theory Resources_More
  imports Resources
begin

text \<open>
  The resource classes of the service graph, the infrastructure, the status objects and the trees.
\<close>

section \<open>\<open>aim/api/service_graph.py\<close>\<close>

definition DeviceCluster :: klass where
  "DeviceCluster =
    \<lparr>kname = ''DeviceCluster'',
     identity_attributes = [(''tenant_name'', t_name),
                       (''name'', t_name)],
     other_attributes = [(''display_name'', t_name),
                    (''device_type'', t_enum [JStr ''PHYSICAL'', JStr ''VIRTUAL'']),
                    (''service_type'', t_enum [JStr ''ADC'', JStr ''FW'', JStr ''OTHERS'', JStr ''IDSIPS'', JStr ''COPY'']),
                    (''context_aware'', t_enum [JStr ''single-Context'', JStr ''multi-Context'']),
                    (''managed'', t_bool),
                    (''physical_domain_name'', t_name),
                    (''vmm_domain_type'', t_enum [JStr ''OpenStack'', JStr ''Kubernetes'', JStr ''VMware'', JStr []]),
                    (''vmm_domain_name'', t_name),
                    (''encap'', t_string (Some 24)),
                    (''devices'', t_list_of_dicts [(''name'', t_name), (''path'', t_string (Some 512)), (''host'', t_string (Some 512))]),
                    (''monitored'', t_bool)],
     db_attributes = [],
     sorted_attributes = [],
     aci_mo_name = Some ''vnsLDevVip'', tree_parent = Some (Some ''Tenant''), is_aci = True, is_root = False, fixed_root = None,
     ctor = plain_ctor [(''display_name'', JStr []),
                 (''device_type'', JStr ''PHYSICAL''),
                 (''service_type'', JStr ''OTHERS''),
                 (''context_aware'', JStr ''single-Context''),
                 (''managed'', JBool True),
                 (''physical_domain_name'', JStr []),
                 (''vmm_domain_type'', JStr []),
                 (''vmm_domain_name'', JStr []),
                 (''encap'', JStr []),
                 (''devices'', JList []),
                 (''monitored'', JBool False)]\<rparr>"

definition DeviceClusterInterface :: klass where
  "DeviceClusterInterface =
    \<lparr>kname = ''DeviceClusterInterface'',
     identity_attributes = [(''tenant_name'', t_name),
                       (''device_cluster_name'', t_name),
                       (''name'', t_name)],
     other_attributes = [(''display_name'', t_name),
                    (''encap'', t_string None),
                    (''concrete_interfaces'', t_list_of_strings),
                    (''monitored'', t_bool)],
     db_attributes = [],
     sorted_attributes = [],
     aci_mo_name = Some ''vnsLIf'', tree_parent = Some (Some ''DeviceCluster''), is_aci = True, is_root = False, fixed_root = None,
     ctor = plain_ctor [(''display_name'', JStr []),
                 (''encap'', JStr []),
                 (''concrete_interfaces'', JList []),
                 (''monitored'', JBool False)]\<rparr>"

definition ConcreteDevice :: klass where
  "ConcreteDevice =
    \<lparr>kname = ''ConcreteDevice'',
     identity_attributes = [(''tenant_name'', t_name),
                       (''device_cluster_name'', t_name),
                       (''name'', t_name)],
     other_attributes = [(''display_name'', t_name),
                    (''monitored'', t_bool)],
     db_attributes = [],
     sorted_attributes = [],
     aci_mo_name = Some ''vnsCDev'', tree_parent = Some (Some ''DeviceCluster''), is_aci = True, is_root = False, fixed_root = None,
     ctor = plain_ctor [(''display_name'', JStr []),
                 (''monitored'', JBool False)]\<rparr>"

definition ConcreteDeviceInterface :: klass where
  "ConcreteDeviceInterface =
    \<lparr>kname = ''ConcreteDeviceInterface'',
     identity_attributes = [(''tenant_name'', t_name),
                       (''device_cluster_name'', t_name),
                       (''device_name'', t_name),
                       (''name'', t_name)],
     other_attributes = [(''display_name'', t_name),
                    (''path'', t_string None),
                    (''host'', t_string None),
                    (''monitored'', t_bool)],
     db_attributes = [],
     sorted_attributes = [],
     aci_mo_name = Some ''vnsCIf'', tree_parent = Some (Some ''ConcreteDevice''), is_aci = True, is_root = False, fixed_root = None,
     ctor = plain_ctor [(''display_name'', JStr []),
                 (''path'', JStr []),
                 (''host'', JStr []),
                 (''monitored'', JBool False)]\<rparr>"

definition ServiceGraph :: klass where
  "ServiceGraph =
    \<lparr>kname = ''ServiceGraph'',
     identity_attributes = [(''tenant_name'', t_name),
                       (''name'', t_name)],
     other_attributes = [(''display_name'', t_name),
                    (''linear_chain_nodes'', t_list_of_dicts [(''name'', t_name), (''device_cluster_name'', t_name), (''device_cluster_tenant_name'', t_name)]),
                    (''monitored'', t_bool)],
     db_attributes = [],
     sorted_attributes = [''linear_chain_nodes''],
     aci_mo_name = Some ''vnsAbsGraph'', tree_parent = Some (Some ''Tenant''), is_aci = True, is_root = False, fixed_root = None,
     ctor = plain_ctor [(''display_name'', JStr []),
                 (''linear_chain_nodes'', JList []),
                 (''monitored'', JBool False)]\<rparr>"

definition ServiceGraphConnection :: klass where
  "ServiceGraphConnection =
    \<lparr>kname = ''ServiceGraphConnection'',
     identity_attributes = [(''tenant_name'', t_name),
                       (''service_graph_name'', t_name),
                       (''name'', t_name)],
     other_attributes = [(''display_name'', t_name),
                    (''adjacency_type'', t_enum [JStr ''L2'', JStr ''L3'']),
                    (''connector_direction'', t_enum [JStr ''consumer'', JStr ''provider'']),
                    (''connector_type'', t_enum [JStr ''internal'', JStr ''external'']),
                    (''direct_connect'', t_bool),
                    (''unicast_route'', t_bool),
                    (''connector_dns'', t_list_of_strings),
                    (''monitored'', t_bool)],
     db_attributes = [],
     sorted_attributes = [],
     aci_mo_name = Some ''vnsAbsConnection'', tree_parent = Some (Some ''ServiceGraph''), is_aci = True, is_root = False, fixed_root = None,
     ctor = plain_ctor [(''display_name'', JStr []),
                 (''adjacency_type'', JStr ''L2''),
                 (''connector_direction'', JStr ''provider''),
                 (''connector_type'', JStr ''external''),
                 (''direct_connect'', JBool False),
                 (''unicast_route'', JBool False),
                 (''connector_dns'', JList []),
                 (''monitored'', JBool False)]\<rparr>"

definition ServiceGraphNode :: klass where
  "ServiceGraphNode =
    \<lparr>kname = ''ServiceGraphNode'',
     identity_attributes = [(''tenant_name'', t_name),
                       (''service_graph_name'', t_name),
                       (''name'', t_name)],
     other_attributes = [(''display_name'', t_name),
                    (''function_type'', t_enum [JStr ''GoTo'', JStr ''GoThrough'']),
                    (''managed'', t_bool),
                    (''routing_mode'', t_enum [JStr ''unspecified'', JStr ''Redirect'']),
                    (''connectors'', t_list_of_names),
                    (''device_cluster_name'', t_name),
                    (''device_cluster_tenant_name'', t_name),
                    (''sequence_number'', t_string None),
                    (''monitored'', t_bool)],
     db_attributes = [],
     sorted_attributes = [],
     aci_mo_name = Some ''vnsAbsNode'', tree_parent = Some (Some ''ServiceGraph''), is_aci = True, is_root = False, fixed_root = None,
     ctor = plain_ctor [(''display_name'', JStr []),
                 (''function_type'', JStr ''GoTo''),
                 (''managed'', JBool True),
                 (''routing_mode'', JStr ''unspecified''),
                 (''connectors'', JList []),
                 (''device_cluster_name'', JStr []),
                 (''device_cluster_tenant_name'', JStr []),
                 (''sequence_number'', JStr ''0''),
                 (''monitored'', JBool False)]\<rparr>"

definition ServiceRedirectMonitoringPolicy :: klass where
  "ServiceRedirectMonitoringPolicy =
    \<lparr>kname = ''ServiceRedirectMonitoringPolicy'',
     identity_attributes = [(''tenant_name'', t_name),
                       (''name'', t_name)],
     other_attributes = [(''display_name'', t_name),
                    (''frequency'', t_string None),
                    (''type'', t_enum [JNull, JStr ''tcp'', JStr ''icmp'']),
                    (''tcp_port'', t_port),
                    (''monitored'', t_bool)],
     db_attributes = [],
     sorted_attributes = [],
     aci_mo_name = Some ''fvIPSLAMonitoringPol'', tree_parent = Some (Some ''Tenant''), is_aci = True, is_root = False, fixed_root = None,
     ctor = plain_ctor [(''display_name'', JStr []),
                 (''frequency'', JStr ''60''),
                 (''type'', JStr ''icmp''),
                 (''tcp_port'', JStr ''0''),
                 (''monitored'', JBool False)]\<rparr>"

definition ServiceRedirectHealthGroup :: klass where
  "ServiceRedirectHealthGroup =
    \<lparr>kname = ''ServiceRedirectHealthGroup'',
     identity_attributes = [(''tenant_name'', t_name),
                       (''name'', t_name)],
     other_attributes = [(''display_name'', t_name),
                    (''monitored'', t_bool)],
     db_attributes = [],
     sorted_attributes = [],
     aci_mo_name = Some ''vnsRedirectHealthGroup'', tree_parent = Some (Some ''Tenant''), is_aci = True, is_root = False, fixed_root = None,
     ctor = plain_ctor [(''display_name'', JStr []),
                 (''monitored'', JBool False)]\<rparr>"

definition ServiceRedirectPolicy :: klass where
  "ServiceRedirectPolicy =
    \<lparr>kname = ''ServiceRedirectPolicy'',
     identity_attributes = [(''tenant_name'', t_name),
                       (''name'', t_name)],
     other_attributes = [(''display_name'', t_name),
                    (''monitoring_policy_tenant_name'', t_name),
                    (''monitoring_policy_name'', t_name),
                    (''destinations'', t_list_of_dicts [(''ip'', t_string None), (''mac'', t_mac_address), (''redirect_health_group_dn'', t_string None), (''name'', t_name)]),
                    (''monitored'', t_bool)],
     db_attributes = [],
     sorted_attributes = [],
     aci_mo_name = Some ''vnsSvcRedirectPol'', tree_parent = Some (Some ''Tenant''), is_aci = True, is_root = False, fixed_root = None,
     ctor = plain_ctor [(''display_name'', JStr []),
                 (''monitoring_policy_tenant_name'', JStr []),
                 (''monitoring_policy_name'', JStr []),
                 (''destinations'', JList []),
                 (''monitored'', JBool False)]\<rparr>"

definition DeviceClusterContext :: klass where
  "DeviceClusterContext =
    \<lparr>kname = ''DeviceClusterContext'',
     identity_attributes = [(''tenant_name'', t_name),
                       (''contract_name'', t_name),
                       (''service_graph_name'', t_name),
                       (''node_name'', t_name)],
     other_attributes = [(''display_name'', t_name),
                    (''device_cluster_name'', t_name),
                    (''device_cluster_tenant_name'', t_name),
                    (''service_redirect_policy_name'', t_name),
                    (''service_redirect_policy_tenant_name'', t_name),
                    (''bridge_domain_name'', t_name),
                    (''bridge_domain_tenant_name'', t_name),
                    (''monitored'', t_bool)],
     db_attributes = [],
     sorted_attributes = [],
     aci_mo_name = Some ''vnsLDevCtx'', tree_parent = Some (Some ''Tenant''), is_aci = True, is_root = False, fixed_root = None,
     ctor = plain_ctor [(''display_name'', JStr []),
                 (''device_cluster_name'', JStr []),
                 (''device_cluster_tenant_name'', JStr []),
                 (''service_redirect_policy_name'', JStr []),
                 (''service_redirect_policy_tenant_name'', JStr []),
                 (''bridge_domain_name'', JStr []),
                 (''bridge_domain_tenant_name'', JStr []),
                 (''monitored'', JBool False)]\<rparr>"

definition DeviceClusterInterfaceContext :: klass where
  "DeviceClusterInterfaceContext =
    \<lparr>kname = ''DeviceClusterInterfaceContext'',
     identity_attributes = [(''tenant_name'', t_name),
                       (''contract_name'', t_name),
                       (''service_graph_name'', t_name),
                       (''node_name'', t_name),
                       (''connector_name'', t_name)],
     other_attributes = [(''display_name'', t_name),
                    (''device_cluster_interface_dn'', t_string None),
                    (''service_redirect_policy_dn'', t_string None),
                    (''bridge_domain_dn'', t_string None),
                    (''monitored'', t_bool)],
     db_attributes = [],
     sorted_attributes = [],
     aci_mo_name = Some ''vnsLIfCtx'', tree_parent = Some (Some ''DeviceClusterContext''), is_aci = True, is_root = False, fixed_root = None,
     ctor = plain_ctor [(''display_name'', JStr []),
                 (''device_cluster_interface_dn'', JStr []),
                 (''service_redirect_policy_dn'', JStr []),
                 (''bridge_domain_dn'', JStr []),
                 (''monitored'', JBool False)]\<rparr>"

section \<open>\<open>aim/api/infra.py\<close>\<close>

definition HostLink :: klass where
  "HostLink =
    \<lparr>kname = ''HostLink'',
     identity_attributes = [(''host_name'', t_string (Some 36)),
                       (''interface_name'', t_string (Some 36))],
     other_attributes = [(''interface_mac'', t_mac_address),
                    (''switch_id'', t_string None),
                    (''module'', t_string None),
                    (''port'', t_string None),
                    (''path'', t_string None),
                    (''pod_id'', t_string None),
                    (''from_config'', t_bool)],
     db_attributes = [],
     sorted_attributes = [],
     aci_mo_name = None, tree_parent = None, is_aci = False, is_root = False, fixed_root = None,
     ctor = plain_ctor [(''interface_mac'', JStr []),
                 (''switch_id'', JStr []),
                 (''module'', JStr []),
                 (''port'', JStr []),
                 (''path'', JStr []),
                 (''pod_id'', JStr ''1''),
                 (''from_config'', JBool False)]\<rparr>"

definition OpflexDevice :: klass where
  "OpflexDevice =
    \<lparr>kname = ''OpflexDevice'',
     identity_attributes = [(''pod_id'', t_id),
                       (''node_id'', t_id),
                       (''bridge_interface'', t_id),
                       (''dev_id'', t_id)],
     other_attributes = [(''host_name'', t_string (Some 128)),
                    (''ip'', t_string (Some 64)),
                    (''fabric_path_dn'', t_string None),
                    (''domain_name'', t_string (Some 64)),
                    (''controller_name'', t_string (Some 64))],
     db_attributes = [],
     sorted_attributes = [],
     aci_mo_name = Some ''opflexODev'', tree_parent = Some (Some ''Pod''), is_aci = True, is_root = False, fixed_root = Some ''topology'',
     ctor = (\<lambda>conf kwargs. Inr (
       [(''host_name'', JStr []), (''ip'', JStr []), (''fabric_path_dn'', JStr []),
        (''domain_name'', JStr []), (''controller_name'', JStr [])],
       kwargs @ [(''monitored'', JBool True)]))\<rparr>"

definition HostDomainMapping :: klass where
  "HostDomainMapping =
    \<lparr>kname = ''HostDomainMapping'',
     identity_attributes = [(''host_name'', t_string (Some 128))],
     other_attributes = [(''vmm_domain_name'', t_string (Some 64)),
                    (''physical_domain_name'', t_string (Some 64))],
     db_attributes = [],
     sorted_attributes = [],
     aci_mo_name = None, tree_parent = None, is_aci = False, is_root = False, fixed_root = None,
     ctor = plain_ctor [(''vmm_domain_name'', JStr []),
                 (''physical_domain_name'', JStr [])]\<rparr>"

definition HostDomainMappingV2 :: klass where
  "HostDomainMappingV2 =
    \<lparr>kname = ''HostDomainMappingV2'',
     identity_attributes = [(''host_name'', t_string (Some 128)),
                       (''domain_name'', t_string (Some 64)),
                       (''domain_type'', t_enum [JStr ''PhysDom'', JStr ''OpenStack'', JStr ''Kubernetes'', JStr ''VMware''])],
     other_attributes = [],
     db_attributes = [],
     sorted_attributes = [],
     aci_mo_name = None, tree_parent = None, is_aci = False, is_root = False, fixed_root = None,
     ctor = plain_ctor []\<rparr>"

definition HostLinkNetworkLabel :: klass where
  "HostLinkNetworkLabel =
    \<lparr>kname = ''HostLinkNetworkLabel'',
     identity_attributes = [(''host_name'', t_string (Some 128)),
                       (''network_label'', t_string (Some 64)),
                       (''interface_name'', t_string (Some 32))],
     other_attributes = [],
     db_attributes = [],
     sorted_attributes = [],
     aci_mo_name = None, tree_parent = None, is_aci = False, is_root = False, fixed_root = None,
     ctor = plain_ctor []\<rparr>"

definition ApicAssignment :: klass where
  "ApicAssignment =
    \<lparr>kname = ''ApicAssignment'',
     identity_attributes = [(''apic_host'', t_string (Some 128))],
     other_attributes = [(''aim_aid_id'', t_string (Some 64))],
     db_attributes = [(''last_update_timestamp'', t_string None)],
     sorted_attributes = [],
     aci_mo_name = None, tree_parent = None, is_aci = False, is_root = False, fixed_root = None,
     ctor = plain_ctor [(''aim_aid_id'', JStr [])]\<rparr>"

definition ACISupportedMo :: klass where
  "ACISupportedMo =
    \<lparr>kname = ''ACISupportedMo'',
     identity_attributes = [(''name'', t_string (Some 64))],
     other_attributes = [(''supports'', t_bool)],
     db_attributes = [],
     sorted_attributes = [],
     aci_mo_name = None, tree_parent = None, is_aci = False, is_root = False, fixed_root = None,
     ctor = plain_ctor [(''supports'', JBool False)]\<rparr>"

definition AimHashRing :: klass where
  "AimHashRing =
    \<lparr>kname = ''AimHashRing'',
     identity_attributes = [(''name'', t_string (Some 16))],
     other_attributes = [(''value'', t_integer)],
     db_attributes = [],
     sorted_attributes = [],
     aci_mo_name = None, tree_parent = None, is_aci = False, is_root = False, fixed_root = None,
     ctor = plain_ctor []\<rparr>"

section \<open>\<open>aim/api/status.py\<close>\<close>

definition AciStatus :: klass where
  "AciStatus =
    \<lparr>kname = ''AciStatus'',
     identity_attributes = [(''resource_type'', t_string None),
                       (''resource_id'', t_id),
                       (''resource_root'', t_name)],
     other_attributes = [(''sync_status'', t_enum [JStr ''synced'', JStr ''sync_pending'', JStr ''sync_failed'']),
                    (''sync_message'', t_string None),
                    (''health_score'', t_number),
                    (''faults'', t_list_of_strings),
                    (''resource_dn'', t_string None)],
     db_attributes = [(''id'', t_string (Some 36))],
     sorted_attributes = [],
     aci_mo_name = None, tree_parent = None, is_aci = False, is_root = False, fixed_root = None,
     ctor = plain_ctor [(''resource_type'', JNull), (''resource_id'', JNull),
                 (''sync_status'', JStr ''N/A''), (''sync_message'', JStr []),
                 (''health_score'', JInt 100), (''faults'', JList [])]\<rparr>"

definition AciFault :: klass where
  "AciFault =
    \<lparr>kname = ''AciFault'',
     identity_attributes = [(''fault_code'', t_string None),
                       (''external_identifier'', t_string None)],
     other_attributes = [(''severity'', t_enum [JStr ''cleared'', JStr ''critical'', JStr ''info'', JStr ''warning'', JStr ''major'', JStr ''minor'']),
                    (''status_id'', t_id),
                    (''cause'', t_string None),
                    (''description'', t_string (Some 255))],
     db_attributes = [(''last_update_timestamp'', t_string None)],
     sorted_attributes = [],
     aci_mo_name = Some ''faultInst'', tree_parent = None, is_aci = False, is_root = False, fixed_root = None,
     ctor = plain_ctor [(''severity'', JStr ''info''), (''lifecycle_status'', JInt 0),
                 (''cause'', JStr []), (''description'', JStr [])]\<rparr>"

section \<open>\<open>aim/api/tree.py\<close>\<close>

definition Tree :: klass where
  "Tree =
    \<lparr>kname = ''Tree'',
     identity_attributes = [(''root_rn'', t_string (Some 64))],
     other_attributes = [(''needs_reset'', t_bool)],
     db_attributes = [],
     sorted_attributes = [],
     aci_mo_name = None, tree_parent = None, is_aci = False, is_root = False, fixed_root = None,
     ctor = plain_ctor []\<rparr>"

definition ConfigTree :: klass where
  "ConfigTree =
    \<lparr>kname = ''ConfigTree'',
     identity_attributes = [(''root_rn'', t_string (Some 64))],
     other_attributes = [(''root_full_hash'', t_string (Some 256)),
                    (''tree'', t_string None)],
     db_attributes = [],
     sorted_attributes = [],
     aci_mo_name = None, tree_parent = None, is_aci = False, is_root = False, fixed_root = None,
     ctor = plain_ctor []\<rparr>"

definition OperationalTree :: klass where
  "OperationalTree =
    \<lparr>kname = ''OperationalTree'',
     identity_attributes = [(''root_rn'', t_string (Some 64))],
     other_attributes = [(''root_full_hash'', t_string (Some 256)),
                    (''tree'', t_string None)],
     db_attributes = [],
     sorted_attributes = [],
     aci_mo_name = None, tree_parent = None, is_aci = False, is_root = False, fixed_root = None,
     ctor = plain_ctor []\<rparr>"

definition MonitoredTree :: klass where
  "MonitoredTree =
    \<lparr>kname = ''MonitoredTree'',
     identity_attributes = [(''root_rn'', t_string (Some 64))],
     other_attributes = [(''root_full_hash'', t_string (Some 256)),
                    (''tree'', t_string None)],
     db_attributes = [],
     sorted_attributes = [],
     aci_mo_name = None, tree_parent = None, is_aci = False, is_root = False, fixed_root = None,
     ctor = plain_ctor []\<rparr>"

definition ActionLog :: klass where
  "ActionLog =
    \<lparr>kname = ''ActionLog'',
     identity_attributes = [(''uuid'', t_string (Some 64))],
     other_attributes = [(''action'', t_enum [JStr ''create'', JStr ''delete'', JStr ''reset'']),
                    (''object_type'', t_string (Some 50)),
                    (''object_dict'', t_string None),
                    (''root_rn'', t_string (Some 64))],
     db_attributes = [(''timestamp'', t_string None),
                 (''id'', t_integer)],
     sorted_attributes = [],
     aci_mo_name = None, tree_parent = None, is_aci = False, is_root = False, fixed_root = None,
     ctor = (\<lambda>conf kwargs. Inr ([(''uuid'', JStr (fresh_uuid conf))], kwargs))\<rparr>"

end
