(* ===== verification/Aim_Manager.thy ===== *)
theory Aim_Manager
  imports Resources_More
begin

text \<open>
  \<open>aim/aim_manager.py\<close>: the operations on AIM objects and the synchronisation status of ACI
  objects. The database is the state \<open>aim_db\<close>: the rows of all tables in insertion order. What the
  store does with it (\<open>aim/aim_store.py\<close>: query by equality, insert or update, delete) is written
  on that state; a transaction that raises leaves no change, so an operation returns either an
  exception or a result with the new state. Row locks, timestamps and the \<open>epoch\<close> counter are left
  out, as are the \<open>in_\<close>, \<open>notin_\<close> and \<open>order_by\<close> arguments of queries.

  \<open>env\<close> holds what the operations read: the configuration, the naming functions of \<open>apicapi\<close> and
  the managed classes.
\<close>

section \<open>The store\<close>

type_synonym row = "(string, json) dict"

record aim_db =
  tables :: "(string \<times> row) list"
  next_id :: nat

record env =
  conf :: conf
  api :: apic_api
  classes :: "klass list"

definition klass_of :: "env \<Rightarrow> string \<Rightarrow> klass option" where
  "klass_of env n = find (\<lambda>k. kname k = n) (classes env)"

definition matches :: "kwargs \<Rightarrow> row \<Rightarrow> bool" where
  "matches filters r \<longleftrightarrow> list_all (\<lambda>(a, v). dict_get r a = Some v) filters"

definition store_query :: "aim_db \<Rightarrow> klass \<Rightarrow> kwargs \<Rightarrow> row list" where
  "store_query db k filters =
     map snd (filter (\<lambda>(c, r). c = kname k \<and> matches filters r) (tables db))"

text \<open>The columns that identify a row of a class.\<close>

definition row_id :: "klass \<Rightarrow> row \<Rightarrow> json option list" where
  "row_id k r = map (\<lambda>(a, _). dict_get r a) (identity_attributes k)"

definition same_row :: "klass \<Rightarrow> row \<Rightarrow> string \<times> row \<Rightarrow> bool" where
  "same_row k r cr \<longleftrightarrow> fst cr = kname k \<and> row_id k (snd cr) = row_id k r"

text \<open>A new row of an ACI class gets an \<open>aim_id\<close>, a new status an \<open>id\<close>.\<close>

definition new_ids :: "aim_db \<Rightarrow> klass \<Rightarrow> row \<Rightarrow> row" where
  "new_ids db k r =
     (let i = JStr (nat_str (next_id db)) in
      if is_aci k then dict_set ''aim_id'' i r
      else if kname k = ''AciStatus'' then dict_set ''id'' i r else r)"

definition store_add :: "klass \<Rightarrow> row \<Rightarrow> aim_db \<Rightarrow> aim_db" where
  "store_add k r db =
     (if list_ex (same_row k r) (tables db)
      then db\<lparr>tables := map (\<lambda>cr. if same_row k r cr then (fst cr, r) else cr) (tables db)\<rparr>
      else \<lparr>tables = tables db @ [(kname k, new_ids db k r)], next_id = Suc (next_id db)\<rparr>)"

definition store_delete :: "klass \<Rightarrow> row \<Rightarrow> aim_db \<Rightarrow> aim_db" where
  "store_delete k r db = db\<lparr>tables := filter (\<lambda>cr. \<not> same_row k r cr) (tables db)\<rparr>"

definition store_update_all :: "klass \<Rightarrow> kwargs \<Rightarrow> kwargs \<Rightarrow> aim_db \<Rightarrow> aim_db" where
  "store_update_all k filters vals db =
     db\<lparr>tables := map (\<lambda>(c, r). if c = kname k \<and> matches filters r then (c, dict_update r vals) else (c, r))
        (tables db)\<rparr>"

definition store_delete_all :: "klass \<Rightarrow> kwargs \<Rightarrow> aim_db \<Rightarrow> aim_db" where
  "store_delete_all k filters db =
     db\<lparr>tables := filter (\<lambda>(c, r). \<not> (c = kname k \<and> matches filters r)) (tables db)\<rparr>"

text \<open>\<open>make_resource\<close>, \<open>extract_attributes\<close>, \<open>make_db_obj\<close>.\<close>

definition make_resource :: "env \<Rightarrow> klass \<Rightarrow> row \<Rightarrow> bool \<Rightarrow> obj result" where
  "make_resource env k r include_aim_id =
     bind_res (make_obj (conf env) k (filter (\<lambda>(a, _). a \<in> set (attributes k)) r)) (\<lambda>res.
       Inr (case dict_get r ''aim_id'' of
              Some i \<Rightarrow> if include_aim_id then res\<lparr>ofields := dict_set ''_aim_id'' i (ofields res)\<rparr> else res
            | None \<Rightarrow> res))"

definition extract_id :: "klass \<Rightarrow> obj \<Rightarrow> kwargs result" where
  "extract_id k r = traverse_res (\<lambda>(a, _). bind_res (get_attr r a) (\<lambda>v. Inr (a, v))) (identity_attributes k)"

definition extract_other :: "klass \<Rightarrow> obj \<Rightarrow> kwargs" where
  "extract_other k r = map (\<lambda>(a, _). (a, get_attr_or r a JNull)) (other_attributes k)"

definition extract_db :: "klass \<Rightarrow> obj \<Rightarrow> kwargs" where
  "extract_db k r =
     concat (map (\<lambda>(a, _). case lookup_attr r a of Some v \<Rightarrow> [(a, v)] | None \<Rightarrow> []) (db_attributes k))"

definition make_db_obj :: "klass \<Rightarrow> obj \<Rightarrow> row result" where
  "make_db_obj k r =
     bind_res (extract_id k r) (\<lambda>i. Inr (dict_update [] (i @ extract_other k r @ extract_db k r)))"

section \<open>Reading\<close>

definition validate_resource_class :: "env \<Rightarrow> klass \<Rightarrow> unit result" where
  "validate_resource_class env k =
     (if klass_of env (kname k) = None then Inl (UnknownResourceType (kname k)) else Inr ())"

definition query_db_obj :: "aim_db \<Rightarrow> klass \<Rightarrow> obj \<Rightarrow> row option result" where
  "query_db_obj db k r =
     bind_res (extract_id k r) (\<lambda>i. Inr (case store_query db k i of [] \<Rightarrow> None | x # _ \<Rightarrow> Some x))"

definition aim_get :: "env \<Rightarrow> aim_db \<Rightarrow> klass \<Rightarrow> obj \<Rightarrow> bool \<Rightarrow> obj option result" where
  "aim_get env db k r include_aim_id =
     bind_res (validate_resource_class env k) (\<lambda>_.
     bind_res (query_db_obj db k r) (\<lambda>row.
       case row of
         None \<Rightarrow> Inr None
       | Some x \<Rightarrow> bind_res (make_resource env k x include_aim_id) (\<lambda>o'. Inr (Some o'))))"

definition get_by_id :: "env \<Rightarrow> aim_db \<Rightarrow> klass \<Rightarrow> string \<Rightarrow> bool \<Rightarrow> obj option result" where
  "get_by_id env db k aim_id include_aim_id =
     bind_res (validate_resource_class env k) (\<lambda>_.
       case store_query db k [(''aim_id'', JStr aim_id)] of
         [] \<Rightarrow> Inr None
       | x # _ \<Rightarrow> bind_res (make_resource env k x include_aim_id) (\<lambda>o'. Inr (Some o')))"

definition known_filters :: "klass \<Rightarrow> kwargs \<Rightarrow> kwargs" where
  "known_filters k filters = filter (\<lambda>(a, _). a \<in> set (attributes k)) filters"

definition aim_find :: "env \<Rightarrow> aim_db \<Rightarrow> klass \<Rightarrow> kwargs \<Rightarrow> bool \<Rightarrow> obj list result" where
  "aim_find env db k filters include_aim_id =
     bind_res (validate_resource_class env k) (\<lambda>_.
       traverse_res (\<lambda>x. make_resource env k x include_aim_id) (store_query db k (known_filters k filters)))"

definition aim_count :: "env \<Rightarrow> aim_db \<Rightarrow> klass \<Rightarrow> kwargs \<Rightarrow> nat result" where
  "aim_count env db k filters =
     bind_res (validate_resource_class env k) (\<lambda>_. Inr (length (store_query db k (known_filters k filters))))"

definition delete_all :: "env \<Rightarrow> klass \<Rightarrow> kwargs \<Rightarrow> aim_db \<Rightarrow> aim_db result" where
  "delete_all env k filters db =
     bind_res (validate_resource_class env k) (\<lambda>_. Inr (store_delete_all k (known_filters k filters) db))"

text \<open>
  \<open>_get_subtree\<close>: the classes below a class, depth first, and the objects of each with the given
  leading identity. The fuel bounds the depth of the class tree.
\<close>

definition model_children :: "env \<Rightarrow> klass \<Rightarrow> klass list" where
  "model_children env k = filter (\<lambda>c. tree_parent c = Some (Some (kname k))) (classes env)"

fun subtree_klasses :: "nat \<Rightarrow> env \<Rightarrow> klass \<Rightarrow> klass list" where
  "subtree_klasses 0 env k = []"
| "subtree_klasses (Suc n) env k = concat (map (\<lambda>c. c # subtree_klasses n env c) (model_children env k))"

definition identity_filter :: "klass \<Rightarrow> string list \<Rightarrow> kwargs result" where
  "identity_filter k ident =
     (if length ident \<le> length (identity_attributes k)
      then Inr (zip (map fst (identity_attributes k)) (map JStr ident)) else Inl IndexError)"

definition get_subtree :: "env \<Rightarrow> aim_db \<Rightarrow> klass \<Rightarrow> obj \<Rightarrow> (klass \<times> obj) list result" where
  "get_subtree env db k r =
     bind_res (identity k r) (\<lambda>ident.
     bind_res (traverse_res (\<lambda>c.
         bind_res (identity_filter c ident) (\<lambda>f.
         bind_res (aim_find env db c f False) (\<lambda>os. Inr (map (\<lambda>x. (c, x)) os))))
       (subtree_klasses (length (classes env)) env k)) (\<lambda>parts. Inr (concat parts)))"

section \<open>Writing\<close>

definition opt_json :: "row \<Rightarrow> string \<Rightarrow> json" where
  "opt_json r a = dict_getd r a JNull"

definition should_set_pending :: "bool \<Rightarrow> json \<Rightarrow> json \<Rightarrow> bool" where
  "should_set_pending old_obj old_monitored new_monitored \<longleftrightarrow>
     old_obj \<and> old_monitored = JBool False \<and> new_monitored = JBool True"

text \<open>
  \<open>create\<close> and \<open>update\<close> up to the point where they may call \<open>set_resource_sync_pending\<close>. The result
  says what happened: an unchanged old object, or a written row and whether the status has to be
  set to pending. Status objects have no \<open>monitored\<close> attribute, so the status operations below
  use these parts alone.
\<close>

datatype written = Unchanged obj | Missing | Written bool

definition create_row ::
  "env \<Rightarrow> klass \<Rightarrow> obj \<Rightarrow> bool \<Rightarrow> bool \<Rightarrow> aim_db \<Rightarrow> (written \<times> aim_db) result" where
  "create_row env k r overwrite fix_ownership db =
     bind_res (validate_resource_class env k) (\<lambda>_.
     bind_res (if overwrite then query_db_obj db k r else Inr None) (\<lambda>old.
       case old of
         Some row \<Rightarrow>
           (let old_monitored = opt_json row ''monitored'';
                new_monitored = get_attr_or r ''monitored'' JNull in
            if fix_ownership \<and> old_monitored \<noteq> JNull \<and> old_monitored \<noteq> new_monitored
            then Inl InvalidMonitoredStateUpdate
            else bind_res (make_resource env k row False) (\<lambda>old_resource.
              if user_equal k old_resource r then Inr (Unchanged old_resource, db)
              else Inr (Written (should_set_pending True old_monitored new_monitored),
                        store_add k (dict_update row (extract_other k r)) db)))
       | None \<Rightarrow>
           bind_res (make_db_obj k r) (\<lambda>row.
             if list_ex (same_row k row) (tables db) then Inl (OtherError ''DBDuplicateEntry'')
             else Inr (Written False, store_add k row db))))"

definition update_row ::
  "env \<Rightarrow> klass \<Rightarrow> obj \<Rightarrow> bool \<Rightarrow> bool \<Rightarrow> kwargs \<Rightarrow> aim_db \<Rightarrow> (written \<times> aim_db) result" where
  "update_row env k r fix_ownership force_update vals db =
     bind_res (validate_resource_class env k) (\<lambda>_.
     bind_res (query_db_obj db k r) (\<lambda>old.
       case old of
         None \<Rightarrow> Inr (Missing, db)
       | Some row \<Rightarrow>
           bind_res (make_resource env k row False) (\<lambda>old_resource.
             let old_monitored = opt_json row ''monitored'';
                 new_monitored = dict_getd vals ''monitored'' JNull;
                 attr_val = filter (\<lambda>(a, _). a \<in> set (map fst (other_attributes k))) vals in
             if fix_ownership \<and> old_monitored \<noteq> JNull \<and> old_monitored \<noteq> new_monitored
             then Inl InvalidMonitoredStateUpdate
             else if attr_val \<noteq> [] then
               (let changed = old_resource\<lparr>ofields := dict_update (ofields old_resource) attr_val\<rparr> in
                if user_equal k changed old_resource \<and> \<not> force_update then Inr (Unchanged changed, db)
                else Inr (Written (should_set_pending True old_monitored new_monitored),
                          store_add k (dict_update row attr_val) db))
             else Inr (Written (should_set_pending True old_monitored new_monitored), store_add k row db))))"

section \<open>Status\<close>

definition SYNC_PENDING :: string where "SYNC_PENDING = ''sync_pending''"
definition SYNCED :: string where "SYNCED = ''synced''"
definition SYNC_FAILED :: string where "SYNC_FAILED = ''sync_failed''"
definition SYNC_NA :: string where "SYNC_NA = ''N/A''"

definition get_status_params :: "aim_db \<Rightarrow> klass \<Rightarrow> obj \<Rightarrow> json option result" where
  "get_status_params db k r =
     (let inj = (case dict_get (ofields r) ''_injected_aim_id'' of
                   Some v \<Rightarrow> v | None \<Rightarrow> dict_getd (ofields r) ''_aim_id'' JNull) in
      if json_truth inj then Inr (Some inj)
      else bind_res (query_db_obj db k r) (\<lambda>row.
        Inr (case row of None \<Rightarrow> None | Some x \<Rightarrow> dict_get x ''aim_id'')))"

definition status_key :: "env \<Rightarrow> klass \<Rightarrow> obj \<Rightarrow> json \<Rightarrow> kwargs result" where
  "status_key env k r res_id =
     bind_res (obj_root (api env) k r) (\<lambda>root.
       Inr [(''resource_type'', JStr (kname k)), (''resource_id'', res_id), (''resource_root'', JStr root)])"

text \<open>\<open>update_status\<close>: \<open>create(status, overwrite=True)\<close> and the object it returns.\<close>

definition update_status :: "env \<Rightarrow> klass \<Rightarrow> obj \<Rightarrow> obj \<Rightarrow> aim_db \<Rightarrow> (obj option \<times> aim_db) result" where
  "update_status env k r status db =
     (if is_aci k then
        bind_res (get_status_params db k r) (\<lambda>res_id.
          case res_id of
            None \<Rightarrow> Inr (None, db)
          | Some i \<Rightarrow>
              (let status' = status\<lparr>ofields := dict_update (ofields status)
                     [(''resource_type'', JStr (kname k)), (''resource_id'', i)]\<rparr> in
               bind_res (create_row env AciStatus status' True False db) (\<lambda>(w, db').
                 case w of
                   Unchanged o' \<Rightarrow> Inr (Some o', db')
                 | _ \<Rightarrow> bind_res (aim_get env db' AciStatus status' False) (\<lambda>o'. Inr (o', db')))))
      else Inr (None, db))"

text \<open>\<open>get_status\<close>: the status, its faults, and the database, where it may have created a status.\<close>

definition get_status ::
  "env \<Rightarrow> klass \<Rightarrow> obj \<Rightarrow> bool \<Rightarrow> aim_db \<Rightarrow> ((obj \<times> obj list) option \<times> aim_db) result" where
  "get_status env k r create_if_absent db =
     (if is_aci k then
        bind_res (get_status_params db k r) (\<lambda>res_id.
          case res_id of
            None \<Rightarrow> Inr (None, db)
          | Some i \<Rightarrow>
              bind_res (status_key env k r i) (\<lambda>key.
              bind_res (make_obj (conf env) AciStatus key) (\<lambda>probe.
              bind_res (aim_get env db AciStatus probe False) (\<lambda>found.
                case found of
                  None \<Rightarrow>
                    if create_if_absent then
                      bind_res (obj_dn (api env) k r) (\<lambda>dn.
                      bind_res (make_obj (conf env) AciStatus (key @ [(''resource_dn'', JStr dn)])) (\<lambda>fresh.
                      bind_res (update_status env k r fresh db) (\<lambda>(o', db').
                        Inr (map_option (\<lambda>x. (x, [])) o', db'))))
                    else Inr (None, db)
                | Some status \<Rightarrow>
                    bind_res (aim_find env db AciFault [(''status_id'', get_attr_or status ''id'' JNull)] False)
                      (\<lambda>faults. Inr (Some (status, faults), db))))))
      else Inr (None, db))"

text \<open>\<open>_set_resource_sync\<close>.\<close>

definition set_resource_sync ::
  "env \<Rightarrow> klass \<Rightarrow> obj \<Rightarrow> string \<Rightarrow> string \<Rightarrow> string list \<Rightarrow> aim_db \<Rightarrow> (bool \<times> aim_db) result" where
  "set_resource_sync env k r sync_status message exclude db =
     (if kname k = ''AciStatus'' then Inr (False, db)
      else
        bind_res (validate_resource_class env k) (\<lambda>_.
        bind_res (get_status env k r True db) (\<lambda>(found, db1).
          case found of
            Some (status, _) \<Rightarrow>
              if get_attr_or status ''sync_status'' JNull \<notin> set (map JStr exclude) then
                bind_res (update_row env AciStatus status False True
                    [(''sync_status'', JStr sync_status), (''sync_message'', JStr message)] db1)
                  (\<lambda>(_, db2). Inr (True, db2))
              else Inr (False, db1)
          | None \<Rightarrow> Inr (False, db1))))"

definition set_resource_sync_synced :: "env \<Rightarrow> klass \<Rightarrow> obj \<Rightarrow> aim_db \<Rightarrow> aim_db result" where
  "set_resource_sync_synced env k r db =
     bind_res (set_resource_sync env k r SYNCED [] [] db) (\<lambda>(_, db'). Inr db')"

definition recover_root_errors :: "string \<Rightarrow> aim_db \<Rightarrow> aim_db" where
  "recover_root_errors root_rn db =
     store_update_all AciStatus
       [(''sync_status'', JStr SYNC_FAILED), (''resource_root'', JStr root_rn)]
       [(''sync_status'', JStr SYNC_PENDING), (''sync_message'', JStr [])] db"

text \<open>
  \<open>set_resource_sync_pending\<close> calls itself on the parent and on the whole subtree. The recursion is
  bounded by fuel; \<open>None\<close> means that the fuel did not suffice.
\<close>

fun bind_fuel :: "'a result option \<Rightarrow> ('a \<Rightarrow> 'b result option) \<Rightarrow> 'b result option" where
  "bind_fuel None f = None"
| "bind_fuel (Some (Inl e)) f = Some (Inl e)"
| "bind_fuel (Some (Inr x)) f = f x"

fun fold_fuel :: "('a \<Rightarrow> 's \<Rightarrow> 's result option) \<Rightarrow> 'a list \<Rightarrow> 's \<Rightarrow> 's result option" where
  "fold_fuel f [] s = Some (Inr s)"
| "fold_fuel f (x # xs) s = bind_fuel (f x s) (fold_fuel f xs)"

text \<open>At the outside, a recursion that does not end is Python's \<open>RecursionError\<close>.\<close>

definition out_of_fuel :: "'a result option \<Rightarrow> 'a result" where
  "out_of_fuel r = (case r of None \<Rightarrow> Inl (OtherError ''RecursionError'') | Some x \<Rightarrow> x)"

definition parent_obj :: "env \<Rightarrow> klass \<Rightarrow> obj \<Rightarrow> (klass \<times> obj) option result" where
  "parent_obj env k r =
     (case tree_parent k of
        None \<Rightarrow> Inl AttributeError
      | Some None \<Rightarrow> Inr None
      | Some (Some p) \<Rightarrow>
          (case klass_of env p of
             None \<Rightarrow> Inl (UnknownResourceType p)
           | Some pk \<Rightarrow>
               bind_res (identity k r) (\<lambda>ident.
                 if length ident < length (identity_attributes pk) then Inl IndexError
                 else bind_res (make_obj (conf env) pk
                        (zip (map fst (identity_attributes pk)) (map JStr ident))) (\<lambda>po. Inr (Some (pk, po))))))"

primrec set_resource_sync_pending ::
  "nat \<Rightarrow> env \<Rightarrow> klass \<Rightarrow> obj \<Rightarrow> bool \<Rightarrow> bool \<Rightarrow> aim_db \<Rightarrow> aim_db result option" where
  "set_resource_sync_pending 0 env k r is_top cascade db = None"
| "set_resource_sync_pending (Suc fuel) env k r is_top cascade db =
     bind_fuel (Some (set_resource_sync env k r SYNC_PENDING []
         (if is_top then [SYNC_PENDING] else [SYNCED, SYNC_PENDING, SYNC_NA]) db)) (\<lambda>(changed, db1).
       if changed then
         bind_fuel (Some (parent_obj env k r)) (\<lambda>p.
         bind_fuel (case p of
                      None \<Rightarrow> Some (Inr db1)
                    | Some (pk, po) \<Rightarrow> set_resource_sync_pending fuel env pk po False True db1) (\<lambda>db2.
           if cascade then
             bind_fuel (Some (get_subtree env db2 k r)) (\<lambda>subtree.
               fold_fuel (\<lambda>(ck, co) d. set_resource_sync_pending fuel env ck co False False d) subtree db2)
           else Some (Inr db2)))
       else Some (Inr db1))"

primrec set_resource_sync_error ::
  "nat \<Rightarrow> env \<Rightarrow> klass \<Rightarrow> obj \<Rightarrow> string \<Rightarrow> bool \<Rightarrow> aim_db \<Rightarrow> aim_db result option" where
  "set_resource_sync_error 0 env k r message is_top db = None"
| "set_resource_sync_error (Suc fuel) env k r message is_top db =
     bind_fuel (Some (set_resource_sync env k r SYNC_FAILED message [SYNC_FAILED] db)) (\<lambda>(changed, db1).
       if changed \<and> is_top then
         bind_fuel (Some (identity k r)) (\<lambda>ident.
         bind_fuel (Some (get_subtree env db1 k r)) (\<lambda>subtree.
           fold_fuel (\<lambda>(ck, co) d. set_resource_sync_error fuel env ck co
               (''Parent resource '' @ kname k @ ''('' @ py_join '','' ident @ '') is in error state'') False d)
             subtree db1))
       else Some (Inr db1))"

section \<open>create, update, delete\<close>

definition aim_create ::
  "nat \<Rightarrow> env \<Rightarrow> klass \<Rightarrow> obj \<Rightarrow> bool \<Rightarrow> bool \<Rightarrow> aim_db \<Rightarrow> (obj option \<times> aim_db) result" where
  "aim_create fuel env k r overwrite fix_ownership db =
     bind_res (create_row env k r overwrite fix_ownership db) (\<lambda>(w, db1).
       case w of
         Unchanged o' \<Rightarrow> Inr (Some o', db1)
       | Missing \<Rightarrow> Inr (None, db1)
       | Written pending \<Rightarrow>
           bind_res (if pending then out_of_fuel (set_resource_sync_pending fuel env k r True True db1) else Inr db1) (\<lambda>db2.
           bind_res (aim_get env db2 k r False) (\<lambda>o'. Inr (o', db2))))"

definition aim_update ::
  "nat \<Rightarrow> env \<Rightarrow> klass \<Rightarrow> obj \<Rightarrow> bool \<Rightarrow> bool \<Rightarrow> kwargs \<Rightarrow> aim_db \<Rightarrow> (obj option \<times> aim_db) result" where
  "aim_update fuel env k r fix_ownership force_update vals db =
     bind_res (update_row env k r fix_ownership force_update vals db) (\<lambda>(w, db1).
       case w of
         Unchanged o' \<Rightarrow> Inr (Some o', db1)
       | Missing \<Rightarrow> Inr (None, db1)
       | Written pending \<Rightarrow>
           bind_res (if pending then out_of_fuel (set_resource_sync_pending fuel env k r True True db1) else Inr db1) (\<lambda>db2.
           bind_res (aim_get env db2 k r False) (\<lambda>o'. Inr (o', db2))))"

text \<open>\<open>delete\<close> without \<open>cascade\<close>; the status it deletes has no status of its own.\<close>

definition delete_row :: "env \<Rightarrow> klass \<Rightarrow> obj \<Rightarrow> aim_db \<Rightarrow> aim_db result" where
  "delete_row env k r db =
     bind_res (validate_resource_class env k) (\<lambda>_.
     bind_res (query_db_obj db k r) (\<lambda>old. case old of None \<Rightarrow> Inr db | Some row \<Rightarrow> Inr (store_delete k row db)))"

definition delete_one :: "env \<Rightarrow> klass \<Rightarrow> obj \<Rightarrow> bool \<Rightarrow> aim_db \<Rightarrow> aim_db result" where
  "delete_one env k r force db =
     bind_res (validate_resource_class env k) (\<lambda>_.
     bind_res (query_db_obj db k r) (\<lambda>old.
       case old of
         None \<Rightarrow> Inr db
       | Some row \<Rightarrow>
           if is_aci k then
             bind_res (get_status env k r False db) (\<lambda>(found, db1).
               case found of
                 None \<Rightarrow> Inr (store_delete k row db1)
               | Some (status, _) \<Rightarrow>
                   if json_truth (opt_json row ''monitored'') \<and> \<not> force
                      \<and> get_attr_or status ''sync_status'' JNull = JStr SYNC_PENDING
                   then Inl InvalidMonitoredObjectDelete
                   else bind_res (delete_row env AciStatus status db1) (\<lambda>db2. Inr (store_delete k row db2)))
           else Inr (store_delete k row db)))"

definition aim_delete :: "env \<Rightarrow> klass \<Rightarrow> obj \<Rightarrow> bool \<Rightarrow> bool \<Rightarrow> aim_db \<Rightarrow> aim_db result" where
  "aim_delete env k r force cascade db =
     bind_res (delete_one env k r force db) (\<lambda>db1.
       if cascade then
         bind_res (get_subtree env db1 k r) (\<lambda>subtree.
           fold_res (\<lambda>(ck, co) d. delete_one env ck co force d) subtree db1)
       else Inr db1)"

definition set_fault :: "env \<Rightarrow> klass \<Rightarrow> obj \<Rightarrow> obj \<Rightarrow> aim_db \<Rightarrow> aim_db result" where
  "set_fault env k r fault db =
     bind_res (get_status env k r True db) (\<lambda>(found, db1).
       case found of
         None \<Rightarrow> Inr db1
       | Some (status, _) \<Rightarrow>
           bind_res (create_row env AciFault
               (fault\<lparr>ofields := dict_set ''status_id'' (get_attr_or status ''id'' JNull) (ofields fault)\<rparr>)
               True False db1) (\<lambda>(_, db2). Inr db2))"

definition clear_fault :: "env \<Rightarrow> obj \<Rightarrow> aim_db \<Rightarrow> aim_db result" where
  "clear_fault env fault db = aim_delete env AciFault fault False False db"

section \<open>Health of a status\<close>

datatype health = Poor | Fair | Good | Excellent

definition health_level :: "int \<Rightarrow> health" where
  "health_level score =
     (if score > 90 then Excellent else if score > 75 then Good else if score > 50 then Fair else Poor)"

definition is_build :: "obj \<Rightarrow> bool" where
  "is_build status \<longleftrightarrow> get_attr_or status ''sync_status'' JNull \<in> {JStr SYNC_PENDING, JStr SYNC_NA}"

definition fault_is_error :: "obj \<Rightarrow> bool" where
  "fault_is_error f \<longleftrightarrow> get_attr_or f ''severity'' JNull \<in> {JStr ''major'', JStr ''critical''}"

definition status_is_error :: "obj \<Rightarrow> obj list \<Rightarrow> bool" where
  "status_is_error status faults \<longleftrightarrow>
     get_attr_or status ''sync_status'' JNull = JStr SYNC_FAILED
     \<or> (case get_attr_or status ''health_score'' JNull of JInt s \<Rightarrow> health_level s = Poor | _ \<Rightarrow> False)
     \<or> list_ex fault_is_error faults"

end
