(* ===== verification/Sample_Data.thy ===== *)
theory Sample_Data
  imports Aim_Manager
begin

text \<open>
  Example data for the witnesses: a naming scheme in the style of \<open>apicapi\<close>, a configuration, an
  environment with a few classes, objects of them and databases that hold them.
\<close>

definition sample_api :: apic_api where
  "sample_api = \<lparr>mo_dn = (\<lambda>mo i. py_join ''/'' (mo # i)), mo_rn = (\<lambda>mo i. py_join ''-'' (mo # i)),
     rn_params = (\<lambda>mo. 1), decompose_rns = (\<lambda>dn mo. Some (tl (py_split (CHR ''/'') dn))),
     decompose_root = (\<lambda>dn mo. case py_split (CHR ''/'') dn of _ # x # _ \<Rightarrow> Some (''fvTenant'', x) | _ \<Rightarrow> None)\<rparr>"

definition sample_conf :: conf where
  "sample_conf = \<lparr>gen1_hw = False, system_id = ''sys'', fresh_uuid = ''u''\<rparr>"

definition small_env :: env where
  "small_env = \<lparr>conf = sample_conf, api = sample_api, classes = [Tenant, BridgeDomain, Subnet, AciStatus, AciFault]\<rparr>"

definition sample_tenant :: obj where
  "sample_tenant = \<lparr>oclass = ''Tenant'', ofields =
      [(''monitored'', JBool False), (''descr'', JStr []), (''display_name'', JStr []), (''name'', JStr ''t1'')]\<rparr>"

definition sample_bd :: obj where
  "sample_bd = \<lparr>oclass = ''BridgeDomain'', ofields =
      [(''vrf_name'', JStr []), (''enable_arp_flood'', JBool True),
       (''enable_routing'', JBool True),
       (''limit_ip_learn_to_subnets'', JBool False),
       (''ip_learning'', JBool True),
       (''l2_unknown_unicast_mode'', JStr ''proxy''),
       (''ep_move_detect_mode'', JStr []), (''l3out_names'', JList []),
       (''monitored'', JBool False), (''display_name'', JStr []),
       (''tenant_name'', JStr ''t1''), (''name'', JStr ''b'')]\<rparr>"

definition empty_db :: aim_db where
  "empty_db = \<lparr>tables = [], next_id = 0\<rparr>"

text \<open>A tenant and a bridge domain in error, as the operations leave them.\<close>

definition sample_db :: aim_db where
  "sample_db = \<lparr>tables =
    [(''Tenant'',
      [(''name'', JStr ''t1''), (''display_name'', JStr []),
       (''monitored'', JBool False), (''descr'', JStr []),
       (''aim_id'', JStr ''0'')]),
     (''BridgeDomain'',
      [(''tenant_name'', JStr ''t1''), (''name'', JStr ''b''),
       (''display_name'', JStr []), (''vrf_name'', JStr []),
       (''enable_arp_flood'', JBool True), (''enable_routing'', JBool True),
       (''limit_ip_learn_to_subnets'', JBool False),
       (''ip_learning'', JBool True),
       (''l2_unknown_unicast_mode'', JStr ''proxy''),
       (''ep_move_detect_mode'', JStr []), (''l3out_names'', JList []),
       (''monitored'', JBool False), (''aim_id'', JStr ''1'')]),
     (''AciStatus'',
      [(''resource_type'', JStr ''Tenant''), (''resource_id'', JStr ''0''),
       (''resource_root'', JStr ''fvTenant-t1''),
       (''sync_status'', JStr ''sync_failed''),
       (''sync_message'', JStr ''x''), (''health_score'', JInt 100),
       (''faults'', JList []), (''resource_dn'', JStr ''fvTenant/t1''),
       (''id'', JStr ''2'')]),
     (''AciStatus'',
      [(''resource_type'', JStr ''BridgeDomain''),
       (''resource_id'', JStr ''1''),
       (''resource_root'', JStr ''fvTenant-t1''),
       (''sync_status'', JStr ''sync_failed''),
       (''sync_message'', JStr ''x''), (''health_score'', JInt 100),
       (''faults'', JList []), (''resource_dn'', JStr ''fvBD/t1/b''),
       (''id'', JStr ''3'')])],
    next_id = 4\<rparr>"

end
