(* ===== verification/Resource_Schemas.thy ===== *)
theory Resource_Schemas
  imports Sample_Data
begin

text \<open>
  The managed classes (\<open>AimManager.aim_resources\<close>) as a whole: the tree their parents form, the
  identity attributes an object hands to its parent, and the defaults of the constructors against
  the declared schemas.
\<close>

section \<open>The managed classes\<close>

definition aim_resources :: "klass list" where
  "aim_resources =
    [BridgeDomain, Agent, Tenant, Subnet, EPGSubnet, VRF, ApplicationProfile, EndpointGroup,
     EPGStaticPath, Filter, FilterEntry, OutOfBandContract, OutOfBandContractSubject, Contract,
     ContractSubject, AciStatus, AciFault, Endpoint, VMMDomain, PhysicalDomain, L3Outside,
     L3OutNodeProfile, L3OutNode, L3OutStaticRoute, L3OutInterfaceProfile, L3OutInterface,
     ExternalNetwork, ExternalNetworkProvidedContract, ExternalNetworkConsumedContract,
     ExternalSubnet, L3OutInterfaceBgpPeerP, HostLink, OpflexDevice, HostDomainMapping,
     HostDomainMappingV2, HostLinkNetworkLabel, ApicAssignment, ACISupportedMo, SecurityGroup,
     SecurityGroupSubject, SecurityGroupRule, Configuration, DeviceCluster,
     DeviceClusterInterface, ConcreteDevice, ConcreteDeviceInterface, ServiceGraph,
     ServiceGraphConnection, ServiceGraphNode, ServiceRedirectPolicy, DeviceClusterContext,
     DeviceClusterInterfaceContext, ServiceRedirectMonitoringPolicy, ServiceRedirectHealthGroup,
     VMMPolicy, Pod, Topology, VMMController, VmmInjectedNamespace, VmmInjectedDeployment,
     VmmInjectedReplicaSet, VmmInjectedService, VmmInjectedHost, VmmInjectedContGroup, Infra,
     NetflowVMMExporterPol, QosRequirement, QosDppPol, VmmVswitchPolicyGroup,
     VmmRelationToExporterPol, SpanVsourceGroup, SpanVsource, SpanVdestGroup, SpanVdest,
     SpanVepgSummary, InfraAccBundleGroup, InfraAccPortGroup, SpanSpanlbl, ActionLog,
     SystemSecurityGroup, SystemSecurityGroupSubject, SystemSecurityGroupRule,
     SecurityGroupRemoteIpContainer, SecurityGroupRemoteIp]"

definition managed_env :: "conf \<Rightarrow> apic_api \<Rightarrow> env" where
  "managed_env c a = \<lparr>conf = c, api = a, classes = aim_resources\<rparr>"

lemmas class_defs =
  BridgeDomain_def Agent_def Tenant_def Subnet_def EPGSubnet_def VRF_def ApplicationProfile_def
  EndpointGroup_def EPGStaticPath_def Filter_def FilterEntry_def OutOfBandContract_def
  OutOfBandContractSubject_def Contract_def ContractSubject_def AciStatus_def AciFault_def
  Endpoint_def VMMDomain_def PhysicalDomain_def L3Outside_def L3OutNodeProfile_def L3OutNode_def
  L3OutStaticRoute_def L3OutInterfaceProfile_def L3OutInterface_def ExternalNetwork_def
  ExternalNetworkProvidedContract_def ExternalNetworkConsumedContract_def ExternalSubnet_def
  L3OutInterfaceBgpPeerP_def HostLink_def OpflexDevice_def HostDomainMapping_def
  HostDomainMappingV2_def HostLinkNetworkLabel_def ApicAssignment_def ACISupportedMo_def
  SecurityGroup_def SecurityGroupSubject_def SecurityGroupRule_def Configuration_def
  DeviceCluster_def DeviceClusterInterface_def ConcreteDevice_def ConcreteDeviceInterface_def
  ServiceGraph_def ServiceGraphConnection_def ServiceGraphNode_def ServiceRedirectPolicy_def
  DeviceClusterContext_def DeviceClusterInterfaceContext_def ServiceRedirectMonitoringPolicy_def
  ServiceRedirectHealthGroup_def VMMPolicy_def Pod_def Topology_def VMMController_def
  VmmInjectedNamespace_def VmmInjectedDeployment_def VmmInjectedReplicaSet_def
  VmmInjectedService_def VmmInjectedHost_def VmmInjectedContGroup_def Infra_def
  NetflowVMMExporterPol_def QosRequirement_def QosDppPol_def VmmVswitchPolicyGroup_def
  VmmRelationToExporterPol_def SpanVsourceGroup_def SpanVsource_def SpanVdestGroup_def
  SpanVdest_def SpanVepgSummary_def InfraAccBundleGroup_def InfraAccPortGroup_def SpanSpanlbl_def
  ActionLog_def SystemSecurityGroup_def SystemSecurityGroupSubject_def SystemSecurityGroupRule_def
  SecurityGroupRemoteIpContainer_def SecurityGroupRemoteIp_def

text \<open>What the class tree depends on, as a table.\<close>

definition class_rows :: "(string \<times> bool \<times> string option option \<times> nat) list" where
  "class_rows =
    [(''BridgeDomain'', True, Some (Some ''Tenant''), 2), (''Agent'', False, None, 1),
     (''Tenant'', True, Some None, 1), (''Subnet'', True, Some (Some ''BridgeDomain''), 3),
     (''EPGSubnet'', True, Some (Some ''EndpointGroup''), 4),
     (''VRF'', True, Some (Some ''Tenant''), 2),
     (''ApplicationProfile'', True, Some (Some ''Tenant''), 2),
     (''EndpointGroup'', True, Some (Some ''ApplicationProfile''), 3),
     (''EPGStaticPath'', True, Some (Some ''EndpointGroup''), 4),
     (''Filter'', True, Some (Some ''Tenant''), 2),
     (''FilterEntry'', True, Some (Some ''Filter''), 3),
     (''OutOfBandContract'', True, Some (Some ''Tenant''), 2),
     (''OutOfBandContractSubject'', True, Some (Some ''OutOfBandContract''), 3),
     (''Contract'', True, Some (Some ''Tenant''), 2),
     (''ContractSubject'', True, Some (Some ''Contract''), 3), (''AciStatus'', False, None, 3),
     (''AciFault'', False, None, 2), (''Endpoint'', False, None, 1),
     (''VMMDomain'', True, Some (Some ''VMMPolicy''), 2), (''PhysicalDomain'', True, Some None, 1),
     (''L3Outside'', True, Some (Some ''Tenant''), 2),
     (''L3OutNodeProfile'', True, Some (Some ''L3Outside''), 3),
     (''L3OutNode'', True, Some (Some ''L3OutNodeProfile''), 4),
     (''L3OutStaticRoute'', True, Some (Some ''L3OutNode''), 5),
     (''L3OutInterfaceProfile'', True, Some (Some ''L3OutNodeProfile''), 4),
     (''L3OutInterface'', True, Some (Some ''L3OutInterfaceProfile''), 5),
     (''ExternalNetwork'', True, Some (Some ''L3Outside''), 3),
     (''ExternalNetworkProvidedContract'', True, Some (Some ''ExternalNetwork''), 4),
     (''ExternalNetworkConsumedContract'', True, Some (Some ''ExternalNetwork''), 4),
     (''ExternalSubnet'', True, Some (Some ''ExternalNetwork''), 4),
     (''L3OutInterfaceBgpPeerP'', True, Some (Some ''L3OutInterface''), 6),
     (''HostLink'', False, None, 2), (''OpflexDevice'', True, Some (Some ''Pod''), 4),
     (''HostDomainMapping'', False, None, 1), (''HostDomainMappingV2'', False, None, 3),
     (''HostLinkNetworkLabel'', False, None, 3), (''ApicAssignment'', False, None, 1),
     (''ACISupportedMo'', False, None, 1), (''SecurityGroup'', True, Some (Some ''Tenant''), 2),
     (''SecurityGroupSubject'', True, Some (Some ''SecurityGroup''), 3),
     (''SecurityGroupRule'', True, Some (Some ''SecurityGroupSubject''), 4),
     (''Configuration'', False, None, 3), (''DeviceCluster'', True, Some (Some ''Tenant''), 2),
     (''DeviceClusterInterface'', True, Some (Some ''DeviceCluster''), 3),
     (''ConcreteDevice'', True, Some (Some ''DeviceCluster''), 3),
     (''ConcreteDeviceInterface'', True, Some (Some ''ConcreteDevice''), 4),
     (''ServiceGraph'', True, Some (Some ''Tenant''), 2),
     (''ServiceGraphConnection'', True, Some (Some ''ServiceGraph''), 3),
     (''ServiceGraphNode'', True, Some (Some ''ServiceGraph''), 3),
     (''ServiceRedirectPolicy'', True, Some (Some ''Tenant''), 2),
     (''DeviceClusterContext'', True, Some (Some ''Tenant''), 4),
     (''DeviceClusterInterfaceContext'', True, Some (Some ''DeviceClusterContext''), 5),
     (''ServiceRedirectMonitoringPolicy'', True, Some (Some ''Tenant''), 2),
     (''ServiceRedirectHealthGroup'', True, Some (Some ''Tenant''), 2),
     (''VMMPolicy'', True, Some None, 1), (''Pod'', True, Some (Some ''Topology''), 1),
     (''Topology'', True, Some None, 0), (''VMMController'', True, Some (Some ''VMMDomain''), 3),
     (''VmmInjectedNamespace'', True, Some (Some ''VMMController''), 4),
     (''VmmInjectedDeployment'', True, Some (Some ''VmmInjectedNamespace''), 5),
     (''VmmInjectedReplicaSet'', True, Some (Some ''VmmInjectedNamespace''), 5),
     (''VmmInjectedService'', True, Some (Some ''VmmInjectedNamespace''), 5),
     (''VmmInjectedHost'', True, Some (Some ''VMMController''), 4),
     (''VmmInjectedContGroup'', True, Some (Some ''VmmInjectedNamespace''), 5),
     (''Infra'', True, Some None, 0), (''NetflowVMMExporterPol'', True, Some (Some ''Infra''), 1),
     (''QosRequirement'', True, Some (Some ''Tenant''), 2),
     (''QosDppPol'', True, Some (Some ''Tenant''), 2),
     (''VmmVswitchPolicyGroup'', True, Some (Some ''VMMDomain''), 2),
     (''VmmRelationToExporterPol'', True, Some (Some ''VmmVswitchPolicyGroup''), 3),
     (''SpanVsourceGroup'', True, Some (Some ''Infra''), 1),
     (''SpanVsource'', True, Some (Some ''SpanVsourceGroup''), 2),
     (''SpanVdestGroup'', True, Some (Some ''Infra''), 1),
     (''SpanVdest'', True, Some (Some ''SpanVdestGroup''), 2),
     (''SpanVepgSummary'', True, Some (Some ''SpanVdest''), 2),
     (''InfraAccBundleGroup'', True, Some (Some ''Infra''), 1),
     (''InfraAccPortGroup'', True, Some (Some ''Infra''), 1),
     (''SpanSpanlbl'', True, Some (Some ''SpanVsourceGroup''), 2), (''ActionLog'', False, None, 1),
     (''SystemSecurityGroup'', True, Some (Some ''Tenant''), 2),
     (''SystemSecurityGroupSubject'', True, Some (Some ''SystemSecurityGroup''), 3),
     (''SystemSecurityGroupRule'', True, Some (Some ''SystemSecurityGroupSubject''), 4),
     (''SecurityGroupRemoteIpContainer'', True, Some (Some ''SecurityGroup''), 2),
     (''SecurityGroupRemoteIp'', True, Some (Some ''SecurityGroupRemoteIpContainer''), 3)]"

lemma class_rows: "map (\<lambda>k. (kname k, is_aci k, tree_parent k, length (identity_attributes k))) aim_resources = class_rows"
  by (simp add: aim_resources_def class_defs class_rows_def)

lemma row_of_class:
  "k \<in> set aim_resources \<Longrightarrow> (kname k, is_aci k, tree_parent k, length (identity_attributes k)) \<in> set class_rows"
  unfolding class_rows [symmetric] by simp

lemma class_of_row:
  assumes "(n, a, p, i) \<in> set class_rows"
  shows "\<exists>k \<in> set aim_resources. kname k = n \<and> is_aci k = a \<and> tree_parent k = p \<and> length (identity_attributes k) = i"
  using assms unfolding class_rows [symmetric] by auto

lemma managed_names_distinct: "distinct (map kname aim_resources)"
proof -
  have "map kname aim_resources = map fst class_rows"
    unfolding class_rows [symmetric] by simp
  moreover have "distinct (map fst class_rows)"
    by code_simp
  ultimately show ?thesis by simp
qed

lemma klass_of_managed [simp]:
  assumes "k \<in> set aim_resources"
  shows "klass_of (managed_env c a) (kname k) = Some k"
proof -
  have "distinct (map kname ks) \<Longrightarrow> k \<in> set ks \<Longrightarrow> find (\<lambda>x. kname x = kname k) ks = Some k" for ks
    by (induction ks) auto
  with managed_names_distinct assms show ?thesis
    by (simp add: klass_of_def managed_env_def)
qed

definition row_parent_ok :: "string \<times> bool \<times> string option option \<times> nat \<Rightarrow> bool" where
  "row_parent_ok row = (case row of (n, a, p, i) \<Rightarrow>
     a = (p \<noteq> None) \<and>
     (case p of
        Some (Some q) \<Rightarrow> list_ex (\<lambda>(n', a', p', i'). n' = q \<and> a' \<and> i' \<le> i) class_rows
      | _ \<Rightarrow> True))"

lemma rows_parent_ok: "list_all row_parent_ok class_rows"
  by code_simp

lemma managed_parent:
  assumes k: "k \<in> set aim_resources" and p: "tree_parent k = Some (Some p)"
  obtains pk where "pk \<in> set aim_resources" "kname pk = p" "is_aci pk"
    "length (identity_attributes pk) \<le> length (identity_attributes k)"
proof -
  have "row_parent_ok (kname k, is_aci k, tree_parent k, length (identity_attributes k))"
    using rows_parent_ok row_of_class [OF k] by (auto simp: list_all_iff)
  with p obtain a' p' i' where "(p, a', p', i') \<in> set class_rows" "a'" "i' \<le> length (identity_attributes k)"
    by (auto simp: row_parent_ok_def list_ex_iff)
  with class_of_row [of p a' p' i'] that show thesis by auto
qed

lemma managed_aci_parent: "k \<in> set aim_resources \<Longrightarrow> is_aci k \<longleftrightarrow> tree_parent k \<noteq> None"
  using rows_parent_ok row_of_class [of k] by (auto simp: list_all_iff row_parent_ok_def)

section \<open>Constructors\<close>

text \<open>Every constructor but the one that checks a number accepts any arguments and passes the
  identity attributes on unchanged.\<close>

lemma list_all_Nil: "list_all P []"
  by simp

definition ctor_passes :: "klass \<Rightarrow> bool" where
  "ctor_passes k \<longleftrightarrow>
     (\<forall>c kw. \<exists>d kw'. ctor k c kw = Inr (d, kw')
        \<and> (\<forall>a \<in> fst ` set (identity_attributes k). dict_get kw' a = dict_get kw a \<and> dict_get (rev kw') a = dict_get (rev kw) a))"

lemma ctor_passes_plain: "ctor k = plain_ctor d \<Longrightarrow> ctor_passes k"
  by (simp add: ctor_passes_def plain_ctor_def)

lemma ctor_passesI: "(\<And>c kw. \<exists>d. ctor k c kw = Inr (d, kw)) \<Longrightarrow> ctor_passes k"
  by (simp add: ctor_passes_def) (metis (no_types))

lemma ctor_passes_special:
  "ctor_passes Infra" "ctor_passes Topology" "ctor_passes OpflexDevice"
  by (simp_all add: ctor_passes_def Infra_def Topology_def OpflexDevice_def map_add_def split: option.splits)

lemma ctor_passes_same:
  "ctor_passes BridgeDomain" "ctor_passes Agent" "ctor_passes VMMDomain"
  "ctor_passes VMMController" "ctor_passes SystemSecurityGroup" "ctor_passes SystemSecurityGroupSubject"
  "ctor_passes SystemSecurityGroupRule" "ctor_passes ActionLog"
  by (rule ctor_passesI, simp add: class_defs Let_def)+

lemma ctor_passes_managed:
  "list_all (\<lambda>k. kname k = ''L3OutInterfaceBgpPeerP'' \<or> ctor_passes k) aim_resources"
  unfolding aim_resources_def list.pred_inject
  by (intro conjI list_all_Nil TrueI;
      ((rule disjI2, rule ctor_passes_special)
       | (rule disjI2, rule ctor_passes_same)
       | (rule disjI2, rule ctor_passes_plain, simp add: class_defs; fail)
       | (rule disjI1, simp add: class_defs; fail)))

lemma ctor_passes:
  "\<lbrakk>k \<in> set aim_resources; kname k \<noteq> ''L3OutInterfaceBgpPeerP''\<rbrakk> \<Longrightarrow> ctor_passes k"
  using ctor_passes_managed by (auto simp: list_all_iff)

text \<open>Identity attributes are distinct, and an ACI class names its object and its parent.\<close>

definition class_ok :: "klass \<Rightarrow> bool" where
  "class_ok k \<longleftrightarrow>
     distinct (map fst (identity_attributes k @ other_attributes k @ db_attributes k))
     \<and> ''_set_default'' \<notin> set (map fst (identity_attributes k)) \<and> ''epoch'' \<notin> set (user_attributes k)
     \<and> (is_aci k \<longrightarrow> aci_mo_name k \<noteq> None)"

lemma classes_ok: "list_all class_ok aim_resources"
  unfolding aim_resources_def list.pred_inject
  by (intro conjI list_all_Nil TrueI; simp add: class_ok_def user_attributes_def class_defs)

lemma class_ok: "k \<in> set aim_resources \<Longrightarrow> class_ok k"
  using classes_ok by (auto simp: list_all_iff)

text \<open>An object built from as many names as the class has identity attributes has that identity.\<close>

lemma traverse_res_zip:
  assumes "length xs = length ys" and "\<And>x y. (x, y) \<in> set (zip xs ys) \<Longrightarrow> f x = Inr y"
  shows "traverse_res f xs = Inr ys"
  using assms by (induction xs ys rule: list_induct2) auto

lemma dict_rev_del: "rev (dict_del k d) = dict_del k (rev d)"
  by (simp add: AList.delete_eq rev_filter)

lemma make_obj_identity:
  assumes k: "k \<in> set aim_resources" "kname k \<noteq> ''L3OutInterfaceBgpPeerP''"
    and len: "length ident = length (identity_attributes k)"
  obtains r where "make_obj c k (zip (map fst (identity_attributes k)) (map JStr ident)) = Inr r"
    "oclass r = kname k" "identity k r = Inr ident"
proof -
  let ?as = "map fst (identity_attributes k)"
  let ?kw = "zip ?as (map JStr ident)"
  from ctor_passes [OF k] obtain d kw' where ct: "ctor k c ?kw = Inr (d, kw')"
    and kw': "\<And>a. a \<in> set ?as \<Longrightarrow> dict_get kw' a = dict_get ?kw a \<and> dict_get (rev kw') a = dict_get (rev ?kw) a"
    unfolding ctor_passes_def by fastforce
  have ok: "class_ok k" and aci: "is_aci k \<longleftrightarrow> tree_parent k \<noteq> None"
    using class_ok managed_aci_parent k by auto
  have get: "dict_get kw' a = Some (JStr s)" "dict_get (rev kw') a = Some (JStr s)" if "(a, s) \<in> set (zip ?as ident)" for a s
  proof -
    have "(a, JStr s) \<in> set ?kw"
      using that by (auto simp: zip_map2)
    moreover have "distinct (map fst ?kw)"
      using ok len by (simp add: class_ok_def)
    ultimately have "dict_get ?kw a = Some (JStr s)" "dict_get (rev ?kw) a = Some (JStr s)"
      by (simp, metis distinct_rev map_of_eq_Some_iff rev_map set_rev)
    with kw' [of a] that show "dict_get kw' a = Some (JStr s)" "dict_get (rev kw') a = Some (JStr s)"
      by (auto dest: set_zip_leftD)
  qed
  have all: "\<exists>s. dict_get kw' a = Some (JStr s)" if "a \<in> set ?as" for a
  proof -
    from that obtain i where "i < length ?as" "a = ?as ! i" by (auto simp: in_set_conv_nth)
    with len have "(a, ident ! i) \<in> set (zip ?as ident)" by (metis in_set_zip fst_conv snd_conv length_map)
    with get show ?thesis by blast
  qed
  have unset: "filter (\<lambda>a. \<not> given kw' a \<and> dict_get d a = None) ?as = []" (is "filter ?P _ = _")
    using all by (force simp: filter_empty_conv given_def)
  let ?kw2 = "dict_del ''_set_default'' kw'"
  obtain base where obj: "make_obj c k ?kw = Inr \<lparr>oclass = kname k, ofields = dict_update base ?kw2\<rparr>"
    using ct ok aci unset by (auto simp: make_obj_def resource_init_def class_ok_def Let_def)
  let ?r = "\<lparr>oclass = kname k, ofields = dict_update base ?kw2\<rparr>"
  have "identity k ?r = Inr ident"
    unfolding identity_def
  proof (rule traverse_res_zip)
    fix a s assume as: "(a, s) \<in> set (zip ?as ident)"
    from as get have "dict_get (rev kw') a = Some (JStr s)" by blast
    moreover have "a \<noteq> ''_set_default''"
      using ok as by (auto simp: class_ok_def dest: set_zip_leftD)
    ultimately have "dict_get (dict_update base ?kw2) a = Some (JStr s)"
      by (simp add: dict_get_update dict_rev_del dict_simps)
    then show "bind_res (get_attr ?r a) (\<lambda>v. Inr (py_str v)) = Inr s"
      by (simp add: get_attr_def)
  qed (use len in simp)
  with obj that show thesis by auto
qed

section \<open>Parents and the class tree\<close>

lemma managed_parent_not_bgp:
  "\<lbrakk>k \<in> set aim_resources; tree_parent k = Some (Some p)\<rbrakk> \<Longrightarrow> p \<noteq> ''L3OutInterfaceBgpPeerP''"
proof -
  have "list_all (\<lambda>(n, a, p, i). p \<noteq> Some (Some ''L3OutInterfaceBgpPeerP'')) class_rows"
    by code_simp
  then show "\<lbrakk>k \<in> set aim_resources; tree_parent k = Some (Some p)\<rbrakk> \<Longrightarrow> p \<noteq> ''L3OutInterfaceBgpPeerP''"
    using row_of_class [of k] by (auto simp: list_all_iff)
qed

lemma identity_length: "identity k r = Inr ident \<Longrightarrow> length ident = length (identity_attributes k)"
proof -
  have "traverse_res f xs = Inr ys \<Longrightarrow> length ys = length xs" for f and xs :: "string list" and ys :: "string list"
    by (induction xs arbitrary: ys) auto
  then show "identity k r = Inr ident \<Longrightarrow> length ident = length (identity_attributes k)"
    by (fastforce simp: identity_def)
qed

lemma zip_take_names: "zip xs (take (length xs) ys) = zip xs ys"
  by (induction xs ys rule: list_induct2') auto

text \<open>C34. For every managed ACI class and every object with a complete identity, the parent object that
  \<open>set_resource_sync_pending\<close> builds exists unless the class is a root: its class is managed, is the
  declared parent, and its identity is a prefix of the object's.\<close>

theorem parent_obj_built:
  assumes "k \<in> set aim_resources" and "is_aci k" and "identity k r = Inr ident"
  shows "if tree_parent k = Some None then parent_obj (managed_env c a) k r = Inr None
    else (\<exists>pk po. parent_obj (managed_env c a) k r = Inr (Some (pk, po)) \<and> pk \<in> set aim_resources \<and> is_aci pk
        \<and> tree_parent k = Some (Some (kname pk)) \<and> oclass po = kname pk
        \<and> identity pk po = Inr (take (length (identity_attributes pk)) ident))"
proof (cases "tree_parent k = Some None")
  case True
  then show ?thesis by (simp add: parent_obj_def)
next
  case False
  with assms managed_aci_parent obtain p where p: "tree_parent k = Some (Some p)" by auto
  from managed_parent [OF assms(1) p] obtain pk where pk: "pk \<in> set aim_resources" "kname pk = p" "is_aci pk"
    and len: "length (identity_attributes pk) \<le> length (identity_attributes k)" by blast
  let ?n = "length (identity_attributes pk)"
  have il: "length ident = length (identity_attributes k)"
    using identity_length assms(3) by blast
  have nb: "kname pk \<noteq> ''L3OutInterfaceBgpPeerP''"
    using managed_parent_not_bgp [OF assms(1) p] pk(2) by simp
  have "length (take ?n ident) = ?n"
    using len il by simp
  from make_obj_identity [OF pk(1) nb this, of c]
  obtain po where po: "make_obj c pk (zip (map fst (identity_attributes pk)) (map JStr (take ?n ident))) = Inr po"
    "oclass po = kname pk" "identity pk po = Inr (take ?n ident)"
    by blast
  have "zip (map fst (identity_attributes pk)) (map JStr ident)
      = zip (map fst (identity_attributes pk)) (map JStr (take ?n ident))"
    using zip_take_names [of "map fst (identity_attributes pk)" "map JStr ident"] by (simp add: take_map)
  moreover have "klass_of (managed_env c a) p = Some pk"
    using klass_of_managed pk by blast
  ultimately have "parent_obj (managed_env c a) k r = Inr (Some (pk, po))"
    using p po len il assms(3) by (simp add: parent_obj_def managed_env_def)
  with False pk po p show ?thesis by auto
qed

lemma sample_bd_identity: "identity BridgeDomain sample_bd = Inr [''t1'', ''b'']"
  by code_simp

lemma bd_managed: "BridgeDomain \<in> set aim_resources"
  by (simp add: aim_resources_def)

theorem parent_obj_built_witness:
  "\<exists>pk po. parent_obj (managed_env sample_conf sample_api) BridgeDomain sample_bd = Inr (Some (pk, po))
     \<and> tree_parent BridgeDomain = Some (Some (kname pk))
     \<and> identity pk po = Inr (take (length (identity_attributes pk)) [''t1'', ''b''])"
  using parent_obj_built [OF bd_managed _ sample_bd_identity, of sample_conf sample_api]
  by (auto simp: BridgeDomain_def)



section \<open>The depth of the class tree\<close>

text \<open>The number of levels below a class, of those with children.\<close>

definition class_heights :: "(string \<times> nat) list" where
  "class_heights =
    [(''BridgeDomain'', 1), (''Tenant'', 5), (''ApplicationProfile'', 2), (''EndpointGroup'', 1),
     (''Filter'', 1), (''OutOfBandContract'', 1), (''Contract'', 1), (''VMMDomain'', 3),
     (''L3Outside'', 4), (''L3OutNodeProfile'', 3), (''L3OutNode'', 1),
     (''L3OutInterfaceProfile'', 2), (''L3OutInterface'', 1), (''ExternalNetwork'', 1),
     (''SecurityGroup'', 2), (''SecurityGroupSubject'', 1), (''DeviceCluster'', 2),
     (''ConcreteDevice'', 1), (''ServiceGraph'', 1), (''DeviceClusterContext'', 1),
     (''VMMPolicy'', 4), (''Pod'', 1), (''Topology'', 2), (''VMMController'', 2),
     (''VmmInjectedNamespace'', 1), (''Infra'', 3), (''VmmVswitchPolicyGroup'', 1),
     (''SpanVsourceGroup'', 1), (''SpanVdestGroup'', 2), (''SpanVdest'', 1),
     (''SystemSecurityGroup'', 2), (''SystemSecurityGroupSubject'', 1),
     (''SecurityGroupRemoteIpContainer'', 1)]"

definition class_height :: "string \<Rightarrow> nat" where
  "class_height n = dict_getd class_heights n 0"

lemma heights_decrease:
  "list_all (\<lambda>(n, _, p, _). case p of Some (Some q) \<Rightarrow> class_height n < class_height q | _ \<Rightarrow> True) class_rows"
  by code_simp

lemma child_height:
  assumes "c' \<in> set (model_children (managed_env c a) k)"
  shows "class_height (kname c') < class_height (kname k)"
proof -
  have "c' \<in> set aim_resources" "tree_parent c' = Some (Some (kname k))"
    using assms by (auto simp: model_children_def managed_env_def)
  with row_of_class [of c'] heights_decrease show ?thesis
    by (auto simp: list_all_iff)
qed

lemma class_height_le: "class_height n \<le> 5"
proof -
  have "list_all (\<lambda>(_, h). h \<le> 5) class_heights" by code_simp
  then show ?thesis
    by (auto simp: class_height_def dict_getd_def list_all_iff split: option.splits dest!: map_of_SomeD)
qed

lemma subtree_stable:
  "class_height (kname k) \<le> n \<Longrightarrow>
     subtree_klasses (n + m) (managed_env c a) k = subtree_klasses n (managed_env c a) k"
proof (induction n arbitrary: k)
  case 0
  then have "model_children (managed_env c a) k = []"
    using child_height [of _ c a k] by (cases "model_children (managed_env c a) k") force+
  then show ?case by (cases m) auto
next
  case (Suc n)
  have "subtree_klasses (n + m) (managed_env c a) c' = subtree_klasses n (managed_env c a) c'"
    if "c' \<in> set (model_children (managed_env c a) k)" for c'
    using Suc.IH [of c'] child_height [OF that] Suc.prems by simp
  then show ?case
    by (simp cong: map_cong)
qed

text \<open>The classes below a class are found by a recursion five levels deep; a longer one adds none. The
  recursion of \<open>get_subtree\<close>, bounded by the number of classes, is therefore complete.\<close>

theorem subtree_complete:
  "subtree_klasses (5 + n) (managed_env c a) k = subtree_klasses 5 (managed_env c a) k"
  by (rule subtree_stable) (rule class_height_le)

end
