(* ===== verification/Aim_Manager_Facts.thy ===== *)
theory Aim_Manager_Facts
  imports Sample_Data
begin

text \<open>
  Facts on the operations of the AIM manager: what an operation that succeeds has done to the database,
  the invariant of its status rows (\<open>db_ok\<close>, \<open>sync_ok\<close>), and the effect of one change of a status.
\<close>

section \<open>What an operation that succeeds has done\<close>

lemma kname_status [simp]: "kname AciStatus = ''AciStatus''"
  by (simp add: AciStatus_def)

lemma create_row_result:
  assumes "create_row env k r ow fx db = Inr (w, db')"
  shows "(\<exists>x row. w = Unchanged x \<and> db' = db \<and> ow \<and> query_db_obj db k r = Inr (Some row)
         \<and> make_resource env k row False = Inr x \<and> user_equal k x r)
    \<or> (\<exists>b row. w = Written b \<and> ow \<and> query_db_obj db k r = Inr (Some row)
         \<and> db' = store_add k (dict_update row (extract_other k r)) db)
    \<or> (\<exists>row. w = Written False \<and> make_db_obj k r = Inr row \<and> (ow \<longrightarrow> query_db_obj db k r = Inr None)
         \<and> \<not> list_ex (same_row k row) (tables db) \<and> db' = store_add k row db)"
proof -
  from assms obtain old where v: "validate_resource_class env k = Inr ()"
    and q: "(if ow then query_db_obj db k r else Inr None) = Inr old"
    by (auto simp: create_row_def)
  show ?thesis
  proof (cases old)
    case None
    with assms v q show ?thesis by (auto simp: create_row_def split: if_split_asm)
  next
    case (Some row)
    with q have q': "ow" "query_db_obj db k r = Inr (Some row)" by (auto split: if_split_asm)
    show ?thesis
    proof (cases "make_resource env k row False")
      case (Inl e)
      with assms v q Some show ?thesis by (auto simp: create_row_def Let_def split: if_split_asm)
    next
      case (Inr x)
      with assms v q Some q' show ?thesis
        by (cases "user_equal k x r") (auto simp: create_row_def Let_def split: if_split_asm)
    qed
  qed
qed

lemma update_row_result:
  assumes "update_row env k r fx fu vals db = Inr (w, db')"
  shows "(w = Missing \<and> db' = db \<and> query_db_obj db k r = Inr None)
    \<or> (\<exists>x. w = Unchanged x \<and> db' = db \<and> \<not> fu)
    \<or> (\<exists>row b. query_db_obj db k r = Inr (Some row) \<and> w = Written b
         \<and> db' = store_add k (dict_update row (filter (\<lambda>(a, _). a \<in> set (map fst (other_attributes k))) vals)) db)"
proof -
  from assms obtain old where v: "validate_resource_class env k = Inr ()" and q: "query_db_obj db k r = Inr old"
    by (auto simp: update_row_def)
  show ?thesis
  proof (cases old)
    case None
    with assms v q show ?thesis by (simp add: update_row_def)
  next
    case (Some row)
    with assms v q obtain old_r where "make_resource env k row False = Inr old_r"
      by (auto simp: update_row_def)
    with assms v q Some show ?thesis
      by (auto simp: update_row_def Let_def split: if_split_asm)
  qed
qed

lemma update_status_result:
  assumes "update_status env k r s db = Inr (o', db')"
  shows "(o' = None \<and> db' = db) \<or>
    (\<exists>i w. is_aci k \<and> get_status_params db k r = Inr (Some i)
       \<and> create_row env AciStatus (s\<lparr>ofields := dict_update (ofields s)
            [(''resource_type'', JStr (kname k)), (''resource_id'', i)]\<rparr>) True False db = Inr (w, db')
       \<and> (o' \<noteq> None \<longrightarrow> (\<exists>x. o' = Some x \<and> (w = Unchanged x \<or>
            aim_get env db' AciStatus (s\<lparr>ofields := dict_update (ofields s)
            [(''resource_type'', JStr (kname k)), (''resource_id'', i)]\<rparr>) False = Inr (Some x)))))"
proof (cases "is_aci k")
  case True
  with assms obtain ri where ri: "get_status_params db k r = Inr ri"
    by (auto simp: update_status_def)
  show ?thesis
  proof (cases ri)
    case None
    with assms True ri show ?thesis by (auto simp: update_status_def)
  next
    case (Some i)
    let ?s = "s\<lparr>ofields := dict_update (ofields s) [(''resource_type'', JStr (kname k)), (''resource_id'', i)]\<rparr>"
    from Some assms True ri obtain w d where w: "create_row env AciStatus ?s True False db = Inr (w, d)"
      by (auto simp: update_status_def Let_def)
    have d: "d = db'" and oo: "o' \<noteq> None \<longrightarrow> (\<exists>x. o' = Some x \<and> (w = Unchanged x \<or> aim_get env d AciStatus ?s False = Inr (Some x)))"
      using Some assms True ri w by (cases w; cases o'; auto simp: update_status_def Let_def)+
    then have "is_aci k \<and> get_status_params db k r = Inr (Some i) \<and> create_row env AciStatus ?s True False db = Inr (w, db')
      \<and> (o' \<noteq> None \<longrightarrow> (\<exists>x. o' = Some x \<and> (w = Unchanged x \<or> aim_get env db' AciStatus ?s False = Inr (Some x))))"
      using True ri Some w by blast
    then show ?thesis by blast
  qed
next
  case False
  with assms show ?thesis by (auto simp: update_status_def)
qed

lemma get_status_result:
  assumes "get_status env k r c db = Inr (found, db')"
  shows "(found = None \<and> db' = db) \<or>
    (\<exists>i key probe. is_aci k \<and> status_key env k r i = Inr key \<and> get_status_params db k r = Inr (Some i)
      \<and> make_obj (conf env) AciStatus key = Inr probe \<and>
      ((\<exists>st fs row. found = Some (st, fs) \<and> db' = db \<and> query_db_obj db AciStatus probe = Inr (Some row)
          \<and> make_resource env AciStatus row False = Inr st)
       \<or> (\<exists>dn fresh o'. c \<and> query_db_obj db AciStatus probe = Inr None
          \<and> make_obj (conf env) AciStatus (key @ [(''resource_dn'', JStr dn)]) = Inr fresh
          \<and> update_status env k r fresh db = Inr (o', db') \<and> found = map_option (\<lambda>x. (x, [])) o')))"
proof (cases "is_aci k")
  case True
  with assms obtain ri where ri: "get_status_params db k r = Inr ri"
    by (auto simp: get_status_def)
  show ?thesis
  proof (cases ri)
    case None
    with assms True ri show ?thesis by (auto simp: get_status_def)
  next
    case (Some i)
    with assms True ri obtain key probe f where kp: "status_key env k r i = Inr key"
      "make_obj (conf env) AciStatus key = Inr probe" "aim_get env db AciStatus probe False = Inr f"
      by (auto simp: get_status_def)
    then have q: "(f = None \<and> query_db_obj db AciStatus probe = Inr None)
      \<or> (\<exists>row st. f = Some st \<and> query_db_obj db AciStatus probe = Inr (Some row) \<and> make_resource env AciStatus row False = Inr st)"
      by (auto simp: aim_get_def split: option.split_asm)
    show ?thesis
    proof (cases f)
      case None
      with q have "query_db_obj db AciStatus probe = Inr None" by auto
      with assms True ri Some kp None show ?thesis
        by (fastforce simp: get_status_def split: if_split_asm)
    next
      case (Some st)
      with q obtain row where "query_db_obj db AciStatus probe = Inr (Some row)"
        "make_resource env AciStatus row False = Inr st" by auto
      moreover have "\<exists>fs. found = Some (st, fs) \<and> db' = db"
        using assms True ri \<open>ri = Some i\<close> kp Some by (auto simp: get_status_def)
      ultimately show ?thesis
        using True kp ri \<open>ri = Some i\<close> by blast
    qed
  qed
next
  case False
  with assms show ?thesis by (auto simp: get_status_def)
qed

lemma set_resource_sync_result:
  assumes "set_resource_sync env k r s m ex db = Inr (b, db'')"
  shows "(\<not> b \<and> db'' = db) \<or> (\<exists>found db'. get_status env k r True db = Inr (found, db') \<and>
    ((\<not> b \<and> db'' = db') \<or> (\<exists>st fs w. b \<and> found = Some (st, fs)
       \<and> get_attr_or st ''sync_status'' JNull \<notin> JStr ` set ex
       \<and> update_row env AciStatus st False True [(''sync_status'', JStr s), (''sync_message'', JStr m)] db' = Inr (w, db''))))"
proof (cases "kname k = ''AciStatus''")
  case False
  with assms obtain found db' where gs: "get_status env k r True db = Inr (found, db')"
    by (auto simp: set_resource_sync_def)
  show ?thesis
  proof (cases found)
    case None
    with assms False gs show ?thesis by (auto simp: set_resource_sync_def)
  next
    case (Some sf)
    then obtain st fs where sf: "found = Some (st, fs)" by (cases sf) auto
    show ?thesis
    proof (cases "get_attr_or st ''sync_status'' JNull \<in> JStr ` set ex")
      case True
      with assms False gs sf show ?thesis by (auto simp: set_resource_sync_def)
    next
      case nin: False
      with assms False gs sf show ?thesis
        by (fastforce simp: set_resource_sync_def)
    qed
  qed
qed (use assms in \<open>simp add: set_resource_sync_def\<close>)

section \<open>Rows of status objects\<close>

lemma extract_id_row_id:
  assumes "extract_id k x = Inr i"
  shows "matches i r \<longleftrightarrow> row_id k r = map (Some \<circ> snd) i"
proof -
  have "traverse_res (\<lambda>(a, _). bind_res (get_attr x a) (\<lambda>v. Inr (a, v))) ats = Inr i \<Longrightarrow>
    matches i r \<longleftrightarrow> map (\<lambda>(a, _). dict_get r a) ats = map (Some \<circ> snd) i" for ats :: "(string \<times> json) list"
    by (induction ats arbitrary: i) (auto simp: matches_def)
  with assms show ?thesis
    by (simp add: extract_id_def row_id_def)
qed

definition first_row :: "aim_db \<Rightarrow> klass \<Rightarrow> json option list \<Rightarrow> row option" where
  "first_row db k ids = map_option snd (find (\<lambda>(c, r). c = kname k \<and> row_id k r = ids) (tables db))"

lemma query_db_obj_first:
  "extract_id k x = Inr i \<Longrightarrow> query_db_obj db k x = Inr (first_row db k (map (Some \<circ> snd) i))"
proof -
  assume i: "extract_id k x = Inr i"
  have "(case map snd (filter P xs) of [] \<Rightarrow> None | y # _ \<Rightarrow> Some y) = map_option snd (find P xs)" for P and xs :: "(string \<times> row) list"
    by (induction xs) auto
  then show ?thesis
    using i by (simp add: query_db_obj_def store_query_def first_row_def extract_id_row_id [OF i])
qed

lemma first_row_Some:
  "first_row db k ids = Some r \<Longrightarrow> (kname k, r) \<in> set (tables db) \<and> row_id k r = ids"
  by (force simp: first_row_def find_Some_iff in_set_conv_nth)

lemma first_row_None:
  "first_row db k ids = None \<longleftrightarrow> (\<forall>r. (kname k, r) \<in> set (tables db) \<longrightarrow> row_id k r \<noteq> ids)"
  by (auto simp: first_row_def find_None_iff)


text \<open>The identity of a status and the value of its synchronisation.\<close>

definition status_ids :: "json list \<Rightarrow> json option list" where
  "status_ids ids = map Some ids"

definition sync_of :: "row \<Rightarrow> json" where
  "sync_of r = dict_getd r ''sync_status'' (JStr SYNC_NA)"

lemma status_identity: "map fst (identity_attributes AciStatus) = [''resource_type'', ''resource_id'', ''resource_root'']"
  by (simp add: AciStatus_def)

lemma row_id_status:
  "row_id AciStatus r = [dict_get r ''resource_type'', dict_get r ''resource_id'', dict_get r ''resource_root'']"
  by (simp add: row_id_def AciStatus_def)

lemma map_of_rev_ok: "dict_ok d \<Longrightarrow> map_of (rev d) = map_of d"
  by (subst map_of_inject_set) (simp_all add: dict_ok_def rev_map [symmetric])

lemma make_status:
  assumes "make_obj c AciStatus kw = Inr x" and "dict_get kw ''_set_default'' = None" and "dict_ok kw"
  shows "get_attr x a = (case dict_get kw a of Some v \<Rightarrow> Inr v | None \<Rightarrow>
      get_attr \<lparr>oclass = ''AciStatus'', ofields = [(''resource_type'', JNull), (''resource_id'', JNull),
        (''sync_status'', JStr SYNC_NA), (''sync_message'', JStr []), (''health_score'', JInt 100),
        (''faults'', JList [])]\<rparr> a)" and "dict_get kw ''resource_root'' \<noteq> None"
proof -
  have d: "dict_del ''_set_default'' kw = kw"
    using assms(2) by (simp add: delete_id map_of_eq_None_iff)
  have r: "map_of (rev kw) = map_of kw"
    using assms(3) by (simp add: map_of_rev_ok)
  have x: "x = \<lparr>oclass = ''AciStatus'', ofields = dict_update [(''resource_type'', JNull), (''resource_id'', JNull),
        (''sync_status'', JStr SYNC_NA), (''sync_message'', JStr []), (''health_score'', JInt 100),
        (''faults'', JList [])] kw\<rparr>" and g: "given kw ''resource_root''"
    using assms(1,2) d
    by (auto simp: make_obj_def resource_init_def AciStatus_def plain_ctor_def Let_def dict_getd_def SYNC_NA_def
        split: if_split_asm)
  show "get_attr x a = (case dict_get kw a of Some v \<Rightarrow> Inr v | None \<Rightarrow>
      get_attr \<lparr>oclass = ''AciStatus'', ofields = [(''resource_type'', JNull), (''resource_id'', JNull),
        (''sync_status'', JStr SYNC_NA), (''sync_message'', JStr []), (''health_score'', JInt 100),
        (''faults'', JList [])]\<rparr> a)"
    unfolding x get_attr_def by (simp add: dict_get_update r split: option.split)
  show "dict_get kw ''resource_root'' \<noteq> None"
    using g by (auto simp: given_def split: option.splits)
qed


lemma status_of_row:
  assumes "make_resource env AciStatus row False = Inr st" and "dict_ok row"
    and "row_id AciStatus row = map Some ids"
  shows "get_attr_or st ''sync_status'' JNull = sync_of row"
    and "extract_id AciStatus st = Inr (zip [''resource_type'', ''resource_id'', ''resource_root''] ids)"
proof -
  let ?f = "filter (\<lambda>(a, _). a \<in> set (attributes AciStatus)) row"
  have f: "dict_get ?f a = (if a \<in> set (attributes AciStatus) then dict_get row a else None)" for a
    by (induction row) auto
  have atts: "{''resource_type'', ''resource_id'', ''resource_root'', ''sync_status''} \<subseteq> set (attributes AciStatus)"
    "''_set_default'' \<notin> set (attributes AciStatus)"
    by (simp_all add: attributes_def AciStatus_def)
  have ok: "dict_ok ?f"
    using assms(2) by (simp add: dict_ok_def distinct_map_filter)
  have st: "make_obj (conf env) AciStatus ?f = Inr st"
    using assms(1) by (auto simp: make_resource_def split: option.split_asm)
  note ms = make_status [OF st _ ok, unfolded f]
  have nd: "(if ''_set_default'' \<in> set (attributes AciStatus) then dict_get row ''_set_default'' else None) = None"
    using atts by simp
  show "get_attr_or st ''sync_status'' JNull = sync_of row"
    using ms(1) [OF nd, of "''sync_status''"] atts(1)
    by (simp add: get_attr_or_def sync_of_def dict_getd_def get_attr_def split: option.splits)
  obtain a b c where ids: "ids = [a, b, c]" "dict_get row ''resource_type'' = Some a"
    "dict_get row ''resource_id'' = Some b" "dict_get row ''resource_root'' = Some c"
    using assms(3) by (auto simp: row_id_status map_eq_Cons_conv Cons_eq_map_conv)
  show "extract_id AciStatus st = Inr (zip [''resource_type'', ''resource_id'', ''resource_root''] ids)"
    using ms(1) [OF nd, of "''resource_type''"] ms(1) [OF nd, of "''resource_id''"] ms(1) [OF nd, of "''resource_root''"] atts(1) ids
    by (simp add: extract_id_def AciStatus_def)
qed

lemma status_probe:
  assumes "status_key env k r i = Inr key" and "make_obj c AciStatus (key @ extra) = Inr x"
    and "dict_ok (key @ extra)" "dict_get extra ''_set_default'' = None"
  shows "extract_id AciStatus x = Inr key"
proof -
  obtain root where key: "key = [(''resource_type'', JStr (kname k)), (''resource_id'', i), (''resource_root'', JStr root)]"
    using assms(1) by (auto simp: status_key_def)
  have nd: "dict_get (key @ extra) ''_set_default'' = None"
    using key assms(4) by (simp add: map_add_def)
  note ms = make_status(1) [OF assms(2) nd assms(3)]
  show ?thesis
    using ms [of "''resource_type''"] ms [of "''resource_id''"] ms [of "''resource_root''"] key
    by (simp add: extract_id_def AciStatus_def map_add_def)
qed

text \<open>The state invariant: rows are dictionaries, and the rows of statuses have distinct identities.\<close>

definition status_rows :: "aim_db \<Rightarrow> row list" where
  "status_rows db = map snd (filter (\<lambda>cr. fst cr = ''AciStatus'') (tables db))"

definition db_ok :: "aim_db \<Rightarrow> bool" where
  "db_ok db \<longleftrightarrow> list_all (\<lambda>cr. dict_ok (snd cr)) (tables db) \<and> distinct (map (row_id AciStatus) (status_rows db))"

lemma db_okD: "db_ok db \<Longrightarrow> (c, r) \<in> set (tables db) \<Longrightarrow> dict_ok r"
  by (auto simp: db_ok_def list_all_iff)

text \<open>Adding a status row that was not there, and overwriting one.\<close>

definition add_na :: "aim_db \<Rightarrow> aim_db \<Rightarrow> bool" where
  "add_na db db' \<longleftrightarrow> (\<exists>row. tables db' = tables db @ [(''AciStatus'', row)] \<and> sync_of row = JStr SYNC_NA \<and> dict_ok row
     \<and> (\<forall>r \<in> set (status_rows db). row_id AciStatus r \<noteq> row_id AciStatus row))"

lemma dict_get_concat_keys:
  "distinct (map fst (xs @ ys)) \<Longrightarrow> (a, v) \<in> set xs \<Longrightarrow> dict_get (dict_update [] (xs @ ys)) a = Some v"
  by (subst dict_update_Nil_ok) (auto simp: dict_ok_def)

lemma status_row_of_obj:
  assumes "make_db_obj AciStatus x = Inr row" and "extract_id AciStatus x = Inr key" and "map fst key = [''resource_type'', ''resource_id'', ''resource_root'']"
  shows "dict_get row ''sync_status'' = Some (get_attr_or x ''sync_status'' JNull)"
    and "row_id AciStatus row = map (Some \<circ> snd) key" and "dict_ok row"
proof -
  obtain a b c where key: "key = [(''resource_type'', a), (''resource_id'', b), (''resource_root'', c)]"
    using assms(3) by (auto simp: map_eq_Cons_conv)
  have row: "row = dict_update [] (key @ extract_other AciStatus x @ extract_db AciStatus x)"
    using assms(1,2) by (auto simp: make_db_obj_def)
  show "dict_ok row"
    unfolding row by auto
  have other: "extract_other AciStatus x = map (\<lambda>a. (a, get_attr_or x a JNull))
      [''sync_status'', ''sync_message'', ''health_score'', ''faults'', ''resource_dn'']"
    by (simp add: extract_other_def AciStatus_def)
  have "extract_db AciStatus x = [] \<or> (\<exists>v. extract_db AciStatus x = [(''id'', v)])"
    by (auto simp: extract_db_def AciStatus_def split: option.split)
  then have dist: "distinct (map fst (key @ extract_other AciStatus x @ extract_db AciStatus x))"
    unfolding key other by auto
  then have row': "row = key @ extract_other AciStatus x @ extract_db AciStatus x"
    unfolding row by (intro dict_update_Nil_ok) (simp only: dict_ok_def)
  show "dict_get row ''sync_status'' = Some (get_attr_or x ''sync_status'' JNull)"
    "row_id AciStatus row = map (Some \<circ> snd) key"
    unfolding row' row_id_status by (simp_all add: key other)
qed

lemma get_attr_same_ids:
  assumes "extract_id AciStatus x = Inr [(''resource_type'', t), (''resource_id'', i), (''resource_root'', r)]"
  shows "get_attr (x\<lparr>ofields := dict_update (ofields x) [(''resource_type'', t), (''resource_id'', i)]\<rparr>) a = get_attr x a"
proof -
  have "get_attr x ''resource_type'' = Inr t" "get_attr x ''resource_id'' = Inr i"
    using assms by (auto simp: extract_id_def AciStatus_def)
  then show ?thesis
    by (auto simp: get_attr_def dict_simps split: option.split_asm)
qed

lemma extract_id_cong: "(\<And>a. get_attr x a = get_attr y a) \<Longrightarrow> extract_id k x = extract_id k y"
  by (simp add: extract_id_def)

lemma add_na_add:
  assumes x: "extract_id AciStatus x = Inr key" and keys: "map fst key = [''resource_type'', ''resource_id'', ''resource_root'']"
    and row: "make_db_obj AciStatus x = Inr row" and na: "get_attr_or x ''sync_status'' JNull = JStr SYNC_NA"
    and new: "\<not> list_ex (same_row AciStatus row) (tables db)"
  shows "add_na db (store_add AciStatus row db)"
proof -
  note facts = status_row_of_obj [OF row x keys]
  have aci: "\<not> is_aci AciStatus"
    by (simp add: AciStatus_def)
  let ?row = "dict_set ''id'' (JStr (nat_str (next_id db))) row"
  have "tables (store_add AciStatus row db) = tables db @ [(''AciStatus'', ?row)]"
    using new aci by (simp add: store_add_def new_ids_def Let_def)
  moreover have "sync_of ?row = JStr SYNC_NA" "dict_ok ?row" "row_id AciStatus ?row = row_id AciStatus row"
    using facts na by (auto simp: sync_of_def dict_getd_def dict_simps row_id_status)
  moreover have "\<forall>r \<in> set (status_rows db). row_id AciStatus r \<noteq> row_id AciStatus row"
    using new by (auto simp: status_rows_def same_row_def list_ex_iff)
  ultimately show ?thesis
    unfolding add_na_def by metis
qed

lemma db_ok_add_na: "db_ok db \<Longrightarrow> add_na db db' \<Longrightarrow> db_ok db'"
  by (auto simp: db_ok_def add_na_def status_rows_def; metis)

lemma get_status_creates:
  assumes key: "status_key env k r i = Inr key"
    and none: "make_obj (conf env) AciStatus key = Inr probe" "query_db_obj db AciStatus probe = Inr None"
    and gp: "get_status_params db k r = Inr (Some i)"
    and fresh: "make_obj (conf env) AciStatus (key @ [(''resource_dn'', JStr dn)]) = Inr fresh"
    and upd: "update_status env k r fresh db = Inr (o', db')"
  shows "(db' = db \<or> add_na db db') \<and> (\<forall>st. o' = Some st \<longrightarrow> (\<exists>row ids. first_row db' AciStatus (map Some ids) = Some row
         \<and> make_resource env AciStatus row False = Inr st))"
proof -
  obtain root where k: "key = [(''resource_type'', JStr (kname k)), (''resource_id'', i), (''resource_root'', JStr root)]"
    using key by (auto simp: status_key_def)
  have ok: "dict_ok key" "dict_ok (key @ [(''resource_dn'', JStr dn)])"
    by (simp_all add: k dict_ok_def)
  have idp: "extract_id AciStatus probe = Inr key"
    by (rule status_probe [OF key, of "conf env" "[]"]) (simp_all add: none ok)
  have idf: "extract_id AciStatus fresh = Inr key"
    by (rule status_probe [OF key fresh ok(2)]) simp
  have q: "query_db_obj db AciStatus x = Inr None" if "extract_id AciStatus x = Inr key" for x
    using none(2) idp that by (simp add: query_db_obj_first)
  let ?x = "fresh\<lparr>ofields := dict_update (ofields fresh) [(''resource_type'', JStr (kname k)), (''resource_id'', i)]\<rparr>"
  have same: "get_attr ?x a = get_attr fresh a" for a
    using get_attr_same_ids idf k by blast
  have idx: "extract_id AciStatus ?x = Inr key"
    by (rule trans [OF extract_id_cong [OF same] idf])
  have "get_attr_or fresh ''sync_status'' JNull = JStr SYNC_NA"
    using make_status(1) [OF fresh _ ok(2), of "''sync_status''"] by (simp add: k get_attr_or_def get_attr_def)
  then have na: "get_attr_or ?x ''sync_status'' JNull = JStr SYNC_NA"
    using same by (simp add: get_attr_or_def)
  from update_status_result [OF upd]
  consider "o' = None" "db' = db"
    | w where "create_row env AciStatus ?x True False db = Inr (w, db')"
      "\<forall>st. o' = Some st \<longrightarrow> w = Unchanged st \<or> aim_get env db' AciStatus ?x False = Inr (Some st)"
    using gp by fastforce
  then show ?thesis
  proof cases
    case 2
    from create_row_result [OF 2(1)] q [OF idx]
    obtain row where w: "w = Written False" and row: "make_db_obj AciStatus ?x = Inr row"
      "\<not> list_ex (same_row AciStatus row) (tables db)" "db' = store_add AciStatus row db" by auto
    have "add_na db db'"
      using add_na_add [OF idx _ row(1) na row(2)] row(3) by (simp add: k)
    moreover have "\<exists>row ids. first_row db' AciStatus (map Some ids) = Some row \<and> make_resource env AciStatus row False = Inr st"
      if "o' = Some st" for st
      using 2(2) that w query_db_obj_first [OF idx, of db']
      by (auto simp: aim_get_def simp flip: map_map split: option.split_asm)
    ultimately show ?thesis by blast
  qed simp
qed

lemma get_status_rows:
  assumes gs: "get_status env k r True db = Inr (found, db')" and ok: "db_ok db"
  shows "(db' = db \<or> add_na db db')
    \<and> (\<forall>st fs. found = Some (st, fs) \<longrightarrow> (\<exists>row ids. first_row db' AciStatus (map Some ids) = Some row
         \<and> make_resource env AciStatus row False = Inr st))"
proof -
  from get_status_result [OF gs]
  consider "found = None" "db' = db"
    | i key probe st fs row where "status_key env k r i = Inr key" "make_obj (conf env) AciStatus key = Inr probe"
      "found = Some (st, fs)" "db' = db" "query_db_obj db AciStatus probe = Inr (Some row)"
      "make_resource env AciStatus row False = Inr st"
    | i key probe dn fresh o' where "status_key env k r i = Inr key" "make_obj (conf env) AciStatus key = Inr probe"
      "get_status_params db k r = Inr (Some i)" "query_db_obj db AciStatus probe = Inr None"
      "make_obj (conf env) AciStatus (key @ [(''resource_dn'', JStr dn)]) = Inr fresh"
      "update_status env k r fresh db = Inr (o', db')" "found = map_option (\<lambda>x. (x, [])) o'"
    by blast
  then show ?thesis
  proof cases
    case 2
    have "dict_ok key"
      using 2(1) by (auto simp: status_key_def dict_ok_def)
    then have "extract_id AciStatus probe = Inr key"
      by (intro status_probe [OF 2(1), of "conf env" "[]"]) (simp_all add: 2)
    with 2 query_db_obj_first [of AciStatus probe key db] show ?thesis
      by (auto simp flip: map_map)
  next
    case 3
    from get_status_creates [OF 3(1,2,4,3,5,6)] 3(7) show ?thesis by auto
  qed simp
qed

definition set_sync :: "string \<Rightarrow> string \<Rightarrow> row \<Rightarrow> row" where
  "set_sync s m row = dict_update row [(''sync_status'', JStr s), (''sync_message'', JStr m)]"

definition set_sync_at :: "row \<Rightarrow> string \<Rightarrow> string \<Rightarrow> aim_db \<Rightarrow> aim_db" where
  "set_sync_at row s m db = db\<lparr>tables := map (\<lambda>cr. if cr = (''AciStatus'', row)
     then (''AciStatus'', set_sync s m row) else cr) (tables db)\<rparr>"

lemma set_sync_facts [simp]:
  "sync_of (set_sync s m row) = JStr s" "row_id AciStatus (set_sync s m row) = row_id AciStatus row"
  "dict_ok row \<Longrightarrow> dict_ok (set_sync s m row)"
  by (auto simp: set_sync_def sync_of_def dict_getd_def dict_simps row_id_status)

lemma status_rows_unique:
  assumes "db_ok db" "(''AciStatus'', r) \<in> set (tables db)" "(''AciStatus'', r') \<in> set (tables db)"
    "row_id AciStatus r = row_id AciStatus r'"
  shows "r = r'"
proof -
  have "r \<in> set (status_rows db)" "r' \<in> set (status_rows db)"
    using assms(2,3) by (force simp: status_rows_def)+
  with assms(1,4) show ?thesis
    by (auto simp: db_ok_def distinct_map dest: inj_onD)
qed

lemma db_ok_set_sync_at: "db_ok db \<Longrightarrow> (''AciStatus'', row) \<in> set (tables db) \<Longrightarrow> db_ok (set_sync_at row s m db)"
proof -
  assume ok: "db_ok db" and row: "(''AciStatus'', row) \<in> set (tables db)"
  have "map (row_id AciStatus) (map snd (filter (\<lambda>cr. fst cr = ''AciStatus'')
      (map (\<lambda>cr. if cr = (''AciStatus'', row) then (''AciStatus'', set_sync s m row) else cr) crs)))
      = map (row_id AciStatus) (map snd (filter (\<lambda>cr. fst cr = ''AciStatus'') crs))" for crs
    by (induction crs) auto
  then have "map (row_id AciStatus) (status_rows (set_sync_at row s m db)) = map (row_id AciStatus) (status_rows db)"
    by (simp add: status_rows_def set_sync_at_def)
  moreover have "dict_ok row"
    using ok row by (rule db_okD)
  ultimately show ?thesis
    using ok by (auto simp: db_ok_def set_sync_at_def list_all_iff)
qed

lemma update_status_row:
  assumes ok: "db_ok db" and first: "first_row db AciStatus (map Some ids) = Some row"
    and st: "make_resource env AciStatus row False = Inr st"
    and upd: "update_row env AciStatus st False True [(''sync_status'', JStr s), (''sync_message'', JStr m)] db = Inr (w, db')"
  shows "(''AciStatus'', row) \<in> set (tables db) \<and> get_attr_or st ''sync_status'' JNull = sync_of row
    \<and> db' = set_sync_at row s m db"
proof -
  have row: "(''AciStatus'', row) \<in> set (tables db)" "row_id AciStatus row = map Some ids"
    using first_row_Some [OF first] by auto
  note so = status_of_row [OF st db_okD [OF ok row(1)] row(2)]
  have "length ids = 3"
    using arg_cong [OF row(2), of length] by (simp add: row_id_status)
  then have q: "query_db_obj db AciStatus st = Inr (Some row)"
    using query_db_obj_first [OF so(2), of db] first
    by (simp add: map_comp_map zip_map_fst_snd flip: map_map)
  have names: "set (map fst (other_attributes AciStatus))
      = {''sync_status'', ''sync_message'', ''health_score'', ''faults'', ''resource_dn''}"
    by (simp add: AciStatus_def)
  from update_row_result [OF upd] q names
  have db': "db' = store_add AciStatus (set_sync s m row) db"
    by (auto simp: set_sync_def)
  have same: "same_row AciStatus (set_sync s m row) cr \<longleftrightarrow> cr = (''AciStatus'', row)" if "cr \<in> set (tables db)" for cr
  proof -
    obtain c r where cr: "cr = (c, r)" by (cases cr)
    with that row status_rows_unique [OF ok, of r row] show ?thesis
      by (auto simp: same_row_def)
  qed
  then have "list_ex (same_row AciStatus (set_sync s m row)) (tables db)"
    using row(1) by (auto simp: list_ex_iff)
  then have "db' = set_sync_at row s m db"
    unfolding db' store_add_def set_sync_at_def by (auto simp: same intro!: map_cong arg_cong [of _ _ "\<lambda>x. db\<lparr>tables := x\<rparr>"])
  with row so(1) show ?thesis by simp
qed

lemma set_resource_sync_rows:
  assumes srs: "set_resource_sync env k r s m ex db = Inr (b, db'')" and ok: "db_ok db"
  shows "\<exists>db'. (db' = db \<or> add_na db db') \<and>
    (if b then \<exists>row. (''AciStatus'', row) \<in> set (tables db') \<and> sync_of row \<notin> JStr ` set ex \<and> db'' = set_sync_at row s m db'
     else db'' = db')"
proof -
  from set_resource_sync_result [OF srs]
  consider "\<not> b" "db'' = db"
    | found db' where "get_status env k r True db = Inr (found, db')" "\<not> b" "db'' = db'"
    | found db' st fs w where "get_status env k r True db = Inr (found, db')" "b" "found = Some (st, fs)"
       "get_attr_or st ''sync_status'' JNull \<notin> JStr ` set ex"
       "update_row env AciStatus st False True [(''sync_status'', JStr s), (''sync_message'', JStr m)] db' = Inr (w, db'')"
    by blast
  then show ?thesis
  proof cases
    case 3
    from get_status_rows [OF 3(1) ok] 3(3) obtain row ids where g: "db' = db \<or> add_na db db'"
      "first_row db' AciStatus (map Some ids) = Some row" "make_resource env AciStatus row False = Inr st"
      by blast
    have "db_ok db'"
      using g(1) ok db_ok_add_na by blast
    from update_status_row [OF this g(2,3) 3(5)] 3(2,4) g(1) show ?thesis by auto
  qed (use get_status_rows ok in fastforce)+
qed

lemma set_resource_sync_ok: "set_resource_sync env k r s m ex db = Inr (b, db') \<Longrightarrow> db_ok db \<Longrightarrow> db_ok db'"
  using set_resource_sync_rows db_ok_add_na db_ok_set_sync_at by (metis (full_types))

end
