(* ===== verification/Aim_Pending.thy ===== *)
theory Aim_Pending
  imports Aim_Manager_Facts
begin

text \<open>
  \<open>set_resource_sync_pending\<close>: what the propagation of the pending state to parents and children changes,
  and that it ends.
\<close>

section \<open>Recursions bounded by fuel\<close>

lemma bind_fuel_Some:
  "bind_fuel m f = Some (Inr y) \<longleftrightarrow> (\<exists>x. m = Some (Inr x) \<and> f x = Some (Inr y))"
  by (cases "(m, f)" rule: bind_fuel.cases) auto

lemma fold_fuel_invariant:
  assumes "\<And>x s s'. x \<in> set xs \<Longrightarrow> f x s = Some (Inr s') \<Longrightarrow> I s \<Longrightarrow> I s'"
  shows "fold_fuel f xs s = Some (Inr s') \<Longrightarrow> I s \<Longrightarrow> I s'"
  using assms by (induction xs arbitrary: s) (auto simp: bind_fuel_Some)

section \<open>Propagation of the pending state\<close>

text \<open>
  What propagation to parents and children may do to the database: rows of statuses in error become
  pending, statuses that were missing appear as \<open>N/A\<close>, nothing else changes.
\<close>

definition failed_row :: "string \<times> row \<Rightarrow> bool" where
  "failed_row cr \<longleftrightarrow> fst cr = ''AciStatus'' \<and> sync_of (snd cr) = JStr SYNC_FAILED"

definition pend_row :: "string \<times> row \<Rightarrow> string \<times> row \<Rightarrow> bool" where
  "pend_row cr cr' \<longleftrightarrow> cr' = cr \<or> failed_row cr \<and> cr' = (''AciStatus'', set_sync SYNC_PENDING [] (snd cr))"

definition na_row :: "string \<times> row \<Rightarrow> bool" where
  "na_row cr \<longleftrightarrow> fst cr = ''AciStatus'' \<and> sync_of (snd cr) = JStr SYNC_NA"

definition pending_le :: "aim_db \<Rightarrow> aim_db \<Rightarrow> bool" where
  "pending_le db db' \<longleftrightarrow> (\<exists>old new. tables db' = old @ new \<and> list_all2 pend_row (tables db) old \<and> list_all na_row new)"

definition failed :: "aim_db \<Rightarrow> nat" where
  "failed db = length (filter failed_row (tables db))"

lemmas sync_values = SYNC_PENDING_def SYNCED_def SYNC_FAILED_def SYNC_NA_def

lemma pend_row_refl: "pend_row cr cr"
  by (simp add: pend_row_def)

lemma pending_leI:
  "\<lbrakk>tables db' = old @ new; list_all2 pend_row (tables db) old; list_all na_row new\<rbrakk> \<Longrightarrow> pending_le db db'"
  unfolding pending_le_def by blast

lemma pending_le_refl: "pending_le db db"
  by (rule pending_leI [of _ "tables db" "[]"]) (auto intro: list_all2_refl pend_row_refl)

lemma pend_row_trans: "pend_row a b \<Longrightarrow> pend_row b c \<Longrightarrow> pend_row a c"
  by (auto simp: pend_row_def failed_row_def sync_values)

lemma na_pend_row: "na_row a \<Longrightarrow> pend_row a b \<Longrightarrow> na_row b"
  by (auto simp: pend_row_def failed_row_def na_row_def sync_values)

lemma pending_le_trans:
  assumes "pending_le a b" "pending_le b c"
  shows "pending_le a c"
proof -
  from assms(1) obtain o1 n1 where 1: "tables b = o1 @ n1" "list_all2 pend_row (tables a) o1" "list_all na_row n1"
    by (auto simp: pending_le_def)
  from assms(2) 1 obtain o2 o3 n2 where 2: "tables c = (o2 @ o3) @ n2" "list_all2 pend_row o1 o2" "list_all2 pend_row n1 o3" "list_all na_row n2"
    by (auto simp: pending_le_def list_all2_append1)
  have "list_all2 pend_row (tables a) o2"
    using list_all2_trans [of pend_row pend_row pend_row, OF pend_row_trans 1(2) 2(2)] .
  moreover have "list_all na_row o3"
    using 2(3) 1(3) by (induction rule: list_all2_induct) (auto intro: na_pend_row)
  ultimately show ?thesis
    using 2 by (intro pending_leI [of _ o2 "o3 @ n2"]) auto
qed

lemma pending_le_add_na: "add_na db db' \<Longrightarrow> pending_le db db'"
  unfolding add_na_def by (elim exE, rule pending_leI) (auto simp: na_row_def intro: list_all2_refl pend_row_refl)

lemma pending_le_set_sync:
  assumes "sync_of row = JStr SYNC_FAILED"
  shows "pending_le db (set_sync_at row SYNC_PENDING [] db)"
  by (rule pending_leI [of _ "tables (set_sync_at row SYNC_PENDING [] db)" "[]"])
    (use assms in \<open>auto simp: set_sync_at_def list_all2_map2 pend_row_def failed_row_def intro!: list_all2_refl\<close>)

lemma failed_mono:
  assumes "pending_le db db'"
  shows "failed db' \<le> failed db"
proof -
  have "list_all2 pend_row xs ys \<Longrightarrow> length (filter failed_row ys) \<le> length (filter failed_row xs)" for xs ys
    by (induction rule: list_all2_induct) (auto simp: pend_row_def failed_row_def sync_values)
  moreover have "list_all na_row new \<Longrightarrow> filter failed_row new = []" for new
    by (auto simp: filter_empty_conv list_all_iff na_row_def failed_row_def sync_values)
  ultimately show ?thesis
    using assms by (fastforce simp: pending_le_def failed_def)
qed

lemma failed_set_sync:
  assumes "(''AciStatus'', row) \<in> set (tables db)" "sync_of row = JStr SYNC_FAILED"
  shows "failed (set_sync_at row SYNC_PENDING [] db) < failed db"
proof -
  let ?f = "\<lambda>cr. if cr = (''AciStatus'', row) then (''AciStatus'', set_sync SYNC_PENDING [] row) else cr"
  have le: "length (filter failed_row (map ?f xs)) \<le> length (filter failed_row xs)" for xs
    by (induction xs) (auto simp: failed_row_def sync_values)
  have "(''AciStatus'', row) \<in> set xs \<Longrightarrow> length (filter failed_row (map ?f xs)) < length (filter failed_row xs)" for xs
  proof (induction xs)
    case (Cons x xs)
    have f: "failed_row (''AciStatus'', row)" "\<not> failed_row (''AciStatus'', set_sync SYNC_PENDING [] row)"
      using assms(2) by (auto simp: failed_row_def sync_values)
    with Cons le [of xs] show ?case
      by (cases "x = (''AciStatus'', row)") (auto simp del: map_map filter_map)
  qed simp
  with assms(1) show ?thesis
    by (simp add: failed_def set_sync_at_def)
qed

text \<open>Statuses hold one of the four values.\<close>

definition sync_ok :: "aim_db \<Rightarrow> bool" where
  "sync_ok db \<longleftrightarrow> db_ok db \<and>
     (\<forall>row \<in> set (status_rows db). sync_of row \<in> JStr ` {SYNCED, SYNC_PENDING, SYNC_NA, SYNC_FAILED})"

lemma status_rows_mem: "row \<in> set (status_rows db) \<longleftrightarrow> (''AciStatus'', row) \<in> set (tables db)"
  by (force simp: status_rows_def)

lemma sync_ok_add_na: "sync_ok db \<Longrightarrow> add_na db db' \<Longrightarrow> sync_ok db'"
  using db_ok_add_na [of db db'] by (auto simp: sync_ok_def status_rows_mem add_na_def)

lemma sync_ok_set_sync_at:
  "\<lbrakk>sync_ok db; (''AciStatus'', row) \<in> set (tables db); s \<in> {SYNCED, SYNC_PENDING, SYNC_NA, SYNC_FAILED}\<rbrakk>
   \<Longrightarrow> sync_ok (set_sync_at row s m db)"
  using db_ok_set_sync_at [of db row s m]
  by (auto simp: sync_ok_def status_rows_mem set_sync_at_def split: if_split_asm)

lemma sync_ok_step:
  assumes "set_resource_sync env k r s m ex db = Inr (b, db')" "sync_ok db"
    "s \<in> {SYNCED, SYNC_PENDING, SYNC_NA, SYNC_FAILED}"
  shows "sync_ok db'"
proof -
  from assms(2) have "db_ok db" by (simp add: sync_ok_def)
  from set_resource_sync_rows [OF assms(1) this] obtain d where d: "d = db \<or> add_na db d"
    and st: "if b then \<exists>row. (''AciStatus'', row) \<in> set (tables d) \<and> sync_of row \<notin> JStr ` set ex \<and> db' = set_sync_at row s m d
      else db' = d" by blast
  from d assms(2) sync_ok_add_na have "sync_ok d" by blast
  with st assms(3) sync_ok_set_sync_at show ?thesis by (metis (full_types))
qed

text \<open>One step below the top of a propagation.\<close>

definition lower_exclude :: "string list" where
  "lower_exclude = [SYNCED, SYNC_PENDING, SYNC_NA]"

lemma sync_step_lower:
  assumes srs: "set_resource_sync env k r SYNC_PENDING [] lower_exclude db = Inr (b, db')" and ok: "sync_ok db"
  shows "pending_le db db' \<and> (b \<longrightarrow> failed db' < failed db)"
proof -
  from ok have "db_ok db" by (simp add: sync_ok_def)
  from set_resource_sync_rows [OF srs this] obtain d where d: "d = db \<or> add_na db d"
    and st: "if b then \<exists>row. (''AciStatus'', row) \<in> set (tables d) \<and> sync_of row \<notin> JStr ` set lower_exclude
        \<and> db' = set_sync_at row SYNC_PENDING [] d else db' = d" by blast
  have le: "pending_le db d" and okd: "sync_ok d"
    using d ok sync_ok_add_na pending_le_add_na pending_le_refl by blast+
  show ?thesis
  proof (cases b)
    case True
    with st obtain row where row: "(''AciStatus'', row) \<in> set (tables d)" "sync_of row \<notin> JStr ` set lower_exclude"
      "db' = set_sync_at row SYNC_PENDING [] d" by auto
    with okd have "sync_of row = JStr SYNC_FAILED"
      by (auto simp: sync_ok_def status_rows_mem lower_exclude_def)
    with row have "pending_le d db'" "failed db' < failed d"
      using pending_le_set_sync failed_set_sync by simp_all
    with le failed_mono [OF le] pending_le_trans show ?thesis by fastforce
  next
    case False
    with st le show ?thesis by simp
  qed
qed

text \<open>What follows a change of status: the parent, then the subtree.\<close>

definition pending_rest :: "nat \<Rightarrow> env \<Rightarrow> klass \<Rightarrow> obj \<Rightarrow> bool \<Rightarrow> aim_db \<Rightarrow> aim_db result option" where
  "pending_rest fuel env k r cascade db1 =
     bind_fuel (Some (parent_obj env k r)) (\<lambda>p.
       bind_fuel (case p of
                    None \<Rightarrow> Some (Inr db1)
                  | Some (pk, po) \<Rightarrow> set_resource_sync_pending fuel env pk po False True db1) (\<lambda>db2.
         if cascade then
           bind_fuel (Some (get_subtree env db2 k r)) (\<lambda>subtree.
             fold_fuel (\<lambda>(ck, co) d. set_resource_sync_pending fuel env ck co False False d) subtree db2)
         else Some (Inr db2)))"

lemma pending_unfold:
  "set_resource_sync_pending (Suc fuel) env k r t c db =
     (case set_resource_sync env k r SYNC_PENDING [] (if t then [SYNC_PENDING] else lower_exclude) db of
        Inl e \<Rightarrow> Some (Inl e)
      | Inr (b, db1) \<Rightarrow> if b then pending_rest fuel env k r c db1 else Some (Inr db1))"
  by (simp add: pending_rest_def lower_exclude_def split: sum.split)

declare set_resource_sync_pending.simps(2) [simp del]

lemma pending_rest_le:
  assumes lower: "\<And>k r c d d'. set_resource_sync_pending fuel env k r False c d = Some (Inr d') \<Longrightarrow> sync_ok d
      \<Longrightarrow> pending_le d d' \<and> sync_ok d'"
    and rest: "pending_rest fuel env k r c db1 = Some (Inr db')" and ok: "sync_ok db1"
  shows "pending_le db1 db' \<and> sync_ok db'"
proof -
  have fold: "pending_le d d' \<and> sync_ok d'"
    if "fold_fuel (\<lambda>(ck, co). set_resource_sync_pending fuel env ck co False False) xs d = Some (Inr d')" "sync_ok d" for xs d d'
    by (rule fold_fuel_invariant [OF _ that(1), of "\<lambda>x. pending_le d x \<and> sync_ok x"])
       (use lower pending_le_trans pending_le_refl that(2) in \<open>fastforce+\<close>)
  from rest obtain p db2 where p: "(case p of None \<Rightarrow> Some (Inr db1)
        | Some (pk, po) \<Rightarrow> set_resource_sync_pending fuel env pk po False True db1) = Some (Inr db2)"
      and rest: "(if c then bind_fuel (Some (get_subtree env db2 k r)) (\<lambda>subtree.
               fold_fuel (\<lambda>(ck, co) d. set_resource_sync_pending fuel env ck co False False d) subtree db2)
           else Some (Inr db2)) = Some (Inr db')"
    by (auto simp: pending_rest_def bind_fuel_Some)
  have 2: "pending_le db1 db2 \<and> sync_ok db2"
    using p lower ok pending_le_refl by (auto split: option.split_asm)
  have "pending_le db2 db' \<and> sync_ok db'"
    using rest fold 2 pending_le_refl by (auto simp: bind_fuel_Some split: if_split_asm)
  with 2 pending_le_trans show ?thesis by blast
qed

lemma pending_lower:
  "\<lbrakk>set_resource_sync_pending fuel env k r False c db = Some (Inr db'); sync_ok db\<rbrakk> \<Longrightarrow> pending_le db db' \<and> sync_ok db'"
proof (induction fuel arbitrary: k r c db db')
  case (Suc fuel)
  from Suc.prems(1) obtain b db1 where s: "set_resource_sync env k r SYNC_PENDING [] lower_exclude db = Inr (b, db1)"
    and rest: "(if b then pending_rest fuel env k r c db1 else Some (Inr db1)) = Some (Inr db')"
    by (auto simp: pending_unfold split: sum.split_asm)
  have 1: "pending_le db db1" "sync_ok db1"
    using sync_step_lower [OF s Suc.prems(2)] sync_ok_step [OF s Suc.prems(2)] by auto
  show ?case
  proof (cases b)
    case True
    then have "pending_le db1 db' \<and> sync_ok db'"
      using rest pending_rest_le [OF Suc.IH _ 1(2)] by simp
    with 1(1) pending_le_trans show ?thesis by blast
  qed (use rest 1 in simp)
qed simp

lemma fold_fuel_total:
  assumes "\<And>x s. x \<in> set xs \<Longrightarrow> I s \<Longrightarrow> f x s \<noteq> None"
    and "\<And>x s s'. x \<in> set xs \<Longrightarrow> f x s = Some (Inr s') \<Longrightarrow> I s \<Longrightarrow> I s'"
  shows "I s \<Longrightarrow> fold_fuel f xs s \<noteq> None"
  using assms
proof (induction xs arbitrary: s)
  case (Cons x xs)
  from Cons.prems(1,2) have "f x s \<noteq> None" by simp
  then obtain y where y: "f x s = Some y" by auto
  show ?case
  proof (cases y)
    case (Inr s')
    have "I s'"
      using Cons.prems(1) Cons.prems(3) [of x s s'] y Inr by simp
    then have "fold_fuel f xs s' \<noteq> None"
      by (rule Cons.IH) (rule Cons.prems(2,3), simp_all)+
    with Inr y show ?thesis by simp
  qed (simp add: y)
qed simp

lemma pending_rest_ends:
  assumes lower: "\<And>k r c d. failed d < fuel \<Longrightarrow> sync_ok d \<Longrightarrow> set_resource_sync_pending fuel env k r False c d \<noteq> None"
    and lt: "failed db1 < fuel" and ok: "sync_ok db1"
  shows "pending_rest fuel env k r c db1 \<noteq> None"
proof -
  let ?I = "\<lambda>d. sync_ok d \<and> failed d < fuel"
  have keep: "?I d'" if "set_resource_sync_pending fuel env k' r' False c' d = Some (Inr d')" "?I d" for k' r' c' d d'
    using pending_lower [OF that(1)] that(2) failed_mono [of d d'] by auto
  have fold: "fold_fuel (\<lambda>(ck, co). set_resource_sync_pending fuel env ck co False False) xs d \<noteq> None" if "?I d" for xs d
    by (rule fold_fuel_total [where I = ?I, OF _ _ that])
       (auto simp: lower dest: keep split: prod.splits simp del: not_None_eq)
  show ?thesis
  proof (cases "parent_obj env k r")
    case (Inr p)
    let ?m = "case p of None \<Rightarrow> Some (Inr db1) | Some (pk, po) \<Rightarrow> set_resource_sync_pending fuel env pk po False True db1"
    have "?m \<noteq> None"
      using lower ok lt by (auto split: option.split simp del: not_None_eq)
    then obtain y where y: "?m = Some y" by blast
    show ?thesis
    proof (cases y)
      case (Inr db2)
      have "?I db2"
        using y Inr keep ok lt by (auto split: option.split_asm)
      with fold show ?thesis
        using \<open>parent_obj env k r = Inr p\<close> y Inr
        by (cases "get_subtree env db2 k r") (auto simp: pending_rest_def)
    qed (use y \<open>parent_obj env k r = Inr p\<close> in \<open>simp add: pending_rest_def\<close>)
  qed (simp add: pending_rest_def)
qed

lemma pending_lower_ends:
  "\<lbrakk>failed db < fuel; sync_ok db\<rbrakk> \<Longrightarrow> set_resource_sync_pending fuel env k r False c db \<noteq> None"
proof (induction fuel arbitrary: k r c db)
  case (Suc fuel)
  show ?case
  proof (cases "set_resource_sync env k r SYNC_PENDING [] lower_exclude db")
    case (Inr bd)
    obtain b db1 where s: "set_resource_sync env k r SYNC_PENDING [] lower_exclude db = Inr (b, db1)"
      using Inr by (cases bd) auto
    have "sync_ok db1" "b \<Longrightarrow> failed db1 < fuel"
      using sync_ok_step [OF s Suc.prems(2)] sync_step_lower [OF s Suc.prems(2)] Suc.prems(1) by auto
    with pending_rest_ends [OF Suc.IH] s show ?thesis
      by (auto simp: pending_unfold simp del: not_None_eq)
  qed (simp add: pending_unfold)
qed simp

section \<open>Properties of the propagation\<close>

text \<open>C4. \<open>set_resource_sync_pending\<close> on a resource sets the status of that resource to pending, unless it is
  pending already. Propagation to its parents and its subtree then changes only statuses in error, which
  become pending without a message, and adds statuses that were missing as \<open>N/A\<close>: synchronised and pending
  statuses, and all objects that are not statuses, stay as they are.\<close>

theorem pending_changes_only_failed:
  assumes "set_resource_sync_pending fuel env k r True cascade db = Some (Inr db')" and "sync_ok db"
  shows "sync_ok db' \<and> (\<exists>db1. (db1 = db \<or> add_na db db1) \<and>
    (db' = db1 \<or> (\<exists>own. (''AciStatus'', own) \<in> set (tables db1) \<and> sync_of own \<noteq> JStr SYNC_PENDING
        \<and> pending_le (set_sync_at own SYNC_PENDING [] db1) db')))"
proof -
  obtain n where n: "fuel = Suc n"
    using assms(1) by (cases fuel) auto
  from assms(1) n obtain b d1 where s: "set_resource_sync env k r SYNC_PENDING [] [SYNC_PENDING] db = Inr (b, d1)"
    and rest: "(if b then pending_rest n env k r cascade d1 else Some (Inr d1)) = Some (Inr db')"
    by (auto simp: pending_unfold split: sum.split_asm)
  have 1: "sync_ok d1"
    using sync_ok_step [OF s assms(2)] by simp
  then have 2: "sync_ok db' \<and> (if b then pending_le d1 db' else db' = d1)"
    using rest pending_rest_le [OF pending_lower] by (auto split: if_split_asm)
  from assms(2) have "db_ok db" by (simp add: sync_ok_def)
  from set_resource_sync_rows [OF s this] obtain db1 where "db1 = db \<or> add_na db db1"
    "if b then \<exists>row. (''AciStatus'', row) \<in> set (tables db1) \<and> sync_of row \<notin> JStr ` set [SYNC_PENDING]
        \<and> d1 = set_sync_at row SYNC_PENDING [] db1 else d1 = db1" by blast
  with 2 show ?thesis by (cases b) auto
qed

theorem pending_changes_only_failed_witness:
  "\<exists>db' db1. set_resource_sync_pending 4 small_env BridgeDomain sample_bd True True sample_db = Some (Inr db')
     \<and> sync_ok db' \<and> (db1 = sample_db \<or> add_na sample_db db1)
     \<and> (db' = db1 \<or> (\<exists>own. (''AciStatus'', own) \<in> set (tables db1) \<and> pending_le (set_sync_at own SYNC_PENDING [] db1) db'))"
proof -
  have ok: "sync_ok sample_db" by code_simp
  have "case set_resource_sync_pending 4 small_env BridgeDomain sample_bd True True sample_db of
      Some (Inr _) \<Rightarrow> True | _ \<Rightarrow> False"
    by code_simp
  then obtain db' where r: "set_resource_sync_pending 4 small_env BridgeDomain sample_bd True True sample_db = Some (Inr db')"
    by (auto split: option.split_asm sum.split_asm)
  from pending_changes_only_failed [OF r ok] r show ?thesis by blast
qed

lemma failed_top:
  assumes s: "set_resource_sync env k r SYNC_PENDING [] ex db = Inr (b, db1)" and ok: "sync_ok db"
  shows "failed db1 \<le> failed db"
proof -
  from ok have "db_ok db" by (simp add: sync_ok_def)
  from set_resource_sync_rows [OF s this] obtain d where d: "d = db \<or> add_na db d"
    and st: "if b then \<exists>row. (''AciStatus'', row) \<in> set (tables d) \<and> sync_of row \<notin> JStr ` set ex
        \<and> db1 = set_sync_at row SYNC_PENDING [] d else db1 = d" by blast
  have "failed d \<le> failed db"
    using d pending_le_add_na failed_mono by blast
  moreover have "failed (set_sync_at row SYNC_PENDING [] d) \<le> failed d" for row
  proof -
    have "length (filter failed_row (map (\<lambda>cr. if cr = (''AciStatus'', row)
        then (''AciStatus'', set_sync SYNC_PENDING [] row) else cr) xs)) \<le> length (filter failed_row xs)" for xs
      by (induction xs) (auto simp: failed_row_def sync_values)
    then show ?thesis by (simp add: failed_def set_sync_at_def)
  qed
  ultimately show ?thesis
    using st by (auto split: if_split_asm intro: le_trans)
qed

text \<open>C22. \<open>set_resource_sync_pending\<close> ends: every call below the top that goes on has turned a status in error
  into a pending one, so that the recursion is at most two levels deeper than there are statuses in error.\<close>

theorem pending_ends:
  assumes "sync_ok db" and "failed db + 2 \<le> fuel"
  shows "set_resource_sync_pending fuel env k r is_top cascade db \<noteq> None"
proof -
  obtain n where n: "fuel = Suc n" "failed db < n"
    using assms(2) by (cases fuel) auto
  show ?thesis
  proof (cases "set_resource_sync env k r SYNC_PENDING [] (if is_top then [SYNC_PENDING] else lower_exclude) db")
    case (Inr bd)
    then obtain b db1 where s: "set_resource_sync env k r SYNC_PENDING [] (if is_top then [SYNC_PENDING] else lower_exclude) db
      = Inr (b, db1)" by (cases bd) auto
    have "sync_ok db1" "failed db1 < n"
      using sync_ok_step [OF s assms(1)] failed_top [OF s assms(1)] n(2) by auto
    with pending_rest_ends [OF pending_lower_ends] s n(1) show ?thesis
      by (auto simp: pending_unfold simp del: not_None_eq)
  qed (simp add: n(1) pending_unfold)
qed

theorem pending_ends_witness:
  "set_resource_sync_pending 4 small_env BridgeDomain sample_bd True True sample_db \<noteq> None"
proof (rule pending_ends)
  show "sync_ok sample_db" by code_simp
  show "failed sample_db + 2 \<le> 4" by code_simp
qed

end
