(* ===== verification/Aim_Manager_Props.thy ===== *)
theory Aim_Manager_Props
  imports Aim_Pending
begin

text \<open>
  The AIM manager as its callers see it: what is created is found again, what is deleted is not, and
  monitored objects are protected.
\<close>

section \<open>Rows of other classes\<close>

definition others :: "aim_db \<Rightarrow> (string \<times> row) list" where
  "others db = filter (\<lambda>cr. fst cr \<noteq> ''AciStatus'') (tables db)"

lemma filter_map_keep:
  "(\<And>x. P (f x) \<longleftrightarrow> P x) \<Longrightarrow> (\<And>x. P x \<Longrightarrow> f x = x) \<Longrightarrow> filter P (map f xs) = filter P xs"
  by (induction xs) auto

lemma others_pending_le: "pending_le db db' \<Longrightarrow> others db' = others db"
proof -
  have "list_all2 pend_row xs ys \<Longrightarrow> filter (\<lambda>cr. fst cr \<noteq> ''AciStatus'') ys = filter (\<lambda>cr. fst cr \<noteq> ''AciStatus'') xs" for xs ys
    by (induction rule: list_all2_induct) (auto simp: pend_row_def failed_row_def)
  moreover have "list_all na_row new \<Longrightarrow> filter (\<lambda>cr. fst cr \<noteq> ''AciStatus'') new = []" for new
    by (auto simp: filter_empty_conv list_all_iff na_row_def)
  ultimately show "pending_le db db' \<Longrightarrow> others db' = others db"
    by (fastforce simp: pending_le_def others_def)
qed

lemma others_set_sync_at: "others (set_sync_at row s m db) = others db"
  unfolding others_def set_sync_at_def by (simp del: filter_map) (rule filter_map_keep, auto)

lemma others_pending:
  assumes "set_resource_sync_pending fuel env k r True c db = Some (Inr db')" "sync_ok db"
  shows "others db' = others db"
proof -
  obtain n where n: "fuel = Suc n"
    using assms(1) by (cases fuel) auto
  from assms(1) n obtain b d1 where s: "set_resource_sync env k r SYNC_PENDING [] [SYNC_PENDING] db = Inr (b, d1)"
    and rest: "(if b then pending_rest n env k r c d1 else Some (Inr d1)) = Some (Inr db')"
    by (auto simp: pending_unfold split: sum.split_asm)
  have 1: "sync_ok d1"
    using sync_ok_step [OF s assms(2)] by simp
  then have 2: "others db' = others d1"
    using rest pending_rest_le [OF pending_lower] others_pending_le by (auto split: if_split_asm)
  from assms(2) have "db_ok db" by (simp add: sync_ok_def)
  from set_resource_sync_rows [OF s this] obtain db1 where "db1 = db \<or> add_na db db1"
    "if b then \<exists>row. (''AciStatus'', row) \<in> set (tables db1) \<and> sync_of row \<notin> JStr ` set [SYNC_PENDING]
        \<and> d1 = set_sync_at row SYNC_PENDING [] db1 else d1 = db1" by blast
  then have "others d1 = others db"
    using others_pending_le [OF pending_le_add_na] by (auto simp: others_set_sync_at split: if_split_asm)
  with 2 show ?thesis by simp
qed

lemma first_row_others:
  assumes "others db' = others db" "kname k \<noteq> ''AciStatus''"
  shows "first_row db' k ids = first_row db k ids"
proof -
  have "find P xs = find P (filter Q xs)" if "\<And>x. P x \<Longrightarrow> Q x" for P Q and xs :: "(string \<times> row) list"
    using that by (induction xs) auto
  from this [of "\<lambda>(c, r). c = kname k \<and> row_id k r = ids" "\<lambda>cr. fst cr \<noteq> ''AciStatus''"]
  have "first_row d k ids = map_option snd (find (\<lambda>(c, r). c = kname k \<and> row_id k r = ids) (others d))" for d
    unfolding first_row_def others_def using assms(2) by (simp add: split_beta)
  with assms(1) show ?thesis by simp
qed

section \<open>Objects read back from their rows\<close>

text \<open>Classes whose constructor takes any arguments as they are, with distinct attributes.\<close>

definition storable :: "klass \<Rightarrow> bool" where
  "storable k \<longleftrightarrow> kname k \<noteq> ''AciStatus'' \<and> distinct (attributes k)
     \<and> ''_set_default'' \<notin> set (attributes k) \<and> ''aim_id'' \<notin> set (attributes k)
     \<and> (\<forall>c kw. \<exists>d. ctor k c kw = Inr (d, kw))"

definition complete :: "klass \<Rightarrow> obj \<Rightarrow> bool" where
  "complete k r \<longleftrightarrow> oclass r = kname k \<and> list_all (\<lambda>a. lookup_attr r a \<noteq> None) (user_attributes k)"

lemma make_resource_attr:
  assumes "storable k" "make_resource env k row False = Inr x" "dict_ok row"
  shows "oclass x = kname k" "a \<in> set (attributes k) \<Longrightarrow> dict_get row a = Some v \<Longrightarrow> get_attr x a = Inr v"
proof -
  let ?f = "filter (\<lambda>(a, _). a \<in> set (attributes k)) row"
  have f: "dict_get ?f a = (if a \<in> set (attributes k) then dict_get row a else None)" for a
    by (induction row) auto
  have nd: "dict_del ''_set_default'' ?f = ?f"
    using assms(1) by (intro delete_id) (auto simp: storable_def)
  have rev: "map_of (rev ?f) = map_of ?f"
    using assms(3) by (intro map_of_rev_ok) (simp add: dict_ok_def distinct_map_filter)
  have "make_obj (conf env) k ?f = Inr x"
    using assms(2) by (auto simp: make_resource_def split: option.split_asm)
  moreover obtain d where "ctor k (conf env) ?f = Inr (d, ?f)"
    using assms(1) unfolding storable_def by blast
  ultimately obtain base where x: "x = \<lparr>oclass = kname k, ofields = dict_update base ?f\<rparr>"
    using nd by (auto simp: make_obj_def resource_init_def Let_def split: if_split_asm)
  show "oclass x = kname k" by (simp add: x)
  show "get_attr x a = Inr v" if "a \<in> set (attributes k)" "dict_get row a = Some v"
    using that by (simp add: x get_attr_def dict_get_update rev f)
qed

lemma user_equal_from_row:
  assumes "storable k" "make_resource env k row False = Inr x" "dict_ok row" "complete k r"
    and "\<And>a. a \<in> set (user_attributes k) \<Longrightarrow> dict_get row a = lookup_attr r a"
  shows "user_equal k x r"
proof -
  have "lookup_attr x a = lookup_attr r a" if a: "a \<in> set (user_attributes k)" for a
  proof -
    obtain v where "lookup_attr r a = Some v"
      using assms(4) a by (auto simp: complete_def list_all_iff)
    moreover have "a \<in> set (attributes k)"
      using a by (auto simp: user_attributes_def attributes_def)
    ultimately show ?thesis
      using make_resource_attr(2) [OF assms(1-3)] assms(5) [OF a] by (simp add: lookup_attr_def)
  qed
  then show ?thesis
    using assms(4) make_resource_attr(1) [OF assms(1-3)] by (auto simp: user_equal_def complete_def list_all_iff)
qed

lemma extract_id_lookup:
  "extract_id k r = Inr i \<Longrightarrow> map fst i = map fst (identity_attributes k)
     \<and> (\<forall>(a, v) \<in> set i. lookup_attr r a = Some v)"
proof -
  have "traverse_res (\<lambda>(a, _). bind_res (get_attr r a) (\<lambda>v. Inr (a, v))) ats = Inr i \<Longrightarrow>
     map fst i = map fst ats \<and> (\<forall>(a, v) \<in> set i. lookup_attr r a = Some v)" for ats :: "(string \<times> json) list"
    by (induction ats arbitrary: i) (auto simp: lookup_attr_def)
  then show "extract_id k r = Inr i \<Longrightarrow> ?thesis" by (simp add: extract_id_def)
qed

lemma row_id_alt: "row_id k row = map (dict_get row) (map fst (identity_attributes k))"
  by (simp add: row_id_def split_beta)

lemma row_id_lookup:
  assumes "extract_id k r = Inr i" "row_id k row = map (Some \<circ> snd) i" "a \<in> fst ` set (identity_attributes k)"
  shows "dict_get row a = lookup_attr r a"
proof -
  have i: "map fst i = map fst (identity_attributes k)" "\<forall>(a, v) \<in> set i. lookup_attr r a = Some v"
    using extract_id_lookup [OF assms(1)] by auto
  then have "row_id k row = map (dict_get row) (map fst i)"
    by (simp only: row_id_alt)
  with assms(2) have "\<forall>(a, v) \<in> set i. dict_get row a = Some v"
    by auto
  moreover obtain v where "(a, v) \<in> set i"
    using assms(3) i(1) by (metis (no_types) image_iff list.set_map prod.collapse)
  ultimately show ?thesis using i(2) by fastforce
qed

lemma get_attr_or_lookup: "complete k r \<Longrightarrow> a \<in> set (user_attributes k) \<Longrightarrow> lookup_attr r a = Some (get_attr_or r a d)"
  by (auto simp: complete_def list_all_iff lookup_attr_def get_attr_or_def split: sum.splits)

text \<open>The rows \<open>create\<close> writes.\<close>

lemma new_row_lookup:
  assumes "storable k" "complete k r" "make_db_obj k r = Inr row" "a \<in> set (user_attributes k)"
  shows "dict_get row a = lookup_attr r a" "dict_ok row"
proof -
  obtain i where i: "extract_id k r = Inr i" and row: "row = dict_update [] (i @ extract_other k r @ extract_db k r)"
    using assms(3) by (auto simp: make_db_obj_def)
  note il = extract_id_lookup [OF i]
  have other: "map fst (extract_other k r) = map fst (other_attributes k)"
    by (auto simp: extract_other_def)
  have sub: "fst ` set (concat (map (\<lambda>(a, _). case lookup_attr r a of Some v \<Rightarrow> [(a, v)] | None \<Rightarrow> []) ats)) \<subseteq> fst ` set ats"
    for ats :: "(string \<times> json) list"
    by (force split: option.split_asm)
  have db: "distinct (map fst ats) \<Longrightarrow> distinct (map fst (concat (map (\<lambda>(a, _). case lookup_attr r a of Some v \<Rightarrow> [(a, v)] | None \<Rightarrow> []) ats)))"
    for ats :: "(string \<times> json) list"
  proof (induction ats)
    case (Cons at ats)
    with sub [of ats] show ?case by (cases at) (auto simp del: set_concat split: option.split)
  qed simp
  have dist: "distinct (map fst (identity_attributes k) @ map fst (other_attributes k) @ map fst (db_attributes k))"
    using assms(1) by (auto simp: storable_def attributes_def)
  have "dict_ok (i @ extract_other k r @ extract_db k r)"
    using il other db [of "db_attributes k"] sub [of "db_attributes k"] dist
    by (auto simp: dict_ok_def extract_db_def simp del: set_concat simp flip: set_map)
  then have row': "row = i @ extract_other k r @ extract_db k r" and ok: "dict_ok row"
    unfolding row by (simp_all add: dict_update_Nil_ok)
  show "dict_ok row" by (fact ok)
  show "dict_get row a = lookup_attr r a"
  proof (cases "a \<in> fst ` set (identity_attributes k)")
    case True
    then obtain v where "(a, v) \<in> set i"
      using il by (metis (no_types) image_iff list.set_map prod.collapse)
    with ok row' il show ?thesis by (auto simp: dict_ok_def)
  next
    case False
    with assms(4) have "(a, get_attr_or r a JNull) \<in> set row"
      by (auto simp: row' user_attributes_def extract_other_def)
    with ok get_attr_or_lookup [OF assms(2,4)] show ?thesis by (simp add: dict_ok_def)
  qed
qed


section \<open>Creation, deletion\<close>

lemma first_row_store_add:
  assumes "row_id k row = ids" "storable k"
  shows "first_row (store_add k row db) k ids =
    Some (if list_ex (same_row k row) (tables db) then row else new_ids db k row)"
proof (cases "list_ex (same_row k row) (tables db)")
  case True
  have "list_ex (same_row k row) xs \<Longrightarrow>
    find (\<lambda>(c, r). c = kname k \<and> row_id k r = ids) (map (\<lambda>cr. if same_row k row cr then (fst cr, row) else cr) xs)
      = Some (kname k, row)" for xs
    using assms by (induction xs) (auto simp: same_row_def)
  with True show ?thesis by (simp add: first_row_def store_add_def)
next
  case False
  then have "find (\<lambda>(c, r). c = kname k \<and> row_id k r = ids) (tables db) = None"
    using assms by (auto simp: find_None_iff list_ex_iff same_row_def)
  moreover have "find P xs = None \<Longrightarrow> find P (xs @ ys) = find P ys" for P and xs ys :: "(string \<times> row) list"
    by (induction xs) (auto split: if_split_asm)
  moreover have "row_id k (new_ids db k row) = ids"
    unfolding assms(1) [symmetric] row_id_alt
  proof (rule map_cong [OF refl])
    fix a assume "a \<in> set (map fst (identity_attributes k))"
    then have "a \<in> set (attributes k)"
      by (simp add: attributes_def)
    with assms(2) have "a \<noteq> ''aim_id''" "kname k \<noteq> ''AciStatus''"
      by (auto simp: storable_def)
    then show "dict_get (new_ids db k row) a = dict_get row a"
      by (simp add: new_ids_def Let_def dict_simps)
  qed
  ultimately show ?thesis
    using False by (simp add: first_row_def store_add_def)
qed

lemma written_row_read:
  assumes st: "storable k" and c: "complete k r" and ok: "db_ok db"
    and cr: "create_row env k r ow fx db = Inr (Written b, db1)"
    and i: "extract_id k r = Inr i"
  obtains row where "first_row db1 k (map (Some \<circ> snd) i) = Some row" "dict_ok row"
    "\<And>a. a \<in> set (user_attributes k) \<Longrightarrow> dict_get row a = lookup_attr r a"
proof -
  let ?ids = "map (Some \<circ> snd) i"
  have ua: "set (user_attributes k) \<subseteq> set (attributes k)" "''aim_id'' \<notin> set (user_attributes k)"
    using st by (auto simp: user_attributes_def attributes_def storable_def)
  from create_row_result [OF cr] consider
      row where "query_db_obj db k r = Inr (Some row)" "db1 = store_add k (dict_update row (extract_other k r)) db"
    | row where "make_db_obj k r = Inr row" "\<not> list_ex (same_row k row) (tables db)" "db1 = store_add k row db"
    by auto
  then show thesis
  proof cases
    case 1
    let ?row = "dict_update row (extract_other k r)"
    have fr: "(kname k, row) \<in> set (tables db)" "row_id k row = ?ids"
      using 1(1) query_db_obj_first [OF i, of db] first_row_Some by auto
    have dist: "distinct (map fst (identity_attributes k) @ map fst (other_attributes k))"
      using st by (auto simp: storable_def attributes_def)
    have eo: "map fst (extract_other k r) = map fst (other_attributes k)"
      by (auto simp: extract_other_def)
    then have rev: "map_of (rev (extract_other k r)) = map_of (extract_other k r)"
      using dist by (intro map_of_rev_ok) (simp add: dict_ok_def)
    have get: "dict_get ?row a = lookup_attr r a" if a: "a \<in> set (user_attributes k)" for a
    proof (cases "a \<in> fst ` set (other_attributes k)")
      case True
      then have "(a, get_attr_or r a JNull) \<in> set (extract_other k r)"
        by (auto simp: extract_other_def)
      then have "dict_get (extract_other k r) a = Some (get_attr_or r a JNull)"
        using dist eo by simp
      then show ?thesis
        using get_attr_or_lookup [OF c a, of JNull] by (simp add: dict_get_update rev)
    next
      case False
      then have "dict_get (extract_other k r) a = None"
        using eo by (metis list.set_map map_of_eq_None_iff)
      moreover have "a \<in> fst ` set (identity_attributes k)"
        using a False by (auto simp: user_attributes_def)
      ultimately show ?thesis
        using row_id_lookup [OF i fr(2)] by (simp add: dict_get_update rev)
    qed
    have "row_id k ?row = row_id k row"
      unfolding row_id_alt
    proof (rule map_cong [OF refl])
      fix a assume "a \<in> set (map fst (identity_attributes k))"
      then show "dict_get ?row a = dict_get row a"
        using get [of a] row_id_lookup [OF i fr(2), of a] by (simp add: user_attributes_def)
    qed
    then have ids: "row_id k ?row = ?ids" and ex: "list_ex (same_row k ?row) (tables db)"
      using fr by (auto simp: list_ex_iff same_row_def intro!: bexI [of _ "(kname k, row)"])
    have "dict_ok ?row"
      using db_okD [OF ok fr(1)] by auto
    with first_row_store_add [OF ids st, of db] ex 1(2) get that show thesis by simp
  next
    case 2
    let ?row = "new_ids db k row"
    have get: "dict_get row a = lookup_attr r a" if "a \<in> set (user_attributes k)" for a
      using new_row_lookup(1) [OF st c 2(1) that] .
    have ids: "row_id k row = ?ids"
    proof -
      have "row_id k row = map (dict_get row) (map fst i)"
        using extract_id_lookup [OF i] by (simp only: row_id_alt)
      moreover have "dict_get row (fst p) = Some (snd p)" if "p \<in> set i" for p
      proof -
        have "fst p \<in> set (user_attributes k)"
          using that extract_id_lookup [OF i] by (metis UnCI imageI list.set_map set_append user_attributes_def)
        with get that extract_id_lookup [OF i] show ?thesis by fastforce
      qed
      ultimately show ?thesis by simp
    qed
    have okr: "dict_ok row"
    proof (cases "user_attributes k")
      case Nil
      then show ?thesis
        using 2(1) by (auto simp: make_db_obj_def)
    qed (use new_row_lookup(2) [OF st c 2(1)] in auto)
    have "dict_get ?row a = lookup_attr r a" if "a \<in> set (user_attributes k)" for a
      using get [OF that] ua that st by (auto simp: new_ids_def Let_def dict_simps storable_def)
    moreover have "dict_ok ?row"
      using okr by (auto simp: new_ids_def Let_def)
    ultimately show thesis
      using first_row_store_add [OF ids st, of db] 2 that by simp
  qed
qed


lemma sync_ok_others:
  assumes "sync_ok db" "status_rows db' = status_rows db" "list_all (\<lambda>cr. dict_ok (snd cr)) (tables db')"
  shows "sync_ok db'"
  using assms by (simp add: sync_ok_def db_ok_def)

lemma status_rows_store_add:
  "kname k \<noteq> ''AciStatus'' \<Longrightarrow> status_rows (store_add k row db) = status_rows db"
proof -
  assume k: "kname k \<noteq> ''AciStatus''"
  have "filter (\<lambda>cr. fst cr = ''AciStatus'') (map (\<lambda>cr. if same_row k row cr then (fst cr, row) else cr) xs)
      = filter (\<lambda>cr. fst cr = ''AciStatus'') xs" for xs
    by (rule filter_map_keep) (use k in \<open>auto simp: same_row_def\<close>)
  with k show ?thesis by (simp add: status_rows_def store_add_def del: filter_map)
qed

lemma create_row_sync_ok:
  assumes cr: "create_row env k r ow fx db = Inr (w, db1)" and ok: "sync_ok db" and st: "storable k"
  shows "sync_ok db1"
proof -
  have k: "kname k \<noteq> ''AciStatus''"
    using st by (simp add: storable_def)
  have add: "sync_ok (store_add k row db)" if "dict_ok row" for row
  proof (rule sync_ok_others [OF ok status_rows_store_add [OF k]])
    have "dict_ok (new_ids db k row)"
      using that by (auto simp: new_ids_def Let_def)
    with ok that show "list_all (\<lambda>cr. dict_ok (snd cr)) (tables (store_add k row db))"
      by (auto simp: store_add_def sync_ok_def db_ok_def list_all_iff)
  qed
  have "dict_ok row" if "make_db_obj k r = Inr row" for row
    using that by (auto simp: make_db_obj_def)
  moreover have "dict_ok (dict_update row kvs)" if "query_db_obj db k r = Inr (Some row)" for row kvs
  proof -
    from that obtain i where i: "extract_id k r = Inr i" by (auto simp: query_db_obj_def)
    have "(kname k, row) \<in> set (tables db)"
      using that query_db_obj_first [OF i, of db] first_row_Some by auto
    with ok show ?thesis by (auto simp: sync_ok_def dest: db_okD)
  qed
  ultimately show ?thesis
    using create_row_result [OF cr] add ok by blast
qed

text \<open>What \<open>create\<close> returns is what is read back.\<close>

lemma created_read:
  assumes st: "storable k" and c: "complete k r" and ok: "sync_ok db"
    and create: "aim_create fuel env k r overwrite fix_ownership db = Inr (res, db')"
  shows "\<exists>x. res = Some x \<and> user_equal k x r \<and> aim_get env db' k r False = Inr (Some x)"
proof -
  have okd: "db_ok db"
    using ok by (simp add: sync_ok_def)
  from create obtain w db1 where cr: "create_row env k r overwrite fix_ownership db = Inr (w, db1)"
    and v: "validate_resource_class env k = Inr ()"
    by (auto simp: aim_create_def create_row_def)
  show ?thesis
  proof (cases w)
    case (Unchanged x)
    from create_row_result [OF cr] Unchanged obtain row where "db1 = db" "query_db_obj db k r = Inr (Some row)"
      "make_resource env k row False = Inr x" "user_equal k x r" by auto
    with create cr Unchanged v show ?thesis
      by (auto simp: aim_create_def aim_get_def)
  next
    case Missing
    with create_row_result [OF cr] show ?thesis by auto
  next
    case (Written b)
    obtain i where i: "extract_id k r = Inr i"
      using create_row_result [OF cr] Written by (auto simp: query_db_obj_def make_db_obj_def)
    from written_row_read [OF st c okd cr [unfolded Written] i] obtain row
      where row: "first_row db1 k (map (Some \<circ> snd) i) = Some row" "dict_ok row"
        "\<And>a. a \<in> set (user_attributes k) \<Longrightarrow> dict_get row a = lookup_attr r a" by blast
    define step where "step = (if b then out_of_fuel (set_resource_sync_pending fuel env k r True True db1) else Inr db1)"
    have "bind_res step (\<lambda>db2. bind_res (aim_get env db2 k r False) (\<lambda>o'. Inr (o', db2))) = Inr (res, db')"
      using create by (simp only: aim_create_def cr Written bind_res.simps prod.case written.case step_def)
    then obtain db2 where p: "step = Inr db2" and g: "aim_get env db2 k r False = Inr res" and db': "db' = db2"
      by auto
    have "others db2 = others db1"
    proof (cases b)
      case True
      then have "set_resource_sync_pending fuel env k r True True db1 = Some (Inr db2)"
        using p by (auto simp: step_def out_of_fuel_def split: option.split_asm)
      moreover have "sync_ok db1"
        using create_row_sync_ok [OF cr ok st] .
      ultimately show ?thesis by (rule others_pending)
    qed (use p in \<open>simp add: step_def\<close>)
    then have "first_row db2 k (map (Some \<circ> snd) i) = Some row"
      using first_row_others [of db2 db1 k] st row(1) by (simp add: storable_def)
    then obtain x where x: "res = Some x" "make_resource env k row False = Inr x"
      using g query_db_obj_first [OF i, of db2] by (auto simp: aim_get_def)
    with user_equal_from_row [OF st x(2) row(2) c row(3)] g db' show ?thesis by simp
  qed
qed


lemma get_status_no_create: "get_status env k r False db = Inr (f, db') \<Longrightarrow> db' = db"
  using get_status_result by fastforce

definition rows_of :: "string \<Rightarrow> aim_db \<Rightarrow> (string \<times> row) list" where
  "rows_of c db = filter (\<lambda>cr. fst cr = c) (tables db)"

lemma rows_of_store_delete: "c \<noteq> kname k \<Longrightarrow> rows_of c (store_delete k row db) = rows_of c db"
  by (induction "tables db" arbitrary: db) (auto simp: rows_of_def store_delete_def same_row_def intro: filter_cong)

lemma first_row_store_delete: "first_row (store_delete k row db) k (row_id k row) = None"
  by (auto simp: first_row_None store_delete_def same_row_def)

lemma first_row_delete_mono: "first_row db k ids = None \<Longrightarrow> first_row (store_delete k' row db) k ids = None"
  by (auto simp: first_row_None store_delete_def)

lemma delete_one_result:
  assumes "delete_one env k r force db = Inr db'"
  shows "(db' = db \<and> query_db_obj db k r = Inr None) \<or> (\<exists>row. query_db_obj db k r = Inr (Some row) \<and>
    (db' = store_delete k row db \<and> (is_aci k \<longrightarrow> get_status env k r False db = Inr (None, db))
     \<or> (\<exists>st fs db2. is_aci k \<and> get_status env k r False db = Inr (Some (st, fs), db) \<and> delete_row env AciStatus st db = Inr db2
          \<and> db' = store_delete k row db2
          \<and> \<not> (json_truth (opt_json row ''monitored'') \<and> \<not> force \<and> get_attr_or st ''sync_status'' JNull = JStr SYNC_PENDING))))"
proof -
  from assms obtain old where v: "validate_resource_class env k = Inr ()" and q: "query_db_obj db k r = Inr old"
    by (auto simp: delete_one_def)
  show ?thesis
  proof (cases old)
    case None
    with assms v q show ?thesis by (simp add: delete_one_def)
  next
    case (Some row)
    show ?thesis
    proof (cases "is_aci k")
      case False
      with assms v q Some show ?thesis by (simp add: delete_one_def)
    next
      case True
      with assms v q Some obtain f d where gs: "get_status env k r False db = Inr (f, d)"
        by (auto simp: delete_one_def)
      then have d: "d = db" by (rule get_status_no_create)
      show ?thesis
      proof (cases f)
        case None
        with assms v q Some True gs d show ?thesis by (simp add: delete_one_def)
      next
        case (Some sf)
        obtain st fs where "sf = (st, fs)" by (cases sf)
        with assms v q \<open>old = Some row\<close> True gs d Some show ?thesis
          by (auto simp: delete_one_def split: if_split_asm)
      qed
    qed
  qed
qed

lemma query_after_delete:
  assumes "query_db_obj db k r = Inr (Some row)"
  shows "query_db_obj (store_delete k row db) k r = Inr None"
proof -
  from assms obtain i where i: "extract_id k r = Inr i" by (auto simp: query_db_obj_def)
  then have "row_id k row = map (Some \<circ> snd) i"
    using assms query_db_obj_first [OF i, of db] first_row_Some by auto
  with first_row_store_delete [of k row db] show ?thesis
    by (simp add: query_db_obj_first [OF i])
qed

lemma query_none_delete: "query_db_obj db k r = Inr None \<Longrightarrow> query_db_obj (store_delete k' row db) k r = Inr None"
proof -
  assume q: "query_db_obj db k r = Inr None"
  then obtain i where i: "extract_id k r = Inr i" by (auto simp: query_db_obj_def)
  with q first_row_delete_mono show ?thesis
    by (simp add: query_db_obj_first [OF i])
qed

lemma delete_row_result:
  assumes "delete_row env k r db = Inr db'"
  shows "query_db_obj db' k r = Inr None \<and> (db' = db \<or> (\<exists>row. db' = store_delete k row db))"
proof -
  obtain old where q: "query_db_obj db k r = Inr old" "validate_resource_class env k = Inr ()"
    using assms by (auto simp: delete_row_def)
  show ?thesis
    using assms q query_after_delete [of db k r] by (cases old) (auto simp: delete_row_def)
qed

text \<open>C25. An object is gone once \<open>delete\<close> has succeeded, and rows of other classes than its own and the
  statuses are as before.\<close>

theorem delete_then_get:
  assumes del: "aim_delete env k r force False db = Inr db'"
  shows "aim_get env db' k r include_aim_id = Inr None
    \<and> (c = kname k \<or> c = ''AciStatus'' \<or> rows_of c db' = rows_of c db)"
proof -
  have one: "delete_one env k r force db = Inr db'"
    using del by (auto simp: aim_delete_def)
  then have v: "validate_resource_class env k = Inr ()"
    by (auto simp: delete_one_def)
  from delete_one_result [OF one] consider
      "db' = db" "query_db_obj db k r = Inr None"
    | row where "query_db_obj db k r = Inr (Some row)" "db' = store_delete k row db"
    | row st db2 where "query_db_obj db k r = Inr (Some row)" "delete_row env AciStatus st db = Inr db2" "db' = store_delete k row db2"
    by blast
  then have "query_db_obj db' k r = Inr None \<and> (c = kname k \<or> c = ''AciStatus'' \<or> rows_of c db' = rows_of c db)"
  proof cases
    case 3
    from delete_row_result [OF 3(2)] have d2: "db2 = db \<or> (\<exists>row'. db2 = store_delete AciStatus row' db)" by blast
    have "query_db_obj (store_delete k row db2) k r = Inr None"
    proof -
      from 3(1) obtain i where i: "extract_id k r = Inr i" by (auto simp: query_db_obj_def)
      then have "row_id k row = map (Some \<circ> snd) i"
        using 3(1) query_db_obj_first [OF i, of db] first_row_Some by auto
      with first_row_store_delete [of k row db2] show ?thesis
        by (simp add: query_db_obj_first [OF i])
    qed
    moreover have "c = kname k \<or> c = ''AciStatus'' \<or> rows_of c (store_delete k row db2) = rows_of c db"
      using d2 by (cases "c = ''AciStatus''"; cases "c = kname k") (auto simp: rows_of_store_delete)
    ultimately show ?thesis using 3(3) by simp
  qed (use rows_of_store_delete in \<open>auto simp: query_after_delete\<close>)
  with v show ?thesis by (simp add: aim_get_def)
qed

text \<open>C28. The status of a deleted ACI object is deleted with it; a monitored object whose status is pending is
  refused with \<open>InvalidMonitoredObjectDelete\<close> unless \<open>force\<close> is given.\<close>

theorem delete_with_status:
  assumes aci: "is_aci k" and k: "klass_of env (kname k) \<noteq> None" "klass_of env ''AciStatus'' \<noteq> None"
    and q: "query_db_obj db k r = Inr (Some row)" and gs: "get_status env k r False db = Inr (Some (st, fs), db)"
    and del: "aim_delete env k r force False db = res"
  shows "if json_truth (opt_json row ''monitored'') \<and> \<not> force \<and> get_attr_or st ''sync_status'' JNull = JStr SYNC_PENDING
    then res = Inl InvalidMonitoredObjectDelete
    else (case res of Inl _ \<Rightarrow> True | Inr db' \<Rightarrow> aim_get env db' AciStatus st False = Inr None)"
proof -
  have v: "validate_resource_class env k = Inr ()" "validate_resource_class env AciStatus = Inr ()"
    using k by (auto simp: validate_resource_class_def)
  let ?guard = "json_truth (opt_json row ''monitored'') \<and> \<not> force \<and> get_attr_or st ''sync_status'' JNull = JStr SYNC_PENDING"
  show ?thesis
  proof (cases ?guard)
    case True
    with del v aci q gs show ?thesis
      by (auto simp: aim_delete_def delete_one_def)
  next
    case False
    have "aim_get env db' AciStatus st False = Inr None" if "res = Inr db'" for db'
    proof -
      have one: "delete_one env k r force db = Inr db'"
        using del that by (auto simp: aim_delete_def)
      from delete_one_result [OF one] q gs aci obtain db2 where d: "delete_row env AciStatus st db = Inr db2" "db' = store_delete k row db2"
        by auto
      then have "query_db_obj db' AciStatus st = Inr None"
        using delete_row_result query_none_delete by blast
      with v show ?thesis by (simp add: aim_get_def)
    qed
    with False show ?thesis by (auto split: sum.split)
  qed
qed

section \<open>Instances\<close>

lemma sample_db_ok: "sync_ok sample_db"
  by code_simp

lemma storable_bd: "storable BridgeDomain"
  by (simp add: storable_def BridgeDomain_def attributes_def)



theorem delete_then_get_witness:
  "\<exists>db'. aim_delete small_env BridgeDomain sample_bd False False sample_db = Inr db'
     \<and> aim_get small_env db' BridgeDomain sample_bd False = Inr None \<and> rows_of ''Tenant'' db' = rows_of ''Tenant'' sample_db"
proof -
  have "is_ok (aim_delete small_env BridgeDomain sample_bd False False sample_db)"
    by code_simp
  then obtain db' where r: "aim_delete small_env BridgeDomain sample_bd False False sample_db = Inr db'"
    by (cases "aim_delete small_env BridgeDomain sample_bd False False sample_db") auto
  from delete_then_get [OF r, of False "''Tenant''"] r show ?thesis
    by (auto simp: BridgeDomain_def)
qed


theorem delete_with_status_witness:
  "\<exists>st fs db'. get_status small_env BridgeDomain sample_bd False sample_db = Inr (Some (st, fs), sample_db)
     \<and> aim_delete small_env BridgeDomain sample_bd False False sample_db = Inr db'
     \<and> aim_get small_env db' AciStatus st False = Inr None"
proof -
  have "is_ok (aim_delete small_env BridgeDomain sample_bd False False sample_db)"
    by code_simp
  then obtain db' where r: "aim_delete small_env BridgeDomain sample_bd False False sample_db = Inr db'"
    by (cases "aim_delete small_env BridgeDomain sample_bd False False sample_db") auto
  have "case get_status small_env BridgeDomain sample_bd False sample_db of Inr (Some _, _) \<Rightarrow> True | _ \<Rightarrow> False"
    by code_simp
  then obtain st fs where gs: "get_status small_env BridgeDomain sample_bd False sample_db = Inr (Some (st, fs), sample_db)"
    using get_status_no_create by (fastforce split: sum.split_asm prod.split_asm option.split_asm)
  have "case query_db_obj sample_db BridgeDomain sample_bd of Inr (Some row) \<Rightarrow> opt_json row ''monitored'' = JBool False | _ \<Rightarrow> False"
    by code_simp
  then obtain row where q: "query_db_obj sample_db BridgeDomain sample_bd = Inr (Some row)" "opt_json row ''monitored'' = JBool False"
    by (auto split: sum.split_asm option.split_asm)
  have "is_aci BridgeDomain" "klass_of small_env (kname BridgeDomain) \<noteq> None" "klass_of small_env ''AciStatus'' \<noteq> None"
    by (simp_all add: small_env_def klass_of_def BridgeDomain_def Tenant_def Subnet_def AciStatus_def)
  from delete_with_status [OF this q(1) gs r] q(2) r gs show ?thesis by auto
qed

end
