(* ===== verification/Tree_Manager.thy ===== *)
theory Tree_Manager
  imports Hash_Tree_Props
begin

text \<open>
  \<open>TreeManager\<close> of \<open>aim/tree_manager.py\<close>: the persistent hash trees. The database holds a base row
  per root (with the flag that requests a reset) and, per root, one row for each of the three kinds of
  tree with the printed tree and its root hash. The functions between trees and roots
  (\<open>root_rn_funct\<close>, \<open>root_key_funct\<close>) are parameters. An operation that raises leaves the database as
  it was; locks are left out.
\<close>

datatype tree_type = ConfigT | OperationalT | MonitoredT

record tree_row =
  row_hash :: "string option"
  row_tree :: string

record tree_db =
  bases :: "(string, bool) dict"
  config_rows :: "(string, tree_row) dict"
  operational_rows :: "(string, tree_row) dict"
  monitored_rows :: "(string, tree_row) dict"

definition SUPPORTED_TREES :: "tree_type list" where
  "SUPPORTED_TREES = [ConfigT, OperationalT, MonitoredT]"

fun rows :: "tree_type \<Rightarrow> tree_db \<Rightarrow> (string, tree_row) dict" where
  "rows ConfigT db = config_rows db"
| "rows OperationalT db = operational_rows db"
| "rows MonitoredT db = monitored_rows db"

fun set_rows :: "tree_type \<Rightarrow> (string, tree_row) dict \<Rightarrow> tree_db \<Rightarrow> tree_db" where
  "set_rows ConfigT d db = db\<lparr>config_rows := d\<rparr>"
| "set_rows OperationalT d db = db\<lparr>operational_rows := d\<rparr>"
| "set_rows MonitoredT d db = db\<lparr>monitored_rows := d\<rparr>"

type_synonym rn_funct = "tree \<Rightarrow> string result"
type_synonym key_funct = "string \<Rightarrow> key option"

section \<open>Helpers\<close>

definition tree_row_of :: "hash_fun \<Rightarrow> tree \<Rightarrow> tree_row" where
  "tree_row_of H t = \<lparr>row_hash = root_full_hash H t, row_tree = tree_str t\<rparr>"

text \<open>\<open>root_full_hash or 'none'\<close>\<close>

definition or_none :: "tree_row \<Rightarrow> tree_row" where
  "or_none r = r\<lparr>row_hash := or_str (row_hash r) (Some ''none'')\<rparr>"

definition create_base_if_not_exist :: "string \<Rightarrow> tree_db \<Rightarrow> tree_db" where
  "create_base_if_not_exist rn db =
     (if dict_get (bases db) rn = None then db\<lparr>bases := dict_set rn False (bases db)\<rparr> else db)"

definition create_if_not_exist :: "tree_type \<Rightarrow> string \<Rightarrow> tree_row \<Rightarrow> tree_db \<Rightarrow> tree_db" where
  "create_if_not_exist ty rn r db =
     (if dict_get (rows ty db) rn = None then set_rows ty (dict_set rn r (rows ty db)) db else db)"

definition delete_if_exist :: "key_funct \<Rightarrow> tree_type \<Rightarrow> string \<Rightarrow> bool \<Rightarrow> tree_db \<Rightarrow> tree_db result" where
  "delete_if_exist rkf ty rn if_empty db =
     (case dict_get (rows ty db) rn of
        None \<Rightarrow> Inr db
      | Some r \<Rightarrow>
          if if_empty then
            bind_res (from_string (row_tree r) (rkf rn) False) (\<lambda>t.
              if root t \<noteq> None then Inl (HashTreeNotEmpty rn)
              else Inr (set_rows ty (dict_del rn (rows ty db)) db))
          else Inr (set_rows ty (dict_del rn (rows ty db)) db))"

section \<open>Updates\<close>

text \<open>\<open>{root_rn_funct(x): x for x in hash_trees}\<close>: a later tree of a root replaces an earlier one.\<close>

fun trees_by_root :: "rn_funct \<Rightarrow> tree list \<Rightarrow> (string, tree) dict \<Rightarrow> (string, tree) dict result" where
  "trees_by_root rnf [] d = Inr d"
| "trees_by_root rnf (t # ts) d = bind_res (rnf t) (\<lambda>rn. trees_by_root rnf ts (dict_set rn t d))"

text \<open>The trees that have a row already, then the creation of the others.\<close>

definition update_existing :: "hash_fun \<Rightarrow> (string, tree) dict \<Rightarrow> (string, tree_row) dict \<Rightarrow> (string, tree_row) dict" where
  "update_existing H trees d =
     map (\<lambda>(rn, r). (rn, case dict_get trees rn of None \<Rightarrow> r | Some t \<Rightarrow> tree_row_of H t)) d"

definition create_rows :: "hash_fun \<Rightarrow> tree_type \<Rightarrow> string \<times> tree \<Rightarrow> tree_db \<Rightarrow> tree_db" where
  "create_rows H ty = (\<lambda>(rn, t) db.
     foldl (\<lambda>d ty'. create_if_not_exist ty' rn
              (or_none (if ty' = ty then tree_row_of H t else tree_row_of H empty_tree)) d)
       (create_base_if_not_exist rn db) SUPPORTED_TREES)"

definition update_bulk :: "hash_fun \<Rightarrow> rn_funct \<Rightarrow> tree list \<Rightarrow> tree_type \<Rightarrow> tree_db \<Rightarrow> tree_db result" where
  "update_bulk H rnf ts ty db =
     bind_res (trees_by_root rnf ts []) (\<lambda>trees.
       let known = map fst (rows ty db);
           db1 = set_rows ty (update_existing H trees (rows ty db)) db
       in Inr (fold (create_rows H ty) (filter (\<lambda>(rn, _). rn \<notin> set known) trees) db1))"

definition tree_update :: "hash_fun \<Rightarrow> rn_funct \<Rightarrow> tree \<Rightarrow> tree_type \<Rightarrow> tree_db \<Rightarrow> tree_db result" where
  "tree_update H rnf t ty db = update_bulk H rnf [t] ty db"

definition get_base_tree :: "string \<Rightarrow> tree_db \<Rightarrow> bool option" where
  "get_base_tree rn db = dict_get (bases db) rn"

definition drop_roots :: "(string \<Rightarrow> bool) \<Rightarrow> (string, 'v) dict \<Rightarrow> (string, 'v) dict" where
  "drop_roots P d = filter (\<lambda>(rn, _). \<not> P rn) d"

definition drop_everywhere :: "(string \<Rightarrow> bool) \<Rightarrow> tree_db \<Rightarrow> tree_db" where
  "drop_everywhere P db =
     (let db1 = foldl (\<lambda>d ty. set_rows ty (drop_roots P (rows ty d)) d) db SUPPORTED_TREES
      in db1\<lparr>bases := drop_roots P (bases db1)\<rparr>)"

definition delete_bulk :: "rn_funct \<Rightarrow> tree list \<Rightarrow> tree_db \<Rightarrow> tree_db result" where
  "delete_bulk rnf ts db =
     bind_res (traverse_res rnf ts) (\<lambda>rns. Inr (drop_everywhere (\<lambda>rn. rn \<in> set rns) db))"

definition tree_delete :: "rn_funct \<Rightarrow> tree \<Rightarrow> tree_db \<Rightarrow> tree_db result" where
  "tree_delete rnf t db = delete_bulk rnf [t] db"

definition trees_delete_all :: "tree_db \<Rightarrow> tree_db" where
  "trees_delete_all db = drop_everywhere (\<lambda>_. True) db"

text \<open>\<open>delete_by_root_rn\<close>: a tree that is not empty rolls the deletion back.\<close>

fun delete_types :: "key_funct \<Rightarrow> tree_type list \<Rightarrow> string \<Rightarrow> bool \<Rightarrow> tree_db \<Rightarrow> tree_db result" where
  "delete_types rkf [] rn if_empty db = Inr db"
| "delete_types rkf (ty # tys) rn if_empty db =
     bind_res (delete_if_exist rkf ty rn if_empty db) (delete_types rkf tys rn if_empty)"

definition delete_by_root_rn :: "key_funct \<Rightarrow> string \<Rightarrow> bool \<Rightarrow> tree_db \<Rightarrow> tree_db result" where
  "delete_by_root_rn rkf rn if_empty db =
     (case delete_types rkf SUPPORTED_TREES rn if_empty (db\<lparr>bases := dict_del rn (bases db)\<rparr>) of
        Inl (HashTreeNotEmpty _) \<Rightarrow> Inr db
      | r \<Rightarrow> r)"

definition clean_row :: "tree_row \<Rightarrow> tree_row" where
  "clean_row r = r\<lparr>row_tree := tree_str empty_tree\<rparr>"

definition map_root :: "(string \<Rightarrow> bool) \<Rightarrow> ('v \<Rightarrow> 'v) \<Rightarrow> (string, 'v) dict \<Rightarrow> (string, 'v) dict" where
  "map_root P f d = map (\<lambda>(rn, v). (rn, if P rn then f v else v)) d"

definition clean_where :: "(string \<Rightarrow> bool) \<Rightarrow> tree_db \<Rightarrow> tree_db" where
  "clean_where P db =
     (let db1 = foldl (\<lambda>d ty. set_rows ty (map_root P clean_row (rows ty d)) d) db SUPPORTED_TREES
      in db1\<lparr>bases := map_root P (\<lambda>_. False) (bases db1)\<rparr>)"

definition clean_by_root_rn :: "string \<Rightarrow> tree_db \<Rightarrow> tree_db" where
  "clean_by_root_rn rn db = clean_where (\<lambda>x. x = rn) db"

definition clean_all :: "tree_db \<Rightarrow> tree_db" where
  "clean_all db = clean_where (\<lambda>_. True) db"

definition set_needs_reset_by_root_rn :: "string \<Rightarrow> bool \<Rightarrow> tree_db \<Rightarrow> tree_db" where
  "set_needs_reset_by_root_rn rn b db = db\<lparr>bases := map_root (\<lambda>x. x = rn) (\<lambda>_. b) (bases db)\<rparr>"

section \<open>Queries\<close>

definition tree_get :: "key_funct \<Rightarrow> string \<Rightarrow> tree_type \<Rightarrow> tree_db \<Rightarrow> tree result" where
  "tree_get rkf rn ty db =
     (case dict_get (rows ty db) rn of
        None \<Rightarrow> Inl (HashTreeNotFound rn)
      | Some r \<Rightarrow> from_string (row_tree r) (rkf rn) False)"

definition tree_find_rows :: "key_funct \<Rightarrow> string list option \<Rightarrow> tree_type \<Rightarrow> tree_db \<Rightarrow> tree list result" where
  "tree_find_rows rkf rns ty db =
     traverse_res (\<lambda>(rn, r). from_string (row_tree r) (rkf rn) False)
       (filter (\<lambda>(rn, _). case rns of None \<Rightarrow> True | Some l \<Rightarrow> rn \<in> set l) (rows ty db))"

text \<open>
  \<open>find_changed\<close>: the rows of the given roots whose hash is in none of the known ones; a root without a
  known hash adds none to the list. SQL's \<open>NOT IN\<close> holds of any row for an empty list, and is not
  true of a missing hash otherwise.
\<close>

definition known_hashes :: "(string, string option) dict \<Rightarrow> string list" where
  "known_hashes root_map = concat (map (\<lambda>(_, h). case h of None \<Rightarrow> [] | Some x \<Rightarrow> [x]) root_map)"

definition hash_changed :: "(string, string option) dict \<Rightarrow> tree_row \<Rightarrow> bool" where
  "hash_changed root_map r \<longleftrightarrow> known_hashes root_map = []
     \<or> (case row_hash r of None \<Rightarrow> False | Some h \<Rightarrow> h \<notin> set (known_hashes root_map))"

definition changed_rows :: "(string, string option) dict \<Rightarrow> tree_type \<Rightarrow> tree_db \<Rightarrow> (string, tree_row) dict" where
  "changed_rows root_map ty db =
     filter (\<lambda>(rn, r). rn \<in> set (map fst root_map) \<and> hash_changed root_map r) (rows ty db)"

definition find_changed :: "key_funct \<Rightarrow> (string, string option) dict \<Rightarrow> tree_type \<Rightarrow> tree_db \<Rightarrow> (string, tree) dict result" where
  "find_changed rkf root_map ty db =
     (if root_map = [] then Inr []
      else traverse_res (\<lambda>(rn, r). bind_res (from_string (row_tree r) (rkf rn) False) (\<lambda>t. Inr (rn, t)))
             (changed_rows root_map ty db))"

definition get_roots :: "tree_db \<Rightarrow> string list" where
  "get_roots db = map fst (bases db)"

end
