(* ===== verification/Tree_Manager_Props.thy ===== *)
theory Tree_Manager_Props
  imports Tree_Manager
begin

text \<open>
  The persistent hash trees: every root has a base row and a row of each kind, whatever operations are
  run; what is stored is read back; which roots \<open>find_changed\<close> reports.
\<close>

section \<open>Rows after an operation\<close>

lemma rows_set_rows [simp]: "rows ty (set_rows ty' d db) = (if ty = ty' then d else rows ty db)"
  by (cases ty; cases ty') auto

lemma bases_set_rows [simp]: "bases (set_rows ty d db) = bases db"
  by (cases ty) auto

lemma rows_bases [simp]: "rows ty (db\<lparr>bases := b\<rparr>) = rows ty db"
  by (cases ty) auto

lemma supported: "ty \<in> set SUPPORTED_TREES"
  by (cases ty) (auto simp: SUPPORTED_TREES_def)

lemma dict_get_map: "dict_get (map (\<lambda>(k, v). (k, f k v)) d) k = map_option (f k) (dict_get d k)"
  by (induction d) auto

lemma dict_get_filter: "dict_get (filter (\<lambda>(k, _). P k) d) k = (if P k then dict_get d k else None)"
  by (induction d) auto

lemma drop_roots_get: "dict_get (drop_roots P d) k = (if P k then None else dict_get d k)"
  using dict_get_filter [of "\<lambda>k. \<not> P k" d k] by (simp add: drop_roots_def)

lemma map_root_get: "dict_get (map_root P f d) k = map_option (if P k then f else (\<lambda>v. v)) (dict_get d k)"
  using dict_get_map [of "\<lambda>k v. if P k then f v else v" d k] by (simp add: map_root_def)

lemma update_existing_get:
  "dict_get (update_existing H trees d) k = map_option (\<lambda>r. case dict_get trees k of None \<Rightarrow> r | Some t \<Rightarrow> tree_row_of H t) (dict_get d k)"
  unfolding update_existing_def by (rule dict_get_map)

lemma create_get:
  "dict_get (bases (create_base_if_not_exist rn db)) k =
     (if k = rn \<and> dict_get (bases db) rn = None then Some False else dict_get (bases db) k)"
  "rows ty (create_base_if_not_exist rn db) = rows ty db"
  "bases (create_if_not_exist ty rn r db) = bases db"
  "dict_get (rows ty' (create_if_not_exist ty rn r db)) k =
     (if ty' = ty \<and> k = rn \<and> dict_get (rows ty db) rn = None then Some r else dict_get (rows ty' db) k)"
  by (auto simp: create_base_if_not_exist_def create_if_not_exist_def dict_simps)

lemma create_rows_get:
  "dict_get (bases (create_rows H ty (rn, t) db)) k =
     (if k = rn \<and> dict_get (bases db) rn = None then Some False else dict_get (bases db) k)"
  "dict_get (rows ty' (create_rows H ty (rn, t) db)) k =
     (if k = rn \<and> dict_get (rows ty' db) rn = None
      then Some (or_none (if ty' = ty then tree_row_of H t else tree_row_of H empty_tree))
      else dict_get (rows ty' db) k)"
proof -
  let ?r = "\<lambda>ty'. or_none (if ty' = ty then tree_row_of H t else tree_row_of H empty_tree)"
  have eq: "create_rows H ty (rn, t) db = create_if_not_exist MonitoredT rn (?r MonitoredT)
      (create_if_not_exist OperationalT rn (?r OperationalT)
        (create_if_not_exist ConfigT rn (?r ConfigT) (create_base_if_not_exist rn db)))"
    by (simp add: create_rows_def SUPPORTED_TREES_def)
  show "dict_get (bases (create_rows H ty (rn, t) db)) k =
     (if k = rn \<and> dict_get (bases db) rn = None then Some False else dict_get (bases db) k)"
    unfolding eq create_get ..
  show "dict_get (rows ty' (create_rows H ty (rn, t) db)) k =
     (if k = rn \<and> dict_get (rows ty' db) rn = None
      then Some (or_none (if ty' = ty then tree_row_of H t else tree_row_of H empty_tree))
      else dict_get (rows ty' db) k)"
    unfolding eq create_get by (cases ty') simp_all
qed

lemma drop_everywhere_get:
  "dict_get (bases (drop_everywhere P db)) k = (if P k then None else dict_get (bases db) k)"
  "dict_get (rows ty (drop_everywhere P db)) k = (if P k then None else dict_get (rows ty db) k)"
  by (cases ty; simp add: drop_everywhere_def SUPPORTED_TREES_def drop_roots_get)+

lemma clean_where_get:
  "dict_get (bases (clean_where P db)) k = map_option (if P k then (\<lambda>_. False) else (\<lambda>v. v)) (dict_get (bases db) k)"
  "dict_get (rows ty (clean_where P db)) k = map_option (if P k then clean_row else (\<lambda>v. v)) (dict_get (rows ty db) k)"
  by (cases ty; simp add: clean_where_def SUPPORTED_TREES_def map_root_get)+

section \<open>Roots\<close>

definition same_roots :: "tree_db \<Rightarrow> bool" where
  "same_roots db \<longleftrightarrow> (\<forall>ty rn. dict_get (rows ty db) rn = None \<longleftrightarrow> dict_get (bases db) rn = None)"

lemma same_roots_create: "same_roots db \<Longrightarrow> same_roots (create_rows H ty p db)"
  by (cases p) (auto simp: same_roots_def create_rows_get)

lemma same_roots_update_bulk:
  assumes "update_bulk H rnf ts ty db = Inr db'" "same_roots db"
  shows "same_roots db'"
proof -
  obtain trees where db': "db' = fold (create_rows H ty) (filter (\<lambda>(rn, _). rn \<notin> set (map fst (rows ty db))) trees)
      (set_rows ty (update_existing H trees (rows ty db)) db)"
    using assms(1) by (auto simp: update_bulk_def Let_def)
  have "same_roots (set_rows ty (update_existing H trees (rows ty db)) db)"
    using assms(2) by (auto simp: same_roots_def update_existing_get)
  moreover have "same_roots d \<Longrightarrow> same_roots (fold (create_rows H ty) ps d)" for ps d
    by (induction ps arbitrary: d) (auto simp: same_roots_create)
  ultimately show ?thesis unfolding db' by blast
qed

lemma delete_if_exist_get:
  assumes "delete_if_exist rkf ty rn ie db = Inr db'"
  shows "bases db' = bases db \<and> (\<forall>ty' k. dict_get (rows ty' db') k = (if ty' = ty \<and> k = rn then None else dict_get (rows ty' db) k))"
  using assms by (auto simp: delete_if_exist_def dict_simps split: option.split_asm if_split_asm)

lemma delete_types_get:
  assumes "delete_types rkf tys rn ie db = Inr db'"
  shows "bases db' = bases db \<and> (\<forall>ty' k. dict_get (rows ty' db') k = (if ty' \<in> set tys \<and> k = rn then None else dict_get (rows ty' db) k))"
  using assms
proof (induction tys arbitrary: db)
  case (Cons ty tys)
  then obtain d where d: "delete_if_exist rkf ty rn ie db = Inr d" "delete_types rkf tys rn ie d = Inr db'"
    by auto
  with Cons.IH [OF d(2)] delete_if_exist_get [OF d(1)] show ?case by auto
qed simp

lemma delete_by_root_rn_get:
  assumes "delete_by_root_rn rkf rn ie db = Inr db'"
  shows "db' = db \<or> ((\<forall>k. dict_get (bases db') k = (if k = rn then None else dict_get (bases db) k))
    \<and> (\<forall>ty k. dict_get (rows ty db') k = (if k = rn then None else dict_get (rows ty db) k)))"
proof (cases "delete_types rkf SUPPORTED_TREES rn ie (db\<lparr>bases := dict_del rn (bases db)\<rparr>)")
  case (Inl e)
  with assms show ?thesis by (auto simp: delete_by_root_rn_def split: exc.split_asm)
next
  case (Inr d)
  with assms have "d = db'" by (simp add: delete_by_root_rn_def)
  with delete_types_get [OF Inr] show ?thesis by (auto simp: supported dict_simps)
qed

text \<open>The operations of the manager as steps, and the databases they reach from the empty one.\<close>

definition no_trees :: tree_db where
  "no_trees = \<lparr>bases = [], config_rows = [], operational_rows = [], monitored_rows = []\<rparr>"

inductive tree_reachable :: "hash_fun \<Rightarrow> rn_funct \<Rightarrow> key_funct \<Rightarrow> tree_db \<Rightarrow> bool"
  for H rnf rkf where
  initial: "tree_reachable H rnf rkf no_trees"
| update: "tree_reachable H rnf rkf db \<Longrightarrow> update_bulk H rnf ts ty db = Inr db' \<Longrightarrow> tree_reachable H rnf rkf db'"
| delete: "tree_reachable H rnf rkf db \<Longrightarrow> delete_bulk rnf ts db = Inr db' \<Longrightarrow> tree_reachable H rnf rkf db'"
| delete_all: "tree_reachable H rnf rkf db \<Longrightarrow> tree_reachable H rnf rkf (trees_delete_all db)"
| delete_root: "tree_reachable H rnf rkf db \<Longrightarrow> delete_by_root_rn rkf rn ie db = Inr db' \<Longrightarrow> tree_reachable H rnf rkf db'"
| clean_root: "tree_reachable H rnf rkf db \<Longrightarrow> tree_reachable H rnf rkf (clean_by_root_rn rn db)"
| clean: "tree_reachable H rnf rkf db \<Longrightarrow> tree_reachable H rnf rkf (clean_all db)"
| reset: "tree_reachable H rnf rkf db \<Longrightarrow> tree_reachable H rnf rkf (set_needs_reset_by_root_rn rn b db)"

lemma reachable_same_roots: "tree_reachable H rnf rkf db \<Longrightarrow> same_roots db"
proof (induction rule: tree_reachable.induct)
  case initial
  show ?case
    unfolding same_roots_def by (rule allI, case_tac ty) (simp_all add: no_trees_def)
next
  case (update db ts ty db')
  then show ?case using same_roots_update_bulk by blast
next
  case (delete db ts db')
  then show ?case by (auto simp: delete_bulk_def same_roots_def drop_everywhere_get)
next
  case (delete_root db rn ie db')
  then show ?case using delete_by_root_rn_get [OF delete_root.hyps(2)] by (auto simp: same_roots_def)
qed (auto simp: trees_delete_all_def same_roots_def drop_everywhere_get clean_by_root_rn_def clean_all_def
    clean_where_get set_needs_reset_by_root_rn_def map_root_get)

text \<open>C24. Whatever operations have been run, the four tables list the same roots: a tree of any kind can be
  read for a root exactly when \<open>get_roots\<close> lists it, and is reported missing otherwise.\<close>

theorem get_finds_listed_roots:
  assumes "tree_reachable H rnf rkf db"
  shows "(rn \<in> set (get_roots db) \<longleftrightarrow> dict_get (rows ty db) rn \<noteq> None)
    \<and> (rn \<notin> set (get_roots db) \<longleftrightarrow> tree_get rkf rn ty db = Inl (HashTreeNotFound rn) \<and> dict_get (rows ty db) rn = None)"
proof -
  have "dict_get (rows ty db) rn = None \<longleftrightarrow> dict_get (bases db) rn = None"
    using reachable_same_roots [OF assms] by (simp add: same_roots_def)
  moreover have "rn \<in> set (get_roots db) \<longleftrightarrow> dict_get (bases db) rn \<noteq> None"
    by (simp add: get_roots_def map_of_eq_None_iff)
  ultimately show ?thesis
    by (auto simp: tree_get_def)
qed

section \<open>Stored trees\<close>

definition root_of_key :: rn_funct where
  "root_of_key t = (case root_key t of Some (p # _) \<Rightarrow> Inr p | _ \<Rightarrow> Inl TypeError)"

definition key_of_root :: key_funct where
  "key_of_root rn = Some [rn]"

text \<open>C29. A tree that has been stored is read back with its nodes, hashes and metadata; trees of other roots
  and kinds that were there are not touched.\<close>

theorem update_then_get:
  assumes pr: "\<And>r. root t = Some r \<Longrightarrow> printable r" and rn: "rnf t = Inr rn"
  shows "\<exists>db'. tree_update H rnf t ty db = Inr db' \<and> tree_get rkf rn ty db' = Inr (new_tree (root t) (rkf rn) False)
    \<and> ((rn', ty') = (rn, ty) \<or> dict_get (rows ty' db) rn' = None \<or> dict_get (rows ty' db') rn' = dict_get (rows ty' db) rn')"
proof -
  define d1 where "d1 = set_rows ty (update_existing H [(rn, t)] (rows ty db)) db"
  define db' where "db' = fold (create_rows H ty) (filter (\<lambda>(rn, _). rn \<notin> set (map fst (rows ty db))) [(rn, t)]) d1"
  have upd: "tree_update H rnf t ty db = Inr db'"
    using rn by (simp add: tree_update_def update_bulk_def db'_def d1_def Let_def)
  have get: "\<exists>r. dict_get (rows ty db') rn = Some r \<and> row_tree r = tree_str t"
  proof (cases "dict_get (rows ty db) rn")
    case None
    then have "rn \<notin> fst ` set (rows ty db)"
      by (simp add: map_of_eq_None_iff)
    then have "db' = create_rows H ty (rn, t) d1"
      by (simp add: db'_def)
    with None show ?thesis
      by (simp add: create_rows_get d1_def update_existing_get or_none_def tree_row_of_def)
  next
    case (Some r)
    then have "rn \<in> set (map fst (rows ty db))"
      by (metis list.set_map map_of_eq_None_iff option.discI)
    then have "db' = d1" by (simp add: db'_def)
    with Some show ?thesis
      by (simp add: d1_def update_existing_get tree_row_of_def)
  qed
  have other: "dict_get (rows ty' db') rn' = dict_get (rows ty' db) rn'"
    if "(rn', ty') \<noteq> (rn, ty)" "dict_get (rows ty' db) rn' \<noteq> None"
  proof -
    have 1: "dict_get (rows ty' d1) rn' = dict_get (rows ty' db) rn'"
      using that by (auto simp: d1_def update_existing_get)
    then show ?thesis
      using that by (auto simp: db'_def create_rows_get)
  qed
  have "tree_get rkf rn ty db' = Inr (new_tree (root t) (rkf rn) False)"
    using get from_string_str [OF pr] by (auto simp: tree_get_def)
  with upd show ?thesis
    using other by (intro exI [of _ db']) fast
qed

section \<open>Changed trees\<close>


text \<open>\<open>clean_by_root_rn\<close> empties the stored trees of a root but leaves their hashes: a reader that knows
  the hash of the tree before is not told by \<open>find_changed\<close> that it is gone.\<close>

theorem clean_keeps_hash:
  assumes "dict_get (rows ty db) rn = Some r" "row_hash r = Some h" "dict_ok (rows ty db)"
  shows "tree_get rkf rn ty (clean_by_root_rn rn db) = Inr (new_tree None (rkf rn) False)
    \<and> find_changed rkf [(rn, Some h)] ty (clean_by_root_rn rn db) = Inr []"
proof -
  have "from_string (tree_str empty_tree) (rkf rn) False = Inr (new_tree None (rkf rn) False)"
    using from_string_str [of empty_tree] by (simp add: new_tree_def)
  then have "tree_get rkf rn ty (clean_by_root_rn rn db) = Inr (new_tree None (rkf rn) False)"
    using assms(1) by (simp add: tree_get_def clean_by_root_rn_def clean_where_get clean_row_def)
  moreover have "changed_rows [(rn, Some h)] ty (clean_by_root_rn rn db) = []"
  proof -
    have rows: "rows ty (clean_by_root_rn rn db) = map_root (\<lambda>x. x = rn) clean_row (rows ty db)"
      by (cases ty) (simp_all add: clean_by_root_rn_def clean_where_def SUPPORTED_TREES_def)
    have "r' = r" if "(rn, r') \<in> set (rows ty db)" for r'
      using that assms(1,3) by (simp add: dict_ok_def)
    with assms(2) show ?thesis
      by (auto simp: changed_rows_def hash_changed_def known_hashes_def rows map_root_def clean_row_def filter_empty_conv)
  qed
  ultimately show ?thesis by (simp add: find_changed_def)
qed

section \<open>Instances\<close>

definition leaf_tree :: tree where
  "leaf_tree = new_tree None (Some [''a'']) True"

definition sample_trees :: tree_db where
  "sample_trees = (case update_bulk toy_hash root_of_key [leaf_tree] ConfigT no_trees of Inr d \<Rightarrow> d | Inl _ \<Rightarrow> no_trees)"

lemma sample_trees_stored: "update_bulk toy_hash root_of_key [leaf_tree] ConfigT no_trees = Inr sample_trees"
proof -
  have "is_ok (update_bulk toy_hash root_of_key [leaf_tree] ConfigT no_trees)" by code_simp
  then show ?thesis
    by (auto simp: sample_trees_def split: sum.split)
qed

theorem get_finds_listed_roots_witness:
  "''a'' \<in> set (get_roots sample_trees) \<and> tree_get key_of_root ''b'' MonitoredT sample_trees = Inl (HashTreeNotFound ''b'')"
proof -
  have "tree_reachable toy_hash root_of_key key_of_root sample_trees"
    by (rule tree_reachable.update [OF tree_reachable.initial sample_trees_stored])
  note g = get_finds_listed_roots [OF this]
  have "''a'' \<in> set (get_roots sample_trees)" "''b'' \<notin> set (get_roots sample_trees)" by code_simp+
  with g show ?thesis by blast
qed

theorem update_then_get_witness:
  "\<exists>db'. tree_update toy_hash root_of_key tree2 MonitoredT sample_trees = Inr db'
     \<and> tree_get key_of_root ''a'' MonitoredT db' = Inr (new_tree (root tree2) (Some [''a'']) False)
     \<and> dict_get (rows ConfigT db') ''a'' = dict_get (rows ConfigT sample_trees) ''a''"
proof -
  have pr: "printable r" if "root tree2 = Some r" for r
  proof -
    have "printable (the (root tree2))" by code_simp
    with that show ?thesis by simp
  qed
  have rn: "root_of_key tree2 = Inr ''a''" by code_simp
  have "dict_get (rows ConfigT sample_trees) ''a'' \<noteq> None" by code_simp
  with update_then_get [where rnf = root_of_key and rkf = key_of_root and H = toy_hash and ty = MonitoredT
      and ty' = ConfigT and rn' = "''a''" and db = sample_trees, OF pr rn]
  show ?thesis by (auto simp: key_of_root_def)
qed


theorem clean_keeps_hash_witness:
  "\<exists>h. tree_get key_of_root ''a'' ConfigT (clean_by_root_rn ''a'' sample_trees) = Inr (new_tree None (Some [''a'']) False)
     \<and> find_changed key_of_root [(''a'', Some h)] ConfigT (clean_by_root_rn ''a'' sample_trees) = Inr []"
proof -
  have "case dict_get (rows ConfigT sample_trees) ''a'' of Some r \<Rightarrow> row_hash r \<noteq> None | None \<Rightarrow> False"
    by code_simp
  then obtain r h where "dict_get (rows ConfigT sample_trees) ''a'' = Some r" "row_hash r = Some h"
    by (auto split: option.split_asm)
  moreover have "dict_ok (rows ConfigT sample_trees)" by code_simp
  ultimately show ?thesis
    using clean_keeps_hash [of ConfigT sample_trees "''a''" r h key_of_root] by (auto simp: key_of_root_def)
qed

end
