(* ===== verification/Converter_Base.thy ===== *)
theory Converter_Base
  imports Aim_Manager Aim_Utils
begin

text \<open>
  \<open>aim/agent/aid/universes/aci/converters/utils.py\<close>: the building blocks of the conversion between AIM
  objects and ACI objects.

  A function of the code with a \<open>to_aim\<close> flag is two functions here, one per direction, because the
  two directions work on different kinds of results. The functions stored in the tables of rules are
  constructors of datatypes (\<open>attr_conv\<close>, \<open>id_conv\<close>, \<open>to_resource\<close>, \<open>converter\<close>) with the function
  that applies each; \<open>conv_env\<close> holds what the conversions use of \<open>apicapi\<close> and of the configuration.
\<close>

abbreviation InvalidNameFormat :: exc where
  "InvalidNameFormat \<equiv> OtherError ''InvalidNameFormat''"

record conv_env =
  cv_env :: env
  cv_dn :: "string \<Rightarrow> json list \<Rightarrow> string result"
  cv_decompose :: "string \<Rightarrow> string \<Rightarrow> (string \<times> string) list result"
  cv_filter_rns :: "(string \<times> string) list \<Rightarrow> string list"
  cv_no_useg :: bool

abbreviation cv_conf :: "conv_env \<Rightarrow> conf" where
  "cv_conf cv \<equiv> conf (cv_env cv)"

section \<open>Rules\<close>

datatype attr_conv =
    Boolean
  | Upper
  | IntegerStr
  | MappedAttribute "(string, string) dict"
  | PortWithSsh
  | DnDecomposer "string list" string
  | RedirectHealthGroupIp

record attr_rule =
  a_other :: "string option"
  a_converter :: "attr_conv option"
  a_default :: "json option"
  a_skip_if_empty :: bool

type_synonym mapping = "(string, attr_rule) dict"

datatype id_conv = FaultIdentity | VlanNsVmmIdentity | BgpAsIdentity

datatype to_resource = Strict | FilterContainer | FaultInstResource

datatype converter =
    ChildList string string "string option"
  | ContractRs "string option"
  | ListDict string mapping "string list" "string list"
  | TdnRs "string list" string
  | FvRsDomAtt
  | FvRsPathAtt
  | QosRsIngress
  | QosRsEgress
  | QosEpDscpMarking
  | QosRsReq
  | MasterEpg
  | NextHop
  | L3extIp
  | L3extMember
  | BgpExtp
  | SubnetConverter
  | ContractConverter
  | HostprotPol
  | HostprotSubj
  | HostprotRule
  | RsRemoteIpContainer
  | RemoteIp
  | DeviceClusterConverter
  | DeviceClusterContextConverter
  | ServiceGraphConverter

text \<open>One rule of a table: \<open>resource\<close> is a class in the table for ACI types, an ACI type in the
  reversed one.\<close>

record 'r rule =
  resource :: 'r
  exceptions :: mapping
  identity_converter :: "id_conv option"
  converter :: "converter option"
  to_res :: "to_resource option"
  convert_pre_existing :: "bool option"
  convert_monitored :: "bool option"
  skip :: "string list"

text \<open>What a conversion to ACI yields: an ACI object, its type with its attributes, or another AIM
  object, to be converted in turn.\<close>

datatype item = Aci string kwargs | Aim obj

section \<open>Attribute names\<close>

definition getitem :: "kwargs \<Rightarrow> string \<Rightarrow> json result" where
  "getitem d a = (case dict_get d a of Some v \<Rightarrow> Inr v | None \<Rightarrow> Inl KeyError)"

definition getor :: "kwargs \<Rightarrow> string \<Rightarrow> json" where
  "getor d a = dict_getd d a JNull"

abbreviation has :: "kwargs \<Rightarrow> string \<Rightarrow> bool" where
  "has d a \<equiv> json_truth (getor d a)"

definition attribute_to_aim :: "string \<Rightarrow> string" where
  "attribute_to_aim a = concat (map (\<lambda>x. (if is_upper x then ''_'' else []) @ [to_lower x]) a)"

fun camel_parts :: "string list \<Rightarrow> string result" where
  "camel_parts [] = Inr []"
| "camel_parts ([] # ps) = Inl IndexError"
| "camel_parts ((c # p) # ps) = bind_res (camel_parts ps) (\<lambda>r. Inr (to_upper c # p @ r))"

definition attribute_to_aci :: "string \<Rightarrow> string result" where
  "attribute_to_aci a = (case py_split (CHR ''_'') a of
      [] \<Rightarrow> Inr [] | p # ps \<Rightarrow> bind_res (camel_parts ps) (\<lambda>r. Inr (p @ r)))"

section \<open>Attribute values\<close>

fun boolean_to_aim :: "json \<Rightarrow> json result" where
  "boolean_to_aim (JBool True) = Inr (JBool True)"
| "boolean_to_aim (JStr s) = Inr (JBool (lower s = ''yes''))"
| "boolean_to_aim _ = Inl AttributeError"

definition boolean_to_aci :: "json \<Rightarrow> json" where
  "boolean_to_aci v = JStr (if v = JBool True then ''yes'' else ''no'')"

fun json_upper :: "json \<Rightarrow> json result" where
  "json_upper (JStr s) = Inr (JStr (map to_upper s))"
| "json_upper _ = Inl AttributeError"

definition mapped_to_aci :: "(string, string) dict \<Rightarrow> json \<Rightarrow> json" where
  "mapped_to_aci table v = JStr (dict_getd table (py_str v) (py_str v))"

text \<open>\<open>port_with_ssh\<close> also stores the port it returns in the object it reads; nothing else reads that
  attribute afterwards but this function, which returns the same again.\<close>

definition port_attributes :: "string list" where
  "port_attributes = [''fromPort'', ''toPort'', ''sFromPort'', ''sToPort'', ''dFromPort'', ''dToPort'']"

definition ssh_port :: "string \<Rightarrow> json \<Rightarrow> json" where
  "ssh_port a v = (if a \<in> set port_attributes \<and> v = JStr ''ssh'' then JStr ''22'' else v)"

definition rns_of :: "conv_env \<Rightarrow> string \<Rightarrow> json \<Rightarrow> string list result" where
  "rns_of cv mo dn = bind_res (cv_decompose cv (py_str dn) mo) (\<lambda>mr. Inr (cv_filter_rns cv mr))"

definition dn_decomposer_to_aim :: "conv_env \<Rightarrow> string list \<Rightarrow> string \<Rightarrow> kwargs \<Rightarrow> string \<Rightarrow> json result" where
  "dn_decomposer_to_aim cv attrs mo d a =
     (if has d a then bind_res (rns_of cv mo (getor d a)) (\<lambda>rns. Inr (JObj (dict_update [] (zip attrs (map JStr rns)))))
      else Inr (JObj []))"

text \<open>The values of the attributes that make up a name, \<open>object_dict[a]\<close> where it is set.\<close>

definition present_attrs :: "kwargs \<Rightarrow> string list \<Rightarrow> json list" where
  "present_attrs d attrs = concat (map (\<lambda>a. if has d a then [getor d a] else []) attrs)"

definition dn_decomposer_to_aci :: "conv_env \<Rightarrow> string list \<Rightarrow> string \<Rightarrow> kwargs \<Rightarrow> json result" where
  "dn_decomposer_to_aci cv attrs mo d =
     (let vs = present_attrs d attrs in
      if length vs = length attrs then bind_res (cv_dn cv mo vs) (\<lambda>s. Inr (JStr s)) else Inr (JStr []))"

text \<open>\<open>IGNORE\<close>, an object no attribute name equals.\<close>

definition IGNORE :: string where "IGNORE = [CHR 0x00]"

definition last_rn :: "string list \<Rightarrow> json result" where
  "last_rn rns = (if rns = [] then Inl IndexError else Inr (JStr (last rns)))"

fun attr_to_aim :: "conv_env \<Rightarrow> attr_conv option \<Rightarrow> kwargs \<Rightarrow> string \<Rightarrow> json result" where
  "attr_to_aim cv None d a = getitem d a"
| "attr_to_aim cv (Some Boolean) d a = bind_res (getitem d a) boolean_to_aim"
| "attr_to_aim cv (Some Upper) d a = bind_res (getitem d a) json_upper"
| "attr_to_aim cv (Some IntegerStr) d a = bind_res (getitem d a) (\<lambda>v. bind_res (json_to_int v) (\<lambda>i. Inr (JInt i)))"
| "attr_to_aim cv (Some (MappedAttribute table)) d a = getitem d a"
| "attr_to_aim cv (Some PortWithSsh) d a = bind_res (getitem d a) (\<lambda>v. Inr (ssh_port a v))"
| "attr_to_aim cv (Some (DnDecomposer attrs mo)) d a = dn_decomposer_to_aim cv attrs mo d a"
| "attr_to_aim cv (Some RedirectHealthGroupIp) d a =
     bind_res (getitem d ''dn'') (\<lambda>dn. bind_res (rns_of cv ''vnsRsRedirectHealthGroup'' dn) last_rn)"

fun attr_to_aci :: "conv_env \<Rightarrow> attr_conv option \<Rightarrow> kwargs \<Rightarrow> string \<Rightarrow> json result" where
  "attr_to_aci cv None d a = getitem d a"
| "attr_to_aci cv (Some Boolean) d a = bind_res (getitem d a) (\<lambda>v. Inr (boolean_to_aci v))"
| "attr_to_aci cv (Some Upper) d a = bind_res (getitem d a) json_upper"
| "attr_to_aci cv (Some IntegerStr) d a = bind_res (getitem d a) (\<lambda>v. Inr (JStr (py_str v)))"
| "attr_to_aci cv (Some (MappedAttribute table)) d a = bind_res (getitem d a) (\<lambda>v. Inr (mapped_to_aci table v))"
| "attr_to_aci cv (Some PortWithSsh) d a =
     bind_res (getitem d a) (\<lambda>v. Inr (mapped_to_aci t_ports_table (ssh_port a v)))"
| "attr_to_aci cv (Some (DnDecomposer attrs mo)) d a = dn_decomposer_to_aci cv attrs mo d"
| "attr_to_aci cv (Some RedirectHealthGroupIp) d a = bind_res (getitem d a) (\<lambda>v. Inr (JObj [(IGNORE, v)]))"

text \<open>\<open>do_attribute_conversion\<close>: the default name is computed even when the rule gives one.\<close>

definition others_of :: "string \<Rightarrow> json \<Rightarrow> kwargs" where
  "others_of name v = (case v of JObj kvs \<Rightarrow> kvs | _ \<Rightarrow> [(name, v)])"

definition other_name :: "attr_rule \<Rightarrow> string \<Rightarrow> string" where
  "other_name r dflt = (case a_other r of Some s \<Rightarrow> s | None \<Rightarrow> dflt)"

definition attribute_conversion_to_aim :: "conv_env \<Rightarrow> kwargs \<Rightarrow> string \<Rightarrow> mapping \<Rightarrow> kwargs result" where
  "attribute_conversion_to_aim cv d a mapping =
     (case dict_get mapping a of
        Some r \<Rightarrow> bind_res (attr_to_aim cv (a_converter r) d a) (\<lambda>v.
          Inr (others_of (other_name r (attribute_to_aim a)) v))
      | None \<Rightarrow> Inr (others_of (attribute_to_aim a) (getor d a)))"

definition attribute_conversion_to_aci :: "conv_env \<Rightarrow> kwargs \<Rightarrow> string \<Rightarrow> mapping \<Rightarrow> kwargs result" where
  "attribute_conversion_to_aci cv d a mapping =
     bind_res (attribute_to_aci a) (\<lambda>name.
       case dict_get mapping a of
         Some r \<Rightarrow> bind_res (attr_to_aci cv (a_converter r) d a) (\<lambda>v. Inr (others_of (other_name r name) v))
       | None \<Rightarrow> Inr (others_of name (getor d a)))"

section \<open>Resources\<close>

definition default_to_aim :: "conv_env \<Rightarrow> klass rule \<Rightarrow> kwargs \<Rightarrow> obj result" where
  "default_to_aim cv h converted =
     make_obj (cv_conf cv) (resource h)
       ((''_set_default'', JBool False) #
        filter (\<lambda>(k, v). k \<in> set (attributes (resource h)) \<and> k \<notin> set (skip h)) converted)"

definition default_skip :: "string list" where
  "default_skip = [''preExisting'', ''monitored'', ''Error'', ''Pending'', ''InjectedAimId'', ''sync'', ''epoch'']"

definition default_to_aci :: "string rule \<Rightarrow> kwargs \<Rightarrow> item" where
  "default_to_aci h converted =
     Aci (resource h) (filter (\<lambda>(k, _). k \<notin> set (default_skip @ skip h)) converted)"

definition strict_value :: "kwargs \<Rightarrow> string \<times> attr_rule \<Rightarrow> kwargs" where
  "strict_value converted = (\<lambda>(k, r).
     let attr = (case a_other r of Some s \<Rightarrow> if s = [] then k else s | None \<Rightarrow> k);
         v = getor converted attr
     in if json_truth v \<or> (v \<noteq> JNull \<and> \<not> a_skip_if_empty r) then [(attr, v)] else [])"

definition strict_to_aci :: "string rule \<Rightarrow> kwargs \<Rightarrow> item option result" where
  "strict_to_aci h converted =
     (let values = dict_update [] (concat (map (strict_value converted) (exceptions h))) in
      if values = [] then Inr None
      else bind_res (getitem converted ''dn'') (\<lambda>dn. Inr (Some (Aci (resource h) (dict_set ''dn'' dn values)))))"

text \<open>\<open>to_resource_filter_container\<close> and \<open>fault_inst_to_resource\<close> of \<open>converter.py\<close>.\<close>

definition filter_container_to_aci :: "string rule \<Rightarrow> kwargs \<Rightarrow> item option result" where
  "filter_container_to_aci h converted =
     (if resource h = ''vzInTerm'' \<and> (has converted ''inFilters'' \<or> has converted ''inServiceGraphName'')
        \<or> resource h = ''vzOutTerm'' \<and> (has converted ''outFilters'' \<or> has converted ''outServiceGraphName'')
      then bind_res (getitem converted ''dn'') (\<lambda>dn. Inr (Some (Aci (resource h) [(''dn'', dn)])))
      else Inr None)"

definition fault_to_aci :: "string rule \<Rightarrow> kwargs \<Rightarrow> item option result" where
  "fault_to_aci h converted =
     (case default_to_aci h converted of
        Aci mo attrs \<Rightarrow>
          let attrs' = filter (\<lambda>(k, _). k \<notin> {''statusId'', ''lastUpdateTimestamp'', ''lifecycleStatus''}) attrs in
          bind_res (getitem attrs' ''dn'') (\<lambda>dn.
            Inr (Some (Aci mo (dict_set ''code'' (JStr (drop (length ''fault-'') (last (py_split (CHR ''/'') (py_str dn))))) attrs'))))
      | Aim _ \<Rightarrow> Inr None)"

text \<open>To AIM every one of them is the default.\<close>

fun resource_to_aci :: "to_resource option \<Rightarrow> string rule \<Rightarrow> kwargs \<Rightarrow> item option result" where
  "resource_to_aci None h converted = Inr (Some (default_to_aci h converted))"
| "resource_to_aci (Some Strict) h converted = strict_to_aci h converted"
| "resource_to_aci (Some FilterContainer) h converted = filter_container_to_aci h converted"
| "resource_to_aci (Some FaultInstResource) h converted = fault_to_aci h converted"

definition list_of_item :: "item option \<Rightarrow> item list" where
  "list_of_item i = (case i of None \<Rightarrow> [] | Some x \<Rightarrow> [x])"

section \<open>Identities\<close>

definition default_identity_to_aim :: "conv_env \<Rightarrow> kwargs \<Rightarrow> string \<Rightarrow> json list result" where
  "default_identity_to_aim cv d mo =
     bind_res (getitem d ''dn'') (\<lambda>dn. bind_res (rns_of cv mo dn) (\<lambda>rns. Inr (map JStr rns)))"

definition default_identity_to_aci :: "conv_env \<Rightarrow> kwargs \<Rightarrow> klass \<Rightarrow> json list \<Rightarrow> string \<Rightarrow> json result" where
  "default_identity_to_aci cv d k extra mo =
     bind_res (traverse_res (getitem d) (map fst (identity_attributes k))) (\<lambda>ids.
     bind_res (cv_dn cv mo (ids @ extra)) (\<lambda>dn. Inr (JStr dn)))"

text \<open>\<open>fault_identity_converter\<close>, \<open>infraRsVlan_vmm_id_converter\<close> and \<open>bgp_as_id_converter\<close> of
  \<open>converter.py\<close>.\<close>

fun identity_to_aim :: "conv_env \<Rightarrow> id_conv option \<Rightarrow> kwargs \<Rightarrow> string \<Rightarrow> json list result" where
  "identity_to_aim cv None d mo = default_identity_to_aim cv d mo"
| "identity_to_aim cv (Some FaultIdentity) d mo =
     bind_res (getitem d ''code'') (\<lambda>c. bind_res (getitem d ''dn'') (\<lambda>dn. Inr [c, dn]))"
| "identity_to_aim cv (Some VlanNsVmmIdentity) d mo = default_identity_to_aim cv d ''infraRsVlanNs__vmm''"
| "identity_to_aim cv (Some BgpAsIdentity) d mo = default_identity_to_aim cv d ''bgpAsP__Peer''"

fun identity_to_aci :: "conv_env \<Rightarrow> id_conv option \<Rightarrow> kwargs \<Rightarrow> klass \<Rightarrow> string \<Rightarrow> json result" where
  "identity_to_aci cv None d k mo = default_identity_to_aci cv d k [] mo"
| "identity_to_aci cv (Some FaultIdentity) d k mo = getitem d ''external_identifier''"
| "identity_to_aci cv (Some VlanNsVmmIdentity) d k mo = default_identity_to_aci cv d k [] ''infraRsVlanNs__vmm''"
| "identity_to_aci cv (Some BgpAsIdentity) d k mo = default_identity_to_aci cv d k [] ''bgpAsP__Peer''"

text \<open>\<open>for index, attr in enumerate(attributes): res_dict[attr] = id[index]\<close>\<close>

definition zip_identity :: "string list \<Rightarrow> json list \<Rightarrow> kwargs result" where
  "zip_identity attrs ids = (if length ids < length attrs then Inl IndexError else Inr (zip attrs ids))"

definition id_names :: "klass \<Rightarrow> string list" where
  "id_names k = map fst (identity_attributes k)"

section \<open>The default converter\<close>

text \<open>The attributes of an object but those of its identity, converted one after the other.\<close>

definition add_others :: "string list \<Rightarrow> kwargs \<Rightarrow> kwargs \<Rightarrow> kwargs" where
  "add_others dest others res = dict_update res (filter (\<lambda>(k, _). k \<notin> set dest) others)"

definition convert_attributes ::
  "(string \<Rightarrow> kwargs result) \<Rightarrow> string list \<Rightarrow> string list \<Rightarrow> string list \<Rightarrow> kwargs \<Rightarrow> kwargs result" where
  "convert_attributes conv names source dest res =
     fold_res (\<lambda>a r. if a \<in> set source then Inr r else bind_res (conv a) (\<lambda>others. Inr (add_others dest others r)))
       names res"

definition default_body_to_aim :: "conv_env \<Rightarrow> klass rule \<Rightarrow> kwargs \<Rightarrow> json list \<Rightarrow> string list \<Rightarrow> obj result" where
  "default_body_to_aim cv h d ids dest =
     bind_res (zip_identity dest ids) (\<lambda>res.
     bind_res (convert_attributes (\<lambda>a. attribute_conversion_to_aim cv d a (exceptions h)) (dict_keys d) [''dn''] dest res)
       (default_to_aim cv h))"

definition default_converter_to_aim :: "conv_env \<Rightarrow> klass rule \<Rightarrow> string \<Rightarrow> kwargs \<Rightarrow> obj list result" where
  "default_converter_to_aim cv h otype d =
     bind_res (identity_to_aim cv (identity_converter h) d otype) (\<lambda>ids.
     bind_res (default_body_to_aim cv h d ids (id_names (resource h))) (\<lambda>r. Inr [r]))"

definition convert_attributes_to_aci :: "conv_env \<Rightarrow> string rule \<Rightarrow> klass \<Rightarrow> kwargs \<Rightarrow> json \<Rightarrow> kwargs result" where
  "convert_attributes_to_aci cv h k d dn =
     convert_attributes (\<lambda>a. attribute_conversion_to_aci cv d a (exceptions h)) (dict_keys d) (id_names k) [''dn'']
       [(''dn'', dn)]"

definition default_converter_to_aci :: "conv_env \<Rightarrow> string rule \<Rightarrow> klass \<Rightarrow> kwargs \<Rightarrow> item list result" where
  "default_converter_to_aci cv h k d =
     bind_res (identity_to_aci cv (identity_converter h) d k (resource h)) (\<lambda>dn.
     bind_res (convert_attributes_to_aci cv h k d dn) (\<lambda>converted.
     bind_res (resource_to_aci (to_res h) h converted) (\<lambda>i. Inr (list_of_item i))))"

end
