(* ===== verification/Converter_Lists.thy ===== *)
theory Converter_Lists
  imports Converter_Base
begin

text \<open>
  The converters that \<open>converters/utils.py\<close> builds from parameters: \<open>child_list\<close>, \<open>contract_rs\<close>,
  \<open>list_dict\<close> and \<open>tdn_rs_converter\<close>. To AIM, each yields a partial object with the identity of the
  parent and one attribute; to ACI, one object per element of the attribute.
\<close>

section \<open>Shared steps\<close>

text \<open>\<open>except InvalidNameFormat: return []\<close>\<close>

definition unless_bad_name :: "json list result \<Rightarrow> (json list \<Rightarrow> obj list result) \<Rightarrow> obj list result" where
  "unless_bad_name m f = (case m of
      Inl e \<Rightarrow> if e = InvalidNameFormat then Inr [] else Inl e | Inr ids \<Rightarrow> f ids)"

text \<open>The object with a given identity and some attributes.\<close>

definition partial_obj :: "conv_env \<Rightarrow> klass rule \<Rightarrow> json list \<Rightarrow> kwargs \<Rightarrow> obj list result" where
  "partial_obj cv h ids attrs =
     bind_res (zip_identity (id_names (resource h)) ids) (\<lambda>res.
     bind_res (default_to_aim cv h (dict_update res attrs)) (\<lambda>r. Inr [r]))"

definition type_or :: "string option \<Rightarrow> string \<Rightarrow> string" where
  "type_or o' t = (case o' of Some s \<Rightarrow> s | None \<Rightarrow> t)"

text \<open>An identity converter with extra attributes; only the default one takes them.\<close>

definition child_dn :: "conv_env \<Rightarrow> string rule \<Rightarrow> klass \<Rightarrow> kwargs \<Rightarrow> json list \<Rightarrow> string \<Rightarrow> json result" where
  "child_dn cv h k d extra mo = (case identity_converter h of
      None \<Rightarrow> default_identity_to_aci cv d k extra mo | Some _ \<Rightarrow> Inl TypeError)"

fun json_list :: "json \<Rightarrow> json list result" where
  "json_list (JList xs) = Inr xs"
| "json_list (JStr s) = Inr (map (\<lambda>c. JStr [c]) s)"
| "json_list (JObj kvs) = Inr (map (\<lambda>(k, _). JStr k) kvs)"
| "json_list _ = Inl TypeError"

section \<open>child_list and contract_rs\<close>

definition child_list_to_aim ::
  "conv_env \<Rightarrow> string \<Rightarrow> string \<Rightarrow> string option \<Rightarrow> klass rule \<Rightarrow> string \<Rightarrow> kwargs \<Rightarrow> obj list result" where
  "child_list_to_aim cv aim_attr aci_attr aci_mo h otype d =
     unless_bad_name (identity_to_aim cv (identity_converter h) d (type_or aci_mo otype)) (\<lambda>ids.
       partial_obj cv h ids (if has d aci_attr then [(aim_attr, JList [getor d aci_attr])] else []))"

definition child_list_to_aci ::
  "conv_env \<Rightarrow> string \<Rightarrow> string \<Rightarrow> string option \<Rightarrow> string rule \<Rightarrow> klass \<Rightarrow> kwargs \<Rightarrow> item list result" where
  "child_list_to_aci cv aim_attr aci_attr aci_mo h k d =
     (let mo = type_or aci_mo (resource h) in
      bind_res (getitem d aim_attr) (\<lambda>v.
      bind_res (json_list v) (\<lambda>cs.
        traverse_res (\<lambda>c. bind_res (child_dn cv h k d [c] mo) (\<lambda>dn.
          Inr (Aci mo (dict_set aci_attr c [(''dn'', dn)])))) cs)))"

definition contract_rs_to_aim :: "conv_env \<Rightarrow> string option \<Rightarrow> klass rule \<Rightarrow> string \<Rightarrow> kwargs \<Rightarrow> obj list result" where
  "contract_rs_to_aim cv aci_mo h otype d =
     unless_bad_name (default_identity_to_aim cv d (type_or aci_mo otype)) (\<lambda>ids. partial_obj cv h ids [])"

definition contract_rs_to_aci :: "conv_env \<Rightarrow> string option \<Rightarrow> string rule \<Rightarrow> klass \<Rightarrow> kwargs \<Rightarrow> item list result" where
  "contract_rs_to_aci cv aci_mo h k d =
     bind_res (default_identity_to_aci cv d k [] (type_or aci_mo (resource h))) (\<lambda>dn.
       Inr [Aci (resource h) [(''dn'', dn)]])"

section \<open>list_dict\<close>

definition reverse_attr_rule :: "string \<Rightarrow> attr_rule \<Rightarrow> attr_rule" where
  "reverse_attr_rule exception r =
     \<lparr>a_other = Some exception, a_converter = a_converter r, a_default = None, a_skip_if_empty = a_skip_if_empty r\<rparr>"

text \<open>\<open>reverse_attribute_mapping_info\<close>, from ACI names to AIM names and the other way round.\<close>

definition reverse_mapping_to_aim :: "mapping \<Rightarrow> mapping" where
  "reverse_mapping_to_aim m =
     dict_update [] (map (\<lambda>(e, r). (other_name r (attribute_to_aim e), reverse_attr_rule e r)) m)"

definition reverse_mapping_to_aci :: "mapping \<Rightarrow> mapping result" where
  "reverse_mapping_to_aci m =
     bind_res (traverse_res (\<lambda>(e, r). bind_res (attribute_to_aci e) (\<lambda>n.
       Inr (other_name r n, reverse_attr_rule e r))) m) (\<lambda>kvs. Inr (dict_update [] kvs))"

definition list_item_to_aim :: "conv_env \<Rightarrow> mapping \<Rightarrow> kwargs \<Rightarrow> kwargs result" where
  "list_item_to_aim cv rmap d =
     fold_res (\<lambda>(aci_attr, _) item.
       if dict_get d aci_attr = None then Inr item
       else bind_res (attribute_conversion_to_aim cv d aci_attr rmap) (\<lambda>others.
         Inr (dict_update item (dict_del IGNORE others)))) rmap []"

text \<open>The item with its \<open>_converter_id\<close>, the tuple of its identifying values.\<close>

definition with_converter_id :: "string list \<Rightarrow> kwargs \<Rightarrow> kwargs" where
  "with_converter_id id_attr item =
     (if list_all (\<lambda>a. dict_get item a \<noteq> None) id_attr
      then dict_set ''_converter_id'' (JList (map (getor item) (sort id_attr))) item else item)"

definition list_dict_to_aim ::
  "conv_env \<Rightarrow> string \<Rightarrow> mapping \<Rightarrow> string list \<Rightarrow> klass rule \<Rightarrow> string \<Rightarrow> kwargs \<Rightarrow> obj list result" where
  "list_dict_to_aim cv aim_attr mapping id_attr h otype d =
     unless_bad_name (identity_to_aim cv (identity_converter h) d otype) (\<lambda>ids.
       bind_res (zip_identity (id_names (resource h)) ids) (\<lambda>_.
       bind_res (reverse_mapping_to_aci mapping) (\<lambda>rmap.
       bind_res (list_item_to_aim cv rmap d) (\<lambda>item.
         partial_obj cv h ids [(aim_attr, JList [JObj (with_converter_id id_attr item)])]))))"

text \<open>
  The required attributes are looked at in the order of the item: the loop ends at the first one that
  is empty, and the item is left out unless all of them were seen.
\<close>

fun missing_required :: "string list \<Rightarrow> kwargs \<Rightarrow> string list" where
  "missing_required req [] = req"
| "missing_required req ((k, v) # kvs) =
     (if k \<in> set req \<and> \<not> json_truth v then req else missing_required (removeAll k req) kvs)"

definition with_defaults :: "mapping \<Rightarrow> kwargs \<Rightarrow> kwargs" where
  "with_defaults mapping item =
     fold (\<lambda>(a, r) it. case a_default r of
         Some v \<Rightarrow> if dict_get it a = None then dict_set a v it else it | None \<Rightarrow> it) mapping item"

definition id_values :: "conv_env \<Rightarrow> mapping \<Rightarrow> string list \<Rightarrow> kwargs \<Rightarrow> json list result" where
  "id_values cv mapping id_attr item =
     bind_res (traverse_res (\<lambda>a.
       if dict_get item a = None then Inr []
       else bind_res (attribute_conversion_to_aci cv item a mapping) (\<lambda>conv.
         Inr (case conv of [] \<Rightarrow> [] | (_, v) # _ \<Rightarrow> [v]))) id_attr) (\<lambda>vs. Inr (concat vs))"

definition list_item_to_aci :: "conv_env \<Rightarrow> mapping \<Rightarrow> kwargs \<Rightarrow> json \<Rightarrow> kwargs result" where
  "list_item_to_aci cv mapping item dn =
     fold_res (\<lambda>(a, _) aci_obj.
       if dict_get item a = None then Inr aci_obj
       else bind_res (attribute_conversion_to_aci cv item a mapping) (\<lambda>others.
         Inr (dict_update aci_obj (dict_del IGNORE others)))) mapping [(''dn'', dn)]"

definition list_dict_item ::
  "conv_env \<Rightarrow> mapping \<Rightarrow> string list \<Rightarrow> string list \<Rightarrow> string rule \<Rightarrow> klass \<Rightarrow> kwargs \<Rightarrow> json \<Rightarrow> item list result" where
  "list_dict_item cv mapping id_attr requires h k d v =
     (case v of
        JObj kvs \<Rightarrow>
          if missing_required requires kvs \<noteq> [] then Inr []
          else let item = with_defaults mapping kvs in
            bind_res (id_values cv mapping id_attr item) (\<lambda>extra.
              if length extra \<noteq> length id_attr then Inr []
              else bind_res (child_dn cv h k d extra (resource h)) (\<lambda>dn.
                   bind_res (list_item_to_aci cv mapping item dn) (\<lambda>aci_obj. Inr [Aci (resource h) aci_obj])))
      | _ \<Rightarrow> Inl AttributeError)"

definition list_dict_to_aci ::
  "conv_env \<Rightarrow> string \<Rightarrow> mapping \<Rightarrow> string list \<Rightarrow> string list \<Rightarrow> string rule \<Rightarrow> klass \<Rightarrow> kwargs \<Rightarrow> item list result" where
  "list_dict_to_aci cv aim_attr mapping id_attr requires h k d =
     bind_res (getitem d aim_attr) (\<lambda>v.
     bind_res (json_list v) (\<lambda>items.
     bind_res (traverse_res (list_dict_item cv mapping id_attr requires h k d) items) (\<lambda>iss. Inr (concat iss))))"

section \<open>tdn_rs_converter\<close>

definition tdn_rs_to_aim :: "conv_env \<Rightarrow> string list \<Rightarrow> string \<Rightarrow> klass rule \<Rightarrow> string \<Rightarrow> kwargs \<Rightarrow> obj list result" where
  "tdn_rs_to_aim cv attrs mo h otype d =
     unless_bad_name (default_identity_to_aim cv d otype) (\<lambda>ids.
       bind_res (zip_identity (id_names (resource h)) ids) (\<lambda>_.
       if has d ''tDn'' then
         bind_res (rns_of cv mo (getor d ''tDn'')) (\<lambda>rns. partial_obj cv h ids (zip attrs (map JStr rns)))
       else partial_obj cv h ids []))"

definition tdn_rs_to_aci :: "conv_env \<Rightarrow> string list \<Rightarrow> string \<Rightarrow> string rule \<Rightarrow> klass \<Rightarrow> kwargs \<Rightarrow> item list result" where
  "tdn_rs_to_aci cv attrs mo h k d =
     bind_res (default_identity_to_aci cv d k [] (resource h)) (\<lambda>dn.
       let vs = present_attrs d attrs in
       if length vs = length attrs then
         bind_res (cv_dn cv mo vs) (\<lambda>tdn. Inr [Aci (resource h) [(''dn'', dn), (''tDn'', JStr tdn)]])
       else Inr [])"

end
