(* ===== verification/Converter_Tables.thy ===== *)
theory Converter_Tables
  imports Converter_Lists
begin

text \<open>
  The tables of rules: \<open>resource_map\<close> of \<open>converter.py\<close> and \<open>converters/service_graph.py\<close>, from ACI
  types to classes, and \<open>reverse_resource_map\<close>, computed from it as the module does. The fields of a
  rule the table leaves out are \<open>None\<close> or empty (\<open>rule_for\<close>); \<open>skip_for_managed\<close> and \<open>alt_resource\<close> are
  read by other modules only.
\<close>

definition rule_for :: "klass \<Rightarrow> klass rule" where
  "rule_for k = \<lparr>resource = k, exceptions = [], identity_converter = None, converter = None, to_res = None,
     convert_pre_existing = None, convert_monitored = None, skip = []\<rparr>"

definition renamed :: "string \<Rightarrow> attr_rule" where
  "renamed s = \<lparr>a_other = Some s, a_converter = None, a_default = None, a_skip_if_empty = False\<rparr>"

definition via :: "string option \<Rightarrow> attr_conv \<Rightarrow> attr_rule" where
  "via s c = \<lparr>a_other = s, a_converter = Some c, a_default = None, a_skip_if_empty = False\<rparr>"

section \<open>From ACI types to classes\<close>

definition networks_map :: "(string, klass rule list) dict" where
  "networks_map =
    [(''fvBD'', [(rule_for BridgeDomain)\<lparr>exceptions := [(''arpFlood'',
        via (Some ''enable_arp_flood'') Boolean),
        (''unicastRoute'', via (Some ''enable_routing'') Boolean),
        (''limitIpLearnToSubnets'', via None Boolean),
        (''unkMacUcastAct'', renamed ''l2_unknown_unicast_mode''),
        (''ipLearning'', via None Boolean)],
       skip := [''vrf_name'', ''l3out_names'']\<rparr>]),
     (''fvRsCtx'', [(rule_for BridgeDomain)\<lparr>exceptions := [(''tnFvCtxName'', renamed ''vrf_name'')],
       to_res := Some Strict\<rparr>]),
     (''fvRsBDToOut'',
         [(rule_for BridgeDomain)\<lparr>converter := Some (ChildList ''l3out_names'' ''tnL3extOutName'' None)\<rparr>]),
     (''fvTenant'', [rule_for Tenant]),
     (''fvSubnet'', [(rule_for Subnet)\<lparr>converter := Some SubnetConverter\<rparr>]),
     (''fvSubnet__epg'', [rule_for EPGSubnet]),
     (''fvCtx'', [(rule_for VRF)\<lparr>exceptions := [(''pcEnfPref'',
         renamed ''policy_enforcement_pref'')]\<rparr>]),
     (''fvAp'', [rule_for ApplicationProfile]),
     (''fvAEPg'', [(rule_for EndpointGroup)\<lparr>exceptions := [(''pcEnfPref'',
         renamed ''policy_enforcement_pref'')],
       skip := [''bd_name'', ''provided_contract_names'', ''consumed_contract_names'',
           ''openstack_vmm_domain_names'', ''physical_domain_names'', ''physical_domains'',
           ''vmm_domains'', ''qos_name'', ''epg_contract_masters'']\<rparr>]),
     (''fvRsBd'', [(rule_for EndpointGroup)\<lparr>exceptions := [(''tnFvBDName'', renamed ''bd_name'')],
       to_res := Some Strict\<rparr>]),
     (''faultInst'', [(rule_for AciFault)\<lparr>exceptions := [(''code'', renamed ''fault_code''),
        (''descr'', renamed ''description'')],
       identity_converter := Some FaultIdentity,
       to_res := Some FaultInstResource\<rparr>]),
     (''fvRsProv'',
         [(rule_for EndpointGroup)\<lparr>converter := Some (ChildList ''provided_contract_names'' ''tnVzBrCPName'' None)\<rparr>,
      (rule_for ExternalNetworkProvidedContract)\<lparr>converter := Some (ContractRs (Some ''fvRsProv__Ext'')),
       convert_pre_existing := Some True,
       convert_monitored := Some True\<rparr>]),
     (''fvRsCons'',
         [(rule_for EndpointGroup)\<lparr>converter := Some (ChildList ''consumed_contract_names'' ''tnVzBrCPName'' None)\<rparr>,
      (rule_for ExternalNetworkConsumedContract)\<lparr>converter := Some (ContractRs (Some ''fvRsCons__Ext'')),
       convert_pre_existing := Some True,
       convert_monitored := Some True\<rparr>]),
     (''fvRsDomAtt'', [(rule_for EndpointGroup)\<lparr>converter := Some FvRsDomAtt\<rparr>]),
     (''fvRsSecInherited'', [(rule_for EndpointGroup)\<lparr>converter := Some MasterEpg\<rparr>]),
     (''vzFilter'', [rule_for Filter])]"

definition contracts_map :: "(string, klass rule list) dict" where
  "contracts_map =
    [(''vzEntry'', [(rule_for FilterEntry)\<lparr>exceptions := [(''arpOpc'',
        via (Some ''arp_opcode'') (MappedAttribute t_arp_opcode)),
        (''etherT'', via (Some ''ether_type'') (MappedAttribute t_ether_type)),
        (''prot'', via (Some ''ip_protocol'') (MappedAttribute t_ip_protocol)),
        (''icmpv4T'', via (Some ''icmpv4_type'') (MappedAttribute t_icmpv4_type)),
        (''icmpv6T'', via (Some ''icmpv6_type'') (MappedAttribute t_icmpv6_type)),
        (''sFromPort'', via (Some ''source_from_port'') PortWithSsh),
        (''sToPort'', via (Some ''source_to_port'') PortWithSsh),
        (''dFromPort'', via (Some ''dest_from_port'') PortWithSsh),
        (''dToPort'', via (Some ''dest_to_port'') PortWithSsh),
        (''tcpRules'', via (Some ''tcp_flags'') (MappedAttribute t_tcp_flags)),
        (''stateful'', via None Boolean),
        (''applyToFrag'', via (Some ''fragment_only'') Boolean)]\<rparr>]),
     (''vzBrCP'', [rule_for Contract]),
     (''vzOOBBrCP'', [rule_for OutOfBandContract]),
     (''vzSubj'', [(rule_for ContractSubject)\<lparr>converter := Some ContractConverter,
       skip := [''in_filters'', ''out_filters'', ''bi_filters'', ''service_graph_name'',
           ''in_service_graph_name'', ''out_service_graph_name'']\<rparr>]),
     (''vzSubj__tn'', [(rule_for OutOfBandContractSubject)\<lparr>skip := [''in_filters'',
         ''out_filters'', ''bi_filters'', ''service_graph_name'', ''in_service_graph_name'',
         ''out_service_graph_name'']\<rparr>]),
     (''vzRsSubjFiltAtt'',
         [(rule_for ContractSubject)\<lparr>converter := Some (ChildList ''bi_filters'' ''tnVzFilterName'' None)\<rparr>]),
     (''vzRsSubjGraphAtt'', [(rule_for ContractSubject)\<lparr>exceptions := [(''tnVnsAbsGraphName'',
         \<lparr>a_other = Some ''service_graph_name'', a_converter = None, a_default = None,
         a_skip_if_empty = True\<rparr>)],
       to_res := Some Strict\<rparr>]),
     (''vzRsFiltAtt'',
         [(rule_for ContractSubject)\<lparr>converter := Some (ChildList ''in_filters'' ''tnVzFilterName'' (Some ''vzRsFiltAtt__In''))\<rparr>,
      (rule_for ContractSubject)\<lparr>converter := Some (ChildList ''out_filters'' ''tnVzFilterName'' (Some ''vzRsFiltAtt__Out''))\<rparr>]),
     (''vzInTerm'', [(rule_for ContractSubject)\<lparr>to_res := Some FilterContainer,
       skip := [''display_name'']\<rparr>]),
     (''vzOutTerm'', [(rule_for ContractSubject)\<lparr>to_res := Some FilterContainer,
       skip := [''display_name'']\<rparr>]),
     (''vzRsInTermGraphAtt'', [(rule_for ContractSubject)\<lparr>exceptions := [(''tnVnsAbsGraphName'',
         \<lparr>a_other = Some ''in_service_graph_name'', a_converter = None, a_default = None,
         a_skip_if_empty = True\<rparr>)],
       to_res := Some Strict\<rparr>]),
     (''vzRsOutTermGraphAtt'', [(rule_for ContractSubject)\<lparr>exceptions := [(''tnVnsAbsGraphName'',
         \<lparr>a_other = Some ''out_service_graph_name'', a_converter = None, a_default = None,
         a_skip_if_empty = True\<rparr>)],
       to_res := Some Strict\<rparr>]),
     (''l3extOut'', [(rule_for L3Outside)\<lparr>skip := [''vrf_name'', ''l3_domain_dn'',
         ''bgp_enable'']\<rparr>]),
     (''bgpExtP'', [(rule_for L3Outside)\<lparr>converter := Some BgpExtp\<rparr>]),
     (''l3extRsEctx'', [(rule_for L3Outside)\<lparr>exceptions := [(''tnFvCtxName'', renamed ''vrf_name'')],
       to_res := Some Strict\<rparr>]),
     (''l3extRsL3DomAtt'', [(rule_for L3Outside)\<lparr>exceptions := [(''tDn'', renamed ''l3_domain_dn'')],
       to_res := Some Strict\<rparr>]),
     (''l3extLNodeP'', [rule_for L3OutNodeProfile]),
     (''l3extRsNodeL3OutAtt'', [(rule_for L3OutNode)\<lparr>exceptions := [(''rtrId'',
         renamed ''router_id''),
        (''rtrIdLoopBack'', via (Some ''router_id_loopback'') Boolean)]\<rparr>])]"

definition l3out_map :: "(string, klass rule list) dict" where
  "l3out_map =
    [(''ipRouteP'', [(rule_for L3OutStaticRoute)\<lparr>exceptions := [(''pref'', renamed ''preference'')],
       skip := [''next_hop_list'']\<rparr>]),
     (''ipNexthopP'', [(rule_for L3OutStaticRoute)\<lparr>converter := Some NextHop\<rparr>]),
     (''l3extLIfP'', [rule_for L3OutInterfaceProfile]),
     (''l3extRsPathL3OutAtt'', [(rule_for L3OutInterface)\<lparr>exceptions := [(''ifInstT'',
         renamed ''type''),
        (''addr'', renamed ''primary_addr_a'')],
       skip := [''primary_addr_b'', ''secondary_addr_a_list'', ''secondary_addr_b_list'',
           ''host'']\<rparr>]),
     (''bgpPeerP'', [(rule_for L3OutInterfaceBgpPeerP)\<lparr>skip := [''asn'']\<rparr>]),
     (''bgpAsP'',
         [(rule_for L3OutInterfaceBgpPeerP)\<lparr>identity_converter := Some BgpAsIdentity\<rparr>]),
     (''l3extIp'', [(rule_for L3OutInterface)\<lparr>skip := [''host''],
       converter := Some L3extIp\<rparr>]),
     (''l3extIp__Member'', [(rule_for L3OutInterface)\<lparr>skip := [''host''],
       converter := Some L3extIp\<rparr>]),
     (''l3extMember'', [(rule_for L3OutInterface)\<lparr>skip := [''host''],
       converter := Some L3extMember\<rparr>]),
     (''l3extInstP'', [(rule_for ExternalNetwork)\<lparr>skip := [''nat_epg_dn'',
         ''provided_contract_names'', ''consumed_contract_names'']\<rparr>]),
     (''l3extRsInstPToNatMappingEPg'', [(rule_for ExternalNetwork)\<lparr>exceptions := [(''tDn'',
         renamed ''nat_epg_dn'')],
       to_res := Some Strict\<rparr>]),
     (''l3extSubnet'', [rule_for ExternalSubnet]),
     (''fvRsPathAtt'', [(rule_for EPGStaticPath)\<lparr>converter := Some FvRsPathAtt\<rparr>]),
     (''hostprotPol'', [(rule_for SecurityGroup)\<lparr>converter := Some HostprotPol,
       convert_monitored := Some False\<rparr>,
      (rule_for SystemSecurityGroup)\<lparr>converter := Some HostprotPol\<rparr>]),
     (''hostprotSubj'', [(rule_for SecurityGroupSubject)\<lparr>converter := Some HostprotSubj,
       convert_monitored := Some False\<rparr>,
      (rule_for SystemSecurityGroupSubject)\<lparr>converter := Some HostprotSubj\<rparr>]),
     (''hostprotRule'', [(rule_for SecurityGroupRule)\<lparr>converter := Some HostprotRule,
       convert_monitored := Some False,
       skip := [''remote_ips'', ''remote_group_id'', ''tDn''],
       exceptions := [(''protocol'', via (Some ''ip_protocol'') (MappedAttribute t_ip_protocol)),
        (''fromPort'', via (Some ''from_port'') PortWithSsh),
        (''toPort'', via (Some ''to_port'') PortWithSsh),
        (''ethertype'', via (Some ''ethertype'') (MappedAttribute t_ethertype)),
        (''icmpType'', renamed ''icmp_type''),
        (''icmpCode'', via (Some ''icmp_code'') (MappedAttribute t_icmpv4_code))]\<rparr>,
      (rule_for SystemSecurityGroupRule)\<lparr>converter := Some HostprotRule,
       skip := [''remote_ips''],
       exceptions := [(''protocol'', via (Some ''ip_protocol'') (MappedAttribute t_ip_protocol)),
        (''fromPort'', via (Some ''from_port'') PortWithSsh),
        (''toPort'', via (Some ''to_port'') PortWithSsh),
        (''ethertype'', via (Some ''ethertype'') (MappedAttribute t_ethertype)),
        (''icmpType'', renamed ''icmp_type''),
        (''icmpCode'', via (Some ''icmp_code'') (MappedAttribute t_icmpv4_code))]\<rparr>]),
     (''hostprotRemoteIp'', [(rule_for SecurityGroupRule)\<lparr>converter := Some RemoteIp,
       convert_monitored := Some False\<rparr>,
      (rule_for SystemSecurityGroupRule)\<lparr>converter := Some RemoteIp\<rparr>]),
     (''hostprotRemoteIpContainer'',
         [(rule_for SecurityGroupRemoteIpContainer)\<lparr>convert_monitored := Some False\<rparr>]),
     (''hostprotRsRemoteIpContainer'',
         [(rule_for SecurityGroupRule)\<lparr>converter := Some RsRemoteIpContainer,
       convert_monitored := Some False\<rparr>])]"

definition vmm_map :: "(string, klass rule list) dict" where
  "vmm_map =
    [(''hostprotRemoteIp__cont'',
        [(rule_for SecurityGroupRemoteIp)\<lparr>convert_monitored := Some False\<rparr>]),
     (''opflexODev'', [(rule_for OpflexDevice)\<lparr>exceptions := [(''domName'', renamed ''domain_name''),
        (''ctrlrName'', renamed ''controller_name'')]\<rparr>]),
     (''vmmDomP'', [(rule_for VMMDomain)\<lparr>skip := [''vlan_pool_name'', ''vlan_pool_type'',
         ''mcast_addr_pool_name''],
       exceptions := [(''mcastAddr'', renamed ''mcast_address''),
        (''enfPref'', renamed ''enforcement_pref'')]\<rparr>]),
     (''infraRsVlanNs'', [(rule_for VMMDomain)\<lparr>exceptions := [(''tDn'',
         \<lparr>a_other = Some ''vlan_pool_name'', a_converter = Some (DnDecomposer [''vlan_pool_name'',
         ''vlan_pool_type''] ''fvnsVlanInstP''), a_default = None, a_skip_if_empty = True\<rparr>)],
       identity_converter := Some VlanNsVmmIdentity,
       to_res := Some Strict\<rparr>]),
     (''vmmRsDomMcastAddrNs'', [(rule_for VMMDomain)\<lparr>exceptions := [(''tDn'',
         \<lparr>a_other = Some ''mcast_addr_pool_name'',
         a_converter = Some (DnDecomposer [''mcast_addr_pool_name''] ''fvnsMcastAddrInstP''),
         a_default = None, a_skip_if_empty = True\<rparr>)],
       to_res := Some Strict\<rparr>]),
     (''vmmProvP'', [(rule_for VMMPolicy)\<lparr>skip := [''display_name'', ''name_alias'']\<rparr>]),
     (''physDomP'', [rule_for PhysicalDomain]),
     (''fabricPod'', [rule_for Pod]),
     (''fabricTopology'', [rule_for Topology]),
     (''vmmCtrlrP'', [rule_for VMMController]),
     (''vmmInjectedNs'', [rule_for VmmInjectedNamespace]),
     (''vmmInjectedDepl'', [(rule_for VmmInjectedDeployment)\<lparr>exceptions := [(''replicas'',
         via None IntegerStr)]\<rparr>]),
     (''vmmInjectedReplSet'', [rule_for VmmInjectedReplicaSet]),
     (''vmmInjectedSvc'', [(rule_for VmmInjectedService)\<lparr>skip := [''service_ports'', ''endpoints''],
       exceptions := [(''type'', renamed ''service_type''),
        (''lbIp'', renamed ''load_balancer_ip'')]\<rparr>]),
     (''vmmInjectedSvcPort'',
         [(rule_for VmmInjectedService)\<lparr>converter := Some (ListDict ''service_ports''
       [(''port'', via (Some ''port'') (MappedAttribute t_ports_table)),
        (''protocol'', renamed ''protocol''),
        (''target_port'', renamed ''targetPort''),
        (''node_port'', \<lparr>a_other = Some ''nodePort'',
            a_converter = Some (MappedAttribute t_ports_table), a_default = Some (JStr ''0''),
            a_skip_if_empty = False\<rparr>)]
       [''port'', ''protocol'', ''target_port''] [])\<rparr>]),
     (''vmmInjectedSvcEp'', [(rule_for VmmInjectedService)\<lparr>converter := Some (ListDict ''endpoints''
       [(''pod_name'', renamed ''contGrpName'')]
       [''pod_name''] [])\<rparr>]),
     (''vmmInjectedHost'', [(rule_for VmmInjectedHost)\<lparr>exceptions := [(''kernelVer'',
         renamed ''kernel_version'')]\<rparr>]),
     (''vmmInjectedContGrp'', [rule_for VmmInjectedContGroup]),
     (''infraInfra'', [rule_for Infra]),
     (''netflowVmmExporterPol'', [rule_for NetflowVMMExporterPol])]"

definition qos_span_map :: "(string, klass rule list) dict" where
  "qos_span_map =
    [(''qosRequirement'', [(rule_for QosRequirement)\<lparr>skip := [''dscp'', ''ingress_dpp_pol'',
        ''egress_dpp_pol'']\<rparr>]),
     (''qosDppPol'', [rule_for QosDppPol]),
     (''qosRsIngressDppPol'', [(rule_for QosRequirement)\<lparr>converter := Some QosRsIngress,
       skip := [''dscp'']\<rparr>]),
     (''qosRsEgressDppPol'', [(rule_for QosRequirement)\<lparr>converter := Some QosRsEgress,
       skip := [''dscp'']\<rparr>]),
     (''qosEpDscpMarking'', [(rule_for QosRequirement)\<lparr>converter := Some QosEpDscpMarking\<rparr>]),
     (''fvRsQosRequirement'', [(rule_for EndpointGroup)\<lparr>converter := Some QosRsReq\<rparr>]),
     (''vmmVSwitchPolicyCont'', [rule_for VmmVswitchPolicyGroup]),
     (''vmmRsVswitchExporterPol'', [rule_for VmmRelationToExporterPol]),
     (''spanVSrcGrp'', [rule_for SpanVsourceGroup]),
     (''spanVSrc'', [(rule_for SpanVsource)\<lparr>skip := [''src_paths'']\<rparr>]),
     (''spanVDestGrp'', [rule_for SpanVdestGroup]),
     (''spanVDest'', [rule_for SpanVdest]),
     (''spanVEpgSummary'', [rule_for SpanVepgSummary]),
     (''spanRsSrcToVPort'',
         [(rule_for SpanVsource)\<lparr>converter := Some (ChildList ''src_paths'' ''tDn'' None)\<rparr>]),
     (''infraAccBndlGrp'', [(rule_for InfraAccBundleGroup)\<lparr>skip := [''span_vsource_group_names'',
         ''span_vdest_group_names'']\<rparr>]),
     (''infraAccPortGrp'', [(rule_for InfraAccPortGroup)\<lparr>skip := [''span_vsource_group_names'',
         ''span_vdest_group_names'']\<rparr>]),
     (''infraRsSpanVSrcGrp'',
         [(rule_for InfraAccBundleGroup)\<lparr>converter := Some (ChildList ''span_vsource_group_names'' ''tnSpanVSrcGrpName'' None),
       convert_pre_existing := Some True,
       convert_monitored := Some False\<rparr>]),
     (''infraRsSpanVSrcGrp__ap'',
         [(rule_for InfraAccPortGroup)\<lparr>converter := Some (ChildList ''span_vsource_group_names'' ''tnSpanVSrcGrpName'' (Some ''infraRsSpanVSrcGrp__ap'')),
       convert_pre_existing := Some True,
       convert_monitored := Some False\<rparr>]),
     (''infraRsSpanVDestGrp'',
         [(rule_for InfraAccBundleGroup)\<lparr>converter := Some (ChildList ''span_vdest_group_names'' ''tnSpanVDestGrpName'' None),
       convert_pre_existing := Some True,
       convert_monitored := Some False\<rparr>]),
     (''infraRsSpanVDestGrp__ap'',
         [(rule_for InfraAccPortGroup)\<lparr>converter := Some (ChildList ''span_vdest_group_names'' ''tnSpanVDestGrpName'' (Some ''infraRsSpanVDestGrp__ap'')),
       convert_pre_existing := Some True,
       convert_monitored := Some False\<rparr>]),
     (''spanSpanLbl'', [rule_for SpanSpanlbl])]"

definition devices_map :: "(string, klass rule list) dict" where
  "devices_map =
    [(''vnsLDevVip'', [(rule_for DeviceCluster)\<lparr>skip := [''physical_domain_name'', ''encap'',
        ''devices'', ''vmm_domain_name'', ''vmm_domain_type''],
       exceptions := [(''managed'', via None Boolean),
        (''devtype'', renamed ''device_type''),
        (''svcType'', renamed ''service_type'')],
       converter := Some DeviceClusterConverter\<rparr>]),
     (''vnsRsALDevToPhysDomP'', [(rule_for DeviceCluster)\<lparr>exceptions := [(''tDn'',
         via (Some ''physical_domain_name'') (DnDecomposer [''physical_domain_name''] ''physDomP''))],
       to_res := Some Strict\<rparr>]),
     (''vnsRsALDevToDomP'', [(rule_for DeviceCluster)\<lparr>exceptions := [(''tDn'',
         \<lparr>a_other = Some ''vmm_domain_name'',
         a_converter = Some (DnDecomposer [''vmm_domain_type'', ''vmm_domain_name''] ''vmmDomP''),
         a_default = None, a_skip_if_empty = True\<rparr>)],
       to_res := Some Strict\<rparr>]),
     (''vnsLIf'', [(rule_for DeviceClusterInterface)\<lparr>skip := [''concrete_interfaces'']\<rparr>]),
     (''vnsRsCIfAttN'',
         [(rule_for DeviceClusterInterface)\<lparr>converter := Some (ChildList ''concrete_interfaces'' ''tDn'' None)\<rparr>]),
     (''vnsCDev'', [rule_for ConcreteDevice]),
     (''vnsCIf'', [(rule_for ConcreteDeviceInterface)\<lparr>skip := [''path'', ''host'']\<rparr>]),
     (''vnsRsCIfPathAtt'', [(rule_for ConcreteDeviceInterface)\<lparr>exceptions := [(''tDn'',
         renamed ''path'')],
       skip := [''host''],
       to_res := Some Strict\<rparr>]),
     (''vnsAbsGraph'', [(rule_for ServiceGraph)\<lparr>converter := Some ServiceGraphConverter,
       skip := [''linear_chain_nodes'']\<rparr>]),
     (''vnsAbsNode'', [(rule_for ServiceGraphNode)\<lparr>exceptions := [(''funcType'',
         renamed ''function_type''),
        (''managed'', via None Boolean)],
       skip := [''connectors'', ''device_cluster_name'', ''device_cluster_tenant_name'']\<rparr>]),
     (''vnsAbsFuncConn'',
         [(rule_for ServiceGraphNode)\<lparr>converter := Some (ChildList ''connectors'' ''name'' None)\<rparr>]),
     (''vnsRsNodeToLDev'', [(rule_for ServiceGraphNode)\<lparr>exceptions := [(''tDn'',
         via (Some ''device_cluster_name'') (DnDecomposer [''device_cluster_tenant_name'',
         ''device_cluster_name''] ''vnsLDevVip''))],
       to_res := Some Strict\<rparr>]),
     (''vnsAbsConnection'', [(rule_for ServiceGraphConnection)\<lparr>exceptions := [(''adjType'',
         renamed ''adjacency_type''),
        (''connDir'', renamed ''connector_direction''),
        (''connType'', renamed ''connector_type''),
        (''directConnect'', via None Boolean),
        (''unicastRoute'', via None Boolean)],
       skip := [''connector_dns'']\<rparr>])]"

definition redirect_map :: "(string, klass rule list) dict" where
  "redirect_map =
    [(''vnsRsAbsConnectionConns'',
        [(rule_for ServiceGraphConnection)\<lparr>converter := Some (ChildList ''connector_dns'' ''tDn'' None)\<rparr>]),
     (''vnsSvcRedirectPol'', [(rule_for ServiceRedirectPolicy)\<lparr>skip := [''destinations'',
         ''monitoring_policy_tenant_name'', ''monitoring_policy_name'']\<rparr>]),
     (''vnsRedirectDest'',
         [(rule_for ServiceRedirectPolicy)\<lparr>converter := Some (ListDict ''destinations''
       [(''ip'', renamed ''ip''),
        (''mac'', via (Some ''mac'') Upper),
        (''name'', renamed ''destName'')]
       [''ip''] [])\<rparr>]),
     (''vnsRsIPSLAMonitoringPol'',
         [(rule_for ServiceRedirectPolicy)\<lparr>converter := Some (TdnRs [''monitoring_policy_tenant_name'', ''monitoring_policy_name''] ''fvIPSLAMonitoringPol''),
       to_res := Some Strict\<rparr>]),
     (''vnsRsRedirectHealthGroup'',
         [(rule_for ServiceRedirectPolicy)\<lparr>converter := Some (ListDict ''destinations''
       [(''redirect_health_group_dn'', renamed ''tDn''),
        (''ip'', via (Some ''dn'') RedirectHealthGroupIp)]
       [''ip''] [''redirect_health_group_dn''])\<rparr>]),
     (''vnsLDevCtx'',
         [(rule_for DeviceClusterContext)\<lparr>converter := Some DeviceClusterContextConverter,
       skip := [''device_cluster_name'', ''device_cluster_tenant_name'',
           ''service_redirect_policy_name'', ''service_redirect_policy_tenant_name'',
           ''bridge_domain_name'', ''bridge_domain_tenant_name'']\<rparr>]),
     (''vnsRsLDevCtxToLDev'', [(rule_for DeviceClusterContext)\<lparr>exceptions := [(''tDn'',
         via (Some ''device_cluster_name'') (DnDecomposer [''device_cluster_tenant_name'',
         ''device_cluster_name''] ''vnsLDevVip''))],
       to_res := Some Strict,
       converter := Some DeviceClusterContextConverter\<rparr>]),
     (''vnsLIfCtx'',
         [(rule_for DeviceClusterInterfaceContext)\<lparr>skip := [''device_cluster_interface_dn'',
         ''service_redirect_policy_dn'', ''bridge_domain_dn'']\<rparr>]),
     (''vnsRsLIfCtxToSvcRedirectPol'',
         [(rule_for DeviceClusterInterfaceContext)\<lparr>exceptions := [(''tDn'',
         renamed ''service_redirect_policy_dn'')],
       to_res := Some Strict\<rparr>]),
     (''vnsRsLIfCtxToBD'', [(rule_for DeviceClusterInterfaceContext)\<lparr>exceptions := [(''tDn'',
         renamed ''bridge_domain_dn'')],
       to_res := Some Strict\<rparr>]),
     (''vnsRsLIfCtxToLIf'', [(rule_for DeviceClusterInterfaceContext)\<lparr>exceptions := [(''tDn'',
         renamed ''device_cluster_interface_dn'')],
       to_res := Some Strict\<rparr>]),
     (''fvIPSLAMonitoringPol'',
         [(rule_for ServiceRedirectMonitoringPolicy)\<lparr>exceptions := [(''slaPort'',
         renamed ''tcp_port''),
        (''slaType'', renamed ''type''),
        (''slaFrequency'', renamed ''frequency'')]\<rparr>]),
     (''vnsRedirectHealthGroup'', [rule_for ServiceRedirectHealthGroup])]"

definition late_map :: "(string, klass rule list) dict" where
  "late_map =
    [(''vzRsFiltAtt__In'',
        [(rule_for ContractSubject)\<lparr>converter := Some (ChildList ''in_filters'' ''tnVzFilterName'' (Some ''vzRsFiltAtt__In''))\<rparr>]),
     (''vzRsFiltAtt__Out'',
         [(rule_for ContractSubject)\<lparr>converter := Some (ChildList ''out_filters'' ''tnVzFilterName'' (Some ''vzRsFiltAtt__Out''))\<rparr>]),
     (''fvRsProv__Ext'',
         [(rule_for ExternalNetworkProvidedContract)\<lparr>converter := Some (ContractRs (Some ''fvRsProv__Ext'')),
       convert_pre_existing := Some True,
       convert_monitored := Some False\<rparr>]),
     (''fvRsCons__Ext'',
         [(rule_for ExternalNetworkConsumedContract)\<lparr>converter := Some (ContractRs (Some ''fvRsCons__Ext'')),
       convert_pre_existing := Some True,
       convert_monitored := Some False\<rparr>]),
     (''bgpAsP__Peer'',
         [(rule_for L3OutInterfaceBgpPeerP)\<lparr>identity_converter := Some BgpAsIdentity\<rparr>])]"

definition graph_nodes_map :: "(string, klass rule list) dict" where
  "graph_nodes_map =
    [(''vnsAbsTermNodeCon'', [(rule_for ServiceGraph)\<lparr>skip := [''display_name'', ''name_alias''],
       to_res := Some Strict\<rparr>]),
     (''vnsAbsTermConn__Con'', [(rule_for ServiceGraph)\<lparr>skip := [''display_name'', ''name_alias''],
       to_res := Some Strict\<rparr>]),
     (''vnsInTerm__Con'', [(rule_for ServiceGraph)\<lparr>skip := [''display_name'', ''name_alias''],
       to_res := Some Strict\<rparr>]),
     (''vnsOutTerm__Con'', [(rule_for ServiceGraph)\<lparr>skip := [''display_name'', ''name_alias''],
       to_res := Some Strict\<rparr>]),
     (''vnsAbsTermNodeProv'', [(rule_for ServiceGraph)\<lparr>skip := [''display_name'', ''name_alias''],
       to_res := Some Strict\<rparr>]),
     (''vnsAbsTermConn__Prov'', [(rule_for ServiceGraph)\<lparr>skip := [''display_name'', ''name_alias''],
       to_res := Some Strict\<rparr>]),
     (''vnsInTerm__Prov'', [(rule_for ServiceGraph)\<lparr>skip := [''display_name'', ''name_alias''],
       to_res := Some Strict\<rparr>]),
     (''vnsOutTerm__Prov'', [(rule_for ServiceGraph)\<lparr>skip := [''display_name'', ''name_alias''],
       to_res := Some Strict\<rparr>])]"

section \<open>The maps\<close>

text \<open>The map as it is when the reverse map is built, and with the rules added afterwards.\<close>

definition base_map :: "(string, klass rule list) dict" where
  "base_map = networks_map @ contracts_map @ l3out_map @ vmm_map @ qos_span_map @ devices_map @ redirect_map"

definition resource_map :: "(string, klass rule list) dict" where
  "resource_map = base_map @ late_map
     @ [(''infraRsVlanNs__vmm'', take 1 (dict_getd vmm_map ''infraRsVlanNs'' []))] @ graph_nodes_map"

definition rules_of :: "string \<Rightarrow> klass rule list" where
  "rules_of t = dict_getd resource_map t []"

section \<open>From classes to ACI types\<close>

definition camel :: "string \<Rightarrow> string" where
  "camel s = (case attribute_to_aci s of Inr c \<Rightarrow> c | Inl _ \<Rightarrow> [])"

definition reverse_rule :: "string \<Rightarrow> klass rule \<Rightarrow> string rule" where
  "reverse_rule t r =
     \<lparr>resource = (if kname (resource r) = ''L3OutInterfaceBgpPeerP'' \<and> t = ''bgpAsP'' then ''bgpAsP__Peer'' else t),
      exceptions = reverse_mapping_to_aim (exceptions r),
      identity_converter = identity_converter r, converter = converter r, to_res = to_res r,
      convert_pre_existing = convert_pre_existing r, convert_monitored = convert_monitored r,
      skip = map camel (skip r)\<rparr>"

definition reverse_rules :: "string \<Rightarrow> (string, klass rule list) dict \<Rightarrow> string rule list" where
  "reverse_rules n m = concat (map (\<lambda>(t, rs). map (reverse_rule t) (filter (\<lambda>r. kname (resource r) = n) rs)) m)"

definition reverse_resource_map :: "string \<Rightarrow> string rule list" where
  "reverse_resource_map n = reverse_rules n base_map"

end
