(* ===== verification/Converters.thy ===== *)
theory Converters
  imports Converter_Tables
begin

text \<open>
  The converters written out in \<open>aim/agent/aid/universes/aci/converter.py\<close> and
  \<open>converters/service_graph.py\<close>, each to AIM and to ACI.
\<close>

section \<open>Shared steps\<close>

text \<open>Most converters to AIM: the identity, \<open>[]\<close> for a name of another form, and some attributes.\<close>

definition simple_to_aim ::
  "conv_env \<Rightarrow> klass rule \<Rightarrow> string \<Rightarrow> kwargs \<Rightarrow> (json list \<Rightarrow> kwargs result) \<Rightarrow> obj list result" where
  "simple_to_aim cv h otype d attrs =
     unless_bad_name (default_identity_to_aim cv d otype) (\<lambda>ids.
       bind_res (zip_identity (id_names (resource h)) ids) (\<lambda>_.
       bind_res (attrs ids) (partial_obj cv h ids)))"

definition one_aci :: "string rule \<Rightarrow> json \<Rightarrow> kwargs \<Rightarrow> item" where
  "one_aci h dn attrs = Aci (resource h) ((''dn'', dn) # attrs)"

fun json_dict :: "json \<Rightarrow> kwargs result" where
  "json_dict (JObj kvs) = Inr kvs"
| "json_dict _ = Inl AttributeError"

text \<open>A loop over a list of dictionaries, each yielding objects.\<close>

definition for_items :: "json \<Rightarrow> (kwargs \<Rightarrow> item list result) \<Rightarrow> item list result" where
  "for_items v f =
     bind_res (json_list v) (\<lambda>xs. bind_res (traverse_res (\<lambda>x. bind_res (json_dict x) f) xs) (\<lambda>iss. Inr (concat iss)))"

definition for_dicts :: "json \<Rightarrow> (kwargs \<Rightarrow> item result) \<Rightarrow> item list result" where
  "for_dicts v f = for_items v (\<lambda>p. bind_res (f p) (\<lambda>i. Inr [i]))"

section \<open>Domains and paths\<close>

definition OPENSTACK_VMM_TYPE :: string where "OPENSTACK_VMM_TYPE = ''OpenStack''"
definition VMWARE_VMM_TYPE :: string where "VMWARE_VMM_TYPE = ''VMware''"

definition nth_id :: "json list \<Rightarrow> nat \<Rightarrow> json result" where
  "nth_id ids n = (if n < length ids then Inr (ids ! n) else Inl IndexError)"

definition domain_attrs :: "conv_env \<Rightarrow> json list \<Rightarrow> kwargs result" where
  "domain_attrs cv ids =
     (let dn = (if ids = [] then JNull else last ids) in
      case rns_of cv ''vmmDomP'' dn of
        Inr rns \<Rightarrow>
          bind_res (nth_id (map JStr rns) 0) (\<lambda>ty. bind_res (nth_id (map JStr rns) 1) (\<lambda>name.
            Inr ((if ty = JStr OPENSTACK_VMM_TYPE then [(''openstack_vmm_domain_names'', JList [last (map JStr rns)])] else [])
                 @ [(''vmm_domains'', JList [JObj [(''type'', ty), (''name'', name)]])])))
      | Inl e \<Rightarrow>
          if e = InvalidNameFormat then
            bind_res (rns_of cv ''physDomP'' dn) (\<lambda>rns. bind_res (nth_id (map JStr rns) 0) (\<lambda>name.
              Inr [(''physical_domain_names'', JList [name]), (''physical_domains'', JList [JObj [(''name'', name)]])]))
          else Inl e)"

definition fv_rs_dom_att_to_aim :: "conv_env \<Rightarrow> klass rule \<Rightarrow> string \<Rightarrow> kwargs \<Rightarrow> obj list result" where
  "fv_rs_dom_att_to_aim cv h otype d = simple_to_aim cv h ''fvRsDomAtt'' d (domain_attrs cv)"

text \<open>The code iterates over sets; here in the order the names are first met.\<close>

definition phys_names :: "kwargs \<Rightarrow> json list result" where
  "phys_names d =
     bind_res (getitem d ''physical_domain_names'') (\<lambda>v. bind_res (json_list v) (\<lambda>names.
     bind_res (getitem d ''physical_domains'') (\<lambda>w. bind_res (json_list w) (\<lambda>doms.
     bind_res (traverse_res (\<lambda>x. bind_res (json_dict x) (\<lambda>m. getitem m ''name'')) doms) (\<lambda>more.
       Inr (remdups (names @ more)))))))"

definition vmm_names :: "kwargs \<Rightarrow> (json \<times> json) list result" where
  "vmm_names d =
     bind_res (getitem d ''openstack_vmm_domain_names'') (\<lambda>v. bind_res (json_list v) (\<lambda>names.
     bind_res (getitem d ''vmm_domains'') (\<lambda>w. bind_res (json_list w) (\<lambda>doms.
     bind_res (traverse_res (\<lambda>x. bind_res (json_dict x) (\<lambda>m.
         bind_res (getitem m ''type'') (\<lambda>t. bind_res (getitem m ''name'') (\<lambda>n. Inr (t, n))))) doms) (\<lambda>more.
       Inr (remdups (more @ map (\<lambda>n. (JStr OPENSTACK_VMM_TYPE, n)) names)))))))"

definition phys_dom_att :: "conv_env \<Rightarrow> klass \<Rightarrow> kwargs \<Rightarrow> json \<Rightarrow> item result" where
  "phys_dom_att cv k d phys =
     bind_res (make_obj (cv_conf cv) PhysicalDomain [(''name'', phys)]) (\<lambda>p.
     bind_res (default_identity_to_aci cv (ofields p) PhysicalDomain [] ''physDomP'') (\<lambda>phys_dn.
     bind_res (default_identity_to_aci cv d k [phys_dn] ''fvRsDomAtt'') (\<lambda>dn.
       Inr (Aci ''fvRsDomAtt'' [(''dn'', dn), (''tDn'', phys_dn)]))))"

definition vmm_dom_att :: "conv_env \<Rightarrow> klass \<Rightarrow> kwargs \<Rightarrow> json \<times> json \<Rightarrow> item result" where
  "vmm_dom_att cv k d = (\<lambda>(ty, name).
     bind_res (make_obj (cv_conf cv) VMMDomain [(''type'', ty), (''name'', name)]) (\<lambda>v.
     bind_res (default_identity_to_aci cv (ofields v) VMMDomain [] ''vmmDomP'') (\<lambda>vmm_dn.
     bind_res (default_identity_to_aci cv d k [vmm_dn] ''fvRsDomAtt'') (\<lambda>dn.
     case ty of
       JStr s \<Rightarrow> Inr (Aci ''fvRsDomAtt'' ([(''dn'', dn), (''tDn'', vmm_dn),
           (''instrImedcy'', JStr (if lower s = lower VMWARE_VMM_TYPE then ''immediate'' else ''lazy''))]
           @ (if cv_no_useg cv then [] else [(''classPref'', JStr ''useg'')])))
     | _ \<Rightarrow> Inl AttributeError))))"

definition fv_rs_dom_att_to_aci :: "conv_env \<Rightarrow> string rule \<Rightarrow> klass \<Rightarrow> kwargs \<Rightarrow> item list result" where
  "fv_rs_dom_att_to_aci cv h k d =
     bind_res (phys_names d) (\<lambda>phys. bind_res (traverse_res (phys_dom_att cv k d) phys) (\<lambda>ps.
     bind_res (vmm_names d) (\<lambda>vmms. bind_res (traverse_res (vmm_dom_att cv k d) vmms) (\<lambda>vs. Inr (ps @ vs)))))"

definition fv_rs_path_att_to_aim :: "conv_env \<Rightarrow> klass rule \<Rightarrow> string \<Rightarrow> kwargs \<Rightarrow> obj list result" where
  "fv_rs_path_att_to_aim cv h otype d =
     simple_to_aim cv h otype d (\<lambda>_. Inr (
       if has d ''tDn'' \<and> has d ''encap'' then
         [(''path'', getor d ''tDn''), (''mode'', dict_getd d ''mode'' (JStr ''regular'')), (''encap'', getor d ''encap'')]
       else []))"

definition fv_rs_path_att_to_aci :: "conv_env \<Rightarrow> string rule \<Rightarrow> klass \<Rightarrow> kwargs \<Rightarrow> item list result" where
  "fv_rs_path_att_to_aci cv h k d =
     bind_res (getitem d ''path'') (\<lambda>path.
     bind_res (if json_truth path then getitem d ''encap'' else Inr JNull) (\<lambda>encap.
       if json_truth path \<and> json_truth encap then
         bind_res (default_identity_to_aci cv d k [path] (resource h)) (\<lambda>dn.
           Inr [one_aci h dn [(''tDn'', path), (''mode'', dict_getd d ''mode'' (JStr ''regular'')), (''encap'', encap)]])
       else Inr []))"

section \<open>Quality of service\<close>

definition dpp_to_aim :: "string \<Rightarrow> conv_env \<Rightarrow> klass rule \<Rightarrow> string \<Rightarrow> kwargs \<Rightarrow> obj list result" where
  "dpp_to_aim attr cv h otype d =
     simple_to_aim cv h otype d (\<lambda>_. Inr (case dict_get d ''tnQosDppPolName'' of Some v \<Rightarrow> [(attr, v)] | None \<Rightarrow> []))"

definition dpp_to_aci :: "string \<Rightarrow> string \<Rightarrow> conv_env \<Rightarrow> string rule \<Rightarrow> kwargs \<Rightarrow> item list result" where
  "dpp_to_aci attr mo cv h d =
     (if has d ''tenant_name'' \<and> has d ''name'' \<and> has d attr then
        bind_res (cv_dn cv mo [getor d ''tenant_name'', getor d ''name'']) (\<lambda>dn.
          Inr [one_aci h (JStr dn) [(''tnQosDppPolName'', getor d attr)]])
      else Inr [])"

definition qos_ep_dscp_to_aim :: "conv_env \<Rightarrow> klass rule \<Rightarrow> string \<Rightarrow> kwargs \<Rightarrow> obj list result" where
  "qos_ep_dscp_to_aim cv h otype d = simple_to_aim cv h otype d (\<lambda>_. Inr [(''dscp'', getor d ''mark'')])"

definition qos_ep_dscp_to_aci :: "conv_env \<Rightarrow> string rule \<Rightarrow> kwargs \<Rightarrow> item list result" where
  "qos_ep_dscp_to_aci cv h d =
     (if has d ''tenant_name'' \<and> has d ''name'' \<and> has d ''dscp'' then
        bind_res (cv_dn cv ''qosEpDscpMarking'' [getor d ''tenant_name'', getor d ''name'']) (\<lambda>dn.
          Inr [one_aci h (JStr dn) [(''mark'', getor d ''dscp'')]])
      else Inr [])"

definition qos_rs_req_to_aim :: "conv_env \<Rightarrow> klass rule \<Rightarrow> string \<Rightarrow> kwargs \<Rightarrow> obj list result" where
  "qos_rs_req_to_aim cv h otype d =
     simple_to_aim cv h otype d (\<lambda>_. Inr (
       if has d ''tnQosRequirementName'' then [(''qos_name'', getor d ''tnQosRequirementName'')] else []))"

definition qos_rs_req_to_aci :: "conv_env \<Rightarrow> string rule \<Rightarrow> kwargs \<Rightarrow> item list result" where
  "qos_rs_req_to_aci cv h d =
     (if has d ''tenant_name'' \<and> has d ''name'' \<and> has d ''app_profile_name'' \<and> has d ''qos_name'' then
        bind_res (cv_dn cv ''fvRsQosRequirement''
            [getor d ''tenant_name'', getor d ''app_profile_name'', getor d ''name'']) (\<lambda>dn.
          Inr [one_aci h (JStr dn) [(''tnQosRequirementName'', getor d ''qos_name'')]])
      else Inr [])"

section \<open>Contract masters\<close>

definition master_epg_to_aim :: "conv_env \<Rightarrow> klass rule \<Rightarrow> string \<Rightarrow> kwargs \<Rightarrow> obj list result" where
  "master_epg_to_aim cv h otype d =
     simple_to_aim cv h otype d (\<lambda>_.
       if has d ''tDn'' then
         bind_res (cv_decompose cv (py_str (getor d ''tDn'')) ''fvAEPg'') (\<lambda>mr.
           if length mr < 3 then Inl IndexError
           else Inr [(''epg_contract_masters'',
                      JList [JObj [(''app_profile_name'', JStr (snd (mr ! 1))), (''name'', JStr (snd (mr ! 2)))]])])
       else Inr [])"

definition master_epg_to_aci :: "conv_env \<Rightarrow> string rule \<Rightarrow> klass \<Rightarrow> kwargs \<Rightarrow> item list result" where
  "master_epg_to_aci cv h k d =
     bind_res (getitem d ''epg_contract_masters'') (\<lambda>v. for_items v (\<lambda>p.
       if has p ''app_profile_name'' \<and> has p ''name'' then
         bind_res (cv_dn cv ''fvAEPg'' [getor d ''tenant_name'', getor p ''app_profile_name'', getor p ''name'']) (\<lambda>path.
         bind_res (default_identity_to_aci cv d k [JStr path] (resource h)) (\<lambda>dn.
           Inr [one_aci h dn [(''tDn'', JStr path)]]))
       else Inr []))"

section \<open>External networks\<close>

definition next_hop_to_aim :: "conv_env \<Rightarrow> klass rule \<Rightarrow> string \<Rightarrow> kwargs \<Rightarrow> obj list result" where
  "next_hop_to_aim cv h otype d =
     simple_to_aim cv h otype d (\<lambda>_. Inr (
       if getor d ''type'' = JStr ''prefix'' \<and> has d ''nhAddr'' \<and> has d ''pref'' then
         [(''next_hop_list'', JList [JObj [(''addr'', getor d ''nhAddr''), (''preference'', getor d ''pref'')]])]
       else []))"

definition next_hop_to_aci :: "conv_env \<Rightarrow> string rule \<Rightarrow> klass \<Rightarrow> kwargs \<Rightarrow> item list result" where
  "next_hop_to_aci cv h k d =
     for_items (getor d ''next_hop_list'') (\<lambda>p.
       if has p ''addr'' \<and> has p ''preference'' then
         bind_res (default_identity_to_aci cv d k [getor p ''addr''] (resource h)) (\<lambda>dn.
           Inr [one_aci h dn [(''nhAddr'', getor p ''addr''), (''pref'', getor p ''preference''), (''type'', JStr ''prefix'')]])
       else Inr [])"

definition addr_list :: "kwargs \<Rightarrow> json" where
  "addr_list d = JList [JObj [(''addr'', getor d ''addr'')]]"

definition l3ext_ip_attrs :: "bool \<Rightarrow> kwargs \<Rightarrow> json list \<Rightarrow> kwargs result" where
  "l3ext_ip_attrs is_vpc d ids =
     (if \<not> has d ''addr'' then Inr []
      else if is_vpc then
        bind_res (nth_id ids 5) (\<lambda>side. Inr (
          if side = JStr ''A'' then [(''secondary_addr_a_list'', addr_list d)]
          else if side = JStr ''B'' then [(''secondary_addr_b_list'', addr_list d)] else []))
      else Inr [(''secondary_addr_a_list'', addr_list d)])"

definition l3ext_ip_to_aim :: "conv_env \<Rightarrow> klass rule \<Rightarrow> string \<Rightarrow> kwargs \<Rightarrow> obj list result" where
  "l3ext_ip_to_aim cv h otype d =
     bind_res (case default_identity_to_aim cv d otype of
         Inr ids \<Rightarrow> Inr (ids, otype = ''l3extIp__Member'')
       | Inl e \<Rightarrow> if e = InvalidNameFormat
                   then bind_res (default_identity_to_aim cv d ''l3extIp__Member'') (\<lambda>ids. Inr (ids, True))
                   else Inl e) (\<lambda>(ids, is_vpc).
     bind_res (zip_identity (id_names (resource h)) ids) (\<lambda>_.
     bind_res (l3ext_ip_attrs is_vpc d ids) (partial_obj cv h ids)))"

definition secondary_ips :: "conv_env \<Rightarrow> klass \<Rightarrow> kwargs \<Rightarrow> string \<Rightarrow> string \<Rightarrow> json list \<Rightarrow> item list result" where
  "secondary_ips cv k d attr mo side =
     for_items (getor d attr) (\<lambda>p.
       if has p ''addr'' then
         bind_res (default_identity_to_aci cv d k (side @ [getor p ''addr'']) mo) (\<lambda>dn.
           Inr [Aci mo [(''dn'', dn), (''addr'', getor p ''addr'')]])
       else Inr [])"

definition l3ext_ip_to_aci :: "conv_env \<Rightarrow> klass \<Rightarrow> kwargs \<Rightarrow> item list result" where
  "l3ext_ip_to_aci cv k d =
     (if \<not> has d ''primary_addr_a'' then Inr []
      else if has d ''primary_addr_b'' then
        bind_res (secondary_ips cv k d ''secondary_addr_a_list'' ''l3extIp__Member'' [JStr ''A'']) (\<lambda>as.
        bind_res (secondary_ips cv k d ''secondary_addr_b_list'' ''l3extIp__Member'' [JStr ''B'']) (\<lambda>bs.
          Inr (as @ bs)))
      else secondary_ips cv k d ''secondary_addr_a_list'' ''l3extIp'' [])"

definition l3ext_member_to_aim :: "conv_env \<Rightarrow> klass rule \<Rightarrow> string \<Rightarrow> kwargs \<Rightarrow> obj list result" where
  "l3ext_member_to_aim cv h otype d =
     simple_to_aim cv h otype d (\<lambda>_. Inr (
       if has d ''side'' \<and> has d ''addr'' then
         (if getor d ''side'' = JStr ''A'' then [(''primary_addr_a'', getor d ''addr'')]
          else if getor d ''side'' = JStr ''B'' then [(''primary_addr_b'', getor d ''addr'')] else [])
       else []))"

definition l3ext_member_side :: "conv_env \<Rightarrow> string rule \<Rightarrow> klass \<Rightarrow> kwargs \<Rightarrow> string \<Rightarrow> string \<Rightarrow> item result" where
  "l3ext_member_side cv h k d side attr =
     bind_res (default_identity_to_aci cv d k [JStr side] (resource h)) (\<lambda>dn.
       Inr (one_aci h dn [(''side'', JStr side), (''addr'', getor d attr)]))"

definition l3ext_member_to_aci :: "conv_env \<Rightarrow> string rule \<Rightarrow> klass \<Rightarrow> kwargs \<Rightarrow> item list result" where
  "l3ext_member_to_aci cv h k d =
     (if has d ''primary_addr_a'' \<and> has d ''primary_addr_b'' then
        bind_res (l3ext_member_side cv h k d ''A'' ''primary_addr_a'') (\<lambda>a.
        bind_res (l3ext_member_side cv h k d ''B'' ''primary_addr_b'') (\<lambda>b. Inr [a, b]))
      else Inr [])"

definition bgp_extp_to_aim :: "conv_env \<Rightarrow> klass rule \<Rightarrow> string \<Rightarrow> kwargs \<Rightarrow> obj list result" where
  "bgp_extp_to_aim cv h otype d = simple_to_aim cv h otype d (\<lambda>_. Inr [(''bgp_enable'', JBool True)])"

definition bgp_extp_to_aci :: "conv_env \<Rightarrow> string rule \<Rightarrow> klass \<Rightarrow> kwargs \<Rightarrow> item list result" where
  "bgp_extp_to_aci cv h k d =
     (if has d ''bgp_enable'' then
        bind_res (default_identity_to_aci cv d k [] (resource h)) (\<lambda>dn. Inr [one_aci h dn []])
      else Inr [])"

section \<open>Subnets and subjects\<close>

text \<open>The default body with the default resource, as \<open>subnet_converter\<close>, \<open>contract_converter\<close> and the
  security group converters spell it out.\<close>

definition plain_body_to_aci :: "conv_env \<Rightarrow> string rule \<Rightarrow> klass \<Rightarrow> kwargs \<Rightarrow> item list result" where
  "plain_body_to_aci cv h k d =
     bind_res (default_identity_to_aci cv d k [] (resource h)) (\<lambda>dn.
     bind_res (convert_attributes_to_aci cv h k d dn) (\<lambda>converted. Inr [default_to_aci h converted]))"

text \<open>\<open>resource_map[t][i]\<close>, for entries the table has.\<close>

definition rule_at :: "string \<Rightarrow> nat \<Rightarrow> klass rule result" where
  "rule_at t i = (let rs = rules_of t in if i < length rs then Inr (rs ! i) else Inl IndexError)"

text \<open>A name of another form is tried again with another rule.\<close>

definition or_other_rule_to_aim ::
  "conv_env \<Rightarrow> string \<Rightarrow> klass rule \<Rightarrow> string \<Rightarrow> kwargs \<Rightarrow> obj list result" where
  "or_other_rule_to_aim cv other h otype d =
     bind_res (case default_identity_to_aim cv d otype of
         Inr ids \<Rightarrow> Inr (ids, h)
       | Inl e \<Rightarrow> if e = InvalidNameFormat
                   then bind_res (rule_at other 0) (\<lambda>h'.
                        bind_res (default_identity_to_aim cv d other) (\<lambda>ids. Inr (ids, h')))
                   else Inl e) (\<lambda>(ids, h').
     bind_res (default_body_to_aim cv h' d ids (id_names (resource h'))) (\<lambda>r. Inr [r]))"

definition subnet_to_aim :: "conv_env \<Rightarrow> klass rule \<Rightarrow> string \<Rightarrow> kwargs \<Rightarrow> obj list result" where
  "subnet_to_aim cv = or_other_rule_to_aim cv ''fvSubnet__epg''"

definition contract_to_aim :: "conv_env \<Rightarrow> klass rule \<Rightarrow> string \<Rightarrow> kwargs \<Rightarrow> obj list result" where
  "contract_to_aim cv = or_other_rule_to_aim cv ''vzSubj__tn''"

section \<open>Security groups\<close>

definition contains :: "string \<Rightarrow> string \<Rightarrow> bool" where
  "contains pat s \<longleftrightarrow> list_ex (\<lambda>i. take (length pat) (drop i s) = pat) [0..<Suc (length s)]"

text \<open>Names of system security groups use the second rule of the type, but the identity of the first.\<close>

definition system_rule :: "string \<Rightarrow> klass rule \<Rightarrow> kwargs \<Rightarrow> klass rule result" where
  "system_rule t h d =
     bind_res (getitem d ''dn'') (\<lambda>dn. case dn of
       JStr s \<Rightarrow> if contains ''SystemSecurityGroup'' s then rule_at t 1 else Inr h
     | _ \<Rightarrow> Inl TypeError)"

definition hostprot_to_aim :: "string \<Rightarrow> conv_env \<Rightarrow> klass rule \<Rightarrow> string \<Rightarrow> kwargs \<Rightarrow> obj list result" where
  "hostprot_to_aim t cv h otype d =
     bind_res (system_rule t h d) (\<lambda>h'.
     unless_bad_name (default_identity_to_aim cv d otype) (\<lambda>ids.
       bind_res (default_body_to_aim cv h' d ids (id_names (resource h))) (\<lambda>r. Inr [r])))"

definition rs_remote_ip_container_to_aim :: "conv_env \<Rightarrow> klass rule \<Rightarrow> string \<Rightarrow> kwargs \<Rightarrow> obj list result" where
  "rs_remote_ip_container_to_aim cv h otype d = simple_to_aim cv h otype d (\<lambda>_. Inr [(''tDn'', getor d ''tDn'')])"

definition rs_remote_ip_container_to_aci :: "conv_env \<Rightarrow> string rule \<Rightarrow> kwargs \<Rightarrow> item list result" where
  "rs_remote_ip_container_to_aci cv h d =
     (let attrs = [''tenant_name'', ''security_group_name'', ''security_group_subject_name'', ''name'', ''tDn''] in
      if list_all (has d) attrs then
        bind_res (cv_dn cv ''hostprotRsRemoteIpContainer'' (map (getor d) attrs)) (\<lambda>dn.
          Inr [one_aci h (JStr dn) [(''tDn'', getor d ''tDn'')]])
      else Inr [])"

definition remote_ip_to_aim :: "conv_env \<Rightarrow> klass rule \<Rightarrow> string \<Rightarrow> kwargs \<Rightarrow> obj list result" where
  "remote_ip_to_aim cv h otype d =
     bind_res (system_rule ''hostprotRemoteIp'' h d) (\<lambda>h'.
     bind_res (case default_identity_to_aim cv d otype of
         Inr ids \<Rightarrow> Inr (ids, h', id_names (resource h))
       | Inl e \<Rightarrow> if e = InvalidNameFormat
                   then bind_res (rule_at ''hostprotRemoteIp__cont'' 0) (\<lambda>h''.
                        bind_res (default_identity_to_aim cv d ''hostprotRemoteIp__cont'') (\<lambda>ids.
                          Inr (ids, h'', id_names (resource h''))))
                   else Inl e) (\<lambda>(ids, rule, dest).
     bind_res (zip_identity dest ids) (\<lambda>res.
     bind_res (default_to_aim cv rule (if has d ''addr''
         then dict_set ''remote_ips'' (JList [if getor d ''addr'' = JStr ''0.0.0.0'' then JStr ''0.0.0.0/32'' else getor d ''addr'']) res
         else res)) (\<lambda>r. Inr [r]))))"

definition remote_ip_to_aci :: "conv_env \<Rightarrow> string rule \<Rightarrow> klass \<Rightarrow> kwargs \<Rightarrow> item list result" where
  "remote_ip_to_aci cv h k d =
     bind_res (getitem d ''remote_ips'') (\<lambda>v. bind_res (json_list v) (\<lambda>cs.
       traverse_res (\<lambda>c. bind_res (default_identity_to_aci cv d k [c] (resource h)) (\<lambda>dn.
         Inr (one_aci h dn [(''addr'', c)]))) cs))"

section \<open>Devices and service graphs\<close>

text \<open>A new object of a class, and its DN.\<close>

definition new_obj :: "conv_env \<Rightarrow> klass \<Rightarrow> kwargs \<Rightarrow> obj result" where
  "new_obj cv k attrs = make_obj (cv_conf cv) k attrs"

definition dn_of_obj :: "conv_env \<Rightarrow> klass \<Rightarrow> obj \<Rightarrow> json result" where
  "dn_of_obj cv k r =
     bind_res (identity k r) (\<lambda>i. bind_res (cv_dn cv (mo_of k) (map JStr i)) (\<lambda>s. Inr (JStr s)))"

definition set_field :: "string \<Rightarrow> json \<Rightarrow> obj \<Rightarrow> obj" where
  "set_field a v r = r\<lparr>ofields := dict_set a v (ofields r)\<rparr>"

text \<open>The device and its interface for one node of a cluster, with the DN of the interface.\<close>

definition cluster_node :: "conv_env \<Rightarrow> kwargs \<Rightarrow> bool \<Rightarrow> json \<Rightarrow> (obj list \<times> json list) result" where
  "cluster_node cv d need_dn v =
     bind_res (case v of JObj kvs \<Rightarrow> Inr kvs | _ \<Rightarrow> Inl TypeError) (\<lambda>node.
     if dict_get node ''name'' = None then Inr ([], []) else
     bind_res (getitem d ''tenant_name'') (\<lambda>tn. bind_res (getitem d ''name'') (\<lambda>cl.
     bind_res (new_obj cv ConcreteDevice
        [(''tenant_name'', tn), (''device_cluster_name'', cl), (''name'', getor node ''name'')]) (\<lambda>cdev.
     bind_res (new_obj cv ConcreteDeviceInterface
        [(''tenant_name'', tn), (''device_cluster_name'', cl), (''device_name'', getor node ''name''),
         (''name'', JStr ''interface'')]) (\<lambda>cif0.
       let cif = (case dict_get node ''path'' of Some p \<Rightarrow> set_field ''path'' p cif0 | None \<Rightarrow> cif0) in
       bind_res (if need_dn then bind_res (dn_of_obj cv ConcreteDeviceInterface cif) (\<lambda>dn. Inr [dn]) else Inr []) (\<lambda>dns.
         Inr ([cdev, cif], dns)))))))"

definition device_cluster_to_aci :: "conv_env \<Rightarrow> string rule \<Rightarrow> klass \<Rightarrow> kwargs \<Rightarrow> item list result" where
  "device_cluster_to_aci cv h k d =
     bind_res (default_converter_to_aci cv h k d) (\<lambda>result.
     bind_res (getitem d ''encap'') (\<lambda>encap.
     bind_res (if \<not> json_truth encap then Inr None
               else bind_res (getitem d ''tenant_name'') (\<lambda>tn. bind_res (getitem d ''name'') (\<lambda>cl.
                    bind_res (new_obj cv DeviceClusterInterface
                      [(''tenant_name'', tn), (''device_cluster_name'', cl), (''name'', JStr ''interface''), (''encap'', encap)])
                      (\<lambda>l. Inr (Some l))))) (\<lambda>lif.
     bind_res (getitem d ''devices'') (\<lambda>devs. bind_res (json_list devs) (\<lambda>nodes.
     bind_res (traverse_res (cluster_node cv d (lif \<noteq> None)) nodes) (\<lambda>made.
       Inr (result
            @ (case lif of None \<Rightarrow> [] | Some l \<Rightarrow>
                 [Aim (set_field ''concrete_interfaces'' (JList (concat (map snd made))) l)])
            @ map Aim (concat (map fst made)))))))))"

definition first_set :: "json \<Rightarrow> json \<Rightarrow> json" where
  "first_set a b = (if json_truth a then a else b)"

text \<open>One reference of an interface context: a DN when the object names one.\<close>

definition context_ref ::
  "conv_env \<Rightarrow> kwargs \<Rightarrow> string \<Rightarrow> string \<Rightarrow> string \<Rightarrow> string \<Rightarrow> json list \<Rightarrow> obj \<Rightarrow> obj result" where
  "context_ref cv d name_attr tenant_attr mo attr extra ctx =
     bind_res (getitem d name_attr) (\<lambda>name.
       if json_truth name then
         bind_res (getitem d tenant_attr) (\<lambda>tn. bind_res (get_attr ctx ''tenant_name'') (\<lambda>own.
         bind_res (cv_dn cv mo ([first_set tn own, name] @ extra)) (\<lambda>dn. Inr (set_field attr (JStr dn) ctx))))
       else Inr ctx)"

definition with_own_tenant :: "kwargs \<Rightarrow> kwargs result" where
  "with_own_tenant d =
     bind_res (getitem d ''device_cluster_tenant_name'') (\<lambda>t.
       if json_truth t then Inr d
       else bind_res (getitem d ''tenant_name'') (\<lambda>tn. Inr (dict_set ''device_cluster_tenant_name'' tn d)))"

definition consumer_context :: "conv_env \<Rightarrow> kwargs \<Rightarrow> obj result" where
  "consumer_context cv d =
     bind_res (getitem d ''tenant_name'') (\<lambda>tn. bind_res (getitem d ''contract_name'') (\<lambda>c.
     bind_res (getitem d ''service_graph_name'') (\<lambda>g. bind_res (getitem d ''node_name'') (\<lambda>n.
     bind_res (new_obj cv DeviceClusterInterfaceContext
       [(''tenant_name'', tn), (''contract_name'', c), (''service_graph_name'', g), (''node_name'', n),
        (''connector_name'', JStr ''consumer'')]) (\<lambda>ctx0.
     bind_res (context_ref cv d ''device_cluster_name'' ''device_cluster_tenant_name'' ''vnsLIf''
        ''device_cluster_interface_dn'' [JStr ''interface''] ctx0) (\<lambda>ctx1.
     bind_res (context_ref cv d ''bridge_domain_name'' ''bridge_domain_tenant_name'' ''fvBD'' ''bridge_domain_dn'' [] ctx1) (\<lambda>ctx2.
       context_ref cv d ''service_redirect_policy_name'' ''service_redirect_policy_tenant_name'' ''vnsSvcRedirectPol''
         ''service_redirect_policy_dn'' [] ctx2)))))))"

definition field_set :: "obj \<Rightarrow> string \<Rightarrow> bool" where
  "field_set r a = json_truth (get_attr_or r a JNull)"

definition device_cluster_context_to_aci :: "conv_env \<Rightarrow> string rule \<Rightarrow> klass \<Rightarrow> kwargs \<Rightarrow> item list result" where
  "device_cluster_context_to_aci cv h k d =
     bind_res (with_own_tenant d) (\<lambda>d1. bind_res (default_converter_to_aci cv h k d1) (\<lambda>result.
     bind_res (consumer_context cv d) (\<lambda>ctx.
       Inr (result @
         (if field_set ctx ''device_cluster_interface_dn'' \<and> field_set ctx ''bridge_domain_dn''
             \<and> field_set ctx ''service_redirect_policy_dn''
          then [Aim ctx, Aim (set_field ''connector_name'' (JStr ''provider'') ctx)] else [])))))"

definition graph_obj :: "conv_env \<Rightarrow> json \<Rightarrow> json \<Rightarrow> string \<times> string \<Rightarrow> item result" where
  "graph_obj cv tn gr = (\<lambda>(mo, term).
     bind_res (cv_dn cv mo [tn, gr, JStr term]) (\<lambda>dn. Inr (Aci mo [(''dn'', JStr dn)])))"

definition graph_terminals :: "(string \<times> string) list" where
  "graph_terminals =
     [(''vnsAbsTermNodeCon'', ''T1''), (''vnsAbsTermConn__Con'', ''T1''), (''vnsInTerm__Con'', ''T1''), (''vnsOutTerm__Con'', ''T1''),
      (''vnsAbsTermNodeProv'', ''T2''), (''vnsAbsTermConn__Prov'', ''T2''), (''vnsInTerm__Prov'', ''T2''), (''vnsOutTerm__Prov'', ''T2'')]"

definition graph_connection :: "conv_env \<Rightarrow> json \<Rightarrow> json \<Rightarrow> nat \<Rightarrow> json list \<Rightarrow> obj result" where
  "graph_connection cv tn gr n dns =
     new_obj cv ServiceGraphConnection
       [(''tenant_name'', tn), (''service_graph_name'', gr), (''name'', JStr (''C'' @ nat_str n)),
        (''unicast_route'', JBool True), (''connector_dns'', JList dns)]"

text \<open>One node of the chain, with the DN its consumer side is connected to and the number of the node; the
  result has the DN of its provider side.\<close>

definition graph_node :: "conv_env \<Rightarrow> json \<Rightarrow> json \<Rightarrow> kwargs \<Rightarrow> json \<times> nat \<Rightarrow> (obj list \<times> json) result" where
  "graph_node cv tn gr fn = (\<lambda>(prev, cntr).
     bind_res (getitem fn ''name'') (\<lambda>name.
     bind_res (new_obj cv ServiceGraphNode
       [(''tenant_name'', tn), (''service_graph_name'', gr), (''name'', name), (''managed'', JBool False),
        (''routing_mode'', JStr ''Redirect''), (''sequence_number'', JStr (nat_str (cntr - 1))),
        (''connectors'', JList [JStr ''consumer'', JStr ''provider''])]) (\<lambda>node0.
       let node = (if has fn ''device_cluster_name''
                   then set_field ''device_cluster_tenant_name'' (dict_getd fn ''device_cluster_tenant_name'' tn)
                          (set_field ''device_cluster_name'' (getor fn ''device_cluster_name'') node0)
                   else node0) in
     bind_res (cv_dn cv ''vnsAbsFuncConn'' [tn, gr, name, JStr ''consumer'']) (\<lambda>con.
     bind_res (cv_dn cv ''vnsAbsFuncConn'' [tn, gr, name, JStr ''provider'']) (\<lambda>prov.
     bind_res (graph_connection cv tn gr cntr [prev, JStr con]) (\<lambda>cxn. Inr ([node, cxn], JStr prov)))))))"

fun graph_chain :: "conv_env \<Rightarrow> json \<Rightarrow> json \<Rightarrow> kwargs list \<Rightarrow> json \<Rightarrow> nat \<Rightarrow> (obj list \<times> json \<times> nat) result" where
  "graph_chain cv tn gr [] prev cntr = Inr ([], prev, cntr)"
| "graph_chain cv tn gr (fn # fns) prev cntr =
     bind_res (graph_node cv tn gr fn (prev, cntr + 1)) (\<lambda>(os, prov).
     bind_res (graph_chain cv tn gr fns prov (cntr + 1)) (\<lambda>(os', last, n). Inr (os @ os', last, n)))"

definition service_graph_to_aci :: "conv_env \<Rightarrow> string rule \<Rightarrow> klass \<Rightarrow> kwargs \<Rightarrow> item list result" where
  "service_graph_to_aci cv h k d =
     bind_res (default_converter_to_aci cv h k d) (\<lambda>result.
     bind_res (getitem d ''tenant_name'') (\<lambda>tn. bind_res (getitem d ''name'') (\<lambda>gr.
     bind_res (traverse_res (graph_obj cv tn gr) graph_terminals) (\<lambda>terms.
     bind_res (getitem d ''linear_chain_nodes'') (\<lambda>v. bind_res (json_list v) (\<lambda>ns.
     bind_res (traverse_res json_dict ns) (\<lambda>all.
     bind_res (cv_dn cv ''vnsAbsTermConn__Con'' [tn, gr, JStr ''T1'']) (\<lambda>con.
     bind_res (cv_dn cv ''vnsAbsTermConn__Prov'' [tn, gr, JStr ''T2'']) (\<lambda>prov.
     bind_res (graph_chain cv tn gr (filter (\<lambda>n. has n ''name'') all) (JStr con) 0) (\<lambda>(os, last, cntr).
     bind_res (if cntr = 0 then Inr []
               else bind_res (graph_connection cv tn gr (cntr + 1) [last, JStr prov]) (\<lambda>c. Inr [c])) (\<lambda>more.
       Inr (result @ terms @ map Aim (os @ more)))))))))))))"

section \<open>The converter of a rule\<close>

text \<open>\<open>helper.get('converter') or self._default_converter\<close>.\<close>

fun convert_to_aim :: "conv_env \<Rightarrow> converter option \<Rightarrow> klass rule \<Rightarrow> string \<Rightarrow> kwargs \<Rightarrow> obj list result" where
  "convert_to_aim cv None h t d = default_converter_to_aim cv h t d"
| "convert_to_aim cv (Some (ChildList aim aci mo)) h t d = child_list_to_aim cv aim aci mo h t d"
| "convert_to_aim cv (Some (ContractRs mo)) h t d = contract_rs_to_aim cv mo h t d"
| "convert_to_aim cv (Some (ListDict aim mp ids req)) h t d = list_dict_to_aim cv aim mp ids h t d"
| "convert_to_aim cv (Some (TdnRs attrs mo)) h t d = tdn_rs_to_aim cv attrs mo h t d"
| "convert_to_aim cv (Some FvRsDomAtt) h t d = fv_rs_dom_att_to_aim cv h t d"
| "convert_to_aim cv (Some FvRsPathAtt) h t d = fv_rs_path_att_to_aim cv h t d"
| "convert_to_aim cv (Some QosRsIngress) h t d = dpp_to_aim ''ingress_dpp_pol'' cv h t d"
| "convert_to_aim cv (Some QosRsEgress) h t d = dpp_to_aim ''egress_dpp_pol'' cv h t d"
| "convert_to_aim cv (Some QosEpDscpMarking) h t d = qos_ep_dscp_to_aim cv h t d"
| "convert_to_aim cv (Some QosRsReq) h t d = qos_rs_req_to_aim cv h t d"
| "convert_to_aim cv (Some MasterEpg) h t d = master_epg_to_aim cv h t d"
| "convert_to_aim cv (Some NextHop) h t d = next_hop_to_aim cv h t d"
| "convert_to_aim cv (Some L3extIp) h t d = l3ext_ip_to_aim cv h t d"
| "convert_to_aim cv (Some L3extMember) h t d = l3ext_member_to_aim cv h t d"
| "convert_to_aim cv (Some BgpExtp) h t d = bgp_extp_to_aim cv h t d"
| "convert_to_aim cv (Some SubnetConverter) h t d = subnet_to_aim cv h t d"
| "convert_to_aim cv (Some ContractConverter) h t d = contract_to_aim cv h t d"
| "convert_to_aim cv (Some HostprotPol) h t d = hostprot_to_aim ''hostprotPol'' cv h t d"
| "convert_to_aim cv (Some HostprotSubj) h t d = hostprot_to_aim ''hostprotSubj'' cv h t d"
| "convert_to_aim cv (Some HostprotRule) h t d = hostprot_to_aim ''hostprotRule'' cv h t d"
| "convert_to_aim cv (Some RsRemoteIpContainer) h t d = rs_remote_ip_container_to_aim cv h t d"
| "convert_to_aim cv (Some RemoteIp) h t d = remote_ip_to_aim cv h t d"
| "convert_to_aim cv (Some DeviceClusterConverter) h t d = default_converter_to_aim cv h t d"
| "convert_to_aim cv (Some DeviceClusterContextConverter) h t d = default_converter_to_aim cv h t d"
| "convert_to_aim cv (Some ServiceGraphConverter) h t d = default_converter_to_aim cv h t d"

fun convert_to_aci :: "conv_env \<Rightarrow> converter option \<Rightarrow> string rule \<Rightarrow> klass \<Rightarrow> kwargs \<Rightarrow> item list result" where
  "convert_to_aci cv None h k d = default_converter_to_aci cv h k d"
| "convert_to_aci cv (Some (ChildList aim aci mo)) h k d = child_list_to_aci cv aim aci mo h k d"
| "convert_to_aci cv (Some (ContractRs mo)) h k d = contract_rs_to_aci cv mo h k d"
| "convert_to_aci cv (Some (ListDict aim mp ids req)) h k d = list_dict_to_aci cv aim mp ids req h k d"
| "convert_to_aci cv (Some (TdnRs attrs mo)) h k d = tdn_rs_to_aci cv attrs mo h k d"
| "convert_to_aci cv (Some FvRsDomAtt) h k d = fv_rs_dom_att_to_aci cv h k d"
| "convert_to_aci cv (Some FvRsPathAtt) h k d = fv_rs_path_att_to_aci cv h k d"
| "convert_to_aci cv (Some QosRsIngress) h k d = dpp_to_aci ''ingress_dpp_pol'' ''qosRsIngressDppPol'' cv h d"
| "convert_to_aci cv (Some QosRsEgress) h k d = dpp_to_aci ''egress_dpp_pol'' ''qosRsEgressDppPol'' cv h d"
| "convert_to_aci cv (Some QosEpDscpMarking) h k d = qos_ep_dscp_to_aci cv h d"
| "convert_to_aci cv (Some QosRsReq) h k d = qos_rs_req_to_aci cv h d"
| "convert_to_aci cv (Some MasterEpg) h k d = master_epg_to_aci cv h k d"
| "convert_to_aci cv (Some NextHop) h k d = next_hop_to_aci cv h k d"
| "convert_to_aci cv (Some L3extIp) h k d = l3ext_ip_to_aci cv k d"
| "convert_to_aci cv (Some L3extMember) h k d = l3ext_member_to_aci cv h k d"
| "convert_to_aci cv (Some BgpExtp) h k d = bgp_extp_to_aci cv h k d"
| "convert_to_aci cv (Some SubnetConverter) h k d = plain_body_to_aci cv h k d"
| "convert_to_aci cv (Some ContractConverter) h k d = plain_body_to_aci cv h k d"
| "convert_to_aci cv (Some HostprotPol) h k d = plain_body_to_aci cv h k d"
| "convert_to_aci cv (Some HostprotSubj) h k d = plain_body_to_aci cv h k d"
| "convert_to_aci cv (Some HostprotRule) h k d = plain_body_to_aci cv h k d"
| "convert_to_aci cv (Some RsRemoteIpContainer) h k d = rs_remote_ip_container_to_aci cv h d"
| "convert_to_aci cv (Some RemoteIp) h k d = remote_ip_to_aci cv h k d"
| "convert_to_aci cv (Some DeviceClusterConverter) h k d = device_cluster_to_aci cv h k d"
| "convert_to_aci cv (Some DeviceClusterContextConverter) h k d = device_cluster_context_to_aci cv h k d"
| "convert_to_aci cv (Some ServiceGraphConverter) h k d = service_graph_to_aci cv h k d"

end
