(* ===== verification/Table_Facts.thy ===== *)
theory Table_Facts
  imports Converter_Tables
begin

text \<open>
  What the tables of rules guarantee: no rule skips the DN, and the classes that converters generate
  objects of have no rule with a converter that generates objects.
\<close>

definition generated_classes :: "string list" where
  "generated_classes = [''DeviceClusterInterface'', ''ConcreteDevice'', ''ConcreteDeviceInterface'',
     ''DeviceClusterInterfaceContext'', ''ServiceGraphNode'', ''ServiceGraphConnection'']"

definition generating :: "converter option \<Rightarrow> bool" where
  "generating c \<longleftrightarrow> c = Some DeviceClusterConverter \<or> c = Some DeviceClusterContextConverter \<or> c = Some ServiceGraphConverter"

lemma of_char_char_of: "n < 256 \<Longrightarrow> of_char (char_of n) = (n :: nat)"
  by simp

lemma to_upper_not_lower: "\<not> is_lower (to_upper c)"
proof (cases "is_lower c")
  case True
  define n where "n = (of_char c :: nat)"
  have n: "97 \<le> n" "n \<le> 122"
    using True by (simp_all add: is_lower_def less_eq_char_def n_def)
  then have "(of_char (char_of (n - 32)) :: nat) = n - 32"
    by (intro of_char_char_of) simp
  moreover have "\<not> 97 \<le> n - 32" using n by simp
  ultimately have "\<not> CHR ''a'' \<le> char_of (n - 32)"
    unfolding less_eq_char_def by simp
  with True show ?thesis
    by (simp only: to_upper_def is_lower_def n_def [symmetric] if_True simp_thms)
qed (simp add: to_upper_def)

lemma camel_dn:
  assumes "camel s = ''dn''"
  shows "s = ''dn''"
proof -
  obtain p ps where ps: "py_split (CHR ''_'') s = p # ps"
    by (cases "py_split (CHR ''_'') s") auto
  with assms obtain r where r: "camel_parts ps = Inr r" "p @ r = ''dn''"
    by (auto simp: camel_def attribute_to_aci_def split: sum.split_asm)
  show ?thesis
  proof (cases ps)
    case Nil
    with r ps have "p = ''dn''" "py_join ''_'' (py_split (CHR ''_'') s) = p" by simp_all
    then show ?thesis by (simp add: py_join_split)
  next
    case (Cons q qs)
    with r(1) obtain c q' r' where "r = to_upper c # r'"
      by (cases q) auto
    with r(2) have "to_upper c \<in> {CHR ''d'', CHR ''n''}"
      by (cases p) (auto simp: append_eq_Cons_conv Cons_eq_append_conv)
    then show ?thesis
      using to_upper_not_lower [of c] by (auto simp: is_lower_def less_eq_char_def)
  qed
qed

definition rule_ok :: "klass rule \<Rightarrow> bool" where
  "rule_ok r \<longleftrightarrow> ''dn'' \<notin> set (skip r) \<and> (generating (converter r) \<longrightarrow> kname (resource r) \<notin> set generated_classes)"

lemma rule_for_simps [simp]:
  "resource (rule_for k) = k" "exceptions (rule_for k) = []" "identity_converter (rule_for k) = None"
  "converter (rule_for k) = None" "to_res (rule_for k) = None" "convert_pre_existing (rule_for k) = None"
  "convert_monitored (rule_for k) = None" "skip (rule_for k) = []"
  by (simp_all add: rule_for_def)

definition map_ok :: "(string, klass rule list) dict \<Rightarrow> bool" where
  "map_ok m \<longleftrightarrow> list_all (\<lambda>(t, rs). list_all rule_ok rs) m"

lemma map_ok_simps [simp]:
  "map_ok []" "map_ok ((t, rs) # m) \<longleftrightarrow> list_all rule_ok rs \<and> map_ok m" "map_ok (m @ m') \<longleftrightarrow> map_ok m \<and> map_ok m'"
  by (simp_all add: map_ok_def)

lemma qos_ok: "map_ok qos_span_map"
  unfolding qos_span_map_def by (simp add: rule_ok_def generating_def)

lemma networks_ok: "map_ok networks_map"
  unfolding networks_map_def by (simp add: rule_ok_def generating_def)

lemma contracts_ok: "map_ok contracts_map"
  unfolding contracts_map_def by (simp add: rule_ok_def generating_def)

lemma l3out_ok: "map_ok l3out_map"
  unfolding l3out_map_def by (simp add: rule_ok_def generating_def)

lemma vmm_ok: "map_ok vmm_map"
  unfolding vmm_map_def by (simp add: rule_ok_def generating_def)

lemma devices_ok: "map_ok devices_map"
  unfolding devices_map_def
  by (simp add: rule_ok_def generating_def generated_classes_def DeviceCluster_def DeviceClusterContext_def ServiceGraph_def)

lemma redirect_ok: "map_ok redirect_map"
  unfolding redirect_map_def
  by (simp add: rule_ok_def generating_def generated_classes_def DeviceCluster_def DeviceClusterContext_def ServiceGraph_def)

lemma base_ok: "map_ok base_map"
  unfolding base_map_def
  by (simp add: qos_ok networks_ok contracts_ok l3out_ok vmm_ok devices_ok redirect_ok)

lemma reverse_rule_ok:
  assumes "h \<in> set (reverse_resource_map n)"
  shows "''dn'' \<notin> set (skip h)" "n \<in> set generated_classes \<Longrightarrow> \<not> generating (converter h)"
proof -
  obtain t rs r where r: "(t, rs) \<in> set base_map" "r \<in> set rs" "kname (resource r) = n" "h = reverse_rule t r"
    using assms by (auto simp: reverse_resource_map_def reverse_rules_def)
  then have "rule_ok r" using base_ok by (auto simp: map_ok_def list_all_iff)
  with r show "''dn'' \<notin> set (skip h)" "n \<in> set generated_classes \<Longrightarrow> \<not> generating (converter h)"
    by (auto simp: rule_ok_def reverse_rule_def dest: camel_dn [OF sym])
qed

end
