(* ===== verification/Aci_Converter.thy ===== *)
theory Aci_Converter
  imports Converters Table_Facts
begin

text \<open>
  \<open>AciToAimModelConverter\<close> and \<open>AimToAciModelConverter\<close> of \<open>converter.py\<close>: the conversion of a list
  of objects, with the exceptions that are logged and swallowed, and the squashing of the results.
\<close>

section \<open>Rules in turn\<close>

text \<open>The rules of an object are applied in turn; an exception ends the loop, what was converted before
  stays. The flag says whether the loop ended normally.\<close>

fun run_rules :: "('h \<Rightarrow> 'a list result) \<Rightarrow> 'h list \<Rightarrow> 'a list \<times> bool" where
  "run_rules f [] = ([], True)"
| "run_rules f (h # hs) =
     (case f h of Inl _ \<Rightarrow> ([], False) | Inr xs \<Rightarrow> (let (ys, ok) = run_rules f hs in (xs @ ys, ok)))"

text \<open>\<open>d[new] = d[old]; del d[old]\<close>, if \<open>old\<close> is in the dictionary.\<close>

definition rename_key :: "string \<Rightarrow> string \<Rightarrow> kwargs \<Rightarrow> kwargs" where
  "rename_key old new d = (case dict_get d old of None \<Rightarrow> d | Some v \<Rightarrow> dict_del old (dict_set new v d))"

section \<open>From ACI to AIM\<close>

definition mark_deleted :: "kwargs \<Rightarrow> obj list \<Rightarrow> obj list" where
  "mark_deleted d os = (if getor d ''status'' = JStr ''deleted'' then map (set_field ''_status'' (JStr ''deleted'')) os else os)"

text \<open>One object, and its attributes as the loop leaves them: an exception leaves the alias renamed.\<close>

definition aci_to_aim_one :: "conv_env \<Rightarrow> string \<times> kwargs \<Rightarrow> obj list \<times> kwargs" where
  "aci_to_aim_one cv = (\<lambda>(t, attrs).
     if rules_of t = [] then ([], attrs)
     else let d = rename_key ''nameAlias'' ''displayName'' attrs;
              (os, ok) = run_rules (\<lambda>h. bind_res (convert_to_aim cv (converter h) h t d) (\<lambda>os. Inr (mark_deleted d os))) (rules_of t)
          in (os, if ok then rename_key ''displayName'' ''nameAlias'' d else d))"

text \<open>
  Squashing. The objects under construction are keyed by type and identity. An item of a list with a
  \<open>_converter_id\<close> is remembered under its class, attribute and id by the place it was appended at, and
  a later item with the same id updates it there.
\<close>

type_synonym place = "string list \<times> string \<times> nat"

record squash_state =
  sq_objs :: "(string list, obj) dict"
  sq_items :: "(string \<times> string \<times> json, place) dict"

definition field_items :: "obj \<Rightarrow> string \<Rightarrow> json list result" where
  "field_items r a = (case dict_get (ofields r) a of
      None \<Rightarrow> Inr [] | Some (JList xs) \<Rightarrow> Inr xs | Some _ \<Rightarrow> Inl AttributeError)"

definition put_field :: "string list \<Rightarrow> string \<Rightarrow> json \<Rightarrow> squash_state \<Rightarrow> squash_state" where
  "put_field key a v st = (case dict_get (sq_objs st) key of
      None \<Rightarrow> st | Some r \<Rightarrow> st\<lparr>sq_objs := dict_set key (set_field a v r) (sq_objs st)\<rparr>)"

definition current_items :: "string list \<Rightarrow> string \<Rightarrow> squash_state \<Rightarrow> json list result" where
  "current_items key a st = (case dict_get (sq_objs st) key of None \<Rightarrow> Inr [] | Some r \<Rightarrow> field_items r a)"

definition append_item :: "string list \<Rightarrow> string \<Rightarrow> json \<Rightarrow> squash_state \<Rightarrow> squash_state result" where
  "append_item key a v st = bind_res (current_items key a st) (\<lambda>xs. Inr (put_field key a (JList (xs @ [v])) st))"

definition merge_item :: "kwargs \<Rightarrow> json \<Rightarrow> json" where
  "merge_item item v = (case v of JObj old \<Rightarrow> JObj (dict_update old item) | _ \<Rightarrow> v)"

definition update_place :: "kwargs \<Rightarrow> place \<Rightarrow> squash_state \<Rightarrow> squash_state" where
  "update_place item = (\<lambda>(key, a, n) st. case current_items key a st of
      Inl _ \<Rightarrow> st
    | Inr xs \<Rightarrow> if n < length xs then put_field key a (JList (xs[n := merge_item item (xs ! n)])) st else st)"

definition squash_dict_item ::
  "string \<Rightarrow> string list \<Rightarrow> string \<Rightarrow> json \<Rightarrow> kwargs \<Rightarrow> squash_state \<Rightarrow> squash_state result" where
  "squash_dict_item cls key a cid item st =
     (case dict_get (sq_items st) (cls, a, cid) of
        Some pl \<Rightarrow> Inr (update_place item pl st)
      | None \<Rightarrow>
          bind_res (current_items key a st) (\<lambda>xs.
            append_item key a (JObj item) (st\<lparr>sq_items := dict_set (cls, a, cid) (key, a, length xs) (sq_items st)\<rparr>)))"

definition squash_item :: "string \<Rightarrow> string list \<Rightarrow> string \<Rightarrow> json \<Rightarrow> squash_state \<Rightarrow> squash_state result" where
  "squash_item cls key a v st =
     (case v of
        JObj kvs \<Rightarrow>
          (case dict_get kvs ''_converter_id'' of
             Some cid \<Rightarrow> squash_dict_item cls key a cid (dict_del ''_converter_id'' kvs) st
           | None \<Rightarrow> append_item key a v st)
      | _ \<Rightarrow> append_item key a v st)"

definition squash_field :: "string \<Rightarrow> string list \<Rightarrow> string \<times> json \<Rightarrow> squash_state \<Rightarrow> squash_state result" where
  "squash_field cls key = (\<lambda>(a, v) st.
     case v of JList xs \<Rightarrow> fold_res (squash_item cls key a) xs st | _ \<Rightarrow> Inr (put_field key a v st))"

definition squash_one :: "conv_env \<Rightarrow> obj \<Rightarrow> squash_state \<Rightarrow> squash_state result" where
  "squash_one cv r st =
     (case klass_of (cv_env cv) (oclass r) of
        None \<Rightarrow> Inl AttributeError
      | Some k \<Rightarrow>
          bind_res (identity k r) (\<lambda>ids.
          bind_res (make_obj (cv_conf cv) k (zip (id_names k) (map JStr ids))) (\<lambda>fresh.
            let key = mo_of k # ids;
                st' = (if dict_get (sq_objs st) key = None then st\<lparr>sq_objs := dict_set key fresh (sq_objs st)\<rparr> else st)
            in fold_res (squash_field (kname k) key) (ofields r) st')))"

definition squash_aim :: "conv_env \<Rightarrow> obj list \<Rightarrow> obj list result" where
  "squash_aim cv rs =
     bind_res (fold_res (squash_one cv) rs \<lparr>sq_objs = [], sq_items = []\<rparr>) (\<lambda>st. Inr (map snd (sq_objs st)))"

definition aci_to_aim :: "conv_env \<Rightarrow> (string \<times> kwargs) list \<Rightarrow> obj list result" where
  "aci_to_aim cv objs = squash_aim cv (concat (map (fst \<circ> aci_to_aim_one cv) objs))"

section \<open>From AIM to ACI\<close>

definition applicable :: "obj \<Rightarrow> 'r rule \<Rightarrow> bool" where
  "applicable r h \<longleftrightarrow>
     \<not> (json_truth (dict_getd (ofields r) ''pre_existing'' (JBool False)) \<and> convert_pre_existing h \<noteq> Some True) \<and>
     \<not> (json_truth (dict_getd (ofields r) ''monitored'' (JBool False)) \<and> convert_monitored h = Some False)"

definition aim_to_aci_one :: "conv_env \<Rightarrow> obj \<Rightarrow> item list \<times> obj" where
  "aim_to_aci_one cv r =
     (case klass_of (cv_env cv) (oclass r) of
        None \<Rightarrow> ([], r)
      | Some k \<Rightarrow>
          if reverse_resource_map (kname k) = [] then ([], r)
          else let d = rename_key ''display_name'' ''name_alias'' (ofields r);
                   (items, ok) = run_rules (\<lambda>h. convert_to_aci cv (converter h) h k d)
                                   (filter (applicable r) (reverse_resource_map (kname k)))
               in (items, r\<lparr>ofields := if ok then rename_key ''name_alias'' ''display_name'' d else d\<rparr>))"

fun aims_of :: "item list \<Rightarrow> obj list" where
  "aims_of [] = []"
| "aims_of (Aim r # is) = r # aims_of is"
| "aims_of (Aci t attrs # is) = aims_of is"

fun acis_of :: "item list \<Rightarrow> (string \<times> kwargs) list" where
  "acis_of [] = []"
| "acis_of (Aim r # is) = acis_of is"
| "acis_of (Aci t attrs # is) = (t, attrs) # acis_of is"

definition generated :: "conv_env \<Rightarrow> obj \<Rightarrow> obj list" where
  "generated cv r = aims_of (fst (aim_to_aci_one cv r))"

section \<open>The loop ends\<close>

text \<open>The objects that converters generate are of classes whose converters generate none.\<close>

lemma aims_of_iff: "o' \<in> set (aims_of is) \<longleftrightarrow> Aim o' \<in> set is"
  by (induction "is" rule: aims_of.induct) auto

lemma aims_of_append: "aims_of (xs @ ys) = aims_of xs @ aims_of ys"
  by (induction xs rule: aims_of.induct) auto

definition plain :: "item \<Rightarrow> bool" where
  "plain i \<longleftrightarrow> (case i of Aci t attrs \<Rightarrow> dict_get attrs ''dn'' \<noteq> None | Aim r \<Rightarrow> False)"

lemma traverse_res_mem:
  "\<lbrakk>traverse_res f xs = Inr ys; y \<in> set ys\<rbrakk> \<Longrightarrow> \<exists>x \<in> set xs. f x = Inr y"
  by (induction xs arbitrary: ys) auto

lemma traverse_res_all:
  "\<lbrakk>traverse_res f xs = Inr ys; \<And>x y. f x = Inr y \<Longrightarrow> P y\<rbrakk> \<Longrightarrow> \<forall>y \<in> set ys. P y"
  using traverse_res_mem by fastforce

lemma for_items_all:
  assumes "for_items v f = Inr is" "\<And>p js. f p = Inr js \<Longrightarrow> \<forall>i \<in> set js. P i"
  shows "\<forall>i \<in> set is. P i"
proof -
  obtain xs iss where "traverse_res (\<lambda>x. bind_res (json_dict x) f) xs = Inr iss" "is = concat iss"
    using assms(1) by (auto simp: for_items_def)
  moreover have "\<forall>js \<in> set iss. \<forall>i \<in> set js. P i"
    by (rule traverse_res_all [OF calculation(1)]) (use assms(2) in auto)
  ultimately show ?thesis by auto
qed

subsection \<open>The attributes of an ACI object include its DN\<close>

lemma dict_update_keeps: "dict_get d k \<noteq> None \<Longrightarrow> dict_get (dict_update d kvs) k \<noteq> None"
  by (simp add: dict_get_update split: option.split)

lemma dict_update_keeps': "dict_get d k = Some v \<Longrightarrow> \<exists>w. dict_get (dict_update d kvs) k = Some w"
  using dict_update_keeps [of d k kvs] by auto

lemma convert_attributes_keeps:
  assumes "convert_attributes conv names source dest res = Inr res'" "dict_get res k \<noteq> None"
  shows "dict_get res' k \<noteq> None"
  using assms(1) unfolding convert_attributes_def
proof (rule fold_res_invariant [rotated, where I = "\<lambda>r. dict_get r k \<noteq> None"])
  show "dict_get res k \<noteq> None" by fact
next
  fix a r r'
  assume "(if a \<in> set source then Inr r else bind_res (conv a) (\<lambda>others. Inr (add_others dest others r))) = Inr r'"
    and "dict_get r k \<noteq> None"
  then show "dict_get r' k \<noteq> None"
    using dict_update_keeps [of r k] by (auto simp: add_others_def split: if_split_asm)
qed

lemma converted_has_dn: "convert_attributes_to_aci cv h k d dn = Inr c \<Longrightarrow> dict_get c ''dn'' \<noteq> None"
  unfolding convert_attributes_to_aci_def by (erule convert_attributes_keeps) simp

lemma dict_get_filter_keys: "dict_get (filter (\<lambda>(k, _). P k) d) a = (if P a then dict_get d a else None)"
  by (induction d) auto

lemma plain_Aci [simp]: "plain (Aci t attrs) \<longleftrightarrow> dict_get attrs ''dn'' \<noteq> None"
  by (simp add: plain_def)

lemma plain_one_aci [simp]: "plain (one_aci h dn attrs)"
  by (simp add: one_aci_def)

lemma plain_default:
  "\<lbrakk>dict_get c ''dn'' \<noteq> None; ''dn'' \<notin> set (skip h)\<rbrakk> \<Longrightarrow> plain (default_to_aci h c)"
  by (simp add: default_to_aci_def dict_get_filter_keys default_skip_def)

lemma getitem_Inr [simp]: "getitem d a = Inr v \<longleftrightarrow> dict_get d a = Some v"
  by (simp add: getitem_def split: option.split)

lemma plain_resource:
  assumes "resource_to_aci tr h c = Inr (Some i)" "dict_get c ''dn'' \<noteq> None" "''dn'' \<notin> set (skip h)"
  shows "plain i"
  using assms plain_default [OF assms(2,3)]
  by (cases "(tr, h, c)" rule: resource_to_aci.cases)
    (auto simp: strict_to_aci_def filter_container_to_aci_def fault_to_aci_def Let_def dict_simps
      split: item.split_asm if_split_asm)

lemma plain_default_converter:
  assumes "default_converter_to_aci cv h k d = Inr is" "''dn'' \<notin> set (skip h)"
  shows "\<forall>i \<in> set is. plain i"
proof -
  obtain dn c o' where "convert_attributes_to_aci cv h k d dn = Inr c" "resource_to_aci (to_res h) h c = Inr o'"
    "is = list_of_item o'"
    using assms(1) by (auto simp: default_converter_to_aci_def)
  with plain_resource [OF _ converted_has_dn assms(2)] show ?thesis
    by (auto simp: list_of_item_def split: option.split)
qed

subsection \<open>Which converters generate objects\<close>

lemma plain_children:
  "child_list_to_aci cv aim aci mo h k d = Inr is \<Longrightarrow> \<forall>i \<in> set is. plain i"
  by (auto simp: child_list_to_aci_def Let_def dict_simps dest!: traverse_res_mem)

lemma plain_list_dict:
  assumes "list_dict_to_aci cv aim mp ids req h k d = Inr is"
  shows "\<forall>i \<in> set is. plain i"
proof -
  have item: "\<forall>i \<in> set js. plain i" if "list_dict_item cv mp ids req h k d v = Inr js" for v js
  proof -
    have keep: "dict_get c ''dn'' \<noteq> None" if "list_item_to_aci cv mp item dn = Inr c" for item dn c
      using that unfolding list_item_to_aci_def
      by (rule fold_res_invariant [rotated, where I = "\<lambda>c. dict_get c ''dn'' \<noteq> None"])
        (auto split: if_split_asm intro: dict_update_keeps')
    show ?thesis
      using that by (auto simp: list_dict_item_def Let_def split: json.split_asm if_split_asm dest!: keep)
  qed
  obtain vs iss where "traverse_res (list_dict_item cv mp ids req h k d) vs = Inr iss" "is = concat iss"
    using assms by (auto simp: list_dict_to_aci_def)
  moreover have "\<forall>js \<in> set iss. \<forall>i \<in> set js. plain i"
    by (rule traverse_res_all [OF calculation(1) item])
  ultimately show ?thesis by auto
qed

lemma plain_vmm_dom_att: "vmm_dom_att cv k d (ty, name) = Inr i \<Longrightarrow> plain i"
  by (cases ty) (auto simp: vmm_dom_att_def)

lemma plain_dom_att:
  assumes "fv_rs_dom_att_to_aci cv h k d = Inr is"
  shows "\<forall>i \<in> set is. plain i"
proof -
  obtain phys ps vmms vs where ps: "traverse_res (phys_dom_att cv k d) phys = Inr ps"
    and vs: "traverse_res (vmm_dom_att cv k d) vmms = Inr vs" and "is = ps @ vs"
    using assms by (auto simp: fv_rs_dom_att_to_aci_def)
  moreover have "\<forall>i \<in> set ps. plain i"
    by (rule traverse_res_all [OF ps]) (auto simp: phys_dom_att_def)
  moreover have "\<forall>i \<in> set vs. plain i"
    by (rule traverse_res_all [OF vs]) (use plain_vmm_dom_att in fast)
  ultimately show ?thesis by auto
qed

lemma plain_secondary_ips: "secondary_ips cv k d attr mo side = Inr is \<Longrightarrow> \<forall>i \<in> set is. plain i"
  unfolding secondary_ips_def by (erule for_items_all) (auto split: if_split_asm)

lemma plain_l3ext_ip: "l3ext_ip_to_aci cv k d = Inr is \<Longrightarrow> \<forall>i \<in> set is. plain i"
  by (auto simp: l3ext_ip_to_aci_def split: if_split_asm dest!: plain_secondary_ips)

lemma plain_master_epg: "master_epg_to_aci cv h k d = Inr is \<Longrightarrow> \<forall>i \<in> set is. plain i"
  by (auto simp: master_epg_to_aci_def split: if_split_asm dest!: for_items_all [where P = plain])

lemma plain_next_hop: "next_hop_to_aci cv h k d = Inr is \<Longrightarrow> \<forall>i \<in> set is. plain i"
  unfolding next_hop_to_aci_def by (erule for_items_all) (auto split: if_split_asm)

lemma plain_body:
  "\<lbrakk>plain_body_to_aci cv h k d = Inr is; ''dn'' \<notin> set (skip h)\<rbrakk> \<Longrightarrow> \<forall>i \<in> set is. plain i"
  by (auto simp: plain_body_to_aci_def intro!: plain_default [OF converted_has_dn])

lemma plain_simple_converters:
  "contract_rs_to_aci cv mo h k d = Inr is \<Longrightarrow> \<forall>i \<in> set is. plain i"
  "tdn_rs_to_aci cv attrs mo' h k d = Inr is \<Longrightarrow> \<forall>i \<in> set is. plain i"
  "fv_rs_path_att_to_aci cv h k d = Inr is \<Longrightarrow> \<forall>i \<in> set is. plain i"
  "dpp_to_aci attr mo' cv h d = Inr is \<Longrightarrow> \<forall>i \<in> set is. plain i"
  "qos_ep_dscp_to_aci cv h d = Inr is \<Longrightarrow> \<forall>i \<in> set is. plain i"
  "qos_rs_req_to_aci cv h d = Inr is \<Longrightarrow> \<forall>i \<in> set is. plain i"
  "bgp_extp_to_aci cv h k d = Inr is \<Longrightarrow> \<forall>i \<in> set is. plain i"
  "rs_remote_ip_container_to_aci cv h d = Inr is \<Longrightarrow> \<forall>i \<in> set is. plain i"
  by (auto simp: contract_rs_to_aci_def tdn_rs_to_aci_def fv_rs_path_att_to_aci_def dpp_to_aci_def
      qos_ep_dscp_to_aci_def qos_rs_req_to_aci_def bgp_extp_to_aci_def rs_remote_ip_container_to_aci_def Let_def
      split: if_split_asm)

lemma plain_l3ext_member: "l3ext_member_to_aci cv h k d = Inr is \<Longrightarrow> \<forall>i \<in> set is. plain i"
  by (auto simp: l3ext_member_to_aci_def l3ext_member_side_def split: if_split_asm)

lemma plain_remote_ip: "remote_ip_to_aci cv h k d = Inr is \<Longrightarrow> \<forall>i \<in> set is. plain i"
  by (auto simp: remote_ip_to_aci_def dest!: traverse_res_mem)

lemmas plain_converters =
  plain_default_converter plain_children plain_list_dict plain_dom_att plain_l3ext_ip plain_master_epg plain_next_hop
  plain_body plain_simple_converters plain_l3ext_member plain_remote_ip

lemma plain_convert_to_aci:
  assumes "\<not> generating c" "''dn'' \<notin> set (skip h)" "convert_to_aci cv c h k d = Inr is"
  shows "\<forall>i \<in> set is. plain i"
  using assms
  by (cases "(cv, c, h, k, d)" rule: convert_to_aci.cases) (simp_all add: generating_def plain_converters)

text \<open>The three others add objects of six classes.\<close>

definition from_converter :: "item \<Rightarrow> bool" where
  "from_converter i \<longleftrightarrow> plain i \<or> (\<exists>r. i = Aim r \<and> oclass r \<in> set generated_classes)"

lemma make_obj_class: "make_obj c k kw = Inr r \<Longrightarrow> oclass r = kname k"
  by (auto simp: make_obj_def resource_init_def Let_def split: if_split_asm prod.split_asm)

lemma set_field_class [simp]: "oclass (set_field a v r) = oclass r"
  by (simp add: set_field_def)

lemma from_converter_Aim [simp]: "from_converter (Aim r) \<longleftrightarrow> oclass r \<in> set generated_classes"
  by (simp add: from_converter_def plain_def)

lemma plain_from_converter: "plain i \<Longrightarrow> from_converter i"
  by (simp add: from_converter_def)

lemma kname_generated [simp]:
  "kname DeviceClusterInterface \<in> set generated_classes" "kname ConcreteDevice \<in> set generated_classes"
  "kname ConcreteDeviceInterface \<in> set generated_classes"
  "kname DeviceClusterInterfaceContext \<in> set generated_classes"
  "kname ServiceGraphNode \<in> set generated_classes" "kname ServiceGraphConnection \<in> set generated_classes"
  by (simp_all add: generated_classes_def DeviceClusterInterface_def ConcreteDevice_def ConcreteDeviceInterface_def
      DeviceClusterInterfaceContext_def ServiceGraphNode_def ServiceGraphConnection_def)

lemma cluster_node_classes:
  "cluster_node cv d b v = Inr (os, dns) \<Longrightarrow> \<forall>r \<in> set os. oclass r \<in> set generated_classes"
  by (auto simp: cluster_node_def new_obj_def Let_def dest!: make_obj_class split: json.split_asm if_split_asm option.split_asm)

lemma context_ref_class: "context_ref cv d a t mo f ex ctx = Inr ctx' \<Longrightarrow> oclass ctx' = oclass ctx"
  by (auto simp: context_ref_def split: if_split_asm)

lemma consumer_context_class: "consumer_context cv d = Inr ctx \<Longrightarrow> oclass ctx \<in> set generated_classes"
  by (auto simp: consumer_context_def new_obj_def dest!: make_obj_class context_ref_class)

lemma graph_node_classes: "graph_node cv tn gr fn (prev, n) = Inr (os, p) \<Longrightarrow> \<forall>r \<in> set os. oclass r \<in> set generated_classes"
  by (auto simp: graph_node_def graph_connection_def new_obj_def Let_def dest!: make_obj_class)

lemma graph_chain_classes:
  "graph_chain cv tn gr fns prev n = Inr (os, l, m) \<Longrightarrow> \<forall>r \<in> set os. oclass r \<in> set generated_classes"
proof (induction fns arbitrary: prev n os l m)
  case (Cons fn fns)
  then obtain os1 prov os2 where "graph_node cv tn gr fn (prev, n + 1) = Inr (os1, prov)"
    "graph_chain cv tn gr fns prov (n + 1) = Inr (os2, l, m)" "os = os1 @ os2" by auto
  with Cons.IH graph_node_classes show ?case by fastforce
qed simp

lemma cluster_nodes_classes:
  "\<lbrakk>traverse_res (cluster_node cv d b) nodes = Inr made; (os, dns) \<in> set made; r \<in> set os\<rbrakk>
     \<Longrightarrow> oclass r \<in> set generated_classes"
  by (drule (1) traverse_res_mem) (auto dest: cluster_node_classes)

lemma device_cluster_items:
  assumes "device_cluster_to_aci cv h k d = Inr is" "''dn'' \<notin> set (skip h)"
  shows "\<forall>i \<in> set is. from_converter i"
  using assms(1) plain_default_converter [OF _ assms(2)]
  by (auto simp: device_cluster_to_aci_def new_obj_def plain_from_converter split: if_split_asm
      dest!: make_obj_class)
    (erule (2) cluster_nodes_classes)+

lemma device_cluster_context_items:
  assumes "device_cluster_context_to_aci cv h k d = Inr is" "''dn'' \<notin> set (skip h)"
  shows "\<forall>i \<in> set is. from_converter i"
  using assms plain_default_converter [OF _ assms(2)]
  by (auto simp: device_cluster_context_to_aci_def plain_from_converter dest!: consumer_context_class split: if_split_asm)

lemma graph_objs_plain:
  "\<lbrakk>traverse_res (graph_obj cv tn gr) ts = Inr terms; i \<in> set terms\<rbrakk> \<Longrightarrow> from_converter i"
  by (auto simp: graph_obj_def plain_from_converter dest!: traverse_res_mem split: prod.split_asm)

lemma service_graph_items:
  assumes "service_graph_to_aci cv h k d = Inr is" "''dn'' \<notin> set (skip h)"
  shows "\<forall>i \<in> set is. from_converter i"
  using assms(1) plain_default_converter [OF _ assms(2)]
  by (auto simp: service_graph_to_aci_def graph_connection_def new_obj_def plain_from_converter split: if_split_asm
      dest!: make_obj_class graph_chain_classes dest: graph_objs_plain)

lemma converted_items:
  assumes "convert_to_aci cv c h k d = Inr is" "''dn'' \<notin> set (skip h)"
  shows "\<forall>i \<in> set is. from_converter i"
proof (cases "generating c")
  case True
  then consider "c = Some DeviceClusterConverter" | "c = Some DeviceClusterContextConverter" | "c = Some ServiceGraphConverter"
    by (auto simp: generating_def)
  then show ?thesis
    using assms device_cluster_items device_cluster_context_items service_graph_items by cases auto
next
  case False
  with plain_convert_to_aci [OF this assms(2,1)] show ?thesis by (simp add: plain_from_converter)
qed

subsection \<open>The rules of an object\<close>

lemma run_rules_mem:
  "x \<in> set (fst (run_rules f hs)) \<Longrightarrow> \<exists>h \<in> set hs. \<exists>xs. f h = Inr xs \<and> x \<in> set xs"
  by (induction hs) (auto split: sum.split_asm prod.split_asm)

lemma one_items:
  assumes "i \<in> set (fst (aim_to_aci_one cv r))"
  obtains k h its where "klass_of (cv_env cv) (oclass r) = Some k" "h \<in> set (reverse_resource_map (kname k))"
    "convert_to_aci cv (converter h) h k (rename_key ''display_name'' ''name_alias'' (ofields r)) = Inr its" "i \<in> set its"
proof (cases "klass_of (cv_env cv) (oclass r)")
  case None
  with assms show ?thesis by (simp add: aim_to_aci_one_def)
next
  case (Some k)
  let ?d = "rename_key ''display_name'' ''name_alias'' (ofields r)"
  have "i \<in> set (fst (run_rules (\<lambda>h. convert_to_aci cv (converter h) h k ?d)
      (filter (applicable r) (reverse_resource_map (kname k)))))"
    using assms Some by (simp add: aim_to_aci_one_def Let_def split: if_split_asm prod.split_asm)
  from run_rules_mem [OF this] Some that show ?thesis by auto
qed

lemma generated_class:
  assumes "r' \<in> set (generated cv r)"
  shows "oclass r' \<in> set generated_classes"
proof -
  have "Aim r' \<in> set (fst (aim_to_aci_one cv r))" using assms by (simp add: generated_def aims_of_iff)
  then obtain k h its where "h \<in> set (reverse_resource_map (kname k))"
    "convert_to_aci cv (converter h) h k (rename_key ''display_name'' ''name_alias'' (ofields r)) = Inr its" "Aim r' \<in> set its"
    by (rule one_items)
  then have "from_converter (Aim r')" using converted_items reverse_rule_ok(1) by blast
  then show ?thesis by simp
qed

lemma klass_of_name: "klass_of e n = Some k \<Longrightarrow> kname k = n"
  by (auto simp: klass_of_def find_Some_iff)

lemma no_generated:
  assumes "oclass r \<in> set generated_classes"
  shows "generated cv r = []"
proof (rule ccontr)
  assume "generated cv r \<noteq> []"
  then obtain o' where "Aim o' \<in> set (fst (aim_to_aci_one cv r))"
    by (metis aims_of_iff generated_def list.set_intros(1) neq_Nil_conv)
  then obtain k h its where k: "klass_of (cv_env cv) (oclass r) = Some k"
    and h: "h \<in> set (reverse_resource_map (kname k))"
    and c: "convert_to_aci cv (converter h) h k (rename_key ''display_name'' ''name_alias'' (ofields r)) = Inr its"
    and i: "Aim o' \<in> set its"
    by (rule one_items)
  have "\<not> generating (converter h)"
    using reverse_rule_ok(2) [OF h] klass_of_name [OF k] assms by simp
  with plain_convert_to_aci [OF _ reverse_rule_ok(1) [OF h] c] i show False
    by (auto simp: plain_def)
qed

text \<open>The list of objects grows while it is read: generated objects are converted after the others.\<close>

function conv_loop :: "conv_env \<Rightarrow> obj list \<Rightarrow> (string \<times> kwargs) list \<times> obj list" where
  "conv_loop cv [] = ([], [])"
| "conv_loop cv (r # rs) =
     (let (items, r') = aim_to_aci_one cv r; (acis, left) = conv_loop cv (rs @ aims_of items)
      in (acis_of items @ acis, r' # left))"
  by pat_completeness auto

termination
proof (relation "measures [\<lambda>(cv, rs). length (filter (\<lambda>r. generated cv r \<noteq> []) rs), \<lambda>(cv, rs). length rs]")
  fix cv :: conv_env and r rs x items r'
  assume x: "x = aim_to_aci_one cv r" "(items, r') = x"
  then have g: "aims_of items = generated cv r"
    by (metis fst_conv generated_def)
  have "filter (\<lambda>o'. generated cv o' \<noteq> []) (aims_of items) = []"
    unfolding g using no_generated generated_class by (auto simp: filter_empty_conv)
  then show "((cv, rs @ aims_of items), cv, r # rs)
      \<in> measures [\<lambda>(cv, rs). length (filter (\<lambda>r. generated cv r \<noteq> []) rs), \<lambda>(cv, rs). length rs]"
    using g by (cases "generated cv r = []") auto
qed simp

text \<open>Squashing: the first object with a DN keeps its place, the last one of each type gives the attributes.\<close>

type_synonym aci_dict = "(string, kwargs) dict"

definition squash_step :: "string \<times> kwargs \<Rightarrow> (json, aci_dict) dict \<Rightarrow> (json, aci_dict) dict result" where
  "squash_step = (\<lambda>(t, attrs) m. bind_res (getitem attrs ''dn'') (\<lambda>dn.
     Inr (dict_set dn (dict_set t attrs (dict_getd m dn [(t, attrs)])) m)))"

definition squash_aci :: "(string \<times> kwargs) list \<Rightarrow> aci_dict list result" where
  "squash_aci res = bind_res (fold_res squash_step res []) (\<lambda>m. Inr (map snd m))"

definition aim_to_aci :: "conv_env \<Rightarrow> obj list \<Rightarrow> aci_dict list result" where
  "aim_to_aci cv rs = squash_aci (fst (conv_loop cv rs))"

end
