(* ===== verification/Converter_Props.thy ===== *)
theory Converter_Props
  imports Aci_Converter
begin

text \<open>
  Properties of the conversion to ACI: attribute names are converted back and forth, a conversion
  never raises and squashes what it finds, objects another system owns are left alone. And of the
  conversion to AIM: the classes of its results.
\<close>

section \<open>Attribute names\<close>

definition snake_ok :: "string \<Rightarrow> bool" where
  "snake_ok a \<longleftrightarrow> list_all (\<lambda>c. \<not> is_upper c) a
     \<and> list_all (\<lambda>p. p \<noteq> [] \<and> is_lower (hd p)) (tl (py_split (CHR ''_'') a))"

lemma attribute_to_aim_append: "attribute_to_aim (a @ b) = attribute_to_aim a @ attribute_to_aim b"
  by (simp add: attribute_to_aim_def)

lemma attribute_to_aim_lower: "list_all (\<lambda>c. \<not> is_upper c) a \<Longrightarrow> attribute_to_aim a = a"
  by (induction a) (simp_all add: attribute_to_aim_def to_lower_def)

lemma upper_of_lower:
  assumes "is_lower c"
  shows "is_upper (to_upper c)" "to_lower (to_upper c) = c"
proof -
  define n where "n = (of_char c :: nat)"
  have n: "97 \<le> n" "n \<le> 122" "char_of n = c"
    using assms by (simp_all add: is_lower_def less_eq_char_def n_def)
  have u: "to_upper c = char_of (n - 32)" and o': "(of_char (char_of (n - 32)) :: nat) = n - 32"
    using assms n by (simp add: to_upper_def n_def, intro of_char_char_of) simp
  have "65 \<le> n - 32" "n - 32 \<le> 90" "n - 32 + 32 = n" using n by simp_all
  then show "is_upper (to_upper c)" "to_lower (to_upper c) = c"
    unfolding to_lower_def u is_upper_def less_eq_char_def o' using n(3) by simp_all
qed

lemma camel_parts_back:
  assumes "list_all (\<lambda>p. p \<noteq> [] \<and> is_lower (hd p)) ps" "list_all (list_all (\<lambda>c. \<not> is_upper c)) ps"
  shows "\<exists>r. camel_parts ps = Inr r \<and> attribute_to_aim r = concat (map (\<lambda>p. ''_'' @ p) ps)"
  using assms
proof (induction ps)
  case (Cons p ps)
  then obtain c q r where "p = c # q" "is_lower c" "list_all (\<lambda>c. \<not> is_upper c) q"
    "camel_parts ps = Inr r" "attribute_to_aim r = concat (map (\<lambda>p. ''_'' @ p) ps)"
    by (cases p) auto
  then show ?case
    using attribute_to_aim_append [of "[to_upper c]" "q @ r"] attribute_to_aim_append [of q r] upper_of_lower [of c]
    by (simp add: attribute_to_aim_lower [of q]) (simp add: attribute_to_aim_def)
qed (simp add: attribute_to_aim_def)

lemma py_join_concat: "py_join [c] (p # ps) = p @ concat (map (\<lambda>q. [c] @ q) ps)"
  by (induction ps arbitrary: p) auto

lemma set_py_split: "p \<in> set (py_split c s) \<Longrightarrow> set p \<subseteq> set s"
proof -
  assume "p \<in> set (py_split c s)"
  moreover have "set q \<subseteq> set (py_join [c] ps)" if "q \<in> set ps" for q ps
    using that by (induction "[c]" ps rule: py_join.induct) auto
  ultimately show ?thesis by (metis py_join_split)
qed

text \<open>Converting the name of an AIM attribute to its ACI form and back gives the name again, for
  every name in snake case whose words start with a letter.\<close>

theorem attribute_name_roundtrip:
  assumes "snake_ok a"
  shows "\<exists>c. attribute_to_aci a = Inr c \<and> attribute_to_aim c = a"
proof -
  obtain p ps where split: "py_split (CHR ''_'') a = p # ps"
    by (cases "py_split (CHR ''_'') a") auto
  have noup: "list_all (\<lambda>c. \<not> is_upper c) q" if "q \<in> set (p # ps)" for q
    using set_py_split [of q "CHR ''_''" a] that assms split by (auto simp: snake_ok_def list_all_iff)
  obtain r where r: "camel_parts ps = Inr r" "attribute_to_aim r = concat (map (\<lambda>p. ''_'' @ p) ps)"
    using camel_parts_back [of ps] assms noup split by (auto simp: snake_ok_def list_all_iff)
  have "attribute_to_aim (p @ r) = py_join ''_'' (p # ps)"
    by (simp add: attribute_to_aim_append attribute_to_aim_lower noup r(2) py_join_concat)
  also have "\<dots> = a" by (simp add: py_join_split flip: split)
  finally show ?thesis using r(1) split by (simp add: attribute_to_aci_def)
qed

theorem attribute_name_roundtrip_witness:
  "\<exists>c. attribute_to_aci ''limit_ip_learn_to_subnets'' = Inr c \<and> attribute_to_aim c = ''limit_ip_learn_to_subnets''"
  by (rule attribute_name_roundtrip) code_simp

section \<open>Squashing\<close>

lemma items_of_rules: "i \<in> set (fst (aim_to_aci_one cv r)) \<Longrightarrow> from_converter i"
  by (erule one_items) (use converted_items reverse_rule_ok(1) in blast)

lemma acis_of_mem: "(t, attrs) \<in> set (acis_of is) \<longleftrightarrow> Aci t attrs \<in> set is"
  by (induction "is" rule: acis_of.induct) auto

lemma conv_loop_dn: "(t, attrs) \<in> set (fst (conv_loop cv rs)) \<Longrightarrow> dict_get attrs ''dn'' \<noteq> None"
proof (induction cv rs rule: conv_loop.induct)
  case (2 cv r rs)
  obtain items r' where one: "aim_to_aci_one cv r = (items, r')" by fastforce
  obtain acis left where rest: "conv_loop cv (rs @ aims_of items) = (acis, left)" by fastforce
  have "from_converter (Aci t attrs) \<or> (t, attrs) \<in> set acis"
    using "2.prems" one rest items_of_rules [of "Aci t attrs" cv r] by (auto simp: acis_of_mem)
  then show ?case
    using "2.IH" [OF one [symmetric] refl] rest by (auto simp: from_converter_def)
qed simp

definition by_dn :: "(string \<times> kwargs) list \<Rightarrow> ((json \<times> string) \<times> kwargs) list" where
  "by_dn res = map (\<lambda>(t, attrs). ((getor attrs ''dn'', t), attrs)) res"

definition entry_of :: "(json, aci_dict) dict \<Rightarrow> json \<Rightarrow> string \<Rightarrow> kwargs option" where
  "entry_of m dn t = (case dict_get m dn of None \<Rightarrow> None | Some d \<Rightarrow> dict_get d t)"

lemma squash_step_result:
  assumes "dict_get attrs ''dn'' \<noteq> None"
  shows "\<exists>m'. squash_step (t, attrs) m = Inr m' \<and> (dict_ok m \<longrightarrow> dict_ok m') \<and>
    entry_of m' = (\<lambda>dn t'. if (dn, t') = (getor attrs ''dn'', t) then Some attrs else entry_of m dn t')"
proof -
  obtain dn where dn: "dict_get attrs ''dn'' = Some dn" using assms by auto
  let ?m = "dict_set dn (dict_set t attrs (dict_getd m dn [(t, attrs)])) m"
  have "entry_of ?m = (\<lambda>dn' t'. if (dn', t') = (dn, t) then Some attrs else entry_of m dn' t')"
    by (auto simp: fun_eq_iff entry_of_def dict_simps dict_getd_def split: option.split)
  with dn show ?thesis
    by (intro exI [of _ ?m]) (simp add: squash_step_def getor_def dict_getd_def dict_ok_set)
qed

lemma squash_fold_result:
  assumes "\<forall>(t, attrs) \<in> set res. dict_get attrs ''dn'' \<noteq> None" "dict_ok m"
  shows "\<exists>m'. fold_res squash_step res m = Inr m' \<and> dict_ok m' \<and>
    (\<forall>dn t. entry_of m' dn t = (case map_of (rev (by_dn res)) (dn, t) of Some a \<Rightarrow> Some a | None \<Rightarrow> entry_of m dn t))"
  using assms
proof (induction res arbitrary: m)
  case (Cons ta res)
  obtain t attrs where ta: "ta = (t, attrs)" by fastforce
  have dn: "dict_get attrs ''dn'' \<noteq> None" using Cons.prems(1) ta by simp
  obtain m1 where m1: "squash_step (t, attrs) m = Inr m1" "dict_ok m1"
    "entry_of m1 = (\<lambda>dn t'. if (dn, t') = (getor attrs ''dn'', t) then Some attrs else entry_of m dn t')"
    using squash_step_result [OF dn, of t m] Cons.prems(2) by blast
  obtain m' where m': "fold_res squash_step res m1 = Inr m'" "dict_ok m'"
    "\<And>dn t. entry_of m' dn t = (case map_of (rev (by_dn res)) (dn, t) of Some a \<Rightarrow> Some a | None \<Rightarrow> entry_of m1 dn t)"
    using Cons.IH [of m1] Cons.prems(1) m1(2) by auto
  have "entry_of m' dn t' = (case map_of (rev (by_dn (ta # res))) (dn, t') of Some a \<Rightarrow> Some a | None \<Rightarrow> entry_of m dn t')" for dn t'
    unfolding m'(3) m1(3) ta by (auto simp: by_dn_def map_add_def split: option.split)
  with m1(1) m'(1,2) ta show ?case by auto
qed (simp add: by_dn_def)

text \<open>C18. \<open>AimToAciModelConverter.convert\<close> never raises, whatever the objects and however the names are
  made: it ends, and returns one entry per DN that was converted, which has for each ACI type the
  attributes of the last object of that type and DN.\<close>

theorem aim_to_aci_squashes:
  "\<exists>m. aim_to_aci cv rs = Inr (map snd m) \<and> dict_ok m \<and>
     (\<forall>dn t. entry_of m dn t = map_of (rev (by_dn (fst (conv_loop cv rs)))) (dn, t))"
proof -
  have "\<forall>(t, attrs) \<in> set (fst (conv_loop cv rs)). dict_get attrs ''dn'' \<noteq> None"
    using conv_loop_dn by blast
  from squash_fold_result [OF this, of "[]"] obtain m where
    "fold_res squash_step (fst (conv_loop cv rs)) [] = Inr m" "dict_ok m"
    "\<forall>dn t. entry_of m dn t = (case map_of (rev (by_dn (fst (conv_loop cv rs)))) (dn, t) of Some a \<Rightarrow> Some a | None \<Rightarrow> entry_of [] dn t)"
    by auto
  then show ?thesis
    by (intro exI [of _ m]) (simp add: aim_to_aci_def squash_aci_def entry_of_def split: option.split)
qed

section \<open>Objects of others\<close>

text \<open>The classes with a rule for pre-existing objects.\<close>

definition pre_existing_classes :: "string list" where
  "pre_existing_classes = [''ExternalNetworkProvidedContract'', ''ExternalNetworkConsumedContract'',
     ''InfraAccBundleGroup'', ''InfraAccPortGroup'']"

definition rule_pre :: "klass rule \<Rightarrow> bool" where
  "rule_pre r \<longleftrightarrow> (convert_pre_existing r = Some True \<longrightarrow> kname (resource r) \<in> set pre_existing_classes)"

definition map_pre :: "(string, klass rule list) dict \<Rightarrow> bool" where
  "map_pre m \<longleftrightarrow> list_all (\<lambda>(t, rs). list_all rule_pre rs) m"

lemma map_pre_simps [simp]:
  "map_pre []" "map_pre ((t, rs) # m) \<longleftrightarrow> list_all rule_pre rs \<and> map_pre m" "map_pre (m @ m') \<longleftrightarrow> map_pre m \<and> map_pre m'"
  by (simp_all add: map_pre_def)

lemma pre_networks: "map_pre networks_map"
  unfolding networks_map_def
  by (simp add: rule_pre_def pre_existing_classes_def ExternalNetworkProvidedContract_def ExternalNetworkConsumedContract_def)

lemma pre_others: "map_pre contracts_map" "map_pre l3out_map" "map_pre vmm_map" "map_pre devices_map" "map_pre redirect_map"
  unfolding contracts_map_def l3out_map_def vmm_map_def devices_map_def redirect_map_def
  by (simp_all add: rule_pre_def)

lemma pre_qos_span: "map_pre qos_span_map"
  unfolding qos_span_map_def
  by (simp add: rule_pre_def pre_existing_classes_def InfraAccBundleGroup_def InfraAccPortGroup_def)

lemma base_pre: "map_pre base_map"
  unfolding base_map_def by (simp add: pre_networks pre_others pre_qos_span)

lemma reverse_rule_pre:
  assumes "h \<in> set (reverse_resource_map n)" "n \<notin> set pre_existing_classes"
  shows "convert_pre_existing h \<noteq> Some True"
proof -
  obtain t rs r where r: "(t, rs) \<in> set base_map" "r \<in> set rs" "kname (resource r) = n" "h = reverse_rule t r"
    using assms(1) by (auto simp: reverse_resource_map_def reverse_rules_def)
  then have "rule_pre r" using base_pre by (auto simp: map_pre_def list_all_iff)
  with r assms(2) show ?thesis by (auto simp: rule_pre_def reverse_rule_def)
qed

definition truthy :: "obj \<Rightarrow> string \<Rightarrow> bool" where
  "truthy r a \<longleftrightarrow> json_truth (dict_getd (ofields r) a (JBool False))"

lemma pre_existing_items:
  assumes "truthy r ''pre_existing''" "oclass r \<notin> set pre_existing_classes"
  shows "fst (aim_to_aci_one cv r) = []"
proof (cases "klass_of (cv_env cv) (oclass r)")
  case (Some k)
  have "\<not> applicable r h" if "h \<in> set (reverse_resource_map (kname k))" for h
    using reverse_rule_pre [OF that] klass_of_name [OF Some] assms by (simp add: applicable_def truthy_def)
  then have "filter (applicable r) (reverse_resource_map (kname k)) = []" by (simp add: filter_empty_conv)
  with Some show ?thesis by (simp add: aim_to_aci_one_def Let_def)
qed (simp add: aim_to_aci_one_def)

lemma conv_loop_nothing:
  "\<forall>r \<in> set rs. fst (aim_to_aci_one cv r) = [] \<Longrightarrow> fst (conv_loop cv rs) = []"
proof (induction rs)
  case (Cons r rs)
  then obtain r' where "aim_to_aci_one cv r = ([], r')" by (cases "aim_to_aci_one cv r") auto
  with Cons show ?case by (simp add: split_beta)
qed simp

text \<open>C19. Objects marked pre-existing are never written to ACI: their conversion is empty, but for
  four classes whose rules say otherwise.\<close>

theorem pre_existing_not_converted:
  assumes "\<forall>r \<in> set rs. truthy r ''pre_existing'' \<and> oclass r \<notin> set pre_existing_classes"
  shows "aim_to_aci cv rs = Inr []"
  using conv_loop_nothing [of rs cv] pre_existing_items assms by (simp add: aim_to_aci_def squash_aci_def)

section \<open>The classes of converted objects\<close>

definition table_classes :: "string set" where
  "table_classes = (\<lambda>r. kname (resource r)) ` (\<Union>(t, rs) \<in> set resource_map. set rs)"

definition of_table :: "klass rule \<Rightarrow> bool" where
  "of_table h \<longleftrightarrow> kname (resource h) \<in> table_classes"

lemma rules_of_table:
  assumes "h \<in> set (rules_of t)"
  shows "of_table h"
proof -
  obtain rs where "dict_get resource_map t = Some rs" "h \<in> set rs"
    using assms by (cases "dict_get resource_map t") (auto simp: rules_of_def dict_getd_def)
  then have "(t, rs) \<in> set resource_map" "h \<in> set rs" by (simp_all add: map_of_SomeD)
  then have "h \<in> (\<Union>(t, rs) \<in> set resource_map. set rs)" by fast
  then show ?thesis unfolding of_table_def table_classes_def by (rule imageI)
qed

lemma rule_at_table: "rule_at t i = Inr h \<Longrightarrow> of_table h"
  using rules_of_table [of "rules_of t ! i" t] by (auto simp: rule_at_def Let_def split: if_split_asm)

lemma default_class: "\<lbrakk>default_to_aim cv h c = Inr r; of_table h\<rbrakk> \<Longrightarrow> oclass r \<in> table_classes"
  by (auto simp: default_to_aim_def of_table_def dest: make_obj_class)

lemma partial_class: "\<lbrakk>partial_obj cv h ids attrs = Inr rs; of_table h; r \<in> set rs\<rbrakk> \<Longrightarrow> oclass r \<in> table_classes"
  by (auto simp: partial_obj_def dest: default_class)

lemma body_class: "\<lbrakk>default_body_to_aim cv h d ids dest = Inr r; of_table h\<rbrakk> \<Longrightarrow> oclass r \<in> table_classes"
  by (auto simp: default_body_to_aim_def dest: default_class)

lemma unless_bad_name_mem:
  "\<lbrakk>unless_bad_name m f = Inr rs; r \<in> set rs\<rbrakk> \<Longrightarrow> \<exists>ids. f ids = Inr rs"
  by (auto simp: unless_bad_name_def split: sum.split_asm if_split_asm)

lemma simple_class: "\<lbrakk>simple_to_aim cv h t d f = Inr rs; of_table h; r \<in> set rs\<rbrakk> \<Longrightarrow> oclass r \<in> table_classes"
  unfolding simple_to_aim_def by (drule (1) unless_bad_name_mem) (auto dest: partial_class)

lemma list_classes:
  "\<lbrakk>child_list_to_aim cv a b mo h t d = Inr rs; of_table h; r \<in> set rs\<rbrakk> \<Longrightarrow> oclass r \<in> table_classes"
  "\<lbrakk>contract_rs_to_aim cv mo h t d = Inr rs; of_table h; r \<in> set rs\<rbrakk> \<Longrightarrow> oclass r \<in> table_classes"
  "\<lbrakk>list_dict_to_aim cv a mp is h t d = Inr rs; of_table h; r \<in> set rs\<rbrakk> \<Longrightarrow> oclass r \<in> table_classes"
  "\<lbrakk>tdn_rs_to_aim cv as mo' h t d = Inr rs; of_table h; r \<in> set rs\<rbrakk> \<Longrightarrow> oclass r \<in> table_classes"
  unfolding child_list_to_aim_def contract_rs_to_aim_def list_dict_to_aim_def tdn_rs_to_aim_def
  by (drule (1) unless_bad_name_mem, auto dest: partial_class split: if_split_asm)+

lemma other_rule_class:
  "\<lbrakk>or_other_rule_to_aim cv t' h t d = Inr rs; of_table h; r \<in> set rs\<rbrakk> \<Longrightarrow> oclass r \<in> table_classes"
  by (auto simp: or_other_rule_to_aim_def dest: body_class rule_at_table split: sum.split_asm if_split_asm)

lemma system_rule_table: "\<lbrakk>system_rule t h d = Inr h'; of_table h\<rbrakk> \<Longrightarrow> of_table h'"
  by (cases "getor d ''dn''")
    (auto simp: system_rule_def getor_def dict_getd_def dest: rule_at_table split: if_split_asm)

lemma hostprot_class: "\<lbrakk>hostprot_to_aim n cv h t d = Inr rs; of_table h; r \<in> set rs\<rbrakk> \<Longrightarrow> oclass r \<in> table_classes"
  by (auto simp: hostprot_to_aim_def dest!: unless_bad_name_mem) (erule body_class, erule (1) system_rule_table)

lemma remote_ip_class:
  assumes "remote_ip_to_aim cv h t d = Inr rs" "of_table h" "r \<in> set rs"
  shows "oclass r \<in> table_classes"
proof -
  obtain rule c where "default_to_aim cv rule c = Inr r" "of_table rule"
  proof (cases "default_identity_to_aim cv d t")
    case (Inl e)
    with assms(1,3) that show ?thesis
      by (auto simp: remote_ip_to_aim_def dest: rule_at_table split: if_split_asm)
  next
    case (Inr ids)
    with assms that show ?thesis
      by (auto simp: remote_ip_to_aim_def dest: system_rule_table)
  qed
  then show ?thesis by (rule default_class)
qed

lemma l3ext_ip_class: "\<lbrakk>l3ext_ip_to_aim cv h t d = Inr rs; of_table h; r \<in> set rs\<rbrakk> \<Longrightarrow> oclass r \<in> table_classes"
  by (auto simp: l3ext_ip_to_aim_def dest: partial_class split: sum.split_asm if_split_asm)

lemma default_converter_class:
  "\<lbrakk>default_converter_to_aim cv h t d = Inr rs; of_table h; r \<in> set rs\<rbrakk> \<Longrightarrow> oclass r \<in> table_classes"
  by (auto simp: default_converter_to_aim_def dest: body_class)

lemmas to_aim_simps = fv_rs_dom_att_to_aim_def fv_rs_path_att_to_aim_def dpp_to_aim_def qos_ep_dscp_to_aim_def
  qos_rs_req_to_aim_def master_epg_to_aim_def next_hop_to_aim_def l3ext_member_to_aim_def bgp_extp_to_aim_def
  subnet_to_aim_def contract_to_aim_def rs_remote_ip_container_to_aim_def

lemma converted_class:
  assumes "convert_to_aim cv c h t d = Inr rs" "of_table h" "r \<in> set rs"
  shows "oclass r \<in> table_classes"
  using assms
  by (cases "(cv, c, h, t, d)" rule: convert_to_aim.cases)
    (simp_all add: to_aim_simps simple_class list_classes other_rule_class hostprot_class remote_ip_class l3ext_ip_class
      default_converter_class)


end
