(* ===== verification/Tree_Maker.thy ===== *)
theory Tree_Maker
  imports Aim_Manager Tree_Manager
begin

text \<open>
  \<open>AimHashTreeMaker\<close> and \<open>HashTreeBuilder\<close> of \<open>aim/tree_manager.py\<close>: how AIM objects become nodes of
  hash trees, and how a batch of changes is distributed over the three trees of a root.

  The record \<open>maker\<close> holds what the code calls: the environment of the manager, the AIM-to-ACI
  conversion of a list of objects (a list of ACI types with attributes), the decomposition of a name
  into types and names by \<open>apicapi\<close> (\<open>None\<close> when it fails) and the hash.
\<close>

record maker =
  mk_env :: env
  mk_conv :: "obj list \<Rightarrow> (string \<times> kwargs) list"
  mk_decompose :: "string \<Rightarrow> string \<Rightarrow> (string \<times> string) list option"
  mk_hash :: hash_fun

section \<open>Names and keys\<close>

definition opt_attr :: "obj \<Rightarrow> string \<Rightarrow> json \<Rightarrow> json" where
  "opt_attr r a d = dict_getd (ofields r) a d"

text \<open>\<open>res.root\<close>, an attribute of ACI objects, statuses and faults.\<close>

definition fault_root :: "maker \<Rightarrow> obj \<Rightarrow> string option result" where
  "fault_root m r =
     bind_res (get_attr r ''external_identifier'') (\<lambda>dn.
       case mk_decompose m (mo_of AciFault) (py_str dn) of
         None \<Rightarrow> Inr None
       | Some [] \<Rightarrow> Inr None
       | Some ((mo, rn) # _) \<Rightarrow>
           Inr (Some (if rn_params (api (mk_env m)) mo > 0 then mo_rn (api (mk_env m)) mo [rn]
                      else mo_rn (api (mk_env m)) mo [])))"

definition res_root :: "maker \<Rightarrow> obj \<Rightarrow> string option result" where
  "res_root m r =
     (if oclass r = ''AciStatus'' then bind_res (get_attr r ''resource_root'') (\<lambda>v. Inr (Some (py_str v)))
      else if oclass r = ''AciFault'' then fault_root m r
      else case klass_of (mk_env m) (oclass r) of
             None \<Rightarrow> Inl AttributeError
           | Some k \<Rightarrow> if is_aci k then bind_res (obj_root (api (mk_env m)) k r) (\<lambda>s. Inr (Some s)) else Inl AttributeError)"

definition get_root_key :: "maker \<Rightarrow> obj \<Rightarrow> string option result" where
  "get_root_key m r = (case res_root m r of
      Inl AttributeError \<Rightarrow> Inr None | Inl KeyError \<Rightarrow> Inr None | x \<Rightarrow> x)"

definition extract_dn :: "maker \<Rightarrow> obj \<Rightarrow> string option" where
  "extract_dn m r =
     (if oclass r = ''AciStatus'' then None
      else if oclass r = ''AciFault'' then map_option py_str (lookup_attr r ''external_identifier'')
      else case klass_of (mk_env m) (oclass r) of
             None \<Rightarrow> None
           | Some k \<Rightarrow> if is_aci k then (case obj_dn (api (mk_env m)) k r of Inr d \<Rightarrow> Some d | Inl _ \<Rightarrow> None) else None)"

definition dn_to_key :: "maker \<Rightarrow> string \<Rightarrow> string \<Rightarrow> key option" where
  "dn_to_key m mo dn =
     (case mk_decompose m mo dn of
        None \<Rightarrow> None
      | Some parts \<Rightarrow> if parts = [] then None else Some (map (\<lambda>(t, n). t @ ''|'' @ n) parts))"

definition build_hash_tree_key_from_dn :: "maker \<Rightarrow> string option \<Rightarrow> string \<Rightarrow> key option" where
  "build_hash_tree_key_from_dn m dn mo =
     (case dn of None \<Rightarrow> None | Some d \<Rightarrow> if d = [] then None else dn_to_key m mo d)"

definition res_mo :: "maker \<Rightarrow> obj \<Rightarrow> string" where
  "res_mo m r = (case klass_of (mk_env m) (oclass r) of Some k \<Rightarrow> mo_of k | None \<Rightarrow> [])"

definition build_hash_tree_key :: "maker \<Rightarrow> obj \<Rightarrow> key option" where
  "build_hash_tree_key m r = build_hash_tree_key_from_dn m (extract_dn m r) (res_mo m r)"

section \<open>Nodes of an object\<close>

definition py_or :: "json \<Rightarrow> json \<Rightarrow> json" where
  "py_or a b = (if json_truth a then a else b)"

definition attr_dn :: "kwargs \<Rightarrow> string option" where
  "attr_dn attr = (case dict_get attr ''dn'' of Some (JStr s) \<Rightarrow> Some s | _ \<Rightarrow> None)"

definition node_attrs :: "obj \<Rightarrow> string option \<Rightarrow> kwargs \<Rightarrow> kwargs" where
  "node_attrs r res_dn attr =
     (let monitored = py_or (opt_attr r ''monitored'' (JBool False)) (opt_attr r ''pre_existing'' (JBool False));
          pending = opt_attr r ''_pending'' JNull;
          rest = dict_del ''dn'' attr;
          md = [(''monitored'', monitored), (''attributes'', JObj rest)]
               @ (if attr_dn attr \<noteq> res_dn then [(''related'', JBool True)] else [])
               @ (if pending \<noteq> JNull then [(''pending'', pending)] else [])
      in dict_set ''_error'' (opt_attr r ''_error'' (JBool False)) (dict_set ''_metadata'' (JObj md) rest))"

definition aim_res_to_nodes :: "maker \<Rightarrow> obj \<Rightarrow> (key, kwargs) dict" where
  "aim_res_to_nodes m r =
     dict_update [] (concat (map (\<lambda>(mo, attr).
       case build_hash_tree_key_from_dn m (attr_dn attr) mo of
         None \<Rightarrow> [] | Some k \<Rightarrow> [(k, node_attrs r (extract_dn m r) attr)]) (mk_conv m [r])))"

section \<open>Changes of one tree\<close>

text \<open>
  \<open>_clean_related\<close> walks over the children a node had when it was reached; clearing a node changes
  neither its children nor its metadata.
\<close>

definition is_related :: "node \<Rightarrow> bool" where
  "is_related n = (case kv_get ''related'' (metadata (slots n)) of Some v \<Rightarrow> json_truth v | None \<Rightarrow> False)"

fun clean_related :: "hash_fun \<Rightarrow> node \<Rightarrow> tree \<Rightarrow> tree result" where
  "clean_related H (Node s cs) t =
     fold_res (\<lambda>c u. if is_related c then bind_res (tree_clear H (nkey c) u) (clean_related H c) else Inr u) cs t"

definition clean_related_opt :: "hash_fun \<Rightarrow> node option \<Rightarrow> tree \<Rightarrow> tree result" where
  "clean_related_opt H n t = (case n of None \<Rightarrow> Inr t | Some x \<Rightarrow> clean_related H x t)"

definition prepare_aim_resource :: "maker \<Rightarrow> obj \<Rightarrow> tree \<Rightarrow> ((key, kwargs) dict \<times> tree) result" where
  "prepare_aim_resource m r t =
     (case extract_dn m r of
        None \<Rightarrow> Inr ([], t)
      | Some dn \<Rightarrow>
          if dn = [] then Inr ([], t)
          else
            bind_res (case build_hash_tree_key m r of None \<Rightarrow> Inr None | Some k \<Rightarrow> tree_find t k) (\<lambda>n.
            bind_res (clean_related_opt (mk_hash m) n t) (\<lambda>t'.
              Inr (aim_res_to_nodes m r, t'))))"

definition add_nodes_of :: "hash_fun \<Rightarrow> (key, kwargs) dict \<Rightarrow> tree \<Rightarrow> tree result" where
  "add_nodes_of H d t = fold_res (\<lambda>(k, v). tree_add H k v) d t"

definition maker_update :: "maker \<Rightarrow> obj list \<Rightarrow> tree \<Rightarrow> tree result" where
  "maker_update m updates t =
     bind_res (fold_res (\<lambda>r (d, u). bind_res (prepare_aim_resource m r u) (\<lambda>(nodes, u').
         Inr (dict_update d nodes, u'))) updates ([], t)) (\<lambda>(d, t').
       add_nodes_of (mk_hash m) d t')"

definition delete_resource :: "maker \<Rightarrow> obj \<Rightarrow> tree \<Rightarrow> tree result" where
  "delete_resource m r t =
     (case build_hash_tree_key m r of
        None \<Rightarrow> Inr t
      | Some k \<Rightarrow>
          bind_res (tree_clear (mk_hash m) k t) (\<lambda>t1.
          bind_res (tree_find t1 k) (\<lambda>n. clean_related_opt (mk_hash m) n t1)))"

definition maker_delete :: "maker \<Rightarrow> obj list \<Rightarrow> tree \<Rightarrow> tree result" where
  "maker_delete m deletes t = fold_res (delete_resource m) deletes t"

text \<open>The keys a conversion of objects yields, and their removal.\<close>

definition converted_keys :: "maker \<Rightarrow> obj list \<Rightarrow> key list" where
  "converted_keys m rs =
     concat (map (\<lambda>(mo, attr). case build_hash_tree_key_from_dn m (attr_dn attr) mo of None \<Rightarrow> [] | Some k \<Rightarrow> [k])
       (mk_conv m rs))"

definition maker_clear :: "maker \<Rightarrow> obj list \<Rightarrow> tree \<Rightarrow> tree result" where
  "maker_clear m rs t = fold_res (tree_clear (mk_hash m)) (converted_keys m rs) t"

section \<open>HashTreeBuilder\<close>

record root_updates =
  conf_add :: "obj list"
  conf_del :: "obj list"
  monitor_add :: "obj list"
  monitor_del :: "obj list"
  oper_add :: "obj list"
  oper_del :: "obj list"

definition no_updates :: root_updates where
  "no_updates = \<lparr>conf_add = [], conf_del = [], monitor_add = [], monitor_del = [], oper_add = [], oper_del = []\<rparr>"

datatype target = Conf | Monitor | Oper

text \<open>\<open>updates_by_root[key][target][tree_index].append(res)\<close>, \<open>del\<close> standing for index 1.\<close>

fun append_update :: "target \<Rightarrow> bool \<Rightarrow> obj \<Rightarrow> root_updates \<Rightarrow> root_updates" where
  "append_update Conf False r u = u\<lparr>conf_add := conf_add u @ [r]\<rparr>"
| "append_update Conf True r u = u\<lparr>conf_del := conf_del u @ [r]\<rparr>"
| "append_update Monitor False r u = u\<lparr>monitor_add := monitor_add u @ [r]\<rparr>"
| "append_update Monitor True r u = u\<lparr>monitor_del := monitor_del u @ [r]\<rparr>"
| "append_update Oper False r u = u\<lparr>oper_add := oper_add u @ [r]\<rparr>"
| "append_update Oper True r u = u\<lparr>oper_del := oper_del u @ [r]\<rparr>"

type_synonym updates = "(string option, root_updates) dict"

definition push_update :: "string option \<Rightarrow> target \<Rightarrow> bool \<Rightarrow> obj \<Rightarrow> updates \<Rightarrow> updates" where
  "push_update key tgt del r us = dict_set key (append_update tgt del r (dict_getd us key no_updates)) us"

definition set_attr :: "string \<Rightarrow> json \<Rightarrow> obj \<Rightarrow> obj" where
  "set_attr a v r = r\<lparr>ofields := dict_set a v (ofields r)\<rparr>"

text \<open>An object of any other kind: faults go to the operational tree, monitored objects to the
  monitored tree and, disguised as pre-existing, to the configuration tree.\<close>

definition classify :: "maker \<Rightarrow> bool \<Rightarrow> obj \<Rightarrow> updates \<Rightarrow> updates result" where
  "classify m del r us =
     bind_res (get_root_key m r) (\<lambda>key.
       if key = None \<or> key = Some [] then Inr us
       else if oclass r = ''AciFault'' then Inr (push_update key Oper del r us)
       else if json_truth (opt_attr r ''monitored'' JNull) then
         Inr (push_update key Conf del (set_attr ''monitored'' (JBool False) (set_attr ''pre_existing'' (JBool True) r))
                (push_update key Monitor del r us))
       else Inr (push_update key Conf del r us))"

text \<open>A parent with the state its status announces.\<close>

definition mark_parent :: "obj \<Rightarrow> obj \<Rightarrow> obj" where
  "mark_parent status parent =
     (let s = opt_attr status ''sync_status'' JNull in
      if s = JStr SYNC_FAILED then set_attr ''_pending'' (JBool False) (set_attr ''_error'' (JBool True) parent)
      else if s = JStr SYNC_PENDING then set_attr ''_pending'' (JBool True) parent
      else if s = JStr SYNCED then set_attr ''_pending'' (JBool False) parent
      else parent)"

definition status_parent :: "maker \<Rightarrow> aim_db \<Rightarrow> obj \<Rightarrow> obj option result" where
  "status_parent m db status =
     (case klass_of (mk_env m) (py_str (opt_attr status ''resource_type'' JNull)) of
        None \<Rightarrow> Inl (UnknownResourceType (py_str (opt_attr status ''resource_type'' JNull)))
      | Some k \<Rightarrow> get_by_id (mk_env m) db k (py_str (opt_attr status ''resource_id'' JNull)) False)"

text \<open>
  One resource of the batch. The result has the parent it adds to the list of updates, if any. A status
  without its parent is deleted (exceptions of the deletion are swallowed) and not classified.
\<close>

definition segregate_one :: "maker \<Rightarrow> bool \<Rightarrow> obj \<Rightarrow> updates \<times> aim_db \<Rightarrow> (obj list \<times> updates \<times> aim_db) result" where
  "segregate_one m del r = (\<lambda>(us, db).
     if oclass r = ''AciStatus'' then
       bind_res (status_parent m db r) (\<lambda>parent.
       bind_res (case parent of None \<Rightarrow> Inr False | Some p \<Rightarrow>
           bind_res (res_root m p) (\<lambda>rt. Inr (rt = map_option py_str (lookup_attr r ''resource_root'')))) (\<lambda>same.
         case (if same then parent else None) of
           Some p \<Rightarrow>
             if json_truth (opt_attr p ''sync'' (JBool True)) then
               if \<not> del then bind_res (classify m del r us) (\<lambda>us'. Inr ([mark_parent r p], us', db))
               else bind_res (get_root_key m p) (\<lambda>pkey.
                    bind_res (classify m del r (push_update pkey Oper True p us)) (\<lambda>us'. Inr ([], us', db)))
             else bind_res (classify m del r us) (\<lambda>us'. Inr ([], us', db))
         | None \<Rightarrow>
             if \<not> del then
               Inr ([], us, case aim_delete (mk_env m) AciStatus r False False db of Inr db' \<Rightarrow> db' | Inl _ \<Rightarrow> db)
             else bind_res (classify m del r us) (\<lambda>us'. Inr ([], us', db))))
     else bind_res (classify m del r us) (\<lambda>us'. Inr ([], us', db)))"

text \<open>The loop over one list, collecting the parents.\<close>

fun segregate :: "maker \<Rightarrow> bool \<Rightarrow> obj list \<Rightarrow> obj list \<Rightarrow> updates \<times> aim_db \<Rightarrow> (obj list \<times> updates \<times> aim_db) result" where
  "segregate m del [] parents s = Inr (parents, s)"
| "segregate m del (r # rs) parents s =
     bind_res (segregate_one m del r s) (\<lambda>(ps, s'). segregate m del rs (parents @ ps) s')"

text \<open>
  The three lists. The parents found among the added objects join the updated ones, those found among
  the updated ones are appended to that list while it is read; a parent is not a status itself.
\<close>

definition segregate_all ::
  "maker \<Rightarrow> obj list \<Rightarrow> obj list \<Rightarrow> obj list \<Rightarrow> aim_db \<Rightarrow> (updates \<times> aim_db) result" where
  "segregate_all m added updated deleted db =
     bind_res (segregate m False added [] ([], db)) (\<lambda>(ps, s1).
     bind_res (segregate m False (updated @ ps) [] s1) (\<lambda>(ps', s2).
     bind_res (segregate m False ps' [] s2) (\<lambda>(_, s3).
     bind_res (segregate m True deleted [] s3) (\<lambda>(_, s4). Inr s4))))"

record tree_map =
  config_trees :: "(string, tree) dict"
  oper_trees :: "(string, tree) dict"
  monitor_trees :: "(string, tree) dict"

definition update_config_tree :: "maker \<Rightarrow> root_updates \<Rightarrow> tree \<Rightarrow> tree result" where
  "update_config_tree m u t =
     bind_res (maker_update m (conf_add u) t) (\<lambda>t1.
     bind_res (maker_delete m (conf_del u) t1) (\<lambda>t2. maker_clear m (monitor_add u) t2))"

definition update_oper_tree :: "maker \<Rightarrow> root_updates \<Rightarrow> tree \<Rightarrow> tree result" where
  "update_oper_tree m u t =
     bind_res (maker_update m (oper_add u) t) (\<lambda>t1.
     bind_res (maker_delete m (oper_del u) t1) (\<lambda>t2.
     bind_res (maker_delete m (conf_del u) t2) (\<lambda>t3. maker_delete m (monitor_del u) t3)))"

definition update_monitor_tree :: "maker \<Rightarrow> root_updates \<Rightarrow> tree \<Rightarrow> tree result" where
  "update_monitor_tree m u t =
     bind_res (maker_update m (monitor_add u) t) (\<lambda>t1.
     bind_res (maker_delete m (monitor_del u) t1) (\<lambda>t2. maker_clear m (conf_add u) t2))"

definition update_root :: "maker \<Rightarrow> string option \<times> root_updates \<Rightarrow> tree_map \<Rightarrow> tree_map result" where
  "update_root m = (\<lambda>(root, u) tm.
     case root of None \<Rightarrow> Inr tm
     | Some rn \<Rightarrow>
       (case (dict_get (config_trees tm) rn, dict_get (oper_trees tm) rn, dict_get (monitor_trees tm) rn) of
          (Some c, Some o', Some mo) \<Rightarrow>
            bind_res (update_config_tree m u c) (\<lambda>c'.
            bind_res (update_oper_tree m u o') (\<lambda>o''.
            bind_res (update_monitor_tree m u mo) (\<lambda>mo'.
              Inr \<lparr>config_trees = dict_set rn c' (config_trees tm),
                   oper_trees = dict_set rn o'' (oper_trees tm),
                   monitor_trees = dict_set rn mo' (monitor_trees tm)\<rparr>)))
        | _ \<Rightarrow> Inr tm))"

text \<open>\<open>build\<close>: the changed trees are those in the map; the lists the code returns are the ones of the
  changed roots that have a root key.\<close>

definition build ::
  "maker \<Rightarrow> obj list \<Rightarrow> obj list \<Rightarrow> obj list \<Rightarrow> tree_map \<Rightarrow> aim_db \<Rightarrow> (tree_map \<times> aim_db) result" where
  "build m added updated deleted tm db =
     bind_res (segregate_all m added updated deleted db) (\<lambda>(us, db').
     bind_res (fold_res (update_root m) us tm) (\<lambda>tm'. Inr (tm', db')))"

end
