(* ===== verification/Tree_Maker_Props.thy ===== *)
theory Tree_Maker_Props
  imports Tree_Maker Hash_Tree_Props Sample_Data
begin

text \<open>
  What the changes of \<open>AimHashTreeMaker\<close> and \<open>HashTreeBuilder\<close> do to the content of the trees: deleted
  and cleared objects are no longer visible, updated ones are, and nothing else becomes visible.
  The maker is a client of the tree; the locale \<open>clearable\<close> states what it relies on.
\<close>

section \<open>The interface of the tree\<close>

locale clearable =
  fixes inv :: "'t \<Rightarrow> bool"
    and cont :: "'t \<Rightarrow> 'k \<Rightarrow> 'v option"
    and clear :: "'k \<Rightarrow> 't \<Rightarrow> 't result"
    and valid :: "'k \<Rightarrow> bool"
  assumes clear_ok: "\<lbrakk>inv t; valid k\<rbrakk> \<Longrightarrow> \<exists>t'. clear k t = Inr t' \<and> inv t' \<and> cont t' = (cont t)(k := None)"
begin

lemma clear_list:
  "\<lbrakk>inv t; list_all valid ks\<rbrakk> \<Longrightarrow> \<exists>t'. fold_res clear ks t = Inr t' \<and> inv t' \<and>
     cont t' = (\<lambda>k. if k \<in> set ks then None else cont t k)"
proof (induction ks arbitrary: t)
  case (Cons k ks)
  have "valid k" "list_all valid ks" using Cons.prems(2) by simp_all
  then obtain u where u: "clear k t = Inr u" "inv u" "cont u = (cont t)(k := None)"
    using clear_ok [OF Cons.prems(1)] by blast
  obtain t' where t': "fold_res clear ks u = Inr t'" "inv t'"
    "cont t' = (\<lambda>k. if k \<in> set ks then None else cont u k)"
    using Cons.IH [OF u(2) \<open>list_all valid ks\<close>] by blast
  have "cont t' = (\<lambda>j. if j \<in> set (k # ks) then None else cont t j)"
    unfolding t'(3) u(3) by (rule ext) simp
  with t' u(1) show ?case by auto
qed simp

lemma clear_lists:
  assumes "inv t" "\<And>x t. x \<in> set xs \<Longrightarrow> inv t \<Longrightarrow> \<exists>ks. list_all valid ks \<and> (\<forall>k \<in> K x. k \<in> set ks) \<and> f x t = fold_res clear ks t"
  shows "\<exists>t'. fold_res f xs t = Inr t' \<and> inv t' \<and> cont t' \<subseteq>\<^sub>m cont t \<and> (\<forall>x \<in> set xs. \<forall>k \<in> K x. cont t' k = None)"
  using assms
proof (induction xs arbitrary: t)
  case (Cons x xs)
  then obtain ks where ks: "list_all valid ks" "\<forall>k \<in> K x. k \<in> set ks" "f x t = fold_res clear ks t"
    by (metis list.set_intros(1))
  then obtain u where u: "f x t = Inr u" "inv u" "cont u = (\<lambda>k. if k \<in> set ks then None else cont t k)"
    using clear_list [OF Cons.prems(1)] by auto
  have "\<exists>t'. fold_res f xs u = Inr t' \<and> inv t' \<and> cont t' \<subseteq>\<^sub>m cont u \<and> (\<forall>x \<in> set xs. \<forall>k \<in> K x. cont t' k = None)"
    by (rule Cons.IH [OF u(2)]) (rule Cons.prems(2), simp_all)
  then obtain t' where t': "fold_res f xs u = Inr t'" "inv t'" "cont t' \<subseteq>\<^sub>m cont u"
    "\<forall>x \<in> set xs. \<forall>k \<in> K x. cont t' k = None" by blast
  have le: "cont u \<subseteq>\<^sub>m cont t" using u(3) by (auto simp: map_le_def)
  have "cont t' k = None" if "k \<in> K x" for k
  proof -
    have "cont u k = None" using that ks(2) u(3) by simp
    then show ?thesis using t'(3) by (metis domIff map_le_def)
  qed
  with t' u(1) map_le_trans [OF t'(3) le] show ?case by simp
qed simp

end

interpretation ct: clearable "wf_tree H" content "tree_clear H" "\<lambda>k. k \<noteq> []" for H
proof
  fix t :: tree and k :: key
  assume t: "wf_tree H t" "k \<noteq> []"
  obtain t' where "tree_clear H k t = Inr t'" using tree_clear_total [OF t] by blast
  with tree_clear_content [OF t this]
  show "\<exists>t'. tree_clear H k t = Inr t' \<and> wf_tree H t' \<and> content t' = (content t)(k := None)" by blast
qed

section \<open>Related nodes\<close>

text \<open>The keys \<open>_clean_related\<close> clears.\<close>

fun related_keys :: "node \<Rightarrow> key list" where
  "related_keys (Node s cs) = concat (map (\<lambda>c. if is_related c then nkey c # related_keys c else []) cs)"

lemma fold_res_concat:
  "(\<And>x s. x \<in> set xs \<Longrightarrow> f x s = fold_res g (h x) s) \<Longrightarrow> fold_res f xs s = fold_res g (concat (map h xs)) s"
proof (induction xs arbitrary: s)
  case (Cons x xs)
  then show ?case by (cases "fold_res g (h x) s") (simp_all add: fold_res_append)
qed simp

lemma clean_related_eq: "clean_related H n t = fold_res (tree_clear H) (related_keys n) t"
proof (induction n arbitrary: t)
  case (Node s cs)
  show ?case
    unfolding clean_related.simps related_keys.simps
  proof (rule fold_res_concat)
    fix c t
    assume c: "c \<in> set cs"
    then have "clean_related H c u = fold_res (tree_clear H) (related_keys c) u" for u
      by (rule Node)
    then have "clean_related H c = fold_res (tree_clear H) (related_keys c)" by blast
    then show "(if is_related c then bind_res (tree_clear H (nkey c) t) (clean_related H c) else Inr t)
        = fold_res (tree_clear H) (if is_related c then nkey c # related_keys c else []) t"
      by simp
  qed
qed

lemma related_keys_not_Nil: "wf_node H n \<Longrightarrow> list_all (\<lambda>k. k \<noteq> []) (related_keys n)"
proof (induction n)
  case (Node s cs)
  have "nkey c \<noteq> [] \<and> wf_node H c" if "c \<in> set cs" for c
    using that wf_nodeD(1) [OF Node.prems] by (auto simp: wf_inner_def child_key_def)
  with Node.IH show ?case by (auto simp: list_all_iff)
qed

definition related_at :: "tree \<Rightarrow> key \<Rightarrow> key list" where
  "related_at t k = (case lookup t k of None \<Rightarrow> [] | Some n \<Rightarrow> related_keys n)"

lemma related_at_not_Nil: "wf_tree H t \<Longrightarrow> list_all (\<lambda>k. k \<noteq> []) (related_at t k)"
  by (auto simp: related_at_def dest: lookup_key intro: related_keys_not_Nil split: option.split)

lemma clean_related_opt_eq: "clean_related_opt H (lookup t k) u = fold_res (tree_clear H) (related_at t k) u"
  by (simp add: clean_related_opt_def related_at_def clean_related_eq split: option.split)

section \<open>Keys\<close>

lemma key_of_dn_not_Nil: "build_hash_tree_key_from_dn m dn mo = Some k \<Longrightarrow> k \<noteq> []"
  by (auto simp: build_hash_tree_key_from_dn_def dn_to_key_def split: option.splits if_splits)

lemma key_not_Nil: "build_hash_tree_key m r = Some k \<Longrightarrow> k \<noteq> []"
  by (auto simp: build_hash_tree_key_def dest: key_of_dn_not_Nil)

lemma converted_keys_not_Nil: "list_all (\<lambda>k. k \<noteq> []) (converted_keys m rs)"
  by (auto simp: converted_keys_def list_all_iff split: option.splits dest!: key_of_dn_not_Nil [OF sym])

section \<open>Deleting and clearing\<close>

lemma delete_resource_clears:
  assumes "wf_tree (mk_hash m) t"
  shows "\<exists>ks. list_all (\<lambda>k. k \<noteq> []) ks \<and> (\<forall>k \<in> set_option (build_hash_tree_key m r). k \<in> set ks)
    \<and> delete_resource m r t = fold_res (tree_clear (mk_hash m)) ks t"
proof (cases "build_hash_tree_key m r")
  case None
  then show ?thesis by (intro exI [of _ "[]"]) (simp add: delete_resource_def)
next
  case (Some k)
  note k = key_not_Nil [OF Some]
  obtain u where u: "tree_clear (mk_hash m) k t = Inr u" "wf_tree (mk_hash m) u"
    using ct.clear_ok [OF assms k] by blast
  show ?thesis
    using Some u k related_at_not_Nil [OF u(2)]
    by (intro exI [of _ "k # related_at u k"])
      (simp add: delete_resource_def tree_find_lookup clean_related_opt_eq)
qed

lemma maker_delete_content:
  assumes "wf_tree (mk_hash m) t"
  shows "\<exists>t'. maker_delete m ds t = Inr t' \<and> wf_tree (mk_hash m) t' \<and> content t' \<subseteq>\<^sub>m content t
    \<and> (\<forall>r \<in> set ds. \<forall>k \<in> set_option (build_hash_tree_key m r). content t' k = None)"
  unfolding maker_delete_def
  by (rule ct.clear_lists [OF assms]) (rule delete_resource_clears)

lemma maker_clear_content:
  assumes "wf_tree (mk_hash m) t"
  shows "\<exists>t'. maker_clear m rs t = Inr t' \<and> wf_tree (mk_hash m) t'
    \<and> content t' = (\<lambda>k. if k \<in> set (converted_keys m rs) then None else content t k)"
  unfolding maker_clear_def using ct.clear_list [OF assms converted_keys_not_Nil] .

section \<open>Updating\<close>

text \<open>The nodes a list of objects turns into.\<close>

definition nodes_of :: "maker \<Rightarrow> obj \<Rightarrow> (key, kwargs) dict" where
  "nodes_of m r = (case extract_dn m r of None \<Rightarrow> [] | Some dn \<Rightarrow> if dn = [] then [] else aim_res_to_nodes m r)"

fun all_nodes :: "maker \<Rightarrow> (key, kwargs) dict \<Rightarrow> obj list \<Rightarrow> (key, kwargs) dict" where
  "all_nodes m d [] = d"
| "all_nodes m d (r # rs) = all_nodes m (dict_update d (nodes_of m r)) rs"

lemma prepare_result:
  assumes "wf_tree (mk_hash m) t"
  shows "\<exists>t'. prepare_aim_resource m r t = Inr (nodes_of m r, t') \<and> wf_tree (mk_hash m) t' \<and> content t' \<subseteq>\<^sub>m content t"
proof (cases "extract_dn m r = None \<or> extract_dn m r = Some [] \<or> build_hash_tree_key m r = None")
  case True
  with assms show ?thesis
    by (auto simp: prepare_aim_resource_def nodes_of_def clean_related_opt_def split: option.split)
next
  case False
  then obtain dn k where dn: "extract_dn m r = Some dn" "dn \<noteq> []" and k: "build_hash_tree_key m r = Some k" by auto
  obtain t' where "fold_res (tree_clear (mk_hash m)) (related_at t k) t = Inr t'" "wf_tree (mk_hash m) t'"
    "content t' = (\<lambda>x. if x \<in> set (related_at t k) then None else content t x)"
    using ct.clear_list [OF assms related_at_not_Nil [OF assms]] by blast
  then show ?thesis
    using dn k tree_find_lookup [OF assms key_not_Nil [OF k]]
    by (auto simp: prepare_aim_resource_def nodes_of_def clean_related_opt_eq map_le_def)
qed

lemma prepare_all_result:
  assumes "wf_tree (mk_hash m) t"
  shows "\<exists>t'. fold_res (\<lambda>r (d, u). bind_res (prepare_aim_resource m r u) (\<lambda>(nodes, u').
         Inr (dict_update d nodes, u'))) rs (d, t) = Inr (all_nodes m d rs, t')
    \<and> wf_tree (mk_hash m) t' \<and> content t' \<subseteq>\<^sub>m content t"
  using assms
proof (induction rs arbitrary: d t)
  case (Cons r rs)
  from prepare_result [OF Cons.prems, of r] obtain u where
    u: "prepare_aim_resource m r t = Inr (nodes_of m r, u)" "wf_tree (mk_hash m) u" "content u \<subseteq>\<^sub>m content t"
    by blast
  from Cons.IH [OF u(2)] u(1,3) map_le_trans show ?case by fastforce
qed simp

lemma root_of_content: "\<lbrakk>wf_tree H t; root t = Some r; content t k \<noteq> None\<rbrakk> \<Longrightarrow> nkey r = [hd k]"
  by (auto elim!: content_Some_root)

text \<open>A tree all of whose visible keys start with a given part.\<close>

definition rooted :: "string \<Rightarrow> tree \<Rightarrow> bool" where
  "rooted p t \<longleftrightarrow> (\<forall>k. content t k \<noteq> None \<longrightarrow> hd k = p)"

lemma rooted_root:
  assumes "wf_tree H t" "rooted p t" "root t = Some r"
  shows "nkey r = [p]"
proof -
  obtain k where k: "content t k \<noteq> None" using content_root [OF assms(1,3)] by blast
  with assms root_of_content [OF assms(1,3) k] show ?thesis by (simp add: rooted_def)
qed

lemma rooted_le: "\<lbrakk>rooted p t; content t' \<subseteq>\<^sub>m content t\<rbrakk> \<Longrightarrow> rooted p t'"
  unfolding rooted_def map_le_def by (metis domIff)

lemma add_nodes_content:
  assumes "wf_tree H t" "rooted p t" "dict_ok d"
    and "\<And>k v. (k, v) \<in> set d \<Longrightarrow> k \<noteq> [] \<and> hd k = p \<and> metadata_ok v"
  shows "\<exists>t'. add_nodes_of H d t = Inr t' \<and> wf_tree H t' \<and> rooted p t' \<and>
    content t' = (\<lambda>k. case dict_get d k of Some v \<Rightarrow> Some (entry H k v) | None \<Rightarrow> content t k)"
  using assms
proof (induction d arbitrary: t)
  case Nil
  then show ?case by (simp add: add_nodes_of_def)
next
  case (Cons kv d)
  obtain k v where kv: "kv = (k, v)" by fastforce
  have k: "k \<noteq> []" "hd k = p" "metadata_ok v" using Cons.prems(4) kv by auto
  have "root_admits t k"
    using rooted_root [OF Cons.prems(1,2)] k by (auto simp: root_admits_def split: option.split)
  then obtain u where u: "tree_add H k v t = Inr u"
    using tree_add_ok_iff [OF Cons.prems(1) k(1), of v] k(3) by (cases "tree_add H k v t") auto
  note uc = tree_add_content [OF Cons.prems(1) k(1) u]
  have ru: "rooted p u" using uc Cons.prems(2) k(2) by (simp add: rooted_def)
  have d: "dict_ok d" "dict_get d k = None"
    using Cons.prems(3) kv by (auto simp: dict_ok_def map_of_eq_None_iff)
  have "\<exists>t'. add_nodes_of H d u = Inr t' \<and> wf_tree H t' \<and> rooted p t' \<and>
    content t' = (\<lambda>k. case dict_get d k of Some v \<Rightarrow> Some (entry H k v) | None \<Rightarrow> content u k)"
    by (rule Cons.IH [OF _ ru d(1) Cons.prems(4)]) (use uc in simp_all)
  then obtain t' where t': "add_nodes_of H d u = Inr t'" "wf_tree H t'" "rooted p t'"
    "content t' = (\<lambda>k. case dict_get d k of Some v \<Rightarrow> Some (entry H k v) | None \<Rightarrow> content u k)"
    by blast
  have "content t' = (\<lambda>j. case dict_get (kv # d) j of Some v \<Rightarrow> Some (entry H j v) | None \<Rightarrow> content t j)"
    using uc d(2) unfolding t'(4) kv by (auto simp: fun_eq_iff split: option.split)
  with t' u kv show ?case by (simp add: add_nodes_of_def)
qed

definition node_keys :: "maker \<Rightarrow> obj list \<Rightarrow> key set" where
  "node_keys m rs = fst ` set (all_nodes m [] rs)"

lemma metadata_ok_node_attrs: "metadata_ok (node_attrs r dn attr)"
  by (simp add: metadata_ok_def node_attrs_def Let_def dict_simps)

definition node_dict :: "(key, kwargs) dict \<Rightarrow> bool" where
  "node_dict d \<longleftrightarrow> dict_ok d \<and> (\<forall>k v. dict_get d k = Some v \<longrightarrow> k \<noteq> [] \<and> metadata_ok v)"

lemma node_dict_update:
  "\<lbrakk>node_dict d; \<And>k v. (k, v) \<in> set kvs \<Longrightarrow> k \<noteq> [] \<and> metadata_ok v\<rbrakk> \<Longrightarrow> node_dict (dict_update d kvs)"
  using map_of_SomeD [of "rev kvs"] by (fastforce simp: node_dict_def dict_get_update split: option.split_asm)

lemma node_dict_items: "\<lbrakk>node_dict d; (k, v) \<in> set d\<rbrakk> \<Longrightarrow> k \<noteq> [] \<and> metadata_ok v"
  by (simp add: node_dict_def dict_ok_def)

lemma nodes_of_dict: "node_dict (nodes_of m r)"
proof -
  have "node_dict (aim_res_to_nodes m r)"
    unfolding aim_res_to_nodes_def
    by (rule node_dict_update)
      (auto simp: node_dict_def metadata_ok_node_attrs split: option.splits dest!: key_of_dn_not_Nil [OF sym])
  then show ?thesis by (simp add: nodes_of_def node_dict_def split: option.split)
qed

lemma all_nodes_dict: "node_dict d \<Longrightarrow> node_dict (all_nodes m d rs)"
  by (induction rs arbitrary: d) (auto intro: node_dict_update dest: node_dict_items [OF nodes_of_dict])

lemma maker_update_content:
  assumes wf: "wf_tree (mk_hash m) t" and "rooted p t" and "\<forall>k \<in> node_keys m rs. hd k = p"
  shows "\<exists>t'. maker_update m rs t = Inr t' \<and> wf_tree (mk_hash m) t' \<and> rooted p t' \<and>
    (\<forall>k. case dict_get (all_nodes m [] rs) k of
           Some v \<Rightarrow> content t' k = Some (entry (mk_hash m) k v)
         | None \<Rightarrow> content t' k = None \<or> content t' k = content t k)"
proof -
  from prepare_all_result [OF wf] obtain u where
    u: "fold_res (\<lambda>r (d, u). bind_res (prepare_aim_resource m r u) (\<lambda>(nodes, u').
         Inr (dict_update d nodes, u'))) rs ([], t) = Inr (all_nodes m [] rs, u)"
      "wf_tree (mk_hash m) u" "content u \<subseteq>\<^sub>m content t" by blast
  have nd: "node_dict (all_nodes m [] rs)" by (rule all_nodes_dict) (simp add: node_dict_def)
  then have "dict_ok (all_nodes m [] rs)" by (simp add: node_dict_def)
  moreover have "k \<noteq> [] \<and> hd k = p \<and> metadata_ok v" if "(k, v) \<in> set (all_nodes m [] rs)" for k v
    using that node_dict_items [OF nd that] assms(3) by (force simp: node_keys_def)
  ultimately obtain t' where t': "add_nodes_of (mk_hash m) (all_nodes m [] rs) u = Inr t'"
    "wf_tree (mk_hash m) t'" "rooted p t'"
    "content t' = (\<lambda>k. case dict_get (all_nodes m [] rs) k of Some v \<Rightarrow> Some (entry (mk_hash m) k v) | None \<Rightarrow> content u k)"
    using add_nodes_content [OF u(2) rooted_le [OF assms(2) u(3)]] by blast
  have "content u k = None \<or> content u k = content t k" for k
    using u(3) by (metis domIff map_le_def)
  with t' u(1) show ?thesis by (simp add: maker_update_def split: option.split)
qed

section \<open>The three trees of a root\<close>

definition gone :: "maker \<Rightarrow> obj list \<Rightarrow> tree \<Rightarrow> bool" where
  "gone m rs t \<longleftrightarrow> (\<forall>r \<in> set rs. \<forall>k \<in> set_option (build_hash_tree_key m r). content t k = None)"

lemma gone_le: "\<lbrakk>gone m rs t; content t' \<subseteq>\<^sub>m content t\<rbrakk> \<Longrightarrow> gone m rs t'"
  unfolding gone_def map_le_def by (metis domIff)

definition good_tree :: "maker \<Rightarrow> string \<Rightarrow> tree \<Rightarrow> bool" where
  "good_tree m p t \<longleftrightarrow> wf_tree (mk_hash m) t \<and> rooted p t"

lemma good_delete:
  assumes "good_tree m p t"
  obtains t' where "maker_delete m ds t = Inr t'" "good_tree m p t'" "content t' \<subseteq>\<^sub>m content t" "gone m ds t'"
  using maker_delete_content [of m t ds] assms rooted_le by (auto simp: good_tree_def gone_def)

lemma good_clear:
  assumes "good_tree m p t"
  obtains t' where "maker_clear m rs t = Inr t'" "good_tree m p t'" "content t' \<subseteq>\<^sub>m content t"
    "\<forall>k \<in> set (converted_keys m rs). content t' k = None"
proof -
  obtain t' where t': "maker_clear m rs t = Inr t'" "wf_tree (mk_hash m) t'"
    "content t' = (\<lambda>k. if k \<in> set (converted_keys m rs) then None else content t k)"
    using maker_clear_content [of m t rs] assms by (auto simp: good_tree_def)
  then have "content t' \<subseteq>\<^sub>m content t" by (auto simp: map_le_def)
  with t' that [of t'] assms rooted_le [of p t t'] show ?thesis by (simp add: good_tree_def)
qed

lemma good_update:
  assumes "good_tree m p t" "\<forall>k \<in> node_keys m rs. hd k = p"
  obtains t' where "maker_update m rs t = Inr t'" "good_tree m p t'"
  using maker_update_content [of m t p rs] assms by (auto simp: good_tree_def)

lemma update_then_clear_result:
  assumes "good_tree m p t" "\<forall>k \<in> node_keys m add. hd k = p"
  obtains t' where "bind_res (maker_update m add t) (\<lambda>t1. bind_res (maker_delete m del t1) (\<lambda>t2. maker_clear m other t2)) = Inr t'"
    "good_tree m p t'" "gone m del t'" "\<forall>k \<in> set (converted_keys m other). content t' k = None"
proof -
  obtain t1 where t1: "maker_update m add t = Inr t1" "good_tree m p t1"
    using good_update [OF assms] by blast
  obtain t2 where t2: "maker_delete m del t1 = Inr t2" "good_tree m p t2" "gone m del t2"
    using good_delete [OF t1(2)] by blast
  obtain t' where t': "maker_clear m other t2 = Inr t'" "good_tree m p t'" "content t' \<subseteq>\<^sub>m content t2"
    "\<forall>k \<in> set (converted_keys m other). content t' k = None"
    using good_clear [OF t2(2)] by blast
  from that [of t'] t1 t2 t' gone_le [OF t2(3) t'(3)] show ?thesis by simp
qed

lemma update_oper_result:
  assumes "good_tree m p t" "\<forall>k \<in> node_keys m (oper_add u). hd k = p"
  obtains t' where "update_oper_tree m u t = Inr t'" "good_tree m p t'"
    "gone m (oper_del u @ conf_del u @ monitor_del u) t'"
proof -
  obtain t1 where t1: "maker_update m (oper_add u) t = Inr t1" "good_tree m p t1"
    using good_update [OF assms] by blast
  obtain t2 where t2: "maker_delete m (oper_del u) t1 = Inr t2" "good_tree m p t2" "gone m (oper_del u) t2"
    using good_delete [OF t1(2)] by blast
  obtain t3 where t3: "maker_delete m (conf_del u) t2 = Inr t3" "good_tree m p t3" "content t3 \<subseteq>\<^sub>m content t2"
    "gone m (conf_del u) t3"
    using good_delete [OF t2(2)] by blast
  obtain t4 where t4: "maker_delete m (monitor_del u) t3 = Inr t4" "good_tree m p t4" "content t4 \<subseteq>\<^sub>m content t3"
    "gone m (monitor_del u) t4"
    using good_delete [OF t3(2)] by blast
  have "gone m (oper_del u) t4" "gone m (conf_del u) t4"
    using gone_le [OF t2(3) map_le_trans [OF t4(3) t3(3)]] gone_le [OF t3(4) t4(3)] .
  with that [of t4] t1 t2 t3 t4 show ?thesis by (simp add: update_oper_tree_def gone_def ball_Un)
qed

lemma update_root_result:
  assumes "dict_get (config_trees tm) rn = Some c" "dict_get (oper_trees tm) rn = Some o'"
    "dict_get (monitor_trees tm) rn = Some mo"
    and "good_tree m p c" "good_tree m p o'" "good_tree m p mo"
    and "\<forall>k \<in> node_keys m (conf_add u) \<union> node_keys m (oper_add u) \<union> node_keys m (monitor_add u). hd k = p"
  shows "\<exists>tm' c' o'' mo'. update_root m (Some rn, u) tm = Inr tm' \<and>
    config_trees tm' = dict_set rn c' (config_trees tm) \<and> oper_trees tm' = dict_set rn o'' (oper_trees tm) \<and>
    monitor_trees tm' = dict_set rn mo' (monitor_trees tm) \<and>
    good_tree m p c' \<and> good_tree m p o'' \<and> good_tree m p mo' \<and>
    (\<forall>k \<in> set (converted_keys m (monitor_add u)). content c' k = None) \<and>
    (\<forall>k \<in> set (converted_keys m (conf_add u)). content mo' k = None) \<and>
    gone m (conf_del u) c' \<and> gone m (monitor_del u) mo' \<and> gone m (oper_del u @ conf_del u @ monitor_del u) o''"
proof -
  have keys: "\<forall>k \<in> node_keys m (conf_add u). hd k = p" "\<forall>k \<in> node_keys m (oper_add u). hd k = p"
    "\<forall>k \<in> node_keys m (monitor_add u). hd k = p" using assms(7) by auto
  obtain c' where "update_config_tree m u c = Inr c'" "good_tree m p c'" "gone m (conf_del u) c'"
    "\<forall>k \<in> set (converted_keys m (monitor_add u)). content c' k = None"
    unfolding update_config_tree_def using update_then_clear_result [OF assms(4) keys(1)] by blast
  moreover obtain o'' where "update_oper_tree m u o' = Inr o''" "good_tree m p o''"
    "gone m (oper_del u @ conf_del u @ monitor_del u) o''"
    using update_oper_result [OF assms(5) keys(2)] by blast
  moreover obtain mo' where "update_monitor_tree m u mo = Inr mo'" "good_tree m p mo'" "gone m (monitor_del u) mo'"
    "\<forall>k \<in> set (converted_keys m (conf_add u)). content mo' k = None"
    unfolding update_monitor_tree_def using update_then_clear_result [OF assms(6) keys(3)] by blast
  ultimately show ?thesis using assms(1-3) by (auto simp: update_root_def)
qed

section \<open>Properties\<close>

text \<open>A maker for the examples: tenants and bridge domains convert to one ACI object each.\<close>

definition toy_parts :: "string \<Rightarrow> string \<Rightarrow> (string \<times> string) list option" where
  "toy_parts mo dn = (case py_split (CHR ''/'') dn of
      [_, t] \<Rightarrow> Some [(''fvTenant'', t)]
    | [_, t, b] \<Rightarrow> Some [(''fvTenant'', t), (''fvBD'', b)]
    | _ \<Rightarrow> None)"

definition toy_conv :: "obj list \<Rightarrow> (string \<times> kwargs) list" where
  "toy_conv rs = map (\<lambda>r. let k = (if oclass r = ''Tenant'' then Tenant else BridgeDomain) in
     (mo_of k, [(''dn'', case obj_dn sample_api k r of Inr d \<Rightarrow> JStr d | Inl _ \<Rightarrow> JNull),
                (''name'', opt_attr r ''name'' JNull)])) rs"

definition toy_maker :: maker where
  "toy_maker = \<lparr>mk_env = small_env, mk_conv = toy_conv, mk_decompose = toy_parts, mk_hash = toy_hash\<rparr>"



text \<open>\<open>AimHashTreeMaker.delete\<close> never raises, hides every object it is called with, and adds
  nothing.\<close>

theorem maker_delete_hides:
  assumes "wf_tree (mk_hash m) t"
  shows "\<exists>t'. maker_delete m ds t = Inr t' \<and> wf_tree (mk_hash m) t' \<and> content t' \<subseteq>\<^sub>m content t
    \<and> (\<forall>r \<in> set ds. \<forall>k \<in> set_option (build_hash_tree_key m r). content t' k = None)"
  using maker_delete_content [OF assms] .

theorem maker_delete_hides_witness:
  "\<exists>t'. maker_delete toy_maker [sample_bd] tree1 = Inr t' \<and> content t' \<subseteq>\<^sub>m content tree1
    \<and> content t' [''fvTenant|t1'', ''fvBD|b''] = None"
proof -
  have "wf_tree (mk_hash toy_maker) tree1" unfolding toy_maker_def by code_simp
  note d = maker_delete_hides [OF this, of "[sample_bd]"]
  have "build_hash_tree_key toy_maker sample_bd = Some [''fvTenant|t1'', ''fvBD|b'']" by code_simp
  then show ?thesis using d by auto
qed

text \<open>C10. A batch never leaves an object in the wrong tree: after \<open>HashTreeBuilder\<close> has updated the
  trees of a root, no node of a newly monitored object is visible in the configuration tree, none of
  a newly owned object in the monitored tree, deleted objects are in none of their trees, and the
  trees of other roots are untouched.\<close>

theorem update_root_separates:
  assumes "dict_get (config_trees tm) rn = Some c" "dict_get (oper_trees tm) rn = Some o'"
    "dict_get (monitor_trees tm) rn = Some mo"
    and "good_tree m p c" "good_tree m p o'" "good_tree m p mo"
    and "\<forall>k \<in> node_keys m (conf_add u) \<union> node_keys m (oper_add u) \<union> node_keys m (monitor_add u). hd k = p"
  shows "\<exists>tm' c' o'' mo'. update_root m (Some rn, u) tm = Inr tm' \<and>
    config_trees tm' = dict_set rn c' (config_trees tm) \<and> oper_trees tm' = dict_set rn o'' (oper_trees tm) \<and>
    monitor_trees tm' = dict_set rn mo' (monitor_trees tm) \<and>
    good_tree m p c' \<and> good_tree m p o'' \<and> good_tree m p mo' \<and>
    (\<forall>k \<in> set (converted_keys m (monitor_add u)). content c' k = None) \<and>
    (\<forall>k \<in> set (converted_keys m (conf_add u)). content mo' k = None) \<and>
    gone m (conf_del u) c' \<and> gone m (monitor_del u) mo' \<and> gone m (oper_del u @ conf_del u @ monitor_del u) o''"
  using assms by (rule update_root_result)

theorem update_root_separates_witness:
  "\<exists>tm' c' mo'. update_root toy_maker (Some ''tn-t1'', no_updates\<lparr>conf_add := [sample_tenant], monitor_add := [sample_bd]\<rparr>)
      \<lparr>config_trees = [(''tn-t1'', empty_tree)], oper_trees = [(''tn-t1'', empty_tree)],
       monitor_trees = [(''tn-t1'', empty_tree)]\<rparr> = Inr tm' \<and>
    config_trees tm' = [(''tn-t1'', c')] \<and> monitor_trees tm' = [(''tn-t1'', mo')] \<and>
    content c' [''fvTenant|t1'', ''fvBD|b''] = None \<and> content mo' [''fvTenant|t1''] = None"
proof -
  define u where "u = no_updates\<lparr>conf_add := [sample_tenant], monitor_add := [sample_bd]\<rparr>"
  define tm where "tm = \<lparr>config_trees = [(''tn-t1'', empty_tree)], oper_trees = [(''tn-t1'', empty_tree)],
       monitor_trees = [(''tn-t1'', empty_tree)]\<rparr>"
  have g: "good_tree toy_maker ''fvTenant|t1'' empty_tree"
    by (simp add: good_tree_def wf_tree_def rooted_def content_def new_tree_def)
  have "node_keys toy_maker (conf_add u) \<union> node_keys toy_maker (oper_add u) \<union> node_keys toy_maker (monitor_add u)
      = {[''fvTenant|t1''], [''fvTenant|t1'', ''fvBD|b'']}"
    unfolding node_keys_def u_def by code_simp
  then have keys: "\<forall>k \<in> node_keys toy_maker (conf_add u) \<union> node_keys toy_maker (oper_add u)
      \<union> node_keys toy_maker (monitor_add u). hd k = ''fvTenant|t1''"
    by simp
  have conv: "converted_keys toy_maker (monitor_add u) = [[''fvTenant|t1'', ''fvBD|b'']]"
    "converted_keys toy_maker (conf_add u) = [[''fvTenant|t1'']]" unfolding u_def by code_simp+
  have "dict_get (config_trees tm) ''tn-t1'' = Some empty_tree" "dict_get (oper_trees tm) ''tn-t1'' = Some empty_tree"
    "dict_get (monitor_trees tm) ''tn-t1'' = Some empty_tree" by (simp_all add: tm_def)
  from update_root_separates [OF this g g g keys] conv
  show ?thesis unfolding u_def [symmetric] tm_def [symmetric] by (auto simp: tm_def)
qed

end
