(* ===== verification/Tree_Converter.thy ===== *)
theory Tree_Converter
  imports Converter_Props Resource_Schemas Tree_Maker_Props
begin

text \<open>
  The tree maker with the converter it uses: \<open>maker_with\<close> instantiates the conversion of \<open>Tree_Maker\<close>
  by \<open>AimToAciModelConverter\<close>. And the conversions of concrete objects.
\<close>

section \<open>The maker with the converter\<close>

text \<open>\<open>for obj in to_aci.convert(resources): for mo, v in obj.items()\<close>\<close>

definition conv_of :: "conv_env \<Rightarrow> obj list \<Rightarrow> (string \<times> kwargs) list" where
  "conv_of cv rs = (case aim_to_aci cv rs of Inr ds \<Rightarrow> concat ds | Inl _ \<Rightarrow> [])"

definition maker_with :: "conv_env \<Rightarrow> maker \<Rightarrow> maker" where
  "maker_with cv m = m\<lparr>mk_conv := conv_of cv, mk_env := cv_env cv\<rparr>"

text \<open>The copy of a monitored object that goes to the configuration tree.\<close>

definition disguise :: "obj \<Rightarrow> obj" where
  "disguise r = set_attr ''monitored'' (JBool False) (set_attr ''pre_existing'' (JBool True) r)"

lemma oclass_disguise [simp]: "oclass (disguise r) = oclass r"
  by (simp add: disguise_def set_attr_def)

lemma truthy_disguise [simp]: "truthy (disguise r) ''pre_existing''"
  by (simp add: disguise_def set_attr_def truthy_def dict_getd_def dict_simps)

section \<open>Monitored objects\<close>

lemma conv_of_pre_existing: "oclass r \<notin> set pre_existing_classes \<Longrightarrow> conv_of cv [disguise r] = []"
  using conv_loop_nothing [of "[disguise r]" cv] pre_existing_items [of "disguise r" cv]
  by (simp add: conv_of_def aim_to_aci_def squash_aci_def)

text \<open>The two halves of the treatment of monitored objects fit together: the copy of a monitored
  object the builder hands to the configuration tree has no node there, but for the four classes with
  rules for pre-existing objects.\<close>

theorem disguised_has_no_nodes:
  assumes "oclass r \<notin> set pre_existing_classes"
  shows "node_keys (maker_with cv m) [disguise r] = {} \<and> converted_keys (maker_with cv m) [disguise r] = []"
proof -
  have conv: "mk_conv (maker_with cv m) [disguise r] = []"
    by (simp add: maker_with_def conv_of_pre_existing assms)
  then have "nodes_of (maker_with cv m) (disguise r) = []"
    by (simp add: nodes_of_def aim_res_to_nodes_def split: option.split)
  with conv show ?thesis by (simp add: node_keys_def converted_keys_def)
qed

text \<open>The rule of one of the four classes.\<close>

definition prov_rule :: "string rule" where
  "prov_rule = \<lparr>resource = ''fvRsProv'', exceptions = [], identity_converter = None,
     converter = Some (ContractRs (Some ''fvRsProv__Ext'')), to_res = None, convert_pre_existing = Some True,
     convert_monitored = Some True, skip = []\<rparr>"

lemma prov_in_networks: "reverse_rules ''ExternalNetworkProvidedContract'' networks_map = [prov_rule]"
  by (simp add: networks_map_def reverse_rules_def reverse_rule_def reverse_mapping_to_aim_def prov_rule_def class_defs)

lemma prov_in_others:
  "reverse_rules ''ExternalNetworkProvidedContract'' contracts_map = []"
  "reverse_rules ''ExternalNetworkProvidedContract'' l3out_map = []"
  "reverse_rules ''ExternalNetworkProvidedContract'' vmm_map = []"
  "reverse_rules ''ExternalNetworkProvidedContract'' qos_span_map = []"
  "reverse_rules ''ExternalNetworkProvidedContract'' devices_map = []"
  "reverse_rules ''ExternalNetworkProvidedContract'' redirect_map = []"
  by (simp_all add: contracts_map_def l3out_map_def vmm_map_def qos_span_map_def devices_map_def redirect_map_def
      reverse_rules_def class_defs)

lemma reverse_rules_append: "reverse_rules n (m @ m') = reverse_rules n m @ reverse_rules n m'"
  by (simp add: reverse_rules_def)

lemma prov_rules: "reverse_resource_map ''ExternalNetworkProvidedContract'' = [prov_rule]"
  by (simp add: reverse_resource_map_def base_map_def reverse_rules_append prov_in_networks prov_in_others)

definition prov :: klass where "prov = ExternalNetworkProvidedContract"

lemma kname_prov [simp]: "kname prov = ''ExternalNetworkProvidedContract''"
  by (simp add: prov_def ExternalNetworkProvidedContract_def)

lemma id_names_prov: "id_names prov = [''tenant_name'', ''l3out_name'', ''ext_net_name'', ''name'']"
  by (simp add: prov_def ExternalNetworkProvidedContract_def id_names_def)

lemma dict_get_rename: "x \<noteq> old \<Longrightarrow> x \<noteq> new \<Longrightarrow> dict_get (rename_key old new d) x = dict_get d x"
  by (simp add: rename_key_def dict_simps split: option.split)

lemma identity_cong:
  "(\<And>x. x \<in> set (id_names k) \<Longrightarrow> dict_get d x = dict_get d' x) \<Longrightarrow>
     default_identity_to_aci cv d k extra mo = default_identity_to_aci cv d' k extra mo"
proof -
  assume eq: "\<And>x. x \<in> set (id_names k) \<Longrightarrow> dict_get d x = dict_get d' x"
  have "traverse_res (getitem d) (id_names k) = traverse_res (getitem d') (id_names k)"
    using eq by (intro traverse_res_cong) (simp_all add: getitem_def)
  then show ?thesis by (simp add: default_identity_to_aci_def id_names_def)
qed

text \<open>The conversion of such an object yields its DN, whatever its other attributes.\<close>

lemma conv_of_prov:
  assumes "oclass r = ''ExternalNetworkProvidedContract''" "klass_of (cv_env cv) ''ExternalNetworkProvidedContract'' = Some prov"
  shows "conv_of cv [r] = (case default_identity_to_aci cv (ofields r) prov [] ''fvRsProv__Ext'' of
      Inr dn \<Rightarrow> [(''fvRsProv'', [(''dn'', dn)])] | Inl _ \<Rightarrow> [])"
proof -
  let ?d = "rename_key ''display_name'' ''name_alias'' (ofields r)"
  have eq: "default_identity_to_aci cv ?d prov [] ''fvRsProv__Ext'' = default_identity_to_aci cv (ofields r) prov [] ''fvRsProv__Ext''"
    by (rule identity_cong) (auto simp: id_names_prov dict_get_rename)
  have "applicable r prov_rule" by (simp add: applicable_def prov_rule_def)
  then have "fst (aim_to_aci_one cv r) = (case default_identity_to_aci cv (ofields r) prov [] ''fvRsProv__Ext'' of
      Inr dn \<Rightarrow> [Aci ''fvRsProv'' [(''dn'', dn)]] | Inl _ \<Rightarrow> [])"
    using assms eq
    by (simp add: aim_to_aci_one_def prov_rules contract_rs_to_aci_def type_or_def Let_def split_beta)
      (simp add: prov_rule_def contract_rs_to_aci_def type_or_def split: sum.split)
  then show ?thesis
    by (cases "default_identity_to_aci cv (ofields r) prov [] ''fvRsProv__Ext''")
      (simp_all add: conv_of_def aim_to_aci_def split_beta squash_aci_def squash_step_def getitem_def dict_getd_def)
qed

lemma conv_of_disguised_prov:
  assumes "oclass r = ''ExternalNetworkProvidedContract''" "klass_of (cv_env cv) ''ExternalNetworkProvidedContract'' = Some prov"
  shows "conv_of cv [disguise r] = conv_of cv [r]"
proof -
  have "default_identity_to_aci cv (ofields (disguise r)) prov [] ''fvRsProv__Ext''
      = default_identity_to_aci cv (ofields r) prov [] ''fvRsProv__Ext''"
    by (rule identity_cong) (auto simp: id_names_prov disguise_def set_attr_def dict_simps)
  then show ?thesis using assms by (simp add: conv_of_prov)
qed

definition monitored_updates :: "obj \<Rightarrow> root_updates" where
  "monitored_updates r = no_updates\<lparr>conf_add := [disguise r], monitor_add := [r]\<rparr>"

lemma classify_monitored:
  assumes "get_root_key m r = Inr (Some rn)" "rn \<noteq> []" "oclass r \<noteq> ''AciFault''" "truthy r ''monitored''"
  shows "classify m False r [] = Inr [(Some rn, monitored_updates r)]"
proof -
  have "json_truth (opt_attr r ''monitored'' JNull)"
    using assms(4) by (auto simp: opt_attr_def truthy_def dict_getd_def split: option.splits)
  with assms(1-3) show ?thesis
    by (simp add: classify_def push_update_def dict_getd_def monitored_updates_def no_updates_def disguise_def)
qed

text \<open>An object of one of those classes is lost when it is monitored: its copy and the object itself
  convert to the same node, the configuration tree is cleared of the nodes of the monitored object and
  the monitored tree of those of the copy, so the node is visible in neither.\<close>

theorem monitored_contract_in_no_tree:
  assumes "oclass r = ''ExternalNetworkProvidedContract''"
    and "klass_of (cv_env cv) (oclass r) = Some ExternalNetworkProvidedContract"
    and "truthy r ''monitored''" "get_root_key (maker_with cv m) r = Inr (Some rn)" "rn \<noteq> []"
    and "dict_get (config_trees tm) rn = Some c" "dict_get (oper_trees tm) rn = Some o'"
    "dict_get (monitor_trees tm) rn = Some mo"
    and "good_tree (maker_with cv m) p c" "good_tree (maker_with cv m) p o'" "good_tree (maker_with cv m) p mo"
    and "\<forall>k \<in> node_keys (maker_with cv m) [disguise r] \<union> node_keys (maker_with cv m) [r]. hd k = p"
  shows "\<exists>us tm' c' mo'. classify (maker_with cv m) False r [] = Inr us \<and>
    fold_res (update_root (maker_with cv m)) us tm = Inr tm' \<and>
    dict_get (config_trees tm') rn = Some c' \<and> dict_get (monitor_trees tm') rn = Some mo' \<and>
    (\<forall>k \<in> set (converted_keys (maker_with cv m) [r]). content c' k = None \<and> content mo' k = None)"
proof -
  let ?m = "maker_with cv m" and ?u = "monitored_updates r"
  have same: "converted_keys ?m [disguise r] = converted_keys ?m [r]"
    using conv_of_disguised_prov [of r cv] assms(1,2)
    by (simp add: converted_keys_def maker_with_def prov_def)
  have "\<forall>k \<in> node_keys ?m (conf_add ?u) \<union> node_keys ?m (oper_add ?u) \<union> node_keys ?m (monitor_add ?u). hd k = p"
    using assms(12) by (auto simp: monitored_updates_def no_updates_def node_keys_def)
  from update_root_result [OF assms(6-11) this] obtain tm' c' mo' where
    "update_root ?m (Some rn, ?u) tm = Inr tm'"
    "dict_get (config_trees tm') rn = Some c'" "dict_get (monitor_trees tm') rn = Some mo'"
    "\<forall>k \<in> set (converted_keys ?m (monitor_add ?u)). content c' k = None"
    "\<forall>k \<in> set (converted_keys ?m (conf_add ?u)). content mo' k = None"
    by (auto simp: dict_simps)
  moreover have "classify ?m False r [] = Inr [(Some rn, ?u)]"
    using classify_monitored [OF assms(4,5) _ assms(3)] assms(1) by simp
  ultimately show ?thesis
    using same by (auto simp: monitored_updates_def no_updates_def)
qed

section \<open>Examples\<close>

text \<open>Names as in \<open>Sample_Data\<close>: the type and the identity joined by slashes.\<close>

definition toy_cv :: conv_env where
  "toy_cv = \<lparr>cv_env = \<lparr>conf = sample_conf, api = sample_api,
       classes = [ExternalNetworkProvidedContract, BridgeDomain, ServiceRedirectPolicy]\<rparr>,
     cv_dn = (\<lambda>mo attrs. Inr (py_join ''/'' (mo # map py_str attrs))),
     cv_decompose = (\<lambda>dn mo. Inr (map (\<lambda>x. (mo, x)) (tl (py_split (CHR ''/'') dn)))),
     cv_filter_rns = map snd, cv_no_useg = False\<rparr>"

definition path_maker :: maker where
  "path_maker = \<lparr>mk_env = small_env, mk_conv = toy_conv,
     mk_decompose = (\<lambda>mo dn. Some (map (\<lambda>x. (''x'', x)) (tl (py_split (CHR ''/'') dn)))), mk_hash = toy_hash\<rparr>"

definition sample_contract :: obj where
  "sample_contract = \<lparr>oclass = ''ExternalNetworkProvidedContract'', ofields =
     [(''tenant_name'', JStr ''t1''), (''l3out_name'', JStr ''l''), (''ext_net_name'', JStr ''e''), (''name'', JStr ''c''),
      (''monitored'', JBool True)]\<rparr>"

lemma toy_cv_prov: "klass_of (cv_env toy_cv) ''ExternalNetworkProvidedContract'' = Some prov"
  by (simp add: toy_cv_def klass_of_def prov_def ExternalNetworkProvidedContract_def)

theorem disguised_has_no_nodes_witness:
  "node_keys (maker_with toy_cv path_maker) [disguise sample_bd] = {}
    \<and> converted_keys (maker_with toy_cv path_maker) [disguise sample_bd] = []"
  by (rule disguised_has_no_nodes) code_simp

theorem pre_existing_not_converted_witness: "aim_to_aci toy_cv [disguise sample_bd] = Inr []"
  by (rule pre_existing_not_converted) code_simp

lemma keys_dict_update: "fst ` set (dict_update d kvs) = fst ` set d \<union> fst ` set kvs"
  for d kvs :: "(key, kwargs) dict"
  by (induction d kvs rule: dict_update.induct) (simp_all add: dom_update)

lemma node_keys_converted: "node_keys m [r] \<subseteq> set (converted_keys m [r])"
proof
  fix k assume "k \<in> node_keys m [r]"
  then have "k \<in> fst ` set (dict_update [] (nodes_of m r))" by (simp add: node_keys_def)
  then have "k \<in> fst ` set (nodes_of m r)" using keys_dict_update [of "[]" "nodes_of m r"] by auto
  then have "k \<in> fst ` set (aim_res_to_nodes m r)" by (auto simp: nodes_of_def split: option.splits if_splits)
  then have "k \<in> fst ` set (concat (map (\<lambda>(mo, attr). case build_hash_tree_key_from_dn m (attr_dn attr) mo of
       None \<Rightarrow> [] | Some k \<Rightarrow> [(k, node_attrs r (extract_dn m r) attr)]) (mk_conv m [r])))"
    (is "k \<in> fst ` set ?l") unfolding aim_res_to_nodes_def using keys_dict_update [of "[]" ?l] by auto
  also have "fst ` set ?l = set (map fst ?l)" by simp
  also have "map fst ?l = converted_keys m [r]"
    unfolding converted_keys_def map_concat map_map
    by (rule arg_cong [where f = concat], rule map_cong [OF refl])
      (simp only: split_beta comp_apply fst_conv list.map option.case_distrib [of "map fst"])
  finally show "k \<in> set (converted_keys m [r])" .
qed

lemma conv_of_contract: "conv_of toy_cv [r] = [(''fvRsProv'', [(''dn'', JStr ''fvRsProv__Ext/t1/l/e/c'')])]"
  if "r = sample_contract \<or> r = disguise sample_contract"
proof -
  have "default_identity_to_aci toy_cv (ofields sample_contract) prov [] ''fvRsProv__Ext'' = Inr (JStr ''fvRsProv__Ext/t1/l/e/c'')"
    by code_simp
  moreover have "oclass sample_contract = ''ExternalNetworkProvidedContract''" by (simp add: sample_contract_def)
  ultimately show ?thesis
    using that conv_of_disguised_prov [of sample_contract toy_cv] toy_cv_prov by (auto simp: conv_of_prov)
qed

lemma contract_keys:
  assumes "r = sample_contract \<or> r = disguise sample_contract"
  shows "converted_keys (maker_with toy_cv path_maker) [r] = [[''x|t1'', ''x|l'', ''x|e'', ''x|c'']]"
proof -
  have "build_hash_tree_key_from_dn (maker_with toy_cv path_maker) (Some ''fvRsProv__Ext/t1/l/e/c'') ''fvRsProv''
      = Some [''x|t1'', ''x|l'', ''x|e'', ''x|c'']"
    by (simp add: build_hash_tree_key_from_dn_def dn_to_key_def maker_with_def path_maker_def)
  then show ?thesis
    using conv_of_contract [OF assms] by (simp add: converted_keys_def maker_with_def attr_dn_def)
qed

theorem monitored_contract_in_no_tree_witness:
  "\<exists>us tm' c' mo'. classify (maker_with toy_cv path_maker) False sample_contract [] = Inr us \<and>
    fold_res (update_root (maker_with toy_cv path_maker)) us
      \<lparr>config_trees = [(''fvTenant-t1'', empty_tree)], oper_trees = [(''fvTenant-t1'', empty_tree)],
       monitor_trees = [(''fvTenant-t1'', empty_tree)]\<rparr> = Inr tm' \<and>
    dict_get (config_trees tm') ''fvTenant-t1'' = Some c' \<and> dict_get (monitor_trees tm') ''fvTenant-t1'' = Some mo' \<and>
    content c' [''x|t1'', ''x|l'', ''x|e'', ''x|c''] = None \<and> content mo' [''x|t1'', ''x|l'', ''x|e'', ''x|c''] = None"
proof -
  let ?m = "maker_with toy_cv path_maker" and ?rn = "''fvTenant-t1''"
  let ?tm = "\<lparr>config_trees = [(?rn, empty_tree)], oper_trees = [(?rn, empty_tree)], monitor_trees = [(?rn, empty_tree)]\<rparr>"
  have good: "good_tree ?m ''x|t1'' empty_tree"
    by (simp add: good_tree_def wf_tree_def rooted_def content_def new_tree_def)
  have "hd k = ''x|t1''" if "k \<in> node_keys ?m [r]" "r = sample_contract \<or> r = disguise sample_contract" for k r
    using node_keys_converted [of ?m r] contract_keys [OF that(2)] that(1) by auto
  then have keys: "\<forall>k \<in> node_keys ?m [disguise sample_contract] \<union> node_keys ?m [sample_contract]. hd k = ''x|t1''"
    by blast
  have r: "oclass sample_contract = ''ExternalNetworkProvidedContract''" "truthy sample_contract ''monitored''"
    by (simp_all add: sample_contract_def truthy_def dict_getd_def)
  then have k: "klass_of (cv_env toy_cv) (oclass sample_contract) = Some ExternalNetworkProvidedContract"
    using toy_cv_prov by (simp add: prov_def)
  have root: "get_root_key ?m sample_contract = Inr (Some ?rn)"
    unfolding maker_with_def by code_simp
  have t: "dict_get (config_trees ?tm) ?rn = Some empty_tree" "dict_get (oper_trees ?tm) ?rn = Some empty_tree"
    "dict_get (monitor_trees ?tm) ?rn = Some empty_tree" by simp_all
  have "?rn \<noteq> []" by simp
  from monitored_contract_in_no_tree [OF r(1) k r(2) root this t good good good keys]
  show ?thesis by (simp add: contract_keys)
qed

section \<open>Items of lists\<close>

text \<open>The rule for the destinations of a redirect policy.\<close>

definition dest_rule :: "klass rule" where
  "dest_rule = (rule_for ServiceRedirectPolicy)\<lparr>converter := Some (ListDict ''destinations''
       [(''ip'', renamed ''ip''), (''mac'', via (Some ''mac'') Upper), (''name'', renamed ''destName'')]
       [''ip''] [])\<rparr>"

lemma dest_rule_found:
  "dict_get networks_map ''vnsRedirectDest'' = None" "dict_get contracts_map ''vnsRedirectDest'' = None"
  "dict_get l3out_map ''vnsRedirectDest'' = None" "dict_get vmm_map ''vnsRedirectDest'' = None"
  "dict_get qos_span_map ''vnsRedirectDest'' = None" "dict_get devices_map ''vnsRedirectDest'' = None"
  "dict_get late_map ''vnsRedirectDest'' = None" "dict_get graph_nodes_map ''vnsRedirectDest'' = None"
  "dict_get redirect_map ''vnsRedirectDest'' = Some [dest_rule]"
  by (simp_all add: networks_map_def contracts_map_def l3out_map_def vmm_map_def qos_span_map_def devices_map_def
      redirect_map_def graph_nodes_map_def late_map_def dest_rule_def)

lemma redirect_rule: "rules_of ''vnsRedirectDest'' = [dest_rule]"
  by (simp add: rules_of_def resource_map_def base_map_def dict_getd_def map_add_def dest_rule_found)

definition sample_dest :: "string \<Rightarrow> string \<times> kwargs" where
  "sample_dest p = (''vnsRedirectDest'',
     [(''dn'', JStr (''vnsRedirectDest/t1/'' @ p @ ''/1.1.1.1'')), (''ip'', JStr ''1.1.1.1''), (''mac'', JStr ''a'')])"

definition destinations_of :: "obj list result \<Rightarrow> json option list" where
  "destinations_of res = (case res of Inr rs \<Rightarrow> map (\<lambda>r. dict_get (ofields r) ''destinations'') rs | Inl _ \<Rightarrow> [])"

text \<open>The memory of list items in the squashing to AIM is not kept per object: two policies with a
  destination of the same address convert to one policy with the destination and one without, while
  each of them alone has it.\<close>

theorem squash_loses_items:
  "destinations_of (aci_to_aim toy_cv [sample_dest ''p1'']) = [Some (JList [JObj [(''ip'', JStr ''1.1.1.1''), (''mac'', JStr ''A'')]])]
    \<and> destinations_of (aci_to_aim toy_cv [sample_dest ''p2'']) = [Some (JList [JObj [(''ip'', JStr ''1.1.1.1''), (''mac'', JStr ''A'')]])]
    \<and> destinations_of (aci_to_aim toy_cv [sample_dest ''p1'', sample_dest ''p2''])
      = [Some (JList [JObj [(''ip'', JStr ''1.1.1.1''), (''mac'', JStr ''A'')]]), Some (JList [])]"
  unfolding aci_to_aim_def
  by (simp add: aci_to_aim_one_def sample_dest_def redirect_rule, code_simp)

end
