(* ===== verification/Aid_Service.thy ===== *)
theory Aid_Service
  imports Hash_Ring Aim_Utils
begin

text \<open>
  The service of \<open>aim/agent/aid/service.py\<close> around the reconciliation: which roots an agent serves
  (\<open>_calculate_tenants\<close>, with the state of an agent from \<open>aim/api/resource.py\<close>), the collection of
  events (\<open>_daemon_loop\<close>, \<open>aim/agent/aid/event_handler.py\<close>) and the check of the heartbeat loop.

  Times are rationals in seconds. The major number of a version (\<open>semantic_version\<close>) is a parameter.
  \<open>perform_harakiri\<close> ends the process if \<open>recovery_restart\<close> is configured and does nothing otherwise.
\<close>

section \<open>Agents\<close>

record agent_row =
  agent_id :: string
  heartbeat :: rat
  agent_version :: string
  admin_up :: bool
  hash_trees :: "string list"

record aid_conf =
  single_aid :: bool
  agent_down_time :: rat
  max_down_time :: int
  recovery_restart :: bool

text \<open>\<open>current_timestamp\<close> of a store without timestamps is \<open>None\<close>. \<open>seconds\<close> of a time difference leaves out
  its days.\<close>

definition is_down :: "aid_conf \<Rightarrow> rat option \<Rightarrow> agent_row \<Rightarrow> bool" where
  "is_down cf now a = (case now of None \<Rightarrow> False | Some t \<Rightarrow> agent_down_time cf \<le> t - heartbeat a)"

definition down_time :: "aid_conf \<Rightarrow> rat option \<Rightarrow> agent_row \<Rightarrow> int option" where
  "down_time cf now a =
     (if is_down cf now a then (case now of None \<Rightarrow> None | Some t \<Rightarrow> Some (\<lfloor>t - heartbeat a\<rfloor> mod 86400)) else None)"

section \<open>The roots of an agent\<close>

datatype 'a process = Exited | Went 'a

definition DEFAULT_VNODES_HASHRING :: nat where "DEFAULT_VNODES_HASHRING = 40"

definition get_vnodes_value :: "nat option \<Rightarrow> nat" where
  "get_vnodes_value row = (case row of None \<Rightarrow> DEFAULT_VNODES_HASHRING | Some v \<Rightarrow> v)"

definition agents_ring :: "(string \<Rightarrow> nat) \<Rightarrow> nat option \<Rightarrow> agent_row list \<Rightarrow> hash_ring" where
  "agents_ring H row agents =
     new_ring H (dict_update [] (map (\<lambda>x. (agent_id x, None)) agents)) (get_vnodes_value row) 1 1"

definition tenant_assignation_algorithm ::
  "(string \<Rightarrow> nat) \<Rightarrow> nat option \<Rightarrow> string list \<Rightarrow> string \<Rightarrow> agent_row list \<Rightarrow> string list result" where
  "tenant_assignation_algorithm H row roots me agents =
     (if me \<notin> agent_id ` set agents then Inr []
      else bind_res (traverse_res (\<lambda>tenant. bind_res (assign_key H tenant (agents_ring H row agents)) (\<lambda>ns.
             Inr (if me \<in> set ns then [tenant] else []))) roots) (\<lambda>ts. Inr (concat ts)))"

text \<open>\<open>max(agents, key=lambda x: x.version).version\<close>: the first of the greatest, versions compared as strings.\<close>

fun max_version :: "agent_row list \<Rightarrow> string" where
  "max_version [] = []"
| "max_version [a] = agent_version a"
| "max_version (a # b # as) =
     (if agent_version a < agent_version b then max_version (b # as) else max_version (a # as))"

definition live_agents :: "aid_conf \<Rightarrow> rat option \<Rightarrow> agent_row list \<Rightarrow> agent_row list" where
  "live_agents cf now rows = filter (\<lambda>x. admin_up x \<and> \<not> is_down cf now x) rows"

definition same_major :: "(string \<Rightarrow> int result) \<Rightarrow> int \<Rightarrow> agent_row list \<Rightarrow> agent_row list result" where
  "same_major major m agents =
     bind_res (traverse_res (\<lambda>x. bind_res (major (agent_version x)) (\<lambda>v. Inr (if v - m = 0 then [x] else []))) agents)
       (\<lambda>xs. Inr (concat xs))"

definition store_trees :: "string \<Rightarrow> string list \<Rightarrow> agent_row list \<Rightarrow> agent_row list" where
  "store_trees me ts rows = map (\<lambda>x. if agent_id x = me then x\<lparr>hash_trees := ts\<rparr> else x) rows"

definition assigned ::
  "(string \<Rightarrow> nat) \<Rightarrow> nat option \<Rightarrow> string list \<Rightarrow> string \<Rightarrow> agent_row list \<Rightarrow> agent_row list \<Rightarrow>
    (string list \<times> agent_row list) process result" where
  "assigned H row roots me rows agents =
     bind_res (tenant_assignation_algorithm H row roots me agents) (\<lambda>ts. Inr (Went (ts, store_trees me ts rows)))"

definition calculate_tenants ::
  "(string \<Rightarrow> nat) \<Rightarrow> (string \<Rightarrow> int result) \<Rightarrow> aid_conf \<Rightarrow> nat option \<Rightarrow> rat option \<Rightarrow> string list \<Rightarrow> agent_row list \<Rightarrow>
    string \<Rightarrow> (string list \<times> agent_row list) process result" where
  "calculate_tenants H major cf row now roots rows me =
     (case find (\<lambda>x. agent_id x = me) rows of
        None \<Rightarrow> Inl AttributeError
      | Some self \<Rightarrow>
          if single_aid cf then assigned H row roots me rows [self]
          else if max_down_time cf < max 0 (case down_time cf now self of None \<Rightarrow> 0 | Some d \<Rightarrow> d) \<and> recovery_restart cf
            then Inr Exited
          else let agents = live_agents cf now rows in
            if agents = [] then Inr (Went ([], rows))
            else bind_res (major (agent_version self)) (\<lambda>mine. bind_res (major (max_version agents)) (\<lambda>tv.
              if mine - tv < 0 then Inr (Went ([], rows))
              else bind_res (same_major major tv agents) (assigned H row roots me rows))))"

text \<open>An agent serves a root.\<close>

definition serves ::
  "(string list \<times> agent_row list) process result \<Rightarrow> string \<Rightarrow> bool" where
  "serves res rn = (case res of Inr (Went (ts, _)) \<Rightarrow> rn \<in> set ts | _ \<Rightarrow> False)"

section \<open>Every root has one agent\<close>

lemma max_version_mem: "as \<noteq> [] \<Longrightarrow> \<exists>a \<in> set as. agent_version a = max_version as"
proof (induction as rule: max_version.induct)
  case (3 a b as)
  then show ?case by (cases "agent_version a < agent_version b") auto
qed simp_all

lemma same_major_filter:
  assumes "\<And>a. a \<in> set agents \<Longrightarrow> \<exists>i. major (agent_version a) = Inr i"
  shows "same_major major m agents = Inr (filter (\<lambda>a. major (agent_version a) = Inr m) agents)"
proof -
  have "traverse_res (\<lambda>x. bind_res (major (agent_version x)) (\<lambda>v. Inr (if v - m = 0 then [x] else []))) as
      = Inr (map (\<lambda>a. if major (agent_version a) = Inr m then [a] else []) as)" if "set as \<subseteq> set agents" for as
    using that
  proof (induction as)
    case (Cons a as)
    obtain i where "major (agent_version a) = Inr i" using assms [of a] Cons.prems by auto
    with Cons show ?case by auto
  qed simp
  moreover have "concat (map (\<lambda>a. if P a then [a] else []) as) = filter P as" for P and as :: "agent_row list"
    by (induction as) auto
  ultimately show ?thesis by (simp add: same_major_def)
qed

lemma keys_of_update: "set (map fst (dict_update d kvs)) = set (map fst d) \<union> set (map fst kvs)"
  by (induction d kvs rule: dict_update.induct) (auto simp: dom_update)

lemma agents_ring_ok:
  assumes "agents \<noteq> []" "0 < get_vnodes_value row"
  shows "ring_ok H (agents_ring H row agents)" "ring (agents_ring H row agents) \<noteq> []"
    "replicas (agents_ring H row agents) = 1" "set (dict_keys (rnodes (agents_ring H row agents))) = agent_id ` set agents"
proof -
  define nodes where "nodes = dict_update [] (map (\<lambda>x. (agent_id x, None :: nat option)) agents)"
  define e where "e = \<lparr>rnodes = [], ring = [], vnodes = get_vnodes_value row, replicas = 1, default_weight = 1\<rparr>"
  have ok: "dict_ok nodes" unfolding nodes_def by (intro dict_ok_update) simp
  have keys: "set (map fst nodes) = agent_id ` set agents"
    unfolding nodes_def keys_of_update by (simp add: image_image)
  have eq: "agents_ring H row agents = e\<lparr>ring := fold (insort_right h4sh) (concat (map (constellation H e) nodes)) [],
      rnodes := nodes\<rparr>"
    by (simp add: agents_ring_def new_ring_def add_nodes_def dict_keys_def dict_update_Nil_ok [OF ok] e_def flip: nodes_def)
  have "ring_ok H e" "no_star_collision H e"
    by (simp_all add: ring_ok_def no_star_collision_def stars_of_def e_def)
  from add_nodes_ok(1) [OF this ok] show ring: "ring_ok H (agents_ring H row agents)"
    by (simp add: agents_ring_def new_ring_def e_def nodes_def)
  show "replicas (agents_ring H row agents) = 1" by (simp add: eq e_def)
  show "set (dict_keys (rnodes (agents_ring H row agents))) = agent_id ` set agents"
    using keys by (simp add: eq dict_keys_def)
  have "nodes \<noteq> []" using keys assms(1) by auto
  then obtain n w ns where n: "nodes = (n, w) # ns" by (cases nodes) auto
  then have "dict_get nodes n = Some w" by simp
  then have "map_of (rev (map (\<lambda>x. (agent_id x, None :: nat option)) agents)) n = Some w"
    unfolding nodes_def dict_get_update by (simp split: option.split_asm)
  then have "w = None" by (auto dest: map_of_SomeD)
  then have "stars_of H (agents_ring H row agents) \<noteq> []"
    using assms(2) by (simp add: stars_of_def eq n constellation_def hashi_def e_def)
  with ring show "ring (agents_ring H row agents) \<noteq> []" by (auto simp: ring_ok_def)
qed

lemma assign_one:
  assumes "agents \<noteq> []" "0 < get_vnodes_value row"
  shows "\<exists>x \<in> agent_id ` set agents. assign_key H rn (agents_ring H row agents) = Inr [x]"
proof -
  note r = agents_ring_ok [OF assms, of H]
  then have p: "0 < replicas (agents_ring H row agents)" by simp
  obtain res where res: "assign_key H rn (agents_ring H row agents) = Inr res" "distinct res" "res \<noteq> []"
    "set res \<subseteq> snode ` set (ring (agents_ring H row agents))"
    "length res = min (replicas (agents_ring H row agents)) (card (snode ` set (ring (agents_ring H row agents))))"
    "hd res = snode (owner (ring (agents_ring H row agents)) (H rn))"
    by (rule assign_key_facts [OF r(1,2) p])
  have "length res \<le> 1" unfolding res(5) r(3) by (rule min.cobounded1)
  with res(3) obtain x where x: "res = [x]" by (cases res) auto
  have "x \<in> snode ` set (ring (agents_ring H row agents))" using res(4) unfolding x by simp
  then obtain s where s: "s \<in> set (ring (agents_ring H row agents))" "x = snode s" by (rule imageE)
  have "x \<in> agent_id ` set agents" using ring_nodes [OF r(1) s(1)] unfolding r(4) s(2) .
  moreover have "assign_key H rn (agents_ring H row agents) = Inr [x]" using res(1) unfolding x .
  ultimately show ?thesis by (rule bexI [rotated])
qed

lemma assignation_filter:
  assumes "agents \<noteq> []" "0 < get_vnodes_value row"
  shows "tenant_assignation_algorithm H row roots me agents
    = Inr (filter (\<lambda>rn. assign_key H rn (agents_ring H row agents) = Inr [me]) roots)"
proof -
  let ?r = "agents_ring H row agents"
  have one: "\<exists>x. assign_key H rn ?r = Inr [x] \<and> x \<in> agent_id ` set agents" for rn
    using assign_one [OF assms, of H rn] by blast
  have "traverse_res (\<lambda>tenant. bind_res (assign_key H tenant ?r) (\<lambda>ns. Inr (if me \<in> set ns then [tenant] else []))) rs
      = Inr (map (\<lambda>rn. if assign_key H rn ?r = Inr [me] then [rn] else []) rs)" for rs
  proof (induction rs)
    case (Cons rn rs)
    from one [of rn] obtain x where "assign_key H rn ?r = Inr [x]" by blast
    with Cons show ?case by auto
  qed simp
  moreover have "concat (map (\<lambda>a. if P a then [a] else []) xs) = filter P xs" for P and xs :: "string list"
    by (induction xs) auto
  moreover have "filter (\<lambda>rn. assign_key H rn ?r = Inr [me]) roots = []" if "me \<notin> agent_id ` set agents"
    unfolding filter_empty_conv
  proof (intro ballI notI)
    fix rn assume "assign_key H rn ?r = Inr [me]"
    with one [of rn] that show False by simp
  qed
  ultimately show ?thesis by (simp add: tenant_assignation_algorithm_def)
qed

definition elected :: "(string \<Rightarrow> int result) \<Rightarrow> int \<Rightarrow> agent_row list \<Rightarrow> agent_row list" where
  "elected major tv agents = filter (\<lambda>a. major (agent_version a) = Inr tv) agents"

text \<open>What an agent of the database computes, when the versions can be read.\<close>

lemma calculate_result:
  assumes multi: "\<not> single_aid cf" and vn: "0 < get_vnodes_value row" and live: "live_agents cf now rows \<noteq> []"
    and versions: "\<forall>a \<in> set rows. \<exists>i. major (agent_version a) = Inr i"
    and tv: "major (max_version (live_agents cf now rows)) = Inr tv"
    and self: "find (\<lambda>x. agent_id x = me) rows = Some self"
  shows "serves (calculate_tenants H major cf row now roots rows me) rn \<longleftrightarrow>
    \<not> (max_down_time cf < max 0 (case down_time cf now self of None \<Rightarrow> 0 | Some d \<Rightarrow> d) \<and> recovery_restart cf) \<and>
    (\<exists>mine. major (agent_version self) = Inr mine \<and> tv \<le> mine) \<and> rn \<in> set roots \<and>
    assign_key H rn (agents_ring H row (elected major tv (live_agents cf now rows))) = Inr [me]"
proof -
  let ?L = "live_agents cf now rows" and ?E = "elected major tv (live_agents cf now rows)"
  have sub: "set ?L \<subseteq> set rows" by (auto simp: live_agents_def)
  then have same: "same_major major tv ?L = Inr ?E"
    unfolding elected_def using versions by (intro same_major_filter) blast
  obtain b where "b \<in> set ?L" "agent_version b = max_version ?L" using max_version_mem [OF live] by blast
  then have "b \<in> set ?E" using tv by (simp add: elected_def)
  then have E: "?E \<noteq> []" by auto
  have "self \<in> set rows" using self by (auto simp: find_Some_iff)
  with versions obtain mine where mine: "major (agent_version self) = Inr mine" by blast
  show ?thesis
    using multi live self tv same mine assignation_filter [OF E vn, of H roots me]
    by (auto simp: calculate_tenants_def assigned_def serves_def Let_def)
qed


section \<open>Versions and down times\<close>

text \<open>The time an agent is down is computed without its days: an agent silent for days and a few seconds is
  down for a few seconds only, and does not end its process.\<close>

theorem down_time_forgets_days:
  assumes "now = Some (heartbeat a + 86400 * of_nat d + s)" "1 \<le> d" "0 \<le> s" "s < 86400" "agent_down_time cf \<le> 86400"
  shows "is_down cf now a \<and> down_time cf now a = Some \<lfloor>s\<rfloor>"
proof -
  have "(86400 :: rat) \<le> 86400 * of_nat d" using assms(2) by simp
  then have down: "is_down cf now a" using assms by (simp add: is_down_def)
  have "\<lfloor>86400 * of_nat d + s\<rfloor> = 86400 * int d + \<lfloor>s\<rfloor>"
    using floor_add_int [of s "86400 * int d"] by (simp add: algebra_simps)
  moreover have "0 \<le> \<lfloor>s\<rfloor>" "\<lfloor>s\<rfloor> < 86400" using assms(3,4) by (simp_all add: floor_less_iff)
  ultimately show ?thesis using down assms(1) by (simp add: down_time_def)
qed

text \<open>The leading version is the greatest string, so that of major 9 leads that of major 10: an agent of a greater
  major version than the leading one serves nothing.\<close>

theorem newer_major_idle:
  assumes "distinct (map agent_id rows)" "\<not> single_aid cf" "0 < get_vnodes_value row"
    and "live_agents cf now rows \<noteq> []" "\<forall>a \<in> set rows. \<exists>i. major (agent_version a) = Inr i"
    and "major (max_version (live_agents cf now rows)) = Inr tv"
    and "a \<in> set rows" "major (agent_version a) = Inr m" "tv < m"
  shows "\<not> serves (calculate_tenants H major cf row now roots rows (agent_id a)) rn"
proof
  let ?L = "live_agents cf now rows"
  assume s: "serves (calculate_tenants H major cf row now roots rows (agent_id a)) rn"
  have "find (\<lambda>y. agent_id y = agent_id a) rows = Some a"
    using assms(1,7) by (induction rows) auto
  from calculate_result [OF assms(2-6) this, of H roots rn] s
  have owner: "assign_key H rn (agents_ring H row (elected major tv ?L)) = Inr [agent_id a]" by simp
  obtain b where "b \<in> set ?L" "agent_version b = max_version ?L" using max_version_mem [OF assms(4)] by blast
  with assms(6) have "b \<in> set (elected major tv ?L)" by (simp add: elected_def)
  then have "elected major tv ?L \<noteq> []" by auto
  from assign_one [OF this assms(3), of H rn] owner obtain c where "c \<in> set (elected major tv ?L)" "agent_id c = agent_id a" by auto
  then have "c \<in> set rows" "major (agent_version c) = Inr tv" "agent_id c = agent_id a"
    by (simp_all add: elected_def live_agents_def)
  moreover have "c = a" using assms(1,7) calculation by (auto simp: distinct_map inj_on_def)
  ultimately show False using assms(8,9) by simp
qed

section \<open>Events\<close>

definition EVENT_SERVE :: string where "EVENT_SERVE = ''serve''"
definition EVENT_RECONCILE :: string where "EVENT_RECONCILE = ''reconcile''"
definition EVENTS :: "string list" where "EVENTS = [EVENT_SERVE, EVENT_RECONCILE]"

text \<open>\<open>_recv_loop\<close>: what a received message puts into the queue.\<close>

definition recv_event :: "string \<Rightarrow> string list \<Rightarrow> string list" where
  "recv_event event q = (if lower event \<in> set EVENTS then q @ [event] else q)"

text \<open>
  The loop of \<open>_daemon_loop\<close> that waits for the first event and gathers those that follow within the squash
  time. An observation is what one \<open>get_event\<close> returned, whether the agent is to go on, and the time then. The
  result says that a reconciliation starts (and whether it serves), that the loop was stopped, or that it
  goes on waiting.
\<close>

datatype gathering = StartCycle bool | StopLoop | Waiting

definition AID_EXIT_CHECK_INTERVAL :: rat where "AID_EXIT_CHECK_INTERVAL = 5"

fun gather_events :: "rat \<Rightarrow> (string option \<times> bool \<times> rat) list \<Rightarrow> rat option \<Rightarrow> rat \<Rightarrow> bool \<Rightarrow> gathering" where
  "gather_events squash [] first left serve = (if 0 < left then Waiting else StartCycle serve)"
| "gather_events squash ((e, run, t) # obs) first left serve =
     (if \<not> 0 < left then StartCycle serve
      else if (e = None \<or> e = Some []) \<and> first = None
        then (if run then gather_events squash obs first left serve else StopLoop)
      else let f = (case first of None \<Rightarrow> t | Some f \<Rightarrow> f) in
        if e = None \<or> (\<exists>x \<in> set EVENTS. e = Some x)
        then gather_events squash obs (Some f) (f + squash - t) (serve \<or> e = Some EVENT_SERVE)
        else gather_events squash obs (Some f) left serve)"

definition daemon_loop_events :: "rat \<Rightarrow> (string option \<times> bool \<times> rat) list \<Rightarrow> gathering" where
  "daemon_loop_events squash obs = gather_events squash obs None AID_EXIT_CHECK_INTERVAL False"

text \<open>The gathering serves only if it took a serve event from the queue.\<close>

lemma gather_serves:
  "gather_events squash obs first left serve = StartCycle True \<Longrightarrow> serve \<or> EVENT_SERVE \<in> (\<Union>(e, _) \<in> set obs. set_option e)"
  by (induction squash obs first left serve rule: gather_events.induct)
    (auto simp: Let_def split: if_split_asm option.split_asm)

text \<open>The listener accepts an event in any case, but puts it into the queue as it came, and the loop knows the
  lower case only.\<close>

theorem upper_case_serve_lost:
  "recv_event ''SERVE'' [] = [''SERVE''] \<and>
   daemon_loop_events 2 [(Some ''SERVE'', True, 100), (None, True, 105)] = StartCycle False \<and>
   daemon_loop_events 2 [(Some ''serve'', True, 100), (None, True, 102)] = StartCycle True"
  by code_simp

text \<open>\<open>_heartbeat_loop\<close>: whether the process is ended because no reconciliation ended for too long.\<close>

definition heartbeat_exits :: "aid_conf \<Rightarrow> rat \<Rightarrow> rat \<Rightarrow> rat \<Rightarrow> bool" where
  "heartbeat_exits cf deadlock_time daemon_loop_time start_time \<longleftrightarrow>
     daemon_loop_time < start_time \<and> deadlock_time < start_time - daemon_loop_time \<and> recovery_restart cf"

section \<open>Examples\<close>

definition toy_major :: "string \<Rightarrow> int result" where
  "toy_major v = Inr (int (nat_val (hd (py_split (CHR ''.'') v))))"

definition two_agents :: "agent_row list" where
  "two_agents =
     [\<lparr>agent_id = ''a'', heartbeat = 990, agent_version = ''9.0.0'', admin_up = True, hash_trees = []\<rparr>,
      \<lparr>agent_id = ''b'', heartbeat = 995, agent_version = ''10.0.0'', admin_up = True, hash_trees = []\<rparr>]"

definition toy_aid :: aid_conf where
  "toy_aid = \<lparr>single_aid = False, agent_down_time = 75, max_down_time = 40, recovery_restart = True\<rparr>"


theorem newer_major_idle_witness:
  "\<not> serves (calculate_tenants toy_md5 toy_major toy_aid None (Some 1000) [''tn-t1''] two_agents ''b'') ''tn-t1''"
proof -
  have v: "\<forall>a \<in> set two_agents. \<exists>i. toy_major (agent_version a) = Inr i" by (simp add: toy_major_def)
  have c: "distinct (map agent_id two_agents)" "\<not> single_aid toy_aid" "0 < get_vnodes_value None"
    "live_agents toy_aid (Some 1000) two_agents \<noteq> []"
    "toy_major (max_version (live_agents toy_aid (Some 1000) two_agents)) = Inr 9"
    "two_agents ! 1 \<in> set two_agents" "toy_major (agent_version (two_agents ! 1)) = Inr 10"
    by code_simp+
  have "agent_id (two_agents ! 1) = ''b''" by (simp add: two_agents_def)
  with newer_major_idle [OF c(1-4) v c(5-7)] show ?thesis by simp
qed

theorem down_time_forgets_days_witness:
  "is_down toy_aid (Some (990 + 86400 * 3 + 2)) (two_agents ! 0) \<and> down_time toy_aid (Some (990 + 86400 * 3 + 2)) (two_agents ! 0) = Some 2"
  using down_time_forgets_days [of "Some (990 + 86400 * 3 + 2)" "two_agents ! 0" 3 2 toy_aid]
  by (simp add: two_agents_def toy_aid_def)

end
