(* ===== verification/Sync_Track.thy ===== *)
theory Sync_Track
  imports Aim_Manager Aim_Utils
begin

text \<open>
  \<open>_track_universe_actions\<close> of \<open>aim/agent/aid/universes/base_universe.py\<close>: what an agent remembers of the
  operations it keeps retrying. For each root and operation, the objects of the last cycle with the
  number of retries, the limit, what to do beyond it and the time before which they are left alone.

  The clock and the random numbers of the back-off are arguments. A dictionary keyed by objects
  compares their attributes only (\<open>ResourceBase.__eq__\<close>), so the model keys it by those.
\<close>

datatype sync_action = CREATE | DELETE

datatype track_action = ActionReset | ActionPurge

record track =
  t_limit :: int
  t_res :: obj
  t_retries :: int
  t_action :: track_action
  t_last :: rat
  t_next :: rat

record track_conf =
  max_create_retry :: int
  max_backoff_time :: rat

record root_log =
  log_create :: "(kwargs, track) dict"
  log_delete :: "(kwargs, track) dict"

type_synonym sync_log = "(string, root_log) dict"

definition reset_retry_limit :: "track_conf \<Rightarrow> int" where
  "reset_retry_limit c = 2 * max_create_retry c"

definition purge_retry_limit :: "track_conf \<Rightarrow> int" where
  "purge_retry_limit c = 2 * reset_retry_limit c"

definition res_key :: "obj \<Rightarrow> kwargs" where
  "res_key r = sort_key fst (ofields r)"

definition empty_log :: root_log where
  "empty_log = \<lparr>log_create = [], log_delete = []\<rparr>"

fun log_of :: "sync_action \<Rightarrow> root_log \<Rightarrow> (kwargs, track) dict" where
  "log_of CREATE l = log_create l"
| "log_of DELETE l = log_delete l"

fun log_set :: "sync_action \<Rightarrow> kwargs \<Rightarrow> track \<Rightarrow> root_log \<Rightarrow> root_log" where
  "log_set CREATE k t l = l\<lparr>log_create := dict_set k t (log_create l)\<rparr>"
| "log_set DELETE k t l = l\<lparr>log_delete := dict_set k t (log_delete l)\<rparr>"

section \<open>One object\<close>

definition fresh_track :: "track_conf \<Rightarrow> rat \<Rightarrow> obj \<Rightarrow> track" where
  "fresh_track c now r =
     \<lparr>t_limit = reset_retry_limit c, t_res = r, t_retries = -1, t_action = ActionReset, t_last = now, t_next = now\<rparr>"

datatype verdict = Wait | Retry | ResetRoot | Fail

definition track_step :: "track_conf \<Rightarrow> rat \<Rightarrow> rat \<Rightarrow> track \<Rightarrow> track \<times> verdict" where
  "track_step c rnd now t =
     (if now < t_next t then (t, Wait)
      else let t' = t\<lparr>t_next := now + get_backoff_time rnd (max_backoff_time c) (t_retries t), t_retries := t_retries t + 1\<rparr>
        in if t_limit t' < t_retries t' then
             (case t_action t' of
                ActionReset \<Rightarrow> (t'\<lparr>t_limit := purge_retry_limit c, t_action := ActionPurge\<rparr>, ResetRoot)
              | ActionPurge \<Rightarrow> (t'\<lparr>t_limit := t_limit t' + 5\<rparr>, Fail))
           else (t', Retry))"

section \<open>One cycle\<close>

record tracking =
  seen :: "kwargs list"
  new_log :: root_log
  tr_reset :: bool
  tr_fail :: "(sync_action \<times> obj) list"
  tr_skip :: "(sync_action \<times> obj) list"

definition old_track :: "track_conf \<Rightarrow> rat \<Rightarrow> root_log \<Rightarrow> sync_action \<times> obj \<Rightarrow> track" where
  "old_track c now old = (\<lambda>(a, r).
     case dict_get (log_of a old) (res_key r) of Some t \<Rightarrow> t | None \<Rightarrow> fresh_track c now r)"

definition track_one ::
  "track_conf \<Rightarrow> (obj \<Rightarrow> rat) \<Rightarrow> rat \<Rightarrow> (obj \<Rightarrow> string result) \<Rightarrow> string \<Rightarrow> root_log \<Rightarrow> sync_action \<times> obj \<Rightarrow>
    tracking \<Rightarrow> tracking result" where
  "track_one c rnd now root_of rn old = (\<lambda>(a, r) st.
     if res_key r \<in> set (seen st) then Inr st
     else bind_res (root_of r) (\<lambda>rn'.
       if rn \<noteq> rn' then Inl (BadTrackingArgument rn rn')
       else let (t, v) = track_step c (rnd r) now (old_track c now old (a, r))
         in Inr (st\<lparr>seen := seen st @ [res_key r], new_log := log_set a (res_key r) t (new_log st),
                    tr_reset := tr_reset st \<or> v = ResetRoot,
                    tr_fail := tr_fail st @ (if v = Fail then [(a, r)] else []),
                    tr_skip := tr_skip st @ (if v = Wait then [(a, r)] else [])\<rparr>)))"

definition cycle_items :: "obj list \<times> obj list \<Rightarrow> (sync_action \<times> obj) list" where
  "cycle_items actions = map (Pair CREATE) (fst actions) @ map (Pair DELETE) (snd actions)"

definition no_tracking :: tracking where
  "no_tracking = \<lparr>seen = [], new_log = empty_log, tr_reset = False, tr_fail = [], tr_skip = []\<rparr>"

definition track_universe_actions ::
  "track_conf \<Rightarrow> (obj \<Rightarrow> rat) \<Rightarrow> rat \<Rightarrow> (obj \<Rightarrow> string result) \<Rightarrow> obj list \<times> obj list \<Rightarrow> string \<Rightarrow> sync_log \<Rightarrow>
    (tracking \<times> sync_log) result" where
  "track_universe_actions c rnd now root_of actions rn sl =
     bind_res (fold_res (track_one c rnd now root_of rn (dict_getd sl rn empty_log)) (cycle_items actions) no_tracking)
       (\<lambda>st. Inr (st, dict_set rn (new_log st) sl))"

section \<open>The result of a cycle\<close>

lemma all_sync_action: "(\<forall>a. P a) \<longleftrightarrow> P CREATE \<and> P DELETE"
  by (metis sync_action.exhaust)

text \<open>Only the first of several objects with equal attributes counts.\<close>

fun firsts :: "kwargs list \<Rightarrow> (sync_action \<times> obj) list \<Rightarrow> (sync_action \<times> obj) list" where
  "firsts ks [] = []"
| "firsts ks ((a, r) # xs) =
     (if res_key r \<in> set ks then firsts ks xs else (a, r) # firsts (ks @ [res_key r]) xs)"

lemma firsts_fresh: "(a, r) \<in> set (firsts ks xs) \<Longrightarrow> res_key r \<notin> set ks"
  by (induction ks xs rule: firsts.induct) (auto split: if_split_asm)

lemma firsts_distinct: "distinct (map (res_key \<circ> snd) (firsts ks xs))"
proof (induction ks xs rule: firsts.induct)
  case (2 ks a r xs)
  have "res_key r \<notin> set (map (res_key \<circ> snd) (firsts (ks @ [res_key r]) xs))"
    using firsts_fresh [of _ _ "ks @ [res_key r]" xs] by fastforce
  with 2 show ?case by simp
qed simp

lemma firsts_first:
  "\<lbrakk>i \<in> set (firsts ks xs); j \<in> set (firsts ks xs); res_key (snd i) = res_key (snd j)\<rbrakk> \<Longrightarrow> i = j"
  using firsts_distinct [of ks xs] by (auto simp: distinct_map inj_on_def)

lemma first_created:
  "\<lbrakk>r \<in> set cs; res_key r \<notin> set ks\<rbrakk> \<Longrightarrow>
     \<exists>r'. (CREATE, r') \<in> set (firsts ks (map (Pair CREATE) cs @ xs)) \<and> res_key r' = res_key r"
proof (induction cs arbitrary: ks)
  case (Cons c cs)
  show ?case
  proof (cases "res_key r = res_key c")
    case True
    with Cons.prems show ?thesis by (intro exI [of _ c]) simp
  next
    case False
    with Cons.prems have "r \<in> set cs" by auto
    with False Cons.prems(2) Cons.IH [of "if res_key c \<in> set ks then ks else ks @ [res_key c]"]
    show ?thesis by auto
  qed
qed simp

definition verdict_of :: "track_conf \<Rightarrow> (obj \<Rightarrow> rat) \<Rightarrow> rat \<Rightarrow> root_log \<Rightarrow> sync_action \<times> obj \<Rightarrow> verdict" where
  "verdict_of c rnd now old i = snd (track_step c (rnd (snd i)) now (old_track c now old i))"

definition track_of :: "track_conf \<Rightarrow> (obj \<Rightarrow> rat) \<Rightarrow> rat \<Rightarrow> root_log \<Rightarrow> sync_action \<times> obj \<Rightarrow> track" where
  "track_of c rnd now old i = fst (track_step c (rnd (snd i)) now (old_track c now old i))"

lemma log_of_set [simp]:
  "dict_get (log_of a (log_set b k t l)) k' = (if a = b \<and> k = k' then Some t else dict_get (log_of a l) k')"
  by (cases a; cases b) (auto simp: dict_simps)

text \<open>One step, as the lemmas below need it.\<close>

lemma track_one_step:
  assumes "track_one c rnd now root_of rn old (a, r) st = Inr st'" "res_key r \<notin> set (seen st)"
  shows "st' = \<lparr>seen = seen st @ [res_key r], new_log = log_set a (res_key r) (track_of c rnd now old (a, r)) (new_log st),
      tr_reset = (tr_reset st \<or> verdict_of c rnd now old (a, r) = ResetRoot),
      tr_fail = tr_fail st @ (if verdict_of c rnd now old (a, r) = Fail then [(a, r)] else []),
      tr_skip = tr_skip st @ (if verdict_of c rnd now old (a, r) = Wait then [(a, r)] else [])\<rparr>"
  using assms
  by (cases "root_of r") (auto simp: track_one_def track_of_def verdict_of_def split_beta Let_def split: if_split_asm)

lemma track_fold:
  "fold_res (track_one c rnd now root_of rn old) xs st = Inr st' \<Longrightarrow>
    (tr_reset st' \<longleftrightarrow> tr_reset st \<or> (\<exists>i \<in> set (firsts (seen st) xs). verdict_of c rnd now old i = ResetRoot)) \<and>
    tr_fail st' = tr_fail st @ filter (\<lambda>i. verdict_of c rnd now old i = Fail) (firsts (seen st) xs) \<and>
    tr_skip st' = tr_skip st @ filter (\<lambda>i. verdict_of c rnd now old i = Wait) (firsts (seen st) xs) \<and>
    (\<forall>a k. dict_get (log_of a (new_log st')) k =
      (case find (\<lambda>(b, r). b = a \<and> res_key r = k) (firsts (seen st) xs) of
         Some i \<Rightarrow> Some (track_of c rnd now old i) | None \<Rightarrow> dict_get (log_of a (new_log st)) k))"
proof (induction xs arbitrary: st)
  case (Cons x xs)
  obtain a r where x: "x = (a, r)" by force
  from Cons.prems obtain s1 where s1: "track_one c rnd now root_of rn old (a, r) st = Inr s1"
    and rest: "fold_res (track_one c rnd now root_of rn old) xs s1 = Inr st'"
    by (cases "track_one c rnd now root_of rn old x st") (auto simp: x)
  show ?case
  proof (cases "res_key r \<in> set (seen st)")
    case True
    then have eq: "s1 = st" using s1 by (simp add: track_one_def)
    show ?thesis using Cons.IH [OF rest] True unfolding eq x by simp
  next
    case False
    have none: "find (\<lambda>(b, r'). b = a \<and> res_key r' = res_key r) (firsts (seen st @ [res_key r]) xs) = None"
      using firsts_fresh [of _ _ "seen st @ [res_key r]" xs] by (fastforce simp: find_None_iff)
    show ?thesis
      using Cons.IH [OF rest] False none unfolding track_one_step [OF s1 False]
      by (auto simp: x split: option.split)
  qed
qed simp

lemma track_result:
  assumes "track_universe_actions c rnd now root_of actions rn sl = Inr (st, sl')"
  defines "old \<equiv> dict_getd sl rn empty_log" and "fs \<equiv> firsts [] (cycle_items actions)"
  shows "sl' = dict_set rn (new_log st) sl"
    and "tr_reset st \<longleftrightarrow> (\<exists>i \<in> set fs. verdict_of c rnd now old i = ResetRoot)"
    and "tr_fail st = filter (\<lambda>i. verdict_of c rnd now old i = Fail) fs"
    and "tr_skip st = filter (\<lambda>i. verdict_of c rnd now old i = Wait) fs"
    and "dict_get (log_of a (new_log st)) k =
      map_option (track_of c rnd now old) (find (\<lambda>(b, r). b = a \<and> res_key r = k) fs)"
proof -
  have f: "fold_res (track_one c rnd now root_of rn old) (cycle_items actions) no_tracking = Inr st"
    and sl': "sl' = dict_set rn (new_log st) sl"
    using assms(1) unfolding track_universe_actions_def old_def
    by (auto simp: bind_res_Inr)
  show "sl' = dict_set rn (new_log st) sl" by (rule sl')
  note t = track_fold [OF f, unfolded no_tracking_def, simplified, folded fs_def]
  have none: "dict_get (log_of a empty_log) k = None" by (cases a) (simp_all add: empty_log_def)
  show "tr_reset st \<longleftrightarrow> (\<exists>i \<in> set fs. verdict_of c rnd now old i = ResetRoot)"
    and "tr_fail st = filter (\<lambda>i. verdict_of c rnd now old i = Fail) fs"
    and "tr_skip st = filter (\<lambda>i. verdict_of c rnd now old i = Wait) fs"
    using t by simp_all
  show "dict_get (log_of a (new_log st)) k = map_option (track_of c rnd now old) (find (\<lambda>(b, r). b = a \<and> res_key r = k) fs)"
    using t none by (simp split: option.split)
qed

section \<open>Bounds\<close>

text \<open>What holds of every entry of the log after a cycle at time \<open>now\<close>.\<close>

definition track_ok :: "track_conf \<Rightarrow> rat \<Rightarrow> track \<Rightarrow> bool" where
  "track_ok c now t \<longleftrightarrow> - 1 \<le> t_retries t \<and> t_retries t \<le> t_limit t \<and> t_next t \<le> now + max_backoff_time c \<and>
     (case t_action t of ActionReset \<Rightarrow> t_limit t = reset_retry_limit c
      | ActionPurge \<Rightarrow> purge_retry_limit c \<le> t_limit t \<and> 5 dvd (t_limit t - purge_retry_limit c))"

definition log_ok :: "track_conf \<Rightarrow> rat \<Rightarrow> root_log \<Rightarrow> bool" where
  "log_ok c now l \<longleftrightarrow> (\<forall>a k t. dict_get (log_of a l) k = Some t \<longrightarrow> track_ok c now t)"

lemma backoff_le: "0 \<le> m \<Longrightarrow> get_backoff_time rnd m n \<le> m"
  by (simp add: get_backoff_time_def)

lemma track_ok_fresh: "\<lbrakk>1 \<le> max_create_retry c; 0 \<le> max_backoff_time c\<rbrakk> \<Longrightarrow> track_ok c now (fresh_track c now r)"
  by (simp add: track_ok_def fresh_track_def reset_retry_limit_def)

lemma track_ok_step:
  assumes "track_ok c before t" "before \<le> now" "1 \<le> max_create_retry c" "0 \<le> max_backoff_time c"
  shows "track_ok c now (fst (track_step c rnd now t))"
proof -
  have "now + get_backoff_time rnd (max_backoff_time c) (t_retries t) \<le> now + max_backoff_time c"
    using backoff_le [OF assms(4)] by simp
  moreover have "5 dvd (l + 5 - p)" if "5 dvd (l - p)" for l p :: int using that by presburger
  ultimately show ?thesis
    using assms
    by (cases "t_action t") (auto simp: track_step_def track_ok_def Let_def purge_retry_limit_def reset_retry_limit_def)
qed

section \<open>Many cycles\<close>

text \<open>A cycle: its time, its random numbers, the objects to create and to delete.\<close>

type_synonym cycle = "rat \<times> (obj \<Rightarrow> rat) \<times> obj list \<times> obj list"

abbreviation cycle_time :: "cycle \<Rightarrow> rat" where "cycle_time cy \<equiv> fst cy"
abbreviation cycle_actions :: "cycle \<Rightarrow> obj list \<times> obj list" where "cycle_actions cy \<equiv> snd (snd cy)"

fun run_cycles ::
  "track_conf \<Rightarrow> (obj \<Rightarrow> string result) \<Rightarrow> string \<Rightarrow> cycle list \<Rightarrow> sync_log \<Rightarrow> (tracking list \<times> sync_log) result" where
  "run_cycles c root_of rn [] sl = Inr ([], sl)"
| "run_cycles c root_of rn (cy # cys) sl =
     bind_res (track_universe_actions c (fst (snd cy)) (cycle_time cy) root_of (cycle_actions cy) rn sl) (\<lambda>(st, sl').
     bind_res (run_cycles c root_of rn cys sl') (\<lambda>(sts, sl''). Inr (st # sts, sl'')))"

lemma run_cycles_Cons:
  assumes "run_cycles c root_of rn (cy # cys) sl = Inr (outs, sl'')"
  obtains st sl' sts where
    "track_universe_actions c (fst (snd cy)) (cycle_time cy) root_of (cycle_actions cy) rn sl = Inr (st, sl')"
    "run_cycles c root_of rn cys sl' = Inr (sts, sl'')" "outs = st # sts"
  using assms by auto

lemma log_ok_cycle:
  assumes "track_universe_actions c rnd now root_of actions rn sl = Inr (st, sl')"
    and "log_ok c before (dict_getd sl rn empty_log)" "before \<le> now"
    and "1 \<le> max_create_retry c" "0 \<le> max_backoff_time c"
  shows "log_ok c now (dict_getd sl' rn empty_log)"
  unfolding log_ok_def
proof (intro allI impI)
  fix a k t
  assume "dict_get (log_of a (dict_getd sl' rn empty_log)) k = Some t"
  then have "dict_get (log_of a (new_log st)) k = Some t"
    using track_result(1) [OF assms(1)] by (simp add: dict_getd_def dict_simps)
  then obtain i where t: "t = track_of c rnd now (dict_getd sl rn empty_log) i"
    using track_result(5) [OF assms(1)] by auto
  obtain b r where i: "i = (b, r)" by force
  show "track_ok c now t"
  proof (cases "dict_get (log_of b (dict_getd sl rn empty_log)) (res_key r)")
    case None
    then show ?thesis
      using track_ok_step [OF track_ok_fresh [OF assms(4,5)] order_refl assms(4,5), where rnd = "rnd r"]
      by (simp add: t i track_of_def old_track_def)
  next
    case (Some u)
    then have "track_ok c before u" using assms(2) by (auto simp: log_ok_def)
    then show ?thesis
      using track_ok_step [OF _ assms(3-5), where rnd = "rnd r"] Some by (simp add: t i track_of_def old_track_def)
  qed
qed

lemma log_ok_mono: "\<lbrakk>log_ok c before l; before \<le> now\<rbrakk> \<Longrightarrow> log_ok c now l"
  by (fastforce simp: log_ok_def track_ok_def)

lemma log_ok_run:
  "\<lbrakk>run_cycles c root_of rn cys sl = Inr (outs, sl'); log_ok c before (dict_getd sl rn empty_log);
    sorted (before # map cycle_time cys); 1 \<le> max_create_retry c; 0 \<le> max_backoff_time c\<rbrakk> \<Longrightarrow>
    log_ok c (last (before # map cycle_time cys)) (dict_getd sl' rn empty_log)"
proof (induction cys arbitrary: sl outs before)
  case (Cons cy cys)
  from Cons.prems(1) obtain st s1 sts where
    st: "track_universe_actions c (fst (snd cy)) (cycle_time cy) root_of (cycle_actions cy) rn sl = Inr (st, s1)"
    and rest: "run_cycles c root_of rn cys s1 = Inr (sts, sl')" by (rule run_cycles_Cons)
  have "log_ok c (cycle_time cy) (dict_getd s1 rn empty_log)"
    using log_ok_cycle [OF st] Cons.prems by simp
  from Cons.IH [OF rest this] Cons.prems show ?case by simp
qed simp

text \<open>C23. Bounds of the retry log: after any sequence of cycles in the order of time, every entry has been
  retried at most up to its limit, the limit is the one of a reset or lies a multiple of five above the one of a
  purge, and the entry is left alone for at most the maximal back-off from the last cycle on.\<close>

theorem retry_log_bounds:
  assumes "run_cycles c root_of rn cys [] = Inr (outs, sl)" "cys \<noteq> []" "sorted (map cycle_time cys)"
    and "1 \<le> max_create_retry c" "0 \<le> max_backoff_time c"
    and "dict_get (log_of a (dict_getd sl rn empty_log)) k = Some t"
  shows "- 1 \<le> t_retries t \<and> t_retries t \<le> t_limit t \<and>
    t_next t \<le> cycle_time (last cys) + max_backoff_time c \<and>
    (t_action t = ActionReset \<longrightarrow> t_limit t = reset_retry_limit c) \<and>
    (t_action t = ActionPurge \<longrightarrow> purge_retry_limit c \<le> t_limit t \<and> 5 dvd (t_limit t - purge_retry_limit c))"
proof -
  have "log_ok c (cycle_time (hd cys)) (dict_getd [] rn empty_log)"
    by (simp add: log_ok_def dict_getd_def empty_log_def all_sync_action)
  moreover have "sorted (cycle_time (hd cys) # map cycle_time cys)"
    using assms(2,3) by (cases cys) auto
  ultimately have "log_ok c (last (cycle_time (hd cys) # map cycle_time cys)) (dict_getd sl rn empty_log)"
    using log_ok_run [OF assms(1)] assms(4,5) by blast
  then have "track_ok c (cycle_time (last cys)) t"
    using assms(2,6) by (auto simp: log_ok_def last_map)
  then show ?thesis by (auto simp: track_ok_def split: track_action.split_asm)
qed

section \<open>A persistent failure\<close>

text \<open>What the \<open>n\<close>-th try in a row leads to, the first being number 0.\<close>

definition expected_verdict :: "track_conf \<Rightarrow> int \<Rightarrow> verdict" where
  "expected_verdict c n =
     (if n = reset_retry_limit c + 1 then ResetRoot
      else if purge_retry_limit c + 1 \<le> n \<and> 5 dvd (n - purge_retry_limit c - 1) then Fail else Retry)"

definition tried :: "track_conf \<Rightarrow> int \<Rightarrow> track \<Rightarrow> bool" where
  "tried c n t \<longleftrightarrow> t_retries t = n - 1 \<and>
     (if n \<le> reset_retry_limit c + 1 then t_action t = ActionReset \<and> t_limit t = reset_retry_limit c
      else t_action t = ActionPurge \<and> t_limit t = purge_retry_limit c +
        (if n \<le> purge_retry_limit c + 1 then 0 else 5 * ((n - purge_retry_limit c - 2) div 5 + 1)))"

lemma five:
  fixes m :: int
  shows "5 * (m div 5) + 3 < m \<longleftrightarrow> m mod 5 = 4" and "5 dvd (m + 1) \<longleftrightarrow> m mod 5 = 4"
    and "(m + 1) div 5 = (if m mod 5 = 4 then m div 5 + 1 else m div 5)"
proof -
  define q r where "q = m div 5" and "r = m mod 5"
  have "m = 5 * (m div 5) + m mod 5" "0 \<le> m mod 5" "m mod 5 < 5" by simp_all
  then have m: "m = 5 * q + r" "0 \<le> r" "r < 5" by (simp_all add: q_def r_def)
  then have "5 * q + 3 < m \<longleftrightarrow> r = 4" by linarith
  then show "5 * (m div 5) + 3 < m \<longleftrightarrow> m mod 5 = 4" by (simp only: q_def r_def)
  show "5 dvd (m + 1) \<longleftrightarrow> m mod 5 = 4" by presburger
  have "(m + 1) div 5 = (if r = 4 then q + 1 else q)"
  proof (cases "r = 4")
    case True
    then have e: "m + 1 = (q + 1) * 5" using m by simp
    have "(m + 1) div 5 = q + 1" unfolding e by (rule nonzero_mult_div_cancel_right) simp
    with True show ?thesis by simp
  next
    case False
    then have "m + 1 = (r + 1) + q * 5" "0 \<le> r + 1" "r + 1 < 5" using m by simp_all
    then have "(m + 1) div 5 = q" by (simp only: div_mult_self1 div_pos_pos_trivial)
    with False show ?thesis by simp
  qed
  then show "(m + 1) div 5 = (if m mod 5 = 4 then m div 5 + 1 else m div 5)" by (simp only: q_def r_def)
qed
lemma five_up:
  fixes n p :: int
  shows "p + 5 * ((n - p - 2) div 5 + 1) < n \<longleftrightarrow> 5 dvd (n - p - 1)"
    and "(n + 1 - p - 2) div 5 = (if 5 dvd (n - p - 1) then (n - p - 2) div 5 + 1 else (n - p - 2) div 5)"
proof -
  define m where "m = n - p - 2"
  then have n: "n - p - 1 = m + 1" "n + 1 - p - 2 = m + 1" "n - p - 2 = m" by simp_all
  have "p + 5 * (x + 1) < n \<longleftrightarrow> 5 * x + 3 < m" for x unfolding m_def by auto
  then show "p + 5 * ((n - p - 2) div 5 + 1) < n \<longleftrightarrow> 5 dvd (n - p - 1)"
    by (simp only: n five)
  show "(n + 1 - p - 2) div 5 = (if 5 dvd (n - p - 1) then (n - p - 2) div 5 + 1 else (n - p - 2) div 5)"
    by (simp only: n five)
qed

lemma tried_step:
  assumes "tried c n t" "t_next t \<le> now" "1 \<le> max_create_retry c" "0 \<le> n" "0 \<le> max_backoff_time c"
  shows "snd (track_step c rnd now t) = expected_verdict c n \<and> tried c (n + 1) (fst (track_step c rnd now t)) \<and>
    t_next (fst (track_step c rnd now t)) \<le> now + max_backoff_time c"
proof -
  define r p where "r = reset_retry_limit c" and "p = purge_retry_limit c"
  have rp: "2 \<le> r" "p = 2 * r" using assms(3) by (simp_all add: r_def p_def purge_retry_limit_def reset_retry_limit_def)
  have b: "get_backoff_time rnd (max_backoff_time c) (t_retries t) \<le> max_backoff_time c"
    by (rule backoff_le [OF assms(5)])
  consider "n \<le> r" | "n = r + 1" | "r + 1 < n" "n \<le> p" | "n = p + 1" | "p + 1 < n" using rp by linarith
  then show ?thesis
  proof cases
    case 5
    define d where "d = (n - p - 2) div 5"
    have t: "t_retries t = n - 1" "t_action t = ActionPurge" "t_limit t = p + 5 * (d + 1)"
      using assms(1) 5 rp by (simp_all add: tried_def d_def flip: r_def p_def)
    have up: "p + 5 * (d + 1) < n \<longleftrightarrow> 5 dvd (n - p - 1)"
      "(n + 1 - p - 2) div 5 = (if 5 dvd (n - p - 1) then d + 1 else d)"
      unfolding d_def by (rule five_up)+
    have next_ok: "\<not> now < t_next t" using assms(2) by simp
    have late: "\<not> n \<le> r + 1" "\<not> n + 1 \<le> r + 1" "\<not> n + 1 \<le> p + 1" "n \<noteq> r + 1" "p + 1 \<le> n" using 5 rp by simp_all
    show ?thesis
    proof (cases "5 dvd (n - p - 1)")
      case True
      then have "p + 5 * (d + 1) < n" using up(1) by simp
      with True late up(2) t next_ok b show ?thesis
        by (simp add: tried_def track_step_def expected_verdict_def Let_def flip: r_def p_def)
    next
      case False
      then have "\<not> p + 5 * (d + 1) < n" using up(1) by simp
      with False late up(2) t next_ok b show ?thesis
        by (simp add: tried_def track_step_def expected_verdict_def Let_def flip: r_def p_def)
    qed
  qed (use assms(1,2) b rp in \<open>auto simp: tried_def track_step_def expected_verdict_def Let_def simp flip: r_def p_def\<close>)
qed

lemma tried_fresh: "1 \<le> max_create_retry c \<Longrightarrow> tried c 0 (fresh_track c now r)"
  by (simp add: tried_def fresh_track_def reset_retry_limit_def)

text \<open>The entry of the object before a cycle: none at the start, or that of the tries so far.\<close>

definition tried_log :: "track_conf \<Rightarrow> int \<Rightarrow> rat \<Rightarrow> kwargs \<Rightarrow> root_log \<Rightarrow> bool" where
  "tried_log c n now k l \<longleftrightarrow> (case dict_get (log_create l) k of
      None \<Rightarrow> n = 0 | Some t \<Rightarrow> tried c n t \<and> t_next t \<le> now)"

lemma find_unique: "\<lbrakk>x \<in> set xs; P x; \<forall>y \<in> set xs. P y \<longrightarrow> y = x\<rbrakk> \<Longrightarrow> find P xs = Some x"
proof (induction xs)
  case (Cons y ys)
  show ?case
  proof (cases "P y")
    case True
    have "y = x" by (rule mp [OF bspec [OF Cons.prems(3)] True]) simp
    with True show ?thesis by simp
  next
    case False
    then have "x \<noteq> y" using Cons.prems(2) by blast
    then have "x \<in> set ys" using Cons.prems(1) by simp
    moreover have "\<forall>z \<in> set ys. P z \<longrightarrow> z = x"
      by (intro ballI bspec [OF Cons.prems(3)]) simp
    ultimately have "find P ys = Some x" by (rule Cons.IH [OF _ Cons.prems(2)])
    with False show ?thesis by simp
  qed
qed simp

lemma tried_cycle:
  assumes t: "track_universe_actions c rnd now root_of actions rn sl = Inr (st, sl')"
    and old: "tried_log c n now (res_key r) (dict_getd sl rn empty_log)"
    and r: "r \<in> set (fst actions)" and c: "1 \<le> max_create_retry c" "0 \<le> max_backoff_time c" and n: "0 \<le> n"
  shows "(expected_verdict c n = ResetRoot \<longrightarrow> tr_reset st) \<and>
    ((\<exists>r'. (CREATE, r') \<in> set (tr_fail st) \<and> res_key r' = res_key r) \<longleftrightarrow> expected_verdict c n = Fail) \<and>
    (\<forall>later. now + max_backoff_time c \<le> later \<longrightarrow> tried_log c (n + 1) later (res_key r) (dict_getd sl' rn empty_log))"
proof -
  let ?old = "dict_getd sl rn empty_log" and ?fs = "firsts [] (cycle_items actions)"
  have "\<exists>r'. (CREATE, r') \<in> set ?fs \<and> res_key r' = res_key r"
    using first_created [OF r, where ks = "[]" and xs = "map (Pair DELETE) (snd actions)"] by (simp add: cycle_items_def)
  then obtain r' where r': "(CREATE, r') \<in> set ?fs" "res_key r' = res_key r" by blast
  have only: "i = (CREATE, r')" if "i \<in> set ?fs" "res_key (snd i) = res_key r" for i
    using firsts_first [OF that(1) r'(1)] that(2) r'(2) by simp
  have o: "tried c n (old_track c now ?old (CREATE, r'))" "t_next (old_track c now ?old (CREATE, r')) \<le> now"
    using old r'(2) tried_fresh [OF c(1)]
    by (auto simp: tried_log_def old_track_def fresh_track_def split: option.splits)
  note step = tried_step [OF o c(1) n c(2), where rnd = "rnd r'"]
  have v: "verdict_of c rnd now ?old (CREATE, r') = expected_verdict c n"
    using step by (simp add: verdict_of_def)
  have "find (\<lambda>(b, x). b = CREATE \<and> res_key x = res_key r) ?fs = Some (CREATE, r')"
  proof (rule find_unique [OF r'(1)])
    show "case (CREATE, r') of (b, x) \<Rightarrow> b = CREATE \<and> res_key x = res_key r" using r'(2) by simp
    show "\<forall>i \<in> set ?fs. (case i of (b, x) \<Rightarrow> b = CREATE \<and> res_key x = res_key r) \<longrightarrow> i = (CREATE, r')"
      using only by (simp add: split_beta)
  qed
  then have new: "dict_get (log_create (new_log st)) (res_key r) = Some (track_of c rnd now ?old (CREATE, r'))"
    using track_result(5) [OF t, of CREATE "res_key r"] by simp
  show ?thesis
  proof (intro conjI allI impI)
    show "tr_reset st" if "expected_verdict c n = ResetRoot"
      using track_result(2) [OF t] r'(1) v that by auto
    show "(\<exists>r'. (CREATE, r') \<in> set (tr_fail st) \<and> res_key r' = res_key r) \<longleftrightarrow> expected_verdict c n = Fail"
    proof
      assume "\<exists>r'. (CREATE, r') \<in> set (tr_fail st) \<and> res_key r' = res_key r"
      then obtain x where x: "(CREATE, x) \<in> set ?fs" "verdict_of c rnd now ?old (CREATE, x) = Fail" "res_key x = res_key r"
        unfolding track_result(3) [OF t] by auto
      from only [OF x(1)] x v show "expected_verdict c n = Fail" by simp
    next
      assume "expected_verdict c n = Fail"
      with v r' show "\<exists>r'. (CREATE, r') \<in> set (tr_fail st) \<and> res_key r' = res_key r"
        unfolding track_result(3) [OF t] by auto
    qed
    show "tried_log c (n + 1) later (res_key r) (dict_getd sl' rn empty_log)" if "now + max_backoff_time c \<le> later" for later
      using track_result(1) [OF t] new step that
      by (auto simp: tried_log_def dict_getd_def dict_simps track_of_def)
  qed
qed

definition fails_for :: "obj \<Rightarrow> tracking \<Rightarrow> bool" where
  "fails_for r st \<longleftrightarrow> list_ex (\<lambda>(a, r'). a = CREATE \<and> res_key r' = res_key r) (tr_fail st)"

fun spaced :: "rat \<Rightarrow> cycle list \<Rightarrow> bool" where
  "spaced d (a # b # cys) \<longleftrightarrow> cycle_time a + d \<le> cycle_time b \<and> spaced d (b # cys)"
| "spaced d cys \<longleftrightarrow> True"

lemma tried_run:
  "\<lbrakk>run_cycles c root_of rn cys sl = Inr (outs, sl'); \<forall>cy \<in> set cys. r \<in> set (fst (cycle_actions cy));
    spaced (max_backoff_time c) cys; cys \<noteq> [] \<Longrightarrow> tried_log c n (cycle_time (hd cys)) (res_key r) (dict_getd sl rn empty_log);
    1 \<le> max_create_retry c; 0 \<le> max_backoff_time c; 0 \<le> n; i < length cys\<rbrakk> \<Longrightarrow>
    (expected_verdict c (n + int i) = ResetRoot \<longrightarrow> tr_reset (outs ! i)) \<and>
    (fails_for r (outs ! i) \<longleftrightarrow> expected_verdict c (n + int i) = Fail)"
proof (induction cys arbitrary: sl outs n i)
  case (Cons cy cys)
  from Cons.prems(1) obtain st s1 sts where
    st: "track_universe_actions c (fst (snd cy)) (cycle_time cy) root_of (cycle_actions cy) rn sl = Inr (st, s1)"
    and rest: "run_cycles c root_of rn cys s1 = Inr (sts, sl')" and outs: "outs = st # sts" by (rule run_cycles_Cons)
  have now: "(expected_verdict c n = ResetRoot \<longrightarrow> tr_reset st) \<and>
    ((\<exists>r'. (CREATE, r') \<in> set (tr_fail st) \<and> res_key r' = res_key r) \<longleftrightarrow> expected_verdict c n = Fail) \<and>
    (\<forall>later. cycle_time cy + max_backoff_time c \<le> later \<longrightarrow> tried_log c (n + 1) later (res_key r) (dict_getd s1 rn empty_log))"
    using tried_cycle [OF st _ _ Cons.prems(5-7)] Cons.prems(2,4) by simp
  show ?case
  proof (cases i)
    case 0
    have "fails_for r st \<longleftrightarrow> (\<exists>r'. (CREATE, r') \<in> set (tr_fail st) \<and> res_key r' = res_key r)"
      by (auto simp: fails_for_def list_ex_iff)
    with now show ?thesis by (simp add: 0 outs)
  next
    case (Suc j)
    have "spaced (max_backoff_time c) cys" using Cons.prems(3) by (cases cys) auto
    moreover have "tried_log c (n + 1) (cycle_time (hd cys)) (res_key r) (dict_getd s1 rn empty_log)" if "cys \<noteq> []"
      using now Cons.prems(3) that by (cases cys) auto
    ultimately show ?thesis
      using Cons.IH [OF rest, of "n + 1" j] Cons.prems(2,5-8) by (simp add: Suc outs algebra_simps)
  qed
qed simp

text \<open>C11. Progress on a persistent failure: an object that is to be created in every cycle, the cycles being at
  least the maximal back-off apart, gets its root reset in the cycle after the retries of the first limit, and is put in
  the error state after those of the second one and in every fifth cycle from then on, in no other.\<close>

theorem persistent_failure:
  assumes "run_cycles c root_of rn cys [] = Inr (outs, sl)" "\<forall>cy \<in> set cys. r \<in> set (fst (cycle_actions cy))"
    and "spaced (max_backoff_time c) cys" "1 \<le> max_create_retry c" "0 \<le> max_backoff_time c" "i < length cys"
  shows "(int i = reset_retry_limit c + 1 \<longrightarrow> tr_reset (outs ! i)) \<and>
    (fails_for r (outs ! i) \<longleftrightarrow> purge_retry_limit c + 1 \<le> int i \<and> 5 dvd (int i - purge_retry_limit c - 1))"
proof -
  have "tried_log c 0 (cycle_time (hd cys)) (res_key r) (dict_getd [] rn empty_log)"
    by (simp add: tried_log_def dict_getd_def empty_log_def)
  then have "(expected_verdict c (int i) = ResetRoot \<longrightarrow> tr_reset (outs ! i)) \<and>
    (fails_for r (outs ! i) \<longleftrightarrow> expected_verdict c (int i) = Fail)"
    using tried_run [OF assms(1-3) _ assms(4,5) order_refl assms(6)] by simp
  moreover have "reset_retry_limit c + 1 < purge_retry_limit c + 1"
    using assms(4) by (simp add: purge_retry_limit_def reset_retry_limit_def)
  ultimately show ?thesis by (auto simp: expected_verdict_def split: if_split_asm)
qed

section \<open>Equal objects of different classes\<close>

lemma track_twice:
  assumes "res_key r = res_key r'"
  shows "fold_res (track_one c rnd now root_of rn old) ((a, r) # (b, r') # xs) st
    = fold_res (track_one c rnd now root_of rn old) ((a, r) # xs) st"
proof (cases "track_one c rnd now root_of rn old (a, r) st")
  case (Inr s1)
  have "res_key r \<in> set (seen s1)"
  proof (cases "res_key r \<in> set (seen st)")
    case True
    with Inr show ?thesis by (simp add: track_one_def)
  next
    case False
    from track_one_step [OF Inr False] show ?thesis by simp
  qed
  with assms Inr show ?thesis by (simp add: track_one_def)
qed simp

text \<open>The log tells objects apart by their attributes only: a filter and an application profile of the same
  tenant and name are one entry, so tracking both is tracking the first, and the second is never counted.\<close>

theorem tracking_confuses_classes:
  "\<exists>f a. make_obj cf Filter [(''tenant_name'', JStr t), (''name'', JStr n)] = Inr f \<and>
     make_obj cf ApplicationProfile [(''tenant_name'', JStr t), (''name'', JStr n)] = Inr a \<and> oclass f \<noteq> oclass a \<and>
     track_universe_actions c rnd now root_of (f # a # creates, deletes) rn sl
       = track_universe_actions c rnd now root_of (f # creates, deletes) rn sl"
proof -
  let ?d = "[(''monitored'', JBool False), (''display_name'', JStr []), (''tenant_name'', JStr t), (''name'', JStr n)]"
  have "make_obj cf Filter [(''tenant_name'', JStr t), (''name'', JStr n)] = Inr \<lparr>oclass = ''Filter'', ofields = ?d\<rparr>"
    by (simp add: make_obj_def Filter_def plain_ctor_def resource_init_def given_def dict_getd_def)
  moreover have "make_obj cf ApplicationProfile [(''tenant_name'', JStr t), (''name'', JStr n)]
      = Inr \<lparr>oclass = ''ApplicationProfile'', ofields = ?d\<rparr>"
    by (simp add: make_obj_def ApplicationProfile_def plain_ctor_def resource_init_def given_def dict_getd_def)
  moreover have "track_universe_actions c rnd now root_of (f # a # creates, deletes) rn sl
      = track_universe_actions c rnd now root_of (f # creates, deletes) rn sl" if "res_key f = res_key a" for f a
    using track_twice [OF that] by (simp add: track_universe_actions_def cycle_items_def del: fold_res.simps)
  ultimately show ?thesis by (simp add: res_key_def)
qed

section \<open>Examples\<close>

definition tracked_obj :: obj where
  "tracked_obj = \<lparr>oclass = ''Tenant'', ofields = [(''name'', JStr ''t1'')]\<rparr>"

definition tracked_cycles :: "cycle list" where
  "tracked_cycles = map (\<lambda>i. (600 * of_nat i, \<lambda>_. 0, [tracked_obj], [])) [0..<6]"

definition strict_conf :: track_conf where
  "strict_conf = \<lparr>max_create_retry = 1, max_backoff_time = 600\<rparr>"

definition tracked_run :: "(tracking list \<times> sync_log) result" where
  "tracked_run = run_cycles strict_conf (\<lambda>_. Inr ''tn-t1'') ''tn-t1'' tracked_cycles []"

lemma tracked_run_ok: "\<exists>outs sl t. tracked_run = Inr (outs, sl)
    \<and> dict_get (log_of CREATE (dict_getd sl ''tn-t1'' empty_log)) (res_key tracked_obj) = Some t"
proof -
  have "case tracked_run of Inl _ \<Rightarrow> False
    | Inr (outs, sl) \<Rightarrow> dict_get (log_of CREATE (dict_getd sl ''tn-t1'' empty_log)) (res_key tracked_obj) \<noteq> None"
    by code_simp
  then show ?thesis by (auto split: sum.split_asm)
qed

theorem retry_log_bounds_witness:
  "\<exists>outs sl t. tracked_run = Inr (outs, sl) \<and> t_retries t \<le> t_limit t \<and>
     dict_get (log_of CREATE (dict_getd sl ''tn-t1'' empty_log)) (res_key tracked_obj) = Some t"
proof -
  from tracked_run_ok obtain outs sl t where run: "tracked_run = Inr (outs, sl)"
    and t: "dict_get (log_of CREATE (dict_getd sl ''tn-t1'' empty_log)) (res_key tracked_obj) = Some t" by blast
  have "tracked_cycles \<noteq> []" "sorted (map cycle_time tracked_cycles)" "1 \<le> max_create_retry strict_conf"
    "0 \<le> max_backoff_time strict_conf" by code_simp+
  from retry_log_bounds [OF run [unfolded tracked_run_def] this t] run t show ?thesis by blast
qed

theorem persistent_failure_witness:
  "\<exists>outs sl. tracked_run = Inr (outs, sl) \<and> tr_reset (outs ! 3) \<and> fails_for tracked_obj (outs ! 5)"
proof -
  from tracked_run_ok obtain outs sl where run: "tracked_run = Inr (outs, sl)" by blast
  have c: "\<forall>cy \<in> set tracked_cycles. tracked_obj \<in> set (fst (cycle_actions cy))"
    by (simp add: tracked_cycles_def)
  have s: "spaced (max_backoff_time strict_conf) tracked_cycles" "1 \<le> max_create_retry strict_conf"
    "0 \<le> max_backoff_time strict_conf" by code_simp+
  have l: "length tracked_cycles = 6" by (simp add: tracked_cycles_def)
  note p = persistent_failure [OF run [unfolded tracked_run_def] c s]
  have "reset_retry_limit strict_conf = 2" "purge_retry_limit strict_conf = 4"
    by (simp_all add: reset_retry_limit_def purge_retry_limit_def strict_conf_def)
  with run p [of 3] p [of 5] l show ?thesis by auto
qed

end
