(* ===== verification/Universe_Read.thy ===== *)
theory Universe_Read
  imports Aci_Converter Tree_Maker
begin

text \<open>
  The reading half of \<open>HashTreeStoredUniverse\<close> (\<open>aim/agent/aid/universes/base_universe.py\<close>): from the
  keys of hash tree nodes to ACI objects and AIM objects, with the nodes and parents that make up a whole
  object.

  A state of a universe maps roots to trees; a root that is served but was not observed yet has
  none. \<open>uni_env\<close> adds to the converters the two functions of \<open>apicapi\<close> that build a name from its
  parts and guess the parts of a name.
\<close>

type_synonym ustate = "(string, tree option) dict"

record uni_env =
  ue_maker :: maker
  ue_cv :: conv_env
  ue_build :: "string list list \<Rightarrow> string result"
  ue_guess :: "string \<Rightarrow> string \<Rightarrow> (string \<times> string) list result"

section \<open>Keys and bare objects\<close>

text \<open>\<open>k.split('|', 2)\<close>: at most two splits.\<close>

definition split_part :: "string \<Rightarrow> string list" where
  "split_part s = (case py_split (CHR ''|'') s of
      a # b # c # rest \<Rightarrow> [a, b, py_join ''|'' (c # rest)] | ps \<Rightarrow> ps)"

definition split_key :: "key \<Rightarrow> string list list" where
  "split_key k = map split_part k"

text \<open>\<open>_dissect_key\<close>: the type of the last part, the names of all; a part without separator loses its last
  character to the slice up to \<open>find\<close>, which is -1 then.\<close>

definition dissect_key :: "key \<Rightarrow> (string \<times> string list) result" where
  "dissect_key k = (if k = [] then Inl IndexError else
     Inr ((if CHR ''|'' \<in> set (last k) then takeWhile (\<lambda>c. c \<noteq> CHR ''|'') (last k) else butlast (last k)),
          map (\<lambda>x. if CHR ''|'' \<in> set x then tl (dropWhile (\<lambda>c. c \<noteq> CHR ''|'') x) else x) k))"

definition bare_aci_object :: "uni_env \<Rightarrow> key \<Rightarrow> (string \<times> kwargs) result" where
  "bare_aci_object ue k =
     (let parts = split_key k in
      if parts = [] then Inl IndexError
      else let mo = hd (last parts) in
        if mo = ''faultInst'' then
          (case tl (last parts) of
             [] \<Rightarrow> Inl IndexError
           | code # _ \<Rightarrow> bind_res (ue_build ue (butlast parts)) (\<lambda>dn.
               Inr (mo, if code = [] then [(''dn'', JStr dn)]
                        else [(''code'', JStr code), (''dn'', JStr (dn @ ''/fault-'' @ code))])))
        else bind_res (ue_build ue parts) (\<lambda>dn. Inr (mo, [(''dn'', JStr dn)])))"

definition extract_root_rn :: "uni_env \<Rightarrow> key \<Rightarrow> string result" where
  "extract_root_rn ue k = (case k of
      [] \<Rightarrow> Inl IndexError
    | k0 # _ \<Rightarrow> bind_res (ue_build ue [py_split (CHR ''|'') k0]) (\<lambda>dn. Inr (last (py_split (CHR ''/'') dn))))"

section \<open>Nodes\<close>

definition find_in :: "ustate \<Rightarrow> string \<Rightarrow> key \<Rightarrow> node option result" where
  "find_in st rn k = (case dict_get st rn of
      None \<Rightarrow> Inl KeyError | Some None \<Rightarrow> Inl AttributeError | Some (Some t) \<Rightarrow> tree_find t k)"

text \<open>\<open>except (IndexError, KeyError): continue\<close>, and \<open>continue\<close> where there is no node.\<close>

definition node_or_skip :: "node option result \<Rightarrow> node option result" where
  "node_or_skip r = (case r of Inl e \<Rightarrow> if e = IndexError \<or> e = KeyError then Inr None else Inl e | Inr n \<Rightarrow> Inr n)"

fun fill_node_loop :: "string \<Rightarrow> key \<Rightarrow> ustate list \<Rightarrow> kwargs option result" where
  "fill_node_loop rn k [] = Inr None"
| "fill_node_loop rn k (st # sts) =
     bind_res (node_or_skip (find_in st rn k)) (\<lambda>n. case n of
       Some nd \<Rightarrow> if dummy (slots nd) then fill_node_loop rn k sts else Inr (Some (metadata (slots nd)))
     | None \<Rightarrow> fill_node_loop rn k sts)"

definition fill_node :: "uni_env \<Rightarrow> ustate list \<Rightarrow> key \<Rightarrow> kwargs option result" where
  "fill_node ue sts k = bind_res (extract_root_rn ue k) (\<lambda>rn. fill_node_loop rn k sts)"

definition is_related_node :: "node \<Rightarrow> bool" where
  "is_related_node c \<longleftrightarrow>
     (case kv_get ''related'' (metadata (slots c)) of Some v \<Rightarrow> json_truth v | None \<Rightarrow> False) \<and> \<not> dummy (slots c)"

definition related_nodes :: "uni_env \<Rightarrow> ustate list \<Rightarrow> key \<Rightarrow> key list result" where
  "related_nodes ue sts k =
     bind_res (extract_root_rn ue k) (\<lambda>rn.
     bind_res (traverse_res (\<lambda>st. bind_res (node_or_skip (find_in st rn k)) (\<lambda>n.
         Inr (case n of None \<Rightarrow> [] | Some nd \<Rightarrow> map nkey (filter is_related_node (children nd))))) sts)
       (\<lambda>kss. Inr (concat kss)))"

definition parent_nodes :: "uni_env \<Rightarrow> ustate list \<Rightarrow> key \<Rightarrow> key list result" where
  "parent_nodes ue sts k =
     bind_res (extract_root_rn ue k) (\<lambda>rn.
     bind_res (traverse_res (\<lambda>st. bind_res (node_or_skip (find_in st rn (butlast k))) (\<lambda>n.
         Inr (case n of None \<Rightarrow> [] | Some nd \<Rightarrow> if dummy (slots nd) then [] else [nkey nd]))) sts)
       (\<lambda>kss. Inr (concat kss)))"

section \<open>get_resources\<close>

text \<open>One object read: its key, the ACI object and the name to remember when it is monitored.\<close>

record entry =
  e_key :: key
  e_aci :: "string \<times> kwargs"
  e_monitored :: "string option"

definition metadata_flag :: "kwargs \<Rightarrow> string \<Rightarrow> bool" where
  "metadata_flag md a = json_truth (dict_getd md a JNull)"

definition item_dn :: "uni_env \<Rightarrow> obj \<Rightarrow> string result" where
  "item_dn ue r = (case klass_of (cv_env (ue_cv ue)) (oclass r) of
      None \<Rightarrow> Inl AttributeError | Some k \<Rightarrow> obj_dn (api (cv_env (ue_cv ue))) k r)"

definition first_dn :: "uni_env \<Rightarrow> string \<times> kwargs \<Rightarrow> string result" where
  "first_dn ue aci = bind_res (aci_to_aim (ue_cv ue) [aci]) (\<lambda>os. case os of [] \<Rightarrow> Inl IndexError | r # _ \<Rightarrow> item_dn ue r)"

definition monitored_name :: "uni_env \<Rightarrow> kwargs \<Rightarrow> string \<times> kwargs \<Rightarrow> string option result" where
  "monitored_name ue md aci =
     (if \<not> metadata_flag md ''monitored'' then Inr None
      else if metadata_flag md ''related'' then
        (case first_dn ue aci of Inr dn \<Rightarrow> Inr (Some dn) | Inl e \<Rightarrow> if e = IndexError then Inr None else Inl e)
      else bind_res (getitem (snd aci) ''dn'') (\<lambda>dn. Inr (Some (py_str dn))))"

definition read_entry :: "uni_env \<Rightarrow> key \<Rightarrow> kwargs \<Rightarrow> entry result" where
  "read_entry ue k md =
     bind_res (bare_aci_object ue k) (\<lambda>(mo, bare).
     bind_res (case dict_getd md ''attributes'' (JObj []) of JObj attr \<Rightarrow> Inr attr | _ \<Rightarrow> Inl TypeError) (\<lambda>attr.
     let aci = (mo, dict_update bare attr) in
     bind_res (monitored_name ue md aci) (\<lambda>mon. Inr \<lparr>e_key = k, e_aci = aci, e_monitored = mon\<rparr>)))"

text \<open>The keys a node adds to the list that is being read.\<close>

definition more_keys :: "uni_env \<Rightarrow> ustate list \<Rightarrow> key \<Rightarrow> kwargs \<Rightarrow> key list result" where
  "more_keys ue sts k md =
     (if sts = [] then Inr []
      else bind_res (related_nodes ue sts k) (\<lambda>rel.
           bind_res (if metadata_flag md ''related'' then parent_nodes ue sts k else Inr []) (\<lambda>par. Inr (rel @ par))))"

text \<open>All the keys of a state, for the termination of the loop.\<close>

fun all_keys :: "node \<Rightarrow> key list" where
  "all_keys (Node s cs) = skey s # concat (map all_keys cs)"

definition tree_keys :: "tree option \<Rightarrow> key list" where
  "tree_keys t = (case t of None \<Rightarrow> [] | Some t \<Rightarrow> (case tree.root t of None \<Rightarrow> [] | Some n \<Rightarrow> all_keys n))"

definition state_keys :: "ustate list \<Rightarrow> key list" where
  "state_keys sts = concat (map (\<lambda>st. concat (map (tree_keys \<circ> snd) st)) sts)"

lemma bisect_left_le: "lo \<le> hi \<Longrightarrow> bisect_left key xs k lo hi \<le> hi"
proof (induction key xs k lo hi rule: bisect_left.induct)
  case (1 key xs k lo hi)
  show ?case
  proof (cases "lo < hi")
    case True
    then have "Suc ((lo + hi) div 2) \<le> hi" "lo \<le> (lo + hi) div 2" "(lo + hi) div 2 \<le> hi" by auto
    with 1(1,2) True show ?thesis
      by (subst bisect_left.simps) (auto simp: Let_def intro: order_trans)
  next
    case False
    with 1(3) show ?thesis by (subst bisect_left.simps) simp
  qed
qed

lemma get_child_mem: "get_child k n = Some c \<Longrightarrow> c \<in> set (children n) \<and> nkey c = k"
  using bisect_left_le [of 0 "length (children n)" nkey "children n" k]
  by (auto simp: get_child_def ol_get_def ol_getitem_def ol_index_def Let_def split: option.split_asm if_split_asm)

lemma all_keys_child: "c \<in> set (children n) \<Longrightarrow> set (all_keys c) \<subseteq> set (all_keys n)"
  by (cases n) auto

lemma nkey_all_keys: "nkey n \<in> set (all_keys n)"
  by (cases n) simp

lemma walk_keys:
  "\<lbrakk>walk pk ps stack = Some st; \<forall>n \<in> set stack. set (all_keys n) \<subseteq> K\<rbrakk> \<Longrightarrow> \<forall>n \<in> set st. set (all_keys n) \<subseteq> K"
proof (induction pk ps stack rule: walk.induct)
  case (2 pk p ps stack)
  then obtain n up c where c: "stack = n # up" "get_child (pk @ [p]) n = Some c" "walk (pk @ [p]) ps (c # stack) = Some st"
    by (auto split: list.split_asm option.split_asm)
  have "set (all_keys c) \<subseteq> K"
    using get_child_mem [OF c(2)] all_keys_child [of c n] 2(3) c(1) by auto
  with 2(1) [OF c(1,2)] c 2(3) show ?case by auto
qed simp

lemma walk_not_Nil: "\<lbrakk>walk pk ps stack = Some st; stack \<noteq> []\<rbrakk> \<Longrightarrow> st \<noteq> []"
  by (induction pk ps stack rule: walk.induct) (auto split: list.split_asm option.split_asm)

lemma tree_find_keys:
  assumes "tree_find t k = Inr (Some n)"
  shows "k \<in> set (tree_keys (Some t))"
proof -
  obtain stack where g: "get_node_and_parent_stack t k = Inr (Some n, stack)"
    using assms by (cases "get_node_and_parent_stack t k") (auto simp: tree_find_def)
  then obtain r where r: "tree.root t = Some r" by (auto simp: get_node_and_parent_stack_def split: option.split_asm)
  show ?thesis
  proof (cases "nkey r = k")
    case True
    then show ?thesis using r nkey_all_keys [of r] by (simp add: tree_keys_def)
  next
    case False
    then obtain k0 rest where k: "k = k0 # rest" and w: "walk [k0] (butlast rest) [r] = Some stack"
      and c: "get_child k (hd stack) = Some n"
      using g r by (auto simp: get_node_and_parent_stack_def split: list.split_asm if_split_asm option.split_asm)
    have "hd stack \<in> set stack" using walk_not_Nil [OF w] by simp
    then have "set (all_keys (hd stack)) \<subseteq> set (all_keys r)" using walk_keys [OF w, of "set (all_keys r)"] by simp
    moreover have "nkey n = k" "set (all_keys n) \<subseteq> set (all_keys (hd stack))"
      using get_child_mem [OF c] all_keys_child [of n "hd stack"] by auto
    ultimately show ?thesis using nkey_all_keys [of n] r by (auto simp: tree_keys_def)
  qed
qed

lemma fill_node_loop_keys: "fill_node_loop rn k sts = Inr (Some md) \<Longrightarrow> k \<in> set (state_keys sts)"
proof (induction rn k sts rule: fill_node_loop.induct)
  case (2 rn k st sts)
  show ?case
  proof (cases "find_in st rn k")
    case (Inl e)
    with 2 show ?thesis by (auto simp: node_or_skip_def state_keys_def split: if_split_asm)
  next
    case (Inr n)
    show ?thesis
    proof (cases n)
      case None
      with Inr 2 show ?thesis by (auto simp: node_or_skip_def state_keys_def)
    next
      case (Some nd)
      with Inr obtain t where "dict_get st rn = Some (Some t)" "tree_find t k = Inr (Some nd)"
        by (auto simp: find_in_def split: option.split_asm)
      then have "(rn, Some t) \<in> set st" "k \<in> set (tree_keys (Some t))"
        using tree_find_keys by (auto dest: map_of_SomeD)
      then show ?thesis by (force simp: state_keys_def)
    qed
  qed
qed simp

lemma fill_node_keys: "fill_node ue sts k = Inr (Some md) \<Longrightarrow> k \<in> set (state_keys sts)"
  by (cases "extract_root_rn ue k") (auto simp: fill_node_def dest: fill_node_loop_keys)

lemma unread_less:
  "\<lbrakk>fill_node ue sts k = Inr (Some md); k \<notin> set done\<rbrakk> \<Longrightarrow>
     card (set (state_keys sts) - set (k # done)) < card (set (state_keys sts) - set done)"
  using fill_node_keys [of ue sts k md] by (intro psubset_card_mono) auto

text \<open>
  The loop over a list of keys that grows: a key that was read or has no visible node is passed over, the
  others add their related nodes and, being related themselves, their parents.
\<close>

function (sequential) read_loop :: "uni_env \<Rightarrow> ustate list \<Rightarrow> key list \<Rightarrow> key list \<Rightarrow> (entry list \<times> key list) result" where
  "read_loop ue sts [] done = Inr ([], [])"
| "read_loop ue sts (k # ks) done =
     (if k \<in> set done then read_loop ue sts ks done
      else case fill_node ue sts k of
        Inl e \<Rightarrow> Inl e
      | Inr None \<Rightarrow> read_loop ue sts ks done
      | Inr (Some md) \<Rightarrow>
          if md = [] then read_loop ue sts ks done
          else bind_res (read_entry ue k md) (\<lambda>e. bind_res (more_keys ue sts k md) (\<lambda>more.
               bind_res (read_loop ue sts (ks @ more) (k # done)) (\<lambda>(es, added). Inr (e # es, more @ added)))))"
  by pat_completeness auto

termination
  by (relation "measures [\<lambda>(ue, sts, ks, done). card (set (state_keys sts) - set done), \<lambda>(ue, sts, ks, done). length ks]")
    (auto simp del: set_simps dest: unread_less)


declare read_loop.simps [simp del]
lemmas read_loop_Nil [simp] = read_loop.simps(1)
lemmas read_loop_Cons = read_loop.simps(2)

section \<open>What is read\<close>

definition visible :: "uni_env \<Rightarrow> ustate list \<Rightarrow> key \<Rightarrow> bool" where
  "visible ue sts k \<longleftrightarrow> (case fill_node ue sts k of Inr (Some md) \<Rightarrow> md \<noteq> [] | _ \<Rightarrow> False)"

definition next_keys :: "uni_env \<Rightarrow> ustate list \<Rightarrow> key \<Rightarrow> key list" where
  "next_keys ue sts k = (case fill_node ue sts k of
      Inr (Some md) \<Rightarrow> (case more_keys ue sts k md of Inr ks \<Rightarrow> ks | Inl _ \<Rightarrow> []) | _ \<Rightarrow> [])"

text \<open>The whole objects of some keys: the visible ones, with their related nodes and parents.\<close>

inductive needed :: "uni_env \<Rightarrow> ustate list \<Rightarrow> key set \<Rightarrow> key \<Rightarrow> bool" for ue sts K where
  requested: "\<lbrakk>k \<in> K; visible ue sts k\<rbrakk> \<Longrightarrow> needed ue sts K k"
| part: "\<lbrakk>needed ue sts K k; k' \<in> set (next_keys ue sts k); visible ue sts k'\<rbrakk> \<Longrightarrow> needed ue sts K k'"

lemma needed_closed:
  assumes "\<And>k. \<lbrakk>k \<in> K; visible ue sts k\<rbrakk> \<Longrightarrow> needed ue sts K' k"
  shows "needed ue sts K k \<Longrightarrow> needed ue sts K' k"
  by (induction rule: needed.induct) (auto intro: assms needed.part)

text \<open>Induction along a successful reading.\<close>

lemma read_loop_induct [consumes 1, case_names Nil Skip Read]:
  assumes "read_loop ue sts ks dn = Inr (es, added)"
    and nil: "\<And>dn. P [] dn [] []"
    and skip: "\<And>k ks dn es added. \<lbrakk>k \<in> set dn \<or> \<not> visible ue sts k; P ks dn es added\<rbrakk> \<Longrightarrow> P (k # ks) dn es added"
    and read: "\<And>k ks dn e es added. \<lbrakk>k \<notin> set dn; visible ue sts k; e_key e = k;
      P (ks @ next_keys ue sts k) (k # dn) es added\<rbrakk> \<Longrightarrow> P (k # ks) dn (e # es) (next_keys ue sts k @ added)"
  shows "P ks dn es added"
  using assms(1)
proof (induction u \<equiv> ue s \<equiv> sts ks dn arbitrary: es added rule: read_loop.induct)
  case (2 k ks dn)
  show ?case
  proof (cases "k \<in> set dn \<or> \<not> visible ue sts k")
    case True
    with 2(5) have "read_loop ue sts ks dn = Inr (es, added)"
      by (auto simp: read_loop_Cons visible_def split: sum.split_asm option.split_asm if_split_asm)
    have "P ks dn es added"
    proof (cases "k \<in> set dn")
      case True
      then show ?thesis using 2(1) [OF _ \<open>read_loop ue sts ks dn = Inr (es, added)\<close>] by blast
    next
      case False
      with True 2(5) consider "fill_node ue sts k = Inr None" | "fill_node ue sts k = Inr (Some [])"
        by (auto simp: read_loop_Cons visible_def split: sum.split_asm option.split_asm if_split_asm)
      then show ?thesis
        using 2(2) [OF False _ _ \<open>read_loop ue sts ks dn = Inr (es, added)\<close>]
          2(3) [OF False _ _ _ \<open>read_loop ue sts ks dn = Inr (es, added)\<close>] by cases blast+
    qed
    show ?thesis by (rule skip [OF True \<open>P ks dn es added\<close>])
  next
    case False
    then obtain md where md: "fill_node ue sts k = Inr (Some md)" "md \<noteq> []"
      by (auto simp: visible_def split: sum.split_asm option.split_asm)
    with False 2(5) obtain e more r where e: "read_entry ue k md = Inr e" and more: "more_keys ue sts k md = Inr more"
      and r: "read_loop ue sts (ks @ more) (k # dn) = Inr r" "es = e # fst r" "added = more @ snd r"
      by (auto simp: read_loop_Cons)
    have "next_keys ue sts k = more" using md more by (simp add: next_keys_def)
    moreover have "e_key e = k" using e by (auto simp: read_entry_def Let_def)
    moreover have "P (ks @ more) (k # dn) (fst r) (snd r)"
      using 2(4) [OF _ md(1) refl md(2) e more, of "fst r" "snd r"] False r(1) by simp
    ultimately show ?thesis using False r(2,3) read [of k dn e ks "fst r" "snd r"] by simp
  qed
qed (use nil in auto)


lemma read_loop_exact:
  assumes "read_loop ue sts ks dn = Inr (es, added)"
  shows "distinct (map e_key es)" "set (map e_key es) \<inter> set dn = {}"
    and "k \<in> set (map e_key es) \<Longrightarrow> needed ue sts (set ks) k"
    and "\<lbrakk>k \<in> set ks \<union> (\<Union>e \<in> set es. set (next_keys ue sts (e_key e))); visible ue sts k\<rbrakk> \<Longrightarrow>
      k \<in> set dn \<union> set (map e_key es)"
    and "set added = (\<Union>e \<in> set es. set (next_keys ue sts (e_key e)))"
proof -
  have "distinct (map e_key es) \<and> set (map e_key es) \<inter> set dn = {} \<and>
      (\<forall>k \<in> set (map e_key es). needed ue sts (set ks) k) \<and>
      (\<forall>k. k \<in> set ks \<union> (\<Union>e \<in> set es. set (next_keys ue sts (e_key e))) \<and> visible ue sts k \<longrightarrow>
        k \<in> set dn \<union> set (map e_key es)) \<and>
      set added = (\<Union>e \<in> set es. set (next_keys ue sts (e_key e)))"
    using assms
  proof (induction rule: read_loop_induct)
    case (Skip k ks dn es added)
    have "needed ue sts (set ks) x \<Longrightarrow> needed ue sts (set (k # ks)) x" for x
      by (erule needed_closed [rotated]) (auto intro: needed.requested)
    with Skip show ?case by auto
  next
    case (Read k ks dn e es added)
    have k: "needed ue sts (set (k # ks)) k" using Read(2) by (auto intro: needed.requested)
    have "needed ue sts (set (ks @ next_keys ue sts k)) x \<Longrightarrow> needed ue sts (set (k # ks)) x" for x
      by (erule needed_closed [rotated]) (auto intro: needed.requested needed.part [OF k [simplified]])
    with Read k show ?case by auto
  qed simp
  then show "distinct (map e_key es)" "set (map e_key es) \<inter> set dn = {}"
    "k \<in> set (map e_key es) \<Longrightarrow> needed ue sts (set ks) k"
    "\<lbrakk>k \<in> set ks \<union> (\<Union>e \<in> set es. set (next_keys ue sts (e_key e))); visible ue sts k\<rbrakk> \<Longrightarrow>
      k \<in> set dn \<union> set (map e_key es)"
    "set added = (\<Union>e \<in> set es. set (next_keys ue sts (e_key e)))"
    by blast+
qed

section \<open>The objects of a universe\<close>

record reading =
  r_entries :: "entry list"
  r_keys :: "key list"

text \<open>The result before its conversion, and the list of keys, which the caller shares, as it is left.\<close>

definition get_resources :: "uni_env \<Rightarrow> ustate list \<Rightarrow> key list \<Rightarrow> reading result" where
  "get_resources ue sts ks =
     bind_res (read_loop ue sts ks []) (\<lambda>(es, added). Inr \<lparr>r_entries = es, r_keys = ks @ added\<rparr>)"

definition monitored_set :: "entry list \<Rightarrow> string list" where
  "monitored_set es = concat (map (\<lambda>e. case e_monitored e of None \<Rightarrow> [] | Some dn \<Rightarrow> [dn]) es)"

text \<open>\<open>AimDbUniverse\<close> converts the objects and marks the monitored ones.\<close>

definition mark_item :: "uni_env \<Rightarrow> string list \<Rightarrow> obj \<Rightarrow> obj result" where
  "mark_item ue mon r = bind_res (item_dn ue r) (\<lambda>dn.
     Inr (if dn \<in> set mon then set_attr ''monitored'' (JBool True) r else r))"

definition convert_get_resources_result :: "uni_env \<Rightarrow> entry list \<Rightarrow> obj list result" where
  "convert_get_resources_result ue es =
     bind_res (aci_to_aim (ue_cv ue) (map e_aci es)) (traverse_res (mark_item ue (monitored_set es)))"

definition aim_get_resources :: "uni_env \<Rightarrow> ustate list \<Rightarrow> key list \<Rightarrow> (obj list \<times> key list) result" where
  "aim_get_resources ue sts ks =
     (if ks = [] then Inr ([], [])
      else bind_res (get_resources ue sts ks) (\<lambda>r.
           bind_res (convert_get_resources_result ue (r_entries r)) (\<lambda>os. Inr (os, r_keys r))))"

section \<open>Objects to delete\<close>

text \<open>\<open>_get_resources_for_delete\<close>: the node of the key in the monitored tree, then \<open>action\<close>, which
  yields the objects it appends.\<close>

definition monitored_node :: "uni_env \<Rightarrow> ustate \<Rightarrow> key \<Rightarrow> node option result" where
  "monitored_node ue mon k = bind_res (extract_root_rn ue k) (\<lambda>rn.
     case find_in mon rn k of Inl KeyError \<Rightarrow> Inr None | r \<Rightarrow> r)"

definition get_resources_for_delete ::
  "uni_env \<Rightarrow> ustate \<Rightarrow> (string \<times> kwargs \<Rightarrow> node option \<Rightarrow> (string \<times> kwargs) list result) \<Rightarrow> key list \<Rightarrow>
    (string \<times> kwargs) list result" where
  "get_resources_for_delete ue mon action ks =
     bind_res (traverse_res (\<lambda>k. bind_res (bare_aci_object ue k) (\<lambda>aci.
       bind_res (monitored_node ue mon k) (action aci))) ks) (\<lambda>rs. Inr (concat rs))"

definition live_node :: "node option \<Rightarrow> bool" where
  "live_node n \<longleftrightarrow> (case n of None \<Rightarrow> False | Some nd \<Rightarrow> \<not> dummy (slots nd))"

text \<open>\<open>AimDbUniverse\<close>: what is in the desired monitored tree stays.\<close>

definition aim_delete_action :: "string \<times> kwargs \<Rightarrow> node option \<Rightarrow> (string \<times> kwargs) list result" where
  "aim_delete_action aci n = Inr (if live_node n then [] else [aci])"

text \<open>\<open>AimDbMonitoredUniverse\<close>: a root is never deleted.\<close>

definition monitored_delete_action ::
  "uni_env \<Rightarrow> string \<times> kwargs \<Rightarrow> node option \<Rightarrow> (string \<times> kwargs) list result" where
  "monitored_delete_action ue aci n =
     bind_res (getitem (snd aci) ''dn'') (\<lambda>dn.
       case dn_to_key (ue_maker ue) (fst aci) (py_str dn) of
         None \<Rightarrow> Inl TypeError
       | Some k \<Rightarrow> Inr (if length k = 1 \<or> live_node n then [] else [aci]))"

text \<open>\<open>AciOperationalUniverse\<close>: an object that becomes monitored loses its tag only.\<close>

definition tag_of :: "string \<Rightarrow> string \<times> kwargs \<Rightarrow> (string \<times> kwargs) result" where
  "tag_of sysid aci = bind_res (getitem (snd aci) ''dn'') (\<lambda>dn.
     Inr (''tagInst'', [(''dn'', JStr (py_str dn @ ''/tag-'' @ sysid))]))"

definition oper_delete_action ::
  "string \<Rightarrow> string \<times> kwargs \<Rightarrow> node option \<Rightarrow> (string \<times> kwargs) list result" where
  "oper_delete_action sysid aci n =
     (if live_node n then bind_res (tag_of sysid aci) (\<lambda>t. Inr [t]) else Inr [aci])"

text \<open>\<open>AciUniverse\<close>: nothing is sent for a child whose parent is neither in the desired configuration nor
  in the desired monitored tree.\<close>

definition split_type :: "string \<times> string \<Rightarrow> string list" where
  "split_type p = [fst p, snd p]"

definition aci_delete_action ::
  "uni_env \<Rightarrow> string \<Rightarrow> ustate \<Rightarrow> ustate \<Rightarrow> string \<times> kwargs \<Rightarrow> node option \<Rightarrow> (string \<times> kwargs) list result" where
  "aci_delete_action ue sysid conf_desired mon_desired aci n =
     (if live_node n then bind_res (tag_of sysid aci) (\<lambda>t. Inr [t])
      else bind_res (getitem (snd aci) ''dn'') (\<lambda>dn.
           bind_res (ue_guess ue (py_str dn) (fst aci)) (\<lambda>rns.
           if length rns > 1 then
             bind_res (ue_build ue (map split_type (butlast rns))) (\<lambda>parent_dn.
             case dn_to_key (ue_maker ue) (fst (last (butlast rns))) parent_dn of
               None \<Rightarrow> Inl TypeError
             | Some parent_key \<Rightarrow>
                 bind_res (extract_root_rn ue parent_key) (\<lambda>rn.
                 bind_res (find_in conf_desired rn parent_key) (\<lambda>c.
                 if c \<noteq> None then Inr [aci]
                 else bind_res (find_in mon_desired rn parent_key) (\<lambda>m. Inr (if m \<noteq> None then [aci] else [])))))
           else Inr [aci])))"

end
