(* ===== verification/Universe_Read_Props.thy ===== *)
theory Universe_Read_Props
  imports Universe_Read Tree_Converter
begin

text \<open>
  What reading the objects of a universe and listing those to delete guarantee: whole objects, each once,
  and nothing of the monitored state deleted.
\<close>

section \<open>Objects to delete\<close>

lemma traverse_res_member:
  "\<lbrakk>traverse_res f xs = Inr ys; y \<in> set ys\<rbrakk> \<Longrightarrow> \<exists>x \<in> set xs. f x = Inr y"
  by (induction xs arbitrary: ys) auto

lemma get_resources_for_delete_member:
  assumes "get_resources_for_delete ue mon action ks = Inr rs" "x \<in> set rs"
  obtains k aci n xs where "k \<in> set ks" "bare_aci_object ue k = Inr aci" "monitored_node ue mon k = Inr n"
    "action aci n = Inr xs" "x \<in> set xs"
  using assms by (fastforce simp: get_resources_for_delete_def dest: traverse_res_member)

lemma aci_delete_action_result:
  "aci_delete_action ue sysid cfg mon aci n = Inr xs \<Longrightarrow>
    if live_node n then \<exists>dn. xs = [(''tagInst'', dn)] else set xs \<subseteq> {aci}"
  by (auto simp: aci_delete_action_def tag_of_def split: if_split_asm option.split_asm)

section \<open>Example\<close>

definition toy_guess :: "string \<Rightarrow> (string \<times> string) list" where
  "toy_guess dn = map (\<lambda>p. (takeWhile (\<lambda>c. c \<noteq> CHR ''-'') p, tl (dropWhile (\<lambda>c. c \<noteq> CHR ''-'') p)))
     (tl (py_split (CHR ''/'') dn))"

definition toy_uni :: uni_env where
  "toy_uni = \<lparr>ue_maker = toy_maker\<lparr>mk_decompose := \<lambda>mo dn. Some (toy_guess dn)\<rparr>, ue_cv = toy_cv,
     ue_build = (\<lambda>ps. Inr (''uni/'' @ py_join ''/'' (map (py_join ''-'') ps))),
     ue_guess = (\<lambda>dn mo. Inr (toy_guess dn))\<rparr>"

definition plain_node :: "key \<Rightarrow> bool \<Rightarrow> node list \<Rightarrow> node" where
  "plain_node k rel cs = Node \<lparr>skey = k, partial_hash = Some ''h'', full_hash = Some ''h'', dummy = False, error = False,
     metadata = [(''attributes'', JObj []), (''monitored'', JBool False)] @ (if rel then [(''related'', JBool True)] else [])\<rparr> cs"

definition tenant_key :: key where "tenant_key = [''fvTenant|t1'']"
definition bd_key :: key where "bd_key = tenant_key @ [''fvBD|b'']"
definition ctx_key :: key where "ctx_key = bd_key @ [''fvRsCtx|x'']"

definition toy_state :: ustate where
  "toy_state = [(''fvTenant-t1'', Some \<lparr>tree.root = Some
      (plain_node tenant_key False [plain_node bd_key False [plain_node ctx_key True []]]),
      root_key = Some tenant_key, has_populated = True\<rparr>)]"

lemma find_in_toy:
  "find_in toy_state ''fvTenant-t1'' tenant_key = Inr (Some (plain_node tenant_key False [plain_node bd_key False [plain_node ctx_key True []]]))"
  "find_in toy_state ''fvTenant-t1'' bd_key = Inr (Some (plain_node bd_key False [plain_node ctx_key True []]))"
  "find_in toy_state ''fvTenant-t1'' ctx_key = Inr (Some (plain_node ctx_key True []))"
  by code_simp+

lemma toy_extra:
  "extract_root_rn toy_uni tenant_key = Inr ''fvTenant-t1''" "extract_root_rn toy_uni bd_key = Inr ''fvTenant-t1''"
  "extract_root_rn toy_uni ctx_key = Inr ''fvTenant-t1''"
  by code_simp+

lemma toy_keys: "bind_res (get_resources toy_uni [toy_state] [ctx_key]) (\<lambda>r. Inr (map e_key (r_entries r))) = Inr [ctx_key, bd_key]"
  by code_simp

lemma toy_reads: "\<exists>r. get_resources toy_uni [toy_state] [ctx_key] = Inr r \<and> map e_key (r_entries r) = [ctx_key, bd_key]"
  using toy_keys by auto

section \<open>Properties\<close>



text \<open>C8. Of an object that the monitored state holds, the universe of the ACI configuration asks for the removal of
  the tag only: every other object it lists for deletion is one of the requested keys without a live node
  in the monitored tree.\<close>

theorem deletion_spares_monitored:
  assumes "get_resources_for_delete ue mon (aci_delete_action ue sysid conf_desired mon_desired) ks = Inr rs"
    and "aci \<in> set rs" "fst aci \<noteq> ''tagInst''"
  shows "\<exists>k n. k \<in> set ks \<and> bare_aci_object ue k = Inr aci \<and> monitored_node ue mon k = Inr n \<and> \<not> live_node n"
proof -
  obtain k a n xs where k: "k \<in> set ks" "bare_aci_object ue k = Inr a" "monitored_node ue mon k = Inr n"
    and xs: "aci_delete_action ue sysid conf_desired mon_desired a n = Inr xs" "aci \<in> set xs"
    by (rule get_resources_for_delete_member [OF assms(1,2)])
  from aci_delete_action_result [OF xs(1)] xs(2) assms(3) have "a = aci \<and> \<not> live_node n"
    by (auto split: if_split_asm)
  with k show ?thesis by blast
qed

text \<open>The bridge domain is monitored and loses its tag, the other object is deleted.\<close>

definition monitored_bd :: ustate where
  "monitored_bd = [(''fvTenant-t1'', Some \<lparr>tree.root = Some (plain_node tenant_key False [plain_node bd_key False []]),
      root_key = Some tenant_key, has_populated = True\<rparr>)]"

lemma toy_deletes:
  "get_resources_for_delete toy_uni monitored_bd (aci_delete_action toy_uni ''sys'' toy_state monitored_bd) [bd_key, ctx_key]
    = Inr [(''tagInst'', [(''dn'', JStr ''uni/fvTenant-t1/fvBD-b/tag-sys'')]),
           (''fvRsCtx'', [(''dn'', JStr ''uni/fvTenant-t1/fvBD-b/fvRsCtx-x'')])]"
  by code_simp

theorem deletion_spares_monitored_witness:
  "\<exists>k n. k \<in> set [bd_key, ctx_key] \<and> bare_aci_object toy_uni k = Inr (''fvRsCtx'', [(''dn'', JStr ''uni/fvTenant-t1/fvBD-b/fvRsCtx-x'')])
    \<and> monitored_node toy_uni monitored_bd k = Inr n \<and> \<not> live_node n"
  by (rule deletion_spares_monitored [OF toy_deletes]) simp_all

end
