(* ===== verification/Universe_Push.thy ===== *)
theory Universe_Push
  imports Universe_Read Sync_Track
begin

text \<open>
  The writing half of \<open>AimDbUniverse\<close> (\<open>aim/agent/aid/universes/aim_universe.py\<close>): pushing ACI objects
  into the AIM database, as the operational and the monitored universe do, and the status of the objects
  that are in sync, or about to be.

  \<open>fuel\<close> bounds the recursion of \<open>set_resource_sync_pending\<close>, as in \<open>Aim_Manager\<close>. An operation of the manager
  that raises leaves the database as it was (its transaction), but the operations before it stay.
\<close>

section \<open>The parent of a fault\<close>

text \<open>The \<open>alt_resource\<close> entries of the conversion table.\<close>

definition alt_resources :: "(string, klass) dict" where
  "alt_resources = [(''vnsLIf'', DeviceCluster), (''vnsRsCIfAttN'', DeviceCluster), (''vnsCDev'', DeviceCluster),
     (''vnsCIf'', DeviceCluster), (''vnsRsCIfPathAtt'', DeviceCluster), (''vnsAbsNode'', ServiceGraph),
     (''vnsAbsFuncConn'', ServiceGraph), (''vnsRsNodeToLDev'', ServiceGraph), (''vnsAbsConnection'', ServiceGraph),
     (''vnsRsAbsConnectionConns'', ServiceGraph), (''vnsLIfCtx'', DeviceClusterContext),
     (''vnsRsLIfCtxToSvcRedirectPol'', DeviceClusterContext), (''vnsRsLIfCtxToBD'', DeviceClusterContext),
     (''vnsRsLIfCtxToLIf'', DeviceClusterContext)]"

text \<open>Upwards from the innermost object to the first type with a single rule.\<close>

fun fault_rule :: "(string \<times> string) list \<Rightarrow> (string \<times> klass rule) result" where
  "fault_rule [] = Inl IndexError"
| "fault_rule ((mo, _) # up) =
     (case dict_get resource_map mo of
        None \<Rightarrow> Inl KeyError
      | Some [] \<Rightarrow> Inl IndexError
      | Some [h] \<Rightarrow> Inr (mo, h)
      | Some _ \<Rightarrow> fault_rule up)"

definition retrieve_fault_parent :: "conv_env \<Rightarrow> string \<Rightarrow> (klass \<times> obj) list result" where
  "retrieve_fault_parent cv fault_dn =
     bind_res (cv_decompose cv fault_dn ''faultInst'') (\<lambda>mr.
     let mos = butlast mr; rns = cv_filter_rns cv mos in
     bind_res (fault_rule (rev mos)) (\<lambda>(mo, h).
     traverse_res (\<lambda>k. bind_res (zip_identity (map fst (identity_attributes k)) (map JStr rns)) (\<lambda>kw.
         bind_res (make_obj (cv_conf cv) k kw) (\<lambda>r. Inr (k, r))))
       (resource h # (case dict_get alt_resources mo of Some k \<Rightarrow> [k] | None \<Rightarrow> []))))"

section \<open>One object\<close>

definition kept :: "aim_db \<Rightarrow> aim_db result \<Rightarrow> exc option \<times> aim_db" where
  "kept db r = (case r of Inl e \<Rightarrow> (Some e, db) | Inr db' \<Rightarrow> (None, db'))"

fun set_fault_on :: "env \<Rightarrow> obj \<Rightarrow> (klass \<times> obj) list \<Rightarrow> aim_db \<Rightarrow> exc option \<times> aim_db" where
  "set_fault_on env fault [] db = (None, db)"
| "set_fault_on env fault ((k, p) # ps) db =
     (case get_status env k p True db of
        Inl e \<Rightarrow> (Some e, db)
      | Inr (Some _, db') \<Rightarrow> kept db' (set_fault env k p fault db')
      | Inr (None, db') \<Rightarrow> set_fault_on env fault ps db')"

text \<open>Two more conversions drop what ACI does not manage; then the object is marked monitored again.\<close>

definition screen_monitored :: "conv_env \<Rightarrow> obj \<Rightarrow> obj result" where
  "screen_monitored cv r =
     bind_res (aim_to_aci cv [set_attr ''monitored'' (JBool True) r]) (\<lambda>ds.
     bind_res (aci_to_aim cv (map hd ds)) (\<lambda>os. case os of
       [] \<Rightarrow> Inl IndexError | o' # _ \<Rightarrow> Inr (set_attr ''monitored'' (JBool True) o')))"

text \<open>A root is updated, never created; everything else is created over what is there.\<close>

definition push_create :: "nat \<Rightarrow> conv_env \<Rightarrow> bool \<Rightarrow> obj \<Rightarrow> aim_db \<Rightarrow> aim_db result" where
  "push_create fuel cv monitored r db =
     bind_res (if monitored then screen_monitored cv r else Inr r) (\<lambda>r'.
     case klass_of (cv_env cv) (oclass r') of
       None \<Rightarrow> Inl (UnknownResourceType (oclass r'))
     | Some k \<Rightarrow>
         if is_root k then
           bind_res (aim_update fuel (cv_env cv) k r' monitored False (extract_other k r') db) (\<lambda>(_, db'). Inr db')
         else bind_res (aim_create fuel (cv_env cv) k r' True monitored db) (\<lambda>(_, db'). Inr db'))"

definition push_delete :: "conv_env \<Rightarrow> bool \<Rightarrow> obj \<Rightarrow> aim_db \<Rightarrow> aim_db result" where
  "push_delete cv monitored r db =
     (case klass_of (cv_env cv) (oclass r) of
        None \<Rightarrow> Inl (UnknownResourceType (oclass r))
      | Some k \<Rightarrow>
          if monitored then
            if is_root k then Inr db
            else bind_res (aim_get (cv_env cv) db k r False) (\<lambda>existing. case existing of
                None \<Rightarrow> Inr db
              | Some x \<Rightarrow> bind_res (get_attr x ''monitored'') (\<lambda>m.
                  if json_truth m then aim_delete (cv_env cv) k r False False db else Inr db))
          else aim_delete (cv_env cv) k r False False db)"

definition push_resource :: "nat \<Rightarrow> conv_env \<Rightarrow> bool \<Rightarrow> sync_action \<times> obj \<Rightarrow> aim_db \<Rightarrow> exc option \<times> aim_db" where
  "push_resource fuel cv monitored = (\<lambda>(a, r) db.
     if oclass r = ''AciFault'' then
       (case a of
          CREATE \<Rightarrow>
            (case bind_res (get_attr r ''external_identifier'') (\<lambda>dn. retrieve_fault_parent cv (py_str dn)) of
               Inl e \<Rightarrow> (Some e, db) | Inr parents \<Rightarrow> set_fault_on (cv_env cv) r parents db)
        | DELETE \<Rightarrow> kept db (aim_delete (cv_env cv) AciFault r False False db))
     else kept db (case a of CREATE \<Rightarrow> push_create fuel cv monitored r db | DELETE \<Rightarrow> push_delete cv monitored r db))"

section \<open>push_resources\<close>

text \<open>Failures are logged and the next object is pushed. The objects to create are converted all at once
  before any is pushed; a deletion that fails is reported with the error \<open>unknown\<close>, which has no handler.\<close>

definition push_items :: "nat \<Rightarrow> conv_env \<Rightarrow> bool \<Rightarrow> (sync_action \<times> obj) list \<Rightarrow> aim_db \<Rightarrow> aim_db" where
  "push_items fuel cv monitored items db = fold (\<lambda>i d. snd (push_resource fuel cv monitored i d)) items db"

definition push_resources ::
  "nat \<Rightarrow> conv_env \<Rightarrow> bool \<Rightarrow> (string \<times> kwargs) list \<Rightarrow> obj list \<Rightarrow> aim_db \<Rightarrow> aim_db result" where
  "push_resources fuel cv monitored creates deletes db =
     bind_res (aci_to_aim cv creates) (\<lambda>os.
       Inr (push_items fuel cv monitored (map (Pair CREATE) os @ map (Pair DELETE) deletes) db))"

section \<open>Status\<close>

definition get_state_pending_na_nodes :: "tree \<Rightarrow> key list \<times> key list" where
  "get_state_pending_na_nodes t = (find_by_metadata ''pending'' (JBool True) t, find_no_metadata ''pending'' t)"

definition sync_objects ::
  "uni_env \<Rightarrow> ustate list \<Rightarrow> (klass \<Rightarrow> obj \<Rightarrow> aim_db \<Rightarrow> aim_db result) \<Rightarrow> key list \<Rightarrow> aim_db \<Rightarrow> exc option \<times> aim_db" where
  "sync_objects ue sts f ks db =
     (case aim_get_resources ue sts ks of
        Inl e \<Rightarrow> (Some e, db)
      | Inr (os, _) \<Rightarrow>
          foldl (\<lambda>(e, d) r. if e \<noteq> None then (e, d)
            else kept d (case klass_of (cv_env (ue_cv ue)) (oclass r) of
                None \<Rightarrow> Inl (UnknownResourceType (oclass r)) | Some k \<Rightarrow> f k r d)) (None, db) os)"

text \<open>Keys that are about to change and are not pending yet become pending; the pending and the unknown ones that
  neither change nor are skipped are in sync.\<close>

definition keys_to_pend :: "key list \<Rightarrow> key list \<Rightarrow> key list" where
  "keys_to_pend create pending = remdups (filter (\<lambda>k. k \<notin> set pending) create)"

definition keys_in_sync :: "key list \<Rightarrow> key list \<Rightarrow> key list \<Rightarrow> key list \<Rightarrow> key list" where
  "keys_in_sync create del unsynced skip_keys =
     remdups (filter (\<lambda>k. k \<notin> set (create @ del) \<and> k \<notin> set skip_keys) unsynced)"

definition set_sync_pending_state ::
  "nat \<Rightarrow> uni_env \<Rightarrow> ustate list \<Rightarrow> key list \<Rightarrow> key list \<Rightarrow> aim_db \<Rightarrow> exc option \<times> aim_db" where
  "set_sync_pending_state fuel ue sts create pending db =
     sync_objects ue sts (\<lambda>k r d. out_of_fuel (set_resource_sync_pending fuel (cv_env (ue_cv ue)) k r True True d))
       (keys_to_pend create pending) db"

definition set_synced_state ::
  "uni_env \<Rightarrow> ustate list \<Rightarrow> key list \<times> key list \<Rightarrow> key list \<Rightarrow> key list \<Rightarrow> aim_db \<Rightarrow> exc option \<times> aim_db" where
  "set_synced_state ue sts raw_diff unsynced skip_keys db =
     sync_objects ue sts (set_resource_sync_synced (cv_env (ue_cv ue)))
       (keys_in_sync (fst raw_diff) (snd raw_diff) unsynced skip_keys) db"

definition update_status_objects ::
  "nat \<Rightarrow> uni_env \<Rightarrow> ustate list \<Rightarrow> tree \<Rightarrow> key list \<times> key list \<Rightarrow> key list \<Rightarrow> aim_db \<Rightarrow> exc option \<times> aim_db" where
  "update_status_objects fuel ue sts t raw_diff skip_keys db =
     (let (pending, na) = get_state_pending_na_nodes t;
          (e, db1) = set_sync_pending_state fuel ue sts (fst raw_diff) pending db
      in if e \<noteq> None then (e, db1) else set_synced_state ue sts raw_diff (pending @ na) skip_keys db1)"

end
