(* ===== verification/Universe_Owned.thy ===== *)
theory Universe_Owned
  imports Universe_Push Universe_Read_Props Aim_Pending
begin

text \<open>
  Rows that belong to users of AIM, and the operations that leave them alone: no operation on status objects
  or faults touches any other table, and overwriting or deleting a monitored row does not touch an owned one.
\<close>

section \<open>Operations on status objects and faults\<close>

definition status_names :: "string set" where
  "status_names = {''AciStatus'', ''AciFault''}"

definition others :: "aim_db \<Rightarrow> (string \<times> row) list" where
  "others db = filter (\<lambda>cr. fst cr \<notin> status_names) (tables db)"

lemma status_names_simps [simp]: "''AciStatus'' \<in> status_names" "kname AciFault \<in> status_names"
  by (simp_all add: status_names_def AciFault_def)

lemma filter_map_id: "(\<And>x. x \<in> set xs \<Longrightarrow> f x = x \<or> \<not> P x \<and> \<not> P (f x)) \<Longrightarrow> filter P (map f xs) = filter P xs"
proof (induction xs)
  case (Cons x xs)
  then have c: "f x = x \<or> \<not> P x \<and> \<not> P (f x)" and ih: "filter P (map f xs) = filter P xs" by simp_all
  from c ih show ?case by (elim disjE) simp_all
qed simp

declare set_resource_sync_pending.simps(2) [simp del]

lemma others_store_add: "kname k \<in> status_names \<Longrightarrow> others (store_add k r db) = others db"
  unfolding others_def store_add_def
  by (auto simp: same_row_def intro!: filter_map_id split: if_split_asm)

lemma others_store_delete: "kname k \<in> status_names \<Longrightarrow> others (store_delete k r db) = others db"
  by (auto simp: others_def store_delete_def same_row_def intro!: filter_cong)

lemma others_create_row:
  "\<lbrakk>create_row env k r ow fx db = Inr (w, db'); kname k \<in> status_names\<rbrakk> \<Longrightarrow> others db' = others db"
  using others_store_add by (auto dest!: create_row_result)

lemma others_update_row:
  "\<lbrakk>update_row env k r fx fu vals db = Inr (w, db'); kname k \<in> status_names\<rbrakk> \<Longrightarrow> others db' = others db"
  using others_store_add by (auto dest!: update_row_result)

lemma others_update_status: "update_status env k r s db = Inr (x, db') \<Longrightarrow> others db' = others db"
  by (drule update_status_result) (auto dest: others_create_row)

lemma others_get_status: "get_status env k r c db = Inr (x, db') \<Longrightarrow> others db' = others db"
  by (drule get_status_result) (auto dest: others_update_status)

lemma others_set_resource_sync: "set_resource_sync env k r s m ex db = Inr (b, db') \<Longrightarrow> others db' = others db"
  by (drule set_resource_sync_result) (auto dest!: others_get_status others_update_row)

lemma others_pending_rest:
  assumes lower: "\<And>k r t c d d'. set_resource_sync_pending fuel env k r t c d = Some (Inr d') \<Longrightarrow> others d' = others d"
    and rest: "pending_rest fuel env k r c db1 = Some (Inr db')"
  shows "others db' = others db1"
proof -
  have fold: "others d' = others d"
    if "fold_fuel (\<lambda>(ck, co). set_resource_sync_pending fuel env ck co False False) xs d = Some (Inr d')" for xs d d'
    by (rule fold_fuel_invariant [OF _ that, of "\<lambda>x. others x = others d"]) (use lower in \<open>auto split: prod.split_asm\<close>)
  from rest obtain p db2 where p: "(case p of None \<Rightarrow> Some (Inr db1)
        | Some (pk, po) \<Rightarrow> set_resource_sync_pending fuel env pk po False True db1) = Some (Inr db2)"
      and rest: "(if c then bind_fuel (Some (get_subtree env db2 k r)) (\<lambda>subtree.
               fold_fuel (\<lambda>(ck, co) d. set_resource_sync_pending fuel env ck co False False d) subtree db2)
           else Some (Inr db2)) = Some (Inr db')"
    by (auto simp: pending_rest_def bind_fuel_Some)
  have 2: "others db2 = others db1" using p lower by (auto split: option.split_asm)
  have "others db' = others db2" using rest fold by (auto simp: bind_fuel_Some split: if_split_asm)
  with 2 show ?thesis by simp
qed

lemma others_set_pending: "set_resource_sync_pending fuel env k r t c db = Some (Inr db') \<Longrightarrow> others db' = others db"
proof (induction fuel arbitrary: k r t c db db')
  case (Suc fuel)
  from Suc.prems obtain b db1 where
    s: "set_resource_sync env k r SYNC_PENDING [] (if t then [SYNC_PENDING] else lower_exclude) db = Inr (b, db1)"
    and rest: "(if b then pending_rest fuel env k r c db1 else Some (Inr db1)) = Some (Inr db')"
    by (auto simp: pending_unfold split: sum.split_asm)
  have "others db' = others db1" using rest others_pending_rest [OF Suc.IH] by (auto split: if_split_asm)
  with others_set_resource_sync [OF s] show ?case by simp
qed simp

lemma others_set_fault: "set_fault env k r f db = Inr db' \<Longrightarrow> others db' = others db"
  by (auto simp: set_fault_def dest!: others_get_status others_create_row split: option.split_asm)

lemma others_set_fault_on: "others (snd (set_fault_on env f ps db)) = others db"
proof (induction env f ps db rule: set_fault_on.induct)
  case (2 env fault k p ps db)
  show ?case
  proof (cases "get_status env k p True db")
    case (Inr y)
    obtain found db' where y: "y = (found, db')" by force
    have o: "others db' = others db" using Inr y others_get_status by simp
    show ?thesis
    proof (cases found)
      case None
      with 2 [OF Inr, of found db'] Inr y o show ?thesis by simp
    next
      case (Some x)
      then show ?thesis using Inr y o others_set_fault [of env k p fault db']
        by (auto simp: kept_def split: sum.split)
    qed
  qed simp
qed simp

lemma deleted_one:
  assumes "delete_one env k r force db = Inr db'"
  shows "db' = db \<or> (\<exists>row db2. query_db_obj db k r = Inr (Some row) \<and> others db2 = others db \<and> db' = store_delete k row db2)"
proof -
  from assms obtain old where v: "validate_resource_class env k = Inr ()" and q: "query_db_obj db k r = Inr old"
    by (auto simp: delete_one_def)
  show ?thesis
  proof (cases old)
    case None
    with assms v q show ?thesis by (simp add: delete_one_def)
  next
    case (Some row)
    show ?thesis
    proof (cases "is_aci k")
      case True
      with assms v q Some obtain found db1 where gs: "get_status env k r False db = Inr (found, db1)"
        by (auto simp: delete_one_def)
      have o1: "others db1 = others db" using others_get_status [OF gs] .
      show ?thesis
      proof (cases found)
        case None
        with assms v q Some True gs o1 show ?thesis by (auto simp: delete_one_def)
      next
        case f: (Some sf)
        obtain st fs where sf: "sf = (st, fs)" by force
        with assms v q Some True gs f obtain db2 where d: "delete_row env AciStatus st db1 = Inr db2" "db' = store_delete k row db2"
          by (auto simp: delete_one_def split: if_split_asm)
        have "others db2 = others db1"
          using d(1) others_store_delete [of AciStatus] by (auto simp: delete_row_def split: option.split_asm)
        with o1 d(2) q Some show ?thesis by auto
      qed
    next
      case False
      with assms v q Some show ?thesis by (auto simp: delete_one_def)
    qed
  qed
qed

lemma others_delete_one: "\<lbrakk>delete_one env k r force db = Inr db'; kname k \<in> status_names\<rbrakk> \<Longrightarrow> others db' = others db"
  using others_store_delete by (auto dest!: deleted_one)


section \<open>Rows a user owns\<close>

text \<open>An opflex device has no such column and always reads as monitored.\<close>

definition owned :: "string \<times> row \<Rightarrow> bool" where
  "owned cr \<longleftrightarrow> fst cr \<notin> status_names \<and> fst cr \<noteq> ''OpflexDevice'' \<and> dict_get (snd cr) ''monitored'' = Some (JBool False)"

text \<open>Rows are dictionaries and their identity is a key of the table.\<close>

definition clash :: "env \<Rightarrow> string \<times> row \<Rightarrow> string \<times> row \<Rightarrow> bool" where
  "clash env a b \<longleftrightarrow> fst a = fst b \<and>
     (case klass_of env (fst a) of None \<Rightarrow> False | Some k \<Rightarrow> row_id k (snd a) = row_id k (snd b))"

definition keyed :: "env \<Rightarrow> (string \<times> row) set \<Rightarrow> bool" where
  "keyed env S \<longleftrightarrow> (\<forall>a \<in> S. dict_ok (snd a) \<and> (\<forall>b \<in> S. clash env a b \<longrightarrow> a = b))"

definition rows_ok :: "env \<Rightarrow> aim_db \<Rightarrow> bool" where
  "rows_ok env db \<longleftrightarrow> keyed env (set (others db))"

lemma keyed_subset: "\<lbrakk>keyed env S; T \<subseteq> S\<rbrakk> \<Longrightarrow> keyed env T"
  by (auto simp: keyed_def)

lemma clash_sym: "clash env a b \<Longrightarrow> clash env b a"
  by (auto simp: clash_def split: option.splits)

lemma keyed_insert: "\<lbrakk>keyed env S; dict_ok (snd c); \<And>a. a \<in> S \<Longrightarrow> \<not> clash env a c\<rbrakk> \<Longrightarrow> keyed env (insert c S)"
  unfolding keyed_def using clash_sym by blast

lemma clash_same_row: "klass_of env (kname k) = Some k \<Longrightarrow> clash env a (kname k, r) \<longleftrightarrow> same_row k r a"
  by (auto simp: clash_def same_row_def)

definition spares :: "env \<Rightarrow> aim_db \<Rightarrow> aim_db \<Rightarrow> bool" where
  "spares env db db' \<longleftrightarrow> rows_ok env db' \<and> (\<forall>cr \<in> set (tables db). owned cr \<longrightarrow> cr \<in> set (tables db'))"

lemma owned_others: "owned cr \<Longrightarrow> cr \<in> set (tables db) \<longleftrightarrow> cr \<in> set (others db)"
  by (simp add: owned_def others_def)

lemma spares_alt:
  "spares env db db' \<longleftrightarrow> rows_ok env db' \<and> (\<forall>cr \<in> set (others db). owned cr \<longrightarrow> cr \<in> set (others db'))"
  using owned_others unfolding spares_def by blast

lemma spares_others: "\<lbrakk>others db' = others db; rows_ok env db\<rbrakk> \<Longrightarrow> spares env db db'"
  by (simp add: spares_alt rows_ok_def)

lemma spares_trans: "\<lbrakk>spares env a b; spares env b c\<rbrakk> \<Longrightarrow> spares env a c"
  by (simp add: spares_def)

lemma rows_okD:
  assumes "rows_ok env db" "(kname k, r) \<in> set (others db)" "cr \<in> set (others db)"
    "klass_of env (kname k) = Some k" "same_row k r cr"
  shows "cr = (kname k, r)"
  using assms clash_same_row [of env k cr r] unfolding rows_ok_def keyed_def by blast

lemma spares_store_delete:
  assumes ok: "rows_ok env db2" and same: "others db2 = others db"
    and no: "\<And>cr. \<lbrakk>cr \<in> set (others db); same_row k row cr\<rbrakk> \<Longrightarrow> \<not> owned cr"
  shows "spares env db (store_delete k row db2)"
proof -
  have o: "set (others (store_delete k row db2)) = {cr \<in> set (others db). \<not> same_row k row cr}"
    unfolding same [symmetric] by (auto simp: others_def store_delete_def)
  then have "rows_ok env (store_delete k row db2)" using ok keyed_subset unfolding rows_ok_def same o by blast
  with o no show ?thesis unfolding spares_alt by blast
qed


lemma set_others_store_add:
  "list_ex (same_row k r) (tables db) \<Longrightarrow> kname k \<notin> status_names \<Longrightarrow>
    set (others (store_add k r db)) = {cr \<in> set (others db). \<not> same_row k r cr} \<union> {(kname k, r)}"
  by (auto simp: others_def store_add_def list_ex_iff same_row_def image_iff split: if_split_asm; force)

lemma others_store_add_new:
  "\<lbrakk>\<not> list_ex (same_row k r) (tables db); kname k \<notin> status_names\<rbrakk> \<Longrightarrow>
    others (store_add k r db) = others db @ [(kname k, new_ids db k r)]"
  by (simp add: others_def store_add_def)

lemma row_id_new_ids: "\<lbrakk>''aim_id'' \<notin> set (map fst (identity_attributes k)); kname k \<noteq> ''AciStatus''\<rbrakk> \<Longrightarrow>
    row_id k (new_ids db k r) = row_id k r"
  by (force simp: row_id_def new_ids_def Let_def dict_simps)

lemma spares_store_add:
  assumes ok: "rows_ok env db" and k: "klass_of env (kname k) = Some k" and row: "dict_ok r"
    and ids: "''aim_id'' \<notin> set (map fst (identity_attributes k))"
    and no: "\<And>cr. \<lbrakk>cr \<in> set (others db); same_row k r cr\<rbrakk> \<Longrightarrow> \<not> owned cr"
  shows "spares env db (store_add k r db)"
proof (cases "kname k \<in> status_names")
  case True
  then show ?thesis using ok by (intro spares_others others_store_add)
next
  case False
  then have ns: "kname k \<noteq> ''AciStatus''" by (auto simp: status_names_def)
  show ?thesis
  proof (cases "list_ex (same_row k r) (tables db)")
    case True
    note o = set_others_store_add [OF True False]
    have "keyed env {cr \<in> set (others db). \<not> same_row k r cr}"
      by (rule keyed_subset [OF ok [unfolded rows_ok_def]]) blast
    then have "keyed env (insert (kname k, r) {cr \<in> set (others db). \<not> same_row k r cr})"
      using row clash_same_row [OF k] by (intro keyed_insert) simp_all
    then have "rows_ok env (store_add k r db)" unfolding rows_ok_def o by simp
    with no show ?thesis unfolding spares_alt o by blast
  next
    case new: False
    note o = others_store_add_new [OF new False]
    have "dict_ok (new_ids db k r)" using row by (auto simp: new_ids_def Let_def)
    moreover have "\<not> same_row k (new_ids db k r) cr" if "cr \<in> set (others db)" for cr
      using new that row_id_new_ids [OF ids ns, of db r] by (auto simp: list_ex_iff same_row_def others_def)
    ultimately have "keyed env (insert (kname k, new_ids db k r) (set (others db)))"
      using ok clash_same_row [OF k] unfolding rows_ok_def by (intro keyed_insert) simp_all
    then have "rows_ok env (store_add k r db)" unfolding rows_ok_def o by simp
    then show ?thesis unfolding spares_alt o by simp
  qed
qed

lemma query_db_obj_member: "query_db_obj db k x = Inr (Some row) \<Longrightarrow> (kname k, row) \<in> set (tables db)"
proof -
  assume "query_db_obj db k x = Inr (Some row)"
  then obtain i where "(case store_query db k i of [] \<Rightarrow> None | x # _ \<Rightarrow> Some x) = Some row"
    by (auto simp: query_db_obj_def)
  then have "row \<in> set (store_query db k i)" by (cases "store_query db k i") simp_all
  then show ?thesis by (auto simp: store_query_def)
qed

lemma create_row_fixed:
  assumes "create_row env k r True True db = Inr (w, db')"
  shows "db' = db \<or>
    (\<exists>row. query_db_obj db k r = Inr (Some row)
       \<and> (opt_json row ''monitored'' = JNull \<or> opt_json row ''monitored'' = get_attr_or r ''monitored'' JNull)
       \<and> db' = store_add k (dict_update row (extract_other k r)) db) \<or>
    (\<exists>row. make_db_obj k r = Inr row \<and> \<not> list_ex (same_row k row) (tables db) \<and> db' = store_add k row db)"
proof -
  from assms obtain old where v: "validate_resource_class env k = Inr ()" and q: "query_db_obj db k r = Inr old"
    by (auto simp: create_row_def)
  show ?thesis
  proof (cases old)
    case None
    with assms v q show ?thesis by (auto simp: create_row_def split: if_split_asm)
  next
    case (Some row)
    show ?thesis
    proof (cases "make_resource env k row False")
      case (Inl e)
      with assms v q Some show ?thesis by (auto simp: create_row_def Let_def split: if_split_asm)
    next
      case (Inr x)
      with assms v q Some show ?thesis
        by (cases "user_equal k x r") (auto simp: create_row_def Let_def split: if_split_asm)
    qed
  qed
qed

lemma update_row_fixed:
  assumes "update_row env k r True fu vals db = Inr (w, db')"
  shows "db' = db \<or> (\<exists>row. query_db_obj db k r = Inr (Some row)
       \<and> (opt_json row ''monitored'' = JNull \<or> opt_json row ''monitored'' = dict_getd vals ''monitored'' JNull)
       \<and> db' = store_add k (dict_update row (filter (\<lambda>(a, _). a \<in> set (map fst (other_attributes k))) vals)) db)"
proof -
  from assms obtain old where v: "validate_resource_class env k = Inr ()" and q: "query_db_obj db k r = Inr old"
    by (auto simp: update_row_def)
  show ?thesis
  proof (cases old)
    case None
    with assms v q show ?thesis by (simp add: update_row_def)
  next
    case (Some row)
    with assms v q obtain old_r where "make_resource env k row False = Inr old_r"
      by (auto simp: update_row_def)
    with assms v q Some show ?thesis
      by (auto simp: update_row_def Let_def split: if_split_asm)
  qed
qed


section \<open>The managed classes\<close>

text \<open>Reading a row gives its own flag, or the default, which is false; the classes of roots are not deleted.\<close>

definition reads_monitored :: "klass \<Rightarrow> bool" where
  "reads_monitored k \<longleftrightarrow> is_root k \<or> kname k = ''OpflexDevice'' \<or> (\<forall>c kw d kw'. ctor k c kw = Inr (d, kw') \<longrightarrow>
     dict_get (rev kw') ''monitored'' = dict_get (rev kw) ''monitored'' \<and>
     (dict_get (rev d) ''monitored'' = None \<or> dict_get (rev d) ''monitored'' = Some (JBool False)))"

lemma reads_monitored_plain:
  "\<lbrakk>ctor k = plain_ctor d; dict_get (rev d) ''monitored'' = None \<or> dict_get (rev d) ''monitored'' = Some (JBool False)\<rbrakk>
    \<Longrightarrow> reads_monitored k"
  by (simp add: reads_monitored_def plain_ctor_def)

lemma reads_monitored_special: "reads_monitored Infra" "reads_monitored Topology" "reads_monitored OpflexDevice"
  by (simp_all add: reads_monitored_def class_defs)

lemma reads_monitored_computed:
  "reads_monitored BridgeDomain" "reads_monitored Agent" "reads_monitored VMMDomain"
  "reads_monitored VMMController" "reads_monitored SystemSecurityGroup" "reads_monitored SystemSecurityGroupSubject"
  "reads_monitored SystemSecurityGroupRule" "reads_monitored ActionLog"
  by (simp add: reads_monitored_def class_defs Let_def dict_simps dict_get_update split: option.split if_split; fail)+

lemma reads_monitored_bgp: "reads_monitored L3OutInterfaceBgpPeerP"
  by (auto simp: reads_monitored_def L3OutInterfaceBgpPeerP_def Let_def split: option.splits if_splits)

lemma managed_reads_monitored:
  "list_all (\<lambda>k. reads_monitored k \<and> ''aim_id'' \<notin> set (map fst (identity_attributes k))) aim_resources"
  unfolding aim_resources_def list.pred_inject
  by (intro conjI list_all_Nil TrueI;
      (rule reads_monitored_special | rule reads_monitored_computed | rule reads_monitored_bgp
       | (rule reads_monitored_plain, simp add: class_defs, simp; fail)
       | (simp add: class_defs; fail)))


lemma managed_ids: "k \<in> set aim_resources \<Longrightarrow> ''aim_id'' \<notin> set (map fst (identity_attributes k))"
  using managed_reads_monitored by (simp add: list_all_iff)

lemma managed_klass: "klass_of (managed_env c a) n = Some k \<Longrightarrow> k \<in> set aim_resources \<and> kname k = n"
  by (auto simp: klass_of_def managed_env_def find_Some_iff)

lemma dict_set_absent: "dict_get d k = None \<Longrightarrow> dict_set k v d = d @ [(k, v)]"
  by (induction d) (auto split: if_split_asm)

text \<open>An owned row does not read as monitored.\<close>

lemma read_owned:
  assumes k: "k \<in> set aim_resources" "\<not> is_root k" and x: "make_resource (managed_env c a) k row False = Inr x"
    and own: "owned (kname k, row)" "dict_ok row" and m: "get_attr x ''monitored'' = Inr m"
  shows "m = JBool False"
proof -
  let ?kw = "filter (\<lambda>(a, _). a \<in> set (attributes k)) row"
  from own(2) have kw_ok: "distinct (map fst ?kw)" by (auto simp: dict_ok_def distinct_map_filter)
  have kw: "dict_get (rev ?kw) ''monitored'' = None \<or> dict_get (rev ?kw) ''monitored'' = Some (JBool False)"
  proof (cases "dict_get (rev ?kw) ''monitored''")
    case (Some v)
    then have "(''monitored'', v) \<in> set row" by (auto dest!: map_of_SomeD)
    then have "dict_get row ''monitored'' = Some v" using own(2) by (simp add: dict_ok_def map_of_eq_Some_iff)
    with own(1) Some show ?thesis by (simp add: owned_def)
  qed simp
  from x obtain o' where o': "make_obj c k ?kw = Inr o'"
    and xo: "x = o'"
    by (auto simp: make_resource_def managed_env_def split: option.split_asm)
  from o' obtain d kw' where ct: "ctor k c ?kw = Inr (d, kw')" and init: "resource_init k d kw' = Inr o'"
    by (auto simp: make_obj_def split: if_split_asm)
  have "reads_monitored k" using managed_reads_monitored k(1) by (simp add: list_all_iff)
  with k(2) own(1) ct have r: "dict_get (rev kw') ''monitored'' = dict_get (rev ?kw) ''monitored''"
    "dict_get (rev d) ''monitored'' = None \<or> dict_get (rev d) ''monitored'' = Some (JBool False)"
    unfolding reads_monitored_def owned_def by auto
  define d' where "d' = (if dict_get (other_attributes k) ''display_name'' \<noteq> None \<and> dict_get d ''display_name'' = None
      then dict_set ''display_name'' (JStr []) d else d)"
  have d': "dict_get (rev d') ''monitored'' = dict_get (rev d) ''monitored''"
    by (auto simp: d'_def dict_set_absent)
  have "ofields o' = dict_update (dict_update [] d') (dict_del ''_set_default'' kw')
      \<or> ofields o' = dict_update [] (dict_del ''_set_default'' kw')"
    using init by (auto simp: resource_init_def d'_def Let_def split: if_split_asm)
  then have "dict_get (ofields o') ''monitored'' = None \<or> dict_get (ofields o') ''monitored'' = Some (JBool False)"
    using r kw d' by (auto simp: dict_get_update dict_rev_del dict_simps)
  with m xo show ?thesis by (auto simp: get_attr_def split: option.split_asm)
qed

end
