(* ===== verification/Universe_Push_Props.thy ===== *)
theory Universe_Push_Props
  imports Universe_Owned
begin

text \<open>
  The monitored universe never changes or removes an object a user of AIM owns, whatever ACI reports.
\<close>

section \<open>One push of the monitored universe\<close>

lemmas spares_add_managed = spares_store_add [OF _ klass_of_managed _ managed_ids]

lemma owned_not_replaced:
  assumes ok: "rows_ok (managed_env c a) db" and k: "k \<in> set aim_resources"
    and q: "query_db_obj db k r = Inr (Some row)" and own: "\<not> owned (kname k, row)"
    and cr: "cr \<in> set (others db)" "same_row k row cr"
  shows "\<not> owned cr"
proof (cases "kname k \<in> status_names")
  case True
  then show ?thesis using cr by (simp add: owned_def same_row_def)
next
  case False
  then have "(kname k, row) \<in> set (others db)" using query_db_obj_member [OF q] by (simp add: others_def)
  then have "cr = (kname k, row)" using rows_okD [OF ok _ cr(1)] cr(2) k by simp
  with own show ?thesis by simp
qed

lemma same_row_update:
  assumes "k \<in> set aim_resources" "fst ` set vals \<subseteq> set (map fst (other_attributes k))"
  shows "same_row k (dict_update row vals) cr \<longleftrightarrow> same_row k row cr"
proof -
  have "set (map fst (identity_attributes k)) \<inter> set (map fst (other_attributes k)) = {}"
    using class_ok [OF assms(1)] by (auto simp: class_ok_def)
  then have "dict_get (rev vals) x = None" if "x \<in> set (map fst (identity_attributes k))" for x
    using that assms(2) by (simp add: map_of_eq_None_iff) blast
  then have "row_id k (dict_update row vals) = row_id k row"
    by (force simp: row_id_def dict_get_update)
  then show ?thesis by (simp add: same_row_def)
qed

lemma extract_other_names: "fst ` set (extract_other k r) = set (map fst (other_attributes k))"
  by (force simp: extract_other_def)

lemma query_dict_ok:
  "\<lbrakk>rows_ok env db; query_db_obj db k r = Inr (Some row); kname k \<notin> status_names\<rbrakk> \<Longrightarrow> dict_ok row"
  using query_db_obj_member [of db k r row] by (force simp: rows_ok_def keyed_def others_def)

lemma spares_overwrite:
  assumes ok: "rows_ok (managed_env c a) db" and k: "k \<in> set aim_resources"
    and q: "query_db_obj db k r = Inr (Some row)"
    and m: "opt_json row ''monitored'' = JNull \<or> opt_json row ''monitored'' = v" "v \<noteq> JBool False"
    and vals: "fst ` set vals \<subseteq> set (map fst (other_attributes k))"
  shows "spares (managed_env c a) db (store_add k (dict_update row vals) db)"
proof (cases "kname k \<in> status_names")
  case True
  then show ?thesis using ok by (intro spares_others others_store_add)
next
  case False
  have "\<not> owned (kname k, row)" using m by (auto simp: owned_def opt_json_def dict_getd_def)
  then have "\<not> owned cr" if "cr \<in> set (others db)" "same_row k (dict_update row vals) cr" for cr
    using owned_not_replaced [OF ok k q] that same_row_update [OF k vals] by blast
  moreover have "dict_ok (dict_update row vals)" using query_dict_ok [OF ok q False] by blast
  ultimately show ?thesis by (intro spares_add_managed [OF ok k _ k]) blast+
qed

lemma spares_aim_create:
  assumes ok: "rows_ok (managed_env c a) db" and k: "k \<in> set aim_resources"
    and m: "get_attr_or r ''monitored'' JNull = JBool True"
    and cr: "aim_create fuel (managed_env c a) k r True True db = Inr (x, db')"
  shows "spares (managed_env c a) db db'"
proof -
  let ?env = "managed_env c a"
  from cr obtain w db1 where row: "create_row ?env k r True True db = Inr (w, db1)" by (auto simp: aim_create_def)
  have o: "others db' = others db1"
    using cr row by (auto simp: aim_create_def out_of_fuel_def dest!: others_set_pending split: written.split_asm if_split_asm option.split_asm)
  have "spares ?env db db1"
    using create_row_fixed [OF row]
  proof (elim disjE exE conjE)
    assume "db1 = db" then show ?thesis using ok by (simp add: spares_others)
  next
    fix x assume "query_db_obj db k r = Inr (Some x)" "opt_json x ''monitored'' = JNull"
      and d: "db1 = store_add k (dict_update x (extract_other k r)) db"
    then show ?thesis unfolding d by (intro spares_overwrite [OF ok k, of _ _ "JBool True"]) (simp_all add: extract_other_names)
  next
    fix x assume "query_db_obj db k r = Inr (Some x)" "opt_json x ''monitored'' = get_attr_or r ''monitored'' JNull"
      and d: "db1 = store_add k (dict_update x (extract_other k r)) db"
    then show ?thesis unfolding d using m
      by (intro spares_overwrite [OF ok k, of _ _ "JBool True"]) (simp_all add: extract_other_names)
  next
    fix x assume new: "make_db_obj k r = Inr x" "\<not> list_ex (same_row k x) (tables db)" and d: "db1 = store_add k x db"
    have "\<not> same_row k x cr" if "cr \<in> set (others db)" for cr using new(2) that by (auto simp: list_ex_iff others_def)
    moreover have "dict_ok x" using new(1) by (auto simp: make_db_obj_def)
    ultimately show ?thesis unfolding d by (intro spares_add_managed [OF ok k _ k]) blast+
  qed
  with o show ?thesis by (simp add: spares_alt rows_ok_def)
qed


lemma spares_aim_update:
  assumes ok: "rows_ok (managed_env c a) db" and k: "k \<in> set aim_resources"
    and m: "dict_getd vals ''monitored'' JNull \<noteq> JBool False"
    and up: "aim_update fuel (managed_env c a) k r True fu vals db = Inr (x, db')"
  shows "spares (managed_env c a) db db'"
proof -
  let ?env = "managed_env c a"
  from up obtain w db1 where row: "update_row ?env k r True fu vals db = Inr (w, db1)" by (auto simp: aim_update_def)
  have o: "others db' = others db1"
    using up row by (auto simp: aim_update_def out_of_fuel_def dest!: others_set_pending split: written.split_asm if_split_asm option.split_asm)
  have names: "fst ` set (filter (\<lambda>(a, _). a \<in> set (map fst (other_attributes k))) vals) \<subseteq> set (map fst (other_attributes k))"
    by force
  have "spares ?env db db1"
    using update_row_fixed [OF row]
  proof (elim disjE exE conjE)
    assume "db1 = db" then show ?thesis using ok by (simp add: spares_others)
  next
    fix x assume "query_db_obj db k r = Inr (Some x)" "opt_json x ''monitored'' = JNull"
      and d: "db1 = store_add k (dict_update x (filter (\<lambda>(a, _). a \<in> set (map fst (other_attributes k))) vals)) db"
    then show ?thesis unfolding d by (intro spares_overwrite [OF ok k _ _ _ names, of _ _ "JBool True"]) simp_all
  next
    fix x assume "query_db_obj db k r = Inr (Some x)" "opt_json x ''monitored'' = dict_getd vals ''monitored'' JNull"
      and d: "db1 = store_add k (dict_update x (filter (\<lambda>(a, _). a \<in> set (map fst (other_attributes k))) vals)) db"
    then show ?thesis unfolding d using m by (intro spares_overwrite [OF ok k _ _ _ names]) simp_all
  qed
  with o show ?thesis by (simp add: spares_alt rows_ok_def)
qed

lemma extract_other_monitored:
  "get_attr_or r ''monitored'' JNull = JBool True \<Longrightarrow> dict_getd (extract_other k r) ''monitored'' JNull \<noteq> JBool False"
proof -
  assume m: "get_attr_or r ''monitored'' JNull = JBool True"
  have "v = JBool True" if "dict_get (extract_other k r) ''monitored'' = Some v" for v
    using map_of_SomeD [OF that] m by (auto simp: extract_other_def)
  then show ?thesis by (auto simp: dict_getd_def split: option.split)
qed

lemma set_attr_get: "get_attr_or (set_attr a v r) a d = v"
  by (simp add: set_attr_def get_attr_or_def get_attr_def dict_simps)

lemma screened:
  assumes "screen_monitored cv r = Inr r'"
  shows "get_attr_or r' ''monitored'' JNull = JBool True"
proof -
  from assms obtain os where "(case os of [] \<Rightarrow> Inl IndexError | o' # _ \<Rightarrow> Inr (set_attr ''monitored'' (JBool True) o')) = Inr r'"
    by (auto simp: screen_monitored_def)
  then show ?thesis by (cases os) (auto simp: set_attr_get)
qed

lemma spares_push_create:
  assumes env: "cv_env cv = managed_env c a" and ok: "rows_ok (managed_env c a) db"
    and p: "push_create fuel cv True r db = Inr db'"
  shows "spares (managed_env c a) db db'"
proof -
  from p obtain r' k where r': "screen_monitored cv r = Inr r'" and kl: "klass_of (managed_env c a) (oclass r') = Some k"
    and rest: "(if is_root k then
           bind_res (aim_update fuel (cv_env cv) k r' True False (extract_other k r') db) (\<lambda>(_, db'). Inr db')
         else bind_res (aim_create fuel (cv_env cv) k r' True True db) (\<lambda>(_, db'). Inr db')) = Inr db'"
    unfolding push_create_def env by (auto split: option.split_asm)
  note k = managed_klass [OF kl, THEN conjunct1] and m = screened [OF r']
  show ?thesis
  proof (cases "is_root k")
    case True
    with rest env obtain x where "aim_update fuel (managed_env c a) k r' True False (extract_other k r') db = Inr (x, db')" by auto
    then show ?thesis by (rule spares_aim_update [OF ok k extract_other_monitored [OF m]])
  next
    case False
    with rest env obtain x where "aim_create fuel (managed_env c a) k r' True True db = Inr (x, db')" by auto
    then show ?thesis by (rule spares_aim_create [OF ok k m])
  qed
qed

lemma spares_push_delete:
  assumes env: "cv_env cv = managed_env c a" and ok: "rows_ok (managed_env c a) db"
    and p: "push_delete cv True r db = Inr db'"
  shows "spares (managed_env c a) db db'"
proof -
  from p env obtain k where kl: "klass_of (managed_env c a) (oclass r) = Some k"
    by (auto simp: push_delete_def split: option.split_asm)
  note k = managed_klass [OF kl, THEN conjunct1]
  have same: "spares (managed_env c a) db db" using ok by (simp add: spares_others)
  show ?thesis
  proof (cases "is_root k")
    case True
    with p kl env same show ?thesis by (simp add: push_delete_def)
  next
    case False
    from p kl env False obtain e where get: "aim_get (managed_env c a) db k r False = Inr e" by (auto simp: push_delete_def)
    show ?thesis
    proof (cases e)
      case None
      with p kl env False get same show ?thesis by (simp add: push_delete_def)
    next
      case (Some x)
      with p kl env False get obtain m where m: "get_attr x ''monitored'' = Inr m"
        and rest: "(if json_truth m then aim_delete (managed_env c a) k r False False db else Inr db) = Inr db'"
        unfolding push_delete_def env by auto
      show ?thesis
      proof (cases "json_truth m")
        case truth: True
        from get Some obtain row where q: "query_db_obj db k r = Inr (Some row)"
          and x: "make_resource (managed_env c a) k row False = Inr x"
          by (auto simp: aim_get_def split: option.split_asm)
        have own: "\<not> owned (kname k, row)"
        proof
          assume o: "owned (kname k, row)"
          then have "dict_ok row" using query_dict_ok [OF ok q] by (simp add: owned_def)
          with read_owned [OF k False x o _ m] truth show False by simp
        qed
        from rest truth have "delete_one (managed_env c a) k r False db = Inr db'" by (auto simp: aim_delete_def)
        from deleted_one [OF this] show ?thesis
        proof (elim disjE exE conjE)
          assume "db' = db" then show ?thesis using same by simp
        next
          fix row' db2 assume q': "query_db_obj db k r = Inr (Some row')" "others db2 = others db" "db' = store_delete k row' db2"
          then have "row' = row" using q by simp
          then show ?thesis
            unfolding q'(3) using owned_not_replaced [OF ok k q own] ok q'(2)
            by (intro spares_store_delete) (auto simp: rows_ok_def)
        qed
      next
        case False
        with rest same show ?thesis by simp
      qed
    qed
  qed
qed


section \<open>Properties\<close>

lemma spares_push_resource:
  assumes env: "cv_env cv = managed_env c a" and ok: "rows_ok (managed_env c a) db"
  shows "spares (managed_env c a) db (snd (push_resource fuel cv True i db))"
proof -
  have same: "spares (managed_env c a) db db" using ok by (simp add: spares_others)
  obtain act r where i: "i = (act, r)" by force
  show ?thesis
  proof (cases "oclass r = ''AciFault''")
    case True
    have d: "others db' = others db" if "aim_delete (cv_env cv) AciFault r False False db = Inr db'" for db'
      using others_delete_one that by (auto simp: aim_delete_def)
    show ?thesis
      using True ok same d others_set_fault_on
      by (cases act) (auto simp: i push_resource_def kept_def intro!: spares_others split: sum.split)
  next
    case False
    then show ?thesis
      using same spares_push_create [OF env ok] spares_push_delete [OF env ok]
      by (cases act) (auto simp: i push_resource_def kept_def split: sum.split)
  qed
qed

lemma spares_push_items:
  assumes env: "cv_env cv = managed_env c a"
  shows "rows_ok (managed_env c a) db \<Longrightarrow> spares (managed_env c a) db (push_items fuel cv True items db)"
proof (induction items arbitrary: db)
  case Nil
  then show ?case by (simp add: push_items_def spares_others)
next
  case (Cons i items)
  have s: "spares (managed_env c a) db (snd (push_resource fuel cv True i db))"
    by (rule spares_push_resource [OF env Cons.prems])
  then have "rows_ok (managed_env c a) (snd (push_resource fuel cv True i db))" by (simp add: spares_def)
  from spares_trans [OF s Cons.IH [OF this]] show ?case by (simp add: push_items_def)
qed

text \<open>C9. Whatever objects the monitored universe is told to create and delete, every row of the AIM database that
  belongs to a user (its \<open>monitored\<close> flag is false) is still there, unchanged, after \<open>push_resources\<close>: the
  ownership check of \<open>create\<close> and \<open>update\<close> and the check before a deletion leave no way around.\<close>

theorem monitored_push_spares_owned:
  assumes "cv_env cv = managed_env c a" and "rows_ok (managed_env c a) db"
    and "push_resources fuel cv True creates deletes db = Inr db'"
    and "cr \<in> set (tables db)" "owned cr"
  shows "cr \<in> set (tables db')"
proof -
  from assms(3) obtain os where
    "db' = push_items fuel cv True (map (Pair CREATE) os @ map (Pair DELETE) deletes) db"
    by (auto simp: push_resources_def)
  with spares_push_items [OF assms(1,2)] assms(4,5) show ?thesis by (simp add: spares_def)
qed

definition managed_cv :: conv_env where
  "managed_cv = toy_cv\<lparr>cv_env := managed_env sample_conf sample_api\<rparr>"

definition bd_row :: row where
  "bd_row = snd (tables sample_db ! 1)"

lemma bd_row: "(''BridgeDomain'', bd_row) \<in> set (tables sample_db)" "owned (''BridgeDomain'', bd_row)"
  by (simp_all add: sample_db_def bd_row_def owned_def status_names_def)

lemma sample_rows_ok: "rows_ok (managed_env c a) sample_db"
  by (simp add: rows_ok_def keyed_def clash_def others_def sample_db_def status_names_def dict_ok_def split: option.split)

lemma push_nothing_created: "push_resources 4 managed_cv True [] [sample_bd] sample_db
    = Inr (push_items 4 managed_cv True [(DELETE, sample_bd)] sample_db)"
  by (simp add: push_resources_def aci_to_aim_def squash_aim_def)

text \<open>The bridge domain survives its deletion by the monitored universe.\<close>

theorem monitored_push_spares_owned_witness:
  "(''BridgeDomain'', bd_row) \<in> set (tables (push_items 4 managed_cv True [(DELETE, sample_bd)] sample_db))"
  by (rule monitored_push_spares_owned [OF _ sample_rows_ok push_nothing_created bd_row]) (simp add: managed_cv_def)

end
