(* ===== verification/Reconcile.thy ===== *)
theory Reconcile
  imports Universe_Push
begin

text \<open>
  \<open>HashTreeStoredUniverse._reconcile\<close> (\<open>aim/agent/aid/universes/base_universe.py\<close>): one universe is made to
  follow another, root by root. What the classes of universes do differently is a record of operations
  (\<open>uni_ops\<close>), over a state of the world that they change.

  An action takes a state and yields a result, or an exception, and the state it leaves behind: an
  exception undoes nothing. The order in which the roots are visited, that of a Python set, is an
  argument.
\<close>

section \<open>Actions\<close>

type_synonym ('s, 'a) act = "'s \<Rightarrow> 'a result \<times> 's"

definition ret :: "'a \<Rightarrow> ('s, 'a) act" where
  "ret x s = (Inr x, s)"

definition lift_res :: "'a result \<Rightarrow> ('s, 'a) act" where
  "lift_res r s = (r, s)"

definition bind_act :: "('s, 'a) act \<Rightarrow> ('a \<Rightarrow> ('s, 'b) act) \<Rightarrow> ('s, 'b) act" where
  "bind_act m f s = (case m s of (Inl e, s') \<Rightarrow> (Inl e, s') | (Inr x, s') \<Rightarrow> f x s')"

definition modify :: "('s \<Rightarrow> 's) \<Rightarrow> ('s, unit) act" where
  "modify f s = (Inr (), f s)"

definition gets :: "('s \<Rightarrow> 'a) \<Rightarrow> ('s, 'a) act" where
  "gets f s = (Inr (f s), s)"

fun each :: "('a \<Rightarrow> ('s, unit) act) \<Rightarrow> 'a list \<Rightarrow> ('s, unit) act" where
  "each f [] = ret ()"
| "each f (x # xs) = bind_act (f x) (\<lambda>_. each f xs)"

lemma act_simps [simp]:
  "bind_act (ret x) f = f x" "bind_act (lift_res (Inr x)) f = f x" "bind_act (lift_res (Inl e)) f = lift_res (Inl e)"
  "bind_act m ret = m"
  by (simp_all add: fun_eq_iff bind_act_def ret_def lift_res_def split: prod.split sum.split)

lemma bind_act_assoc [simp]: "bind_act (bind_act m f) g = bind_act m (\<lambda>x. bind_act (f x) g)"
  by (simp add: fun_eq_iff bind_act_def split: prod.split sum.split)

text \<open>A relation between the state before and after, kept by every step.\<close>

definition keeps :: "('s \<Rightarrow> 's \<Rightarrow> bool) \<Rightarrow> ('s, 'a) act \<Rightarrow> bool" where
  "keeps R m \<longleftrightarrow> (\<forall>s. R s (snd (m s)))"

lemma keeps_bind:
  assumes "keeps R m" "\<And>x. keeps R (f x)" "transp R"
  shows "keeps R (bind_act m f)"
proof -
  have "R s (snd (bind_act m f s))" for s
  proof (cases "m s")
    case (Pair r s')
    then have "R s s'" using assms(1) unfolding keeps_def by (metis snd_conv)
    moreover have "R s' (snd (f x s'))" for x using assms(2) unfolding keeps_def by blast
    ultimately show ?thesis using Pair assms(3) by (cases r) (auto simp: bind_act_def dest: transpD)
  qed
  then show ?thesis by (simp add: keeps_def)
qed

lemma keeps_basic: "reflp R \<Longrightarrow> keeps R (ret x)" "reflp R \<Longrightarrow> keeps R (lift_res r)" "reflp R \<Longrightarrow> keeps R (gets f)"
  by (simp_all add: keeps_def ret_def lift_res_def gets_def reflp_def)

lemma keeps_modify: "(\<And>s. R s (f s)) \<Longrightarrow> keeps R (modify f)"
  by (simp add: keeps_def modify_def)

lemma keeps_each: "\<lbrakk>\<And>x. keeps R (f x); reflp R; transp R\<rbrakk> \<Longrightarrow> keeps R (each f xs)"
  by (induction xs) (auto intro: keeps_basic keeps_bind)

section \<open>The operations of a pair of universes\<close>

text \<open>
  \<open>'r\<close> is the type of the desired universe's resources, \<open>'d\<close> that of the current one's resources to delete.
  \<open>op_get\<close> also yields the keys with those it appended; \<open>op_nodes\<close> the keys of the nodes of an AIM object.
\<close>

record ('w, 'r, 'd) uni_ops =
  op_get :: "key list \<Rightarrow> ('r list \<times> key list) result"
  op_delete :: "key list \<Rightarrow> 'd list result"
  op_to_aim :: "'r list \<Rightarrow> 'd list \<Rightarrow> (obj list \<times> obj list) result"
  op_root :: "obj \<Rightarrow> string result"
  op_nodes :: "obj \<Rightarrow> key list result"
  op_reset :: "string \<Rightarrow> ('w, unit) act"
  op_failed :: "sync_action \<Rightarrow> obj \<Rightarrow> ('w, unit) act"
  op_update_current :: "tree \<Rightarrow> key list \<times> key list \<Rightarrow> key list \<Rightarrow> ('w, unit) act"
  op_update_desired :: "tree \<Rightarrow> key list \<times> key list \<Rightarrow> key list \<Rightarrow> ('w, unit) act"
  op_push :: "'r list \<Rightarrow> 'd list \<Rightarrow> ('w, unit) act"

text \<open>What a universe remembers, the votes on deletions and the world.\<close>

record 'w recon =
  world :: 'w
  deleting_roots :: "(string, nat) dict"
  candidates :: "string set"
  retry_log :: sync_log

definition on_world :: "('w, 'a) act \<Rightarrow> ('w recon, 'a) act" where
  "on_world m s = (let (r, w) = m (world s) in (r, s\<lparr>world := w\<rparr>))"

text \<open>Clock and random numbers of the tracking.\<close>

record timing =
  tm_conf :: track_conf
  tm_rnd :: "obj \<Rightarrow> rat"
  tm_now :: rat

section \<open>One root\<close>

definition tenant_trees :: "ustate \<Rightarrow> ustate \<Rightarrow> string \<Rightarrow> (tree \<times> tree) result" where
  "tenant_trees current desired t =
     (case (dict_get desired t, dict_get current t) of
        (Some (Some d), Some (Some c)) \<Rightarrow> Inr (d, c)
      | (None, _) \<Rightarrow> Inl KeyError
      | _ \<Rightarrow> Inl AttributeError)"

definition start_count :: "string \<Rightarrow> 'w recon \<Rightarrow> 'w recon" where
  "start_count t s = (if t \<in> candidates s
     then s\<lparr>deleting_roots := dict_set t (dict_getd (deleting_roots s) t 0) (deleting_roots s)\<rparr> else s)"

definition count_cycle :: "string \<Rightarrow> bool \<Rightarrow> 'w recon \<Rightarrow> 'w recon" where
  "count_cycle t idle s = (if t \<in> candidates s
     then s\<lparr>deleting_roots := dict_set t (if idle then dict_getd (deleting_roots s) t 0 + 1 else 0) (deleting_roots s)\<rparr>
     else s)"

definition wait_for_deletion :: "string \<Rightarrow> 'w recon \<Rightarrow> 'w recon" where
  "wait_for_deletion t s = (if t \<in> candidates s \<and> dict_getd (deleting_roots s) t 0 \<le> 3
     then s\<lparr>candidates := candidates s - {t}\<rparr> else s)"

definition track_actions :: "timing \<Rightarrow> ('w, 'r, 'd) uni_ops \<Rightarrow> 'r list \<Rightarrow> 'd list \<Rightarrow> string \<Rightarrow> ('w recon, tracking) act" where
  "track_actions tm ops creates dels t s =
     (case bind_res (op_to_aim ops creates dels) (\<lambda>actions.
        track_universe_actions (tm_conf tm) (tm_rnd tm) (tm_now tm) (op_root ops) actions t (retry_log s)) of
        Inl e \<Rightarrow> (Inl e, s\<lparr>retry_log := dict_set t (dict_getd (retry_log s) t empty_log) (retry_log s)\<rparr>)
      | Inr (st, sl) \<Rightarrow> (Inr st, s\<lparr>retry_log := sl\<rparr>))"

text \<open>What is left of the differences without the nodes of the skipped objects, and those nodes.\<close>

definition skipped_keys :: "('w, 'r, 'd) uni_ops \<Rightarrow> (sync_action \<times> obj) list \<Rightarrow> (sync_action \<times> key) list result" where
  "skipped_keys ops skips = bind_res (traverse_res (\<lambda>(a, r). bind_res (op_nodes ops r) (\<lambda>ks. Inr (map (Pair a) ks))) skips)
     (\<lambda>kss. Inr (concat kss))"

definition without :: "(sync_action \<times> key) list \<Rightarrow> sync_action \<Rightarrow> key list \<Rightarrow> key list" where
  "without gone a ks = remdups (filter (\<lambda>k. (a, k) \<notin> set gone) ks)"

definition rebuild ::
  "('w, 'r, 'd) uni_ops \<Rightarrow> (sync_action \<times> obj) list \<Rightarrow> key list \<Rightarrow> key list \<Rightarrow> 'r list \<Rightarrow> 'd list \<Rightarrow>
    ('r list \<times> 'd list \<times> (key list \<times> key list) \<times> key list) result" where
  "rebuild ops skips adds rems creates dels =
     (if skips = [] then Inr (creates, dels, (adds, rems), [])
      else bind_res (skipped_keys ops skips) (\<lambda>gone.
           bind_res (op_get ops (without gone CREATE adds)) (\<lambda>(creates', adds').
           bind_res (op_delete ops (without gone DELETE rems)) (\<lambda>dels'.
             Inr (creates', dels', (adds', without gone DELETE rems), remdups (map snd gone))))))"

definition reconcile_tenant ::
  "timing \<Rightarrow> ('w, 'r, 'd) uni_ops \<Rightarrow> ustate \<Rightarrow> ustate \<Rightarrow> string \<Rightarrow> ('w recon, bool) act" where
  "reconcile_tenant tm ops current desired t =
     bind_act (lift_res (tenant_trees current desired t)) (\<lambda>(dt, ct).
     let adds = to_add (tree_diff dt ct); rems = to_remove (tree_diff dt ct); changed = (adds \<noteq> [] \<or> rems \<noteq> []) in
     bind_act (modify (start_count t)) (\<lambda>_.
     bind_act (lift_res (op_get ops adds)) (\<lambda>(creates, adds').
     bind_act (lift_res (op_delete ops rems)) (\<lambda>dels.
     bind_act (modify (count_cycle t (creates = [] \<and> dels = [] \<and> tree.root ct = None \<and> tree.root dt = None))) (\<lambda>_.
     bind_act (track_actions tm ops creates dels t) (\<lambda>tr.
     if tr_reset tr then bind_act (on_world (op_reset ops t)) (\<lambda>_. ret changed)
     else
       bind_act (each (\<lambda>(a, r). on_world (op_failed ops a r)) (tr_fail tr)) (\<lambda>_.
       bind_act (lift_res (rebuild ops (tr_skip tr @ tr_fail tr) adds' rems creates dels)) (\<lambda>(creates', dels', diff, skipset).
       bind_act (on_world (op_update_current ops ct diff skipset)) (\<lambda>_.
       bind_act (on_world (op_update_desired ops dt diff skipset)) (\<lambda>_.
       bind_act (on_world (op_push ops creates' dels')) (\<lambda>_.
       bind_act (modify (wait_for_deletion t)) (\<lambda>_. ret changed))))))))))))"

section \<open>All roots\<close>

text \<open>An exception is logged, and the multiverse does not count as synced.\<close>

fun reconcile_roots ::
  "timing \<Rightarrow> ('w, 'r, 'd) uni_ops \<Rightarrow> ustate \<Rightarrow> ustate \<Rightarrow> string list \<Rightarrow> 'w recon \<Rightarrow> bool \<times> 'w recon" where
  "reconcile_roots tm ops current desired [] s = (False, s)"
| "reconcile_roots tm ops current desired (t # ts) s =
     (let (r, s1) = reconcile_tenant tm ops current desired t s;
          (diff, s2) = reconcile_roots tm ops current desired ts s1
      in ((case r of Inl _ \<Rightarrow> True | Inr changed \<Rightarrow> changed) \<or> diff, s2))"

text \<open>\<open>set(my_state.keys()) & set(other_state.keys())\<close>, and the masking of the desired state, in which a root
  about to be deleted is empty.\<close>

definition common_roots :: "ustate \<Rightarrow> ustate \<Rightarrow> string set" where
  "common_roots current desired = set (dict_keys current) \<inter> set (dict_keys desired)"

definition mask_tenant_state :: "string set \<Rightarrow> ustate \<Rightarrow> ustate" where
  "mask_tenant_state cands st = map (\<lambda>(t, x). (t, if t \<in> cands then Some empty_tree else x)) st"

end
