(* ===== verification/Service_Cycle.thy ===== *)
theory Service_Cycle
  imports Reconcile
begin

text \<open>
  One reconciliation cycle of an agent (\<open>AID._reconciliation_cycle\<close> of \<open>aim/agent/aid/service.py\<close>) after the
  universes have observed their states: the votes on roots to delete, the three reconciliations, the
  final word of the universes and the cleanup of the roots that are left
  (\<open>vote_deletion_candidates\<close>, \<open>finalize_deletion_candidates\<close>, \<open>cleanup_state\<close> of
  \<open>aim/agent/aid/universes/base_universe.py\<close> and \<open>aim_universe.py\<close>).

  The order of a set is the argument \<open>ord\<close>.
\<close>

text \<open>The states of the six universes: the configuration (AIM desired, ACI current), the operational and the
  monitored state (ACI desired, AIM current).\<close>

record multiverse =
  conf_desired :: ustate
  conf_current :: ustate
  oper_desired :: ustate
  oper_current :: ustate
  mon_desired :: ustate
  mon_current :: ustate

text \<open>What the three current universes remember.\<close>

record memory =
  m_deleting :: "(string, nat) dict"
  m_log :: sync_log

record 'w service =
  sv_world :: 'w
  sv_conf :: memory
  sv_oper :: memory
  sv_mon :: memory

section \<open>Votes\<close>

text \<open>The configuration decides: an empty desired tree is a candidate.\<close>

fun vote_empty :: "(string \<times> tree option) list \<Rightarrow> string set \<Rightarrow> string set \<Rightarrow> string set result" where
  "vote_empty [] vetoes cands = Inr cands"
| "vote_empty ((t, None) # st) vetoes cands = Inl AttributeError"
| "vote_empty ((t, Some x) # st) vetoes cands =
     vote_empty st vetoes (if tree.root x = None \<and> t \<notin> vetoes then insert t cands else cands)"

text \<open>A monitored root that is more than a placeholder is a veto.\<close>

fun vote_monitored :: "(string \<times> tree option) list \<Rightarrow> string set \<Rightarrow> string set \<Rightarrow> (string set \<times> string set) result" where
  "vote_monitored [] vetoes cands = Inr (cands, vetoes)"
| "vote_monitored ((t, None) # st) vetoes cands = Inl AttributeError"
| "vote_monitored ((t, Some x) # st) vetoes cands =
     (case tree.root x of
        None \<Rightarrow> vote_monitored st vetoes cands
      | Some n \<Rightarrow> if dummy (slots n) then vote_monitored st vetoes cands
                  else vote_monitored st (insert t vetoes) (cands - {t}))"

definition vote_deletion_candidates :: "multiverse \<Rightarrow> (string set \<times> string set) result" where
  "vote_deletion_candidates mv =
     bind_res (vote_empty (conf_desired mv) {} {}) (\<lambda>cands. vote_monitored (mon_current mv) {} cands)"

section \<open>The final word\<close>

definition unobserved :: "ustate \<Rightarrow> string set \<Rightarrow> bool" where
  "unobserved st cands \<longleftrightarrow> (\<exists>t \<in> cands. dict_get st t = Some None)"

definition is_empty_root :: "tree option option \<Rightarrow> bool" where
  "is_empty_root x \<longleftrightarrow> (case x of Some (Some t) \<Rightarrow> tree.root t = None | _ \<Rightarrow> False)"

definition finalize_config :: "ustate \<Rightarrow> string set \<Rightarrow> string set result" where
  "finalize_config other cands =
     (if unobserved other cands then Inl AttributeError else Inr (Set.filter (\<lambda>t. is_empty_root (dict_get other t)) cands))"

definition finalize_aim :: "ustate \<Rightarrow> string set \<Rightarrow> string set result" where
  "finalize_aim my cands =
     (if unobserved my cands then Inl AttributeError
      else Inr (Set.filter (\<lambda>t. dict_get my t = None \<or> is_empty_root (dict_get my t)) cands))"

definition pop_up_sync_log :: "string set \<Rightarrow> memory \<Rightarrow> memory" where
  "pop_up_sync_log cands m = m\<lparr>m_log := filter (\<lambda>(t, _). t \<notin> cands) (m_log m)\<rparr>"

definition finalize :: "multiverse \<Rightarrow> string set \<Rightarrow> ('w service, string set) act" where
  "finalize mv cands =
     bind_act (lift_res (finalize_config (conf_current mv) cands)) (\<lambda>c1.
     bind_act (modify (\<lambda>s. s\<lparr>sv_conf := pop_up_sync_log c1 (sv_conf s), sv_oper := pop_up_sync_log c1 (sv_oper s)\<rparr>)) (\<lambda>_.
     bind_act (lift_res (finalize_aim (oper_current mv) c1)) (\<lambda>c2.
     bind_act (modify (\<lambda>s. s\<lparr>sv_mon := pop_up_sync_log c2 (sv_mon s)\<rparr>)) (\<lambda>_.
     lift_res (finalize_aim (mon_current mv) c2)))))"

section \<open>Cleanup\<close>

definition forget_root :: "string \<Rightarrow> memory \<Rightarrow> memory" where
  "forget_root t m = m\<lparr>m_deleting := dict_del t (m_deleting m)\<rparr>"

definition in_world :: "('w, 'a) act \<Rightarrow> ('w service, 'a) act" where
  "in_world m s = (let (r, w) = m (sv_world s) in (r, s\<lparr>sv_world := w\<rparr>))"

text \<open>\<open>cleanup\<close> is the deletion of the trees of the root, if they are empty; each of the AIM universes does it.\<close>

definition cleanup_state :: "(string \<Rightarrow> ('w, unit) act) \<Rightarrow> string \<Rightarrow> ('w service, unit) act" where
  "cleanup_state cleanup t =
     bind_act (in_world (cleanup t)) (\<lambda>_.
     bind_act (modify (\<lambda>s. s\<lparr>sv_conf := forget_root t (sv_conf s)\<rparr>)) (\<lambda>_.
     bind_act (in_world (cleanup t)) (\<lambda>_.
     bind_act (modify (\<lambda>s. s\<lparr>sv_oper := forget_root t (sv_oper s)\<rparr>)) (\<lambda>_.
     bind_act (in_world (cleanup t)) (\<lambda>_.
     modify (\<lambda>s. s\<lparr>sv_mon := forget_root t (sv_mon s)\<rparr>))))))"

section \<open>The cycle\<close>

text \<open>The operations of a pair depend on the states all universes show.\<close>

record ('w, 'a) pairs =
  conf_ops :: "multiverse \<Rightarrow> ('w, obj, 'a) uni_ops"
  oper_ops :: "multiverse \<Rightarrow> ('w, 'a, obj) uni_ops"
  mon_ops :: "multiverse \<Rightarrow> ('w, 'a, obj) uni_ops"
  cleanup_op :: "string \<Rightarrow> ('w, unit) act"

definition reconcile_pair ::
  "timing \<Rightarrow> (string set \<Rightarrow> string list) \<Rightarrow> ('w, 'r, 'd) uni_ops \<Rightarrow> ustate \<Rightarrow> ustate \<Rightarrow> string set \<Rightarrow> memory \<Rightarrow> 'w \<Rightarrow>
    bool \<times> string set \<times> memory \<times> 'w" where
  "reconcile_pair tm ord ops current desired cands m w =
     (let (diff, s) = reconcile_roots tm ops current desired (ord (common_roots current desired))
            \<lparr>world = w, deleting_roots = m_deleting m, candidates = cands, retry_log = m_log m\<rparr>
      in (diff, candidates s, \<lparr>m_deleting = deleting_roots s, m_log = retry_log s\<rparr>, world s))"

definition reconcile_all ::
  "timing \<Rightarrow> (string set \<Rightarrow> string list) \<Rightarrow> ('w, 'a) pairs \<Rightarrow> multiverse \<Rightarrow> string set \<Rightarrow> 'w service \<Rightarrow>
    bool \<times> string set \<times> 'w service" where
  "reconcile_all tm ord ps mv cands s =
     (let (d0, c0, m0, w0) = reconcile_pair tm ord (conf_ops ps mv) (conf_current mv) (conf_desired mv) cands (sv_conf s) (sv_world s);
          mv1 = mv\<lparr>oper_desired := mask_tenant_state c0 (oper_desired mv)\<rparr>;
          (d1, c1, m1, w1) = reconcile_pair tm ord (oper_ops ps mv1) (oper_current mv1) (oper_desired mv1) c0 (sv_oper s) w0;
          mv2 = mv1\<lparr>mon_desired := mask_tenant_state c1 (mon_desired mv1)\<rparr>;
          (d2, c2, m2, w2) = reconcile_pair tm ord (mon_ops ps mv2) (mon_current mv2) (mon_desired mv2) c1 (sv_mon s) w1
      in (d0 \<or> d1 \<or> d2, c2, \<lparr>sv_world = w2, sv_conf = m0, sv_oper = m1, sv_mon = m2\<rparr>))"

text \<open>The roots all universes agree to delete, and whether anything differed. The votes look at the states as they
  were observed.\<close>

definition agree_on_deletions ::
  "timing \<Rightarrow> (string set \<Rightarrow> string list) \<Rightarrow> ('w, 'a) pairs \<Rightarrow> multiverse \<Rightarrow> ('w service, bool \<times> string set) act" where
  "agree_on_deletions tm ord ps mv s =
     (case vote_deletion_candidates mv of
        Inl e \<Rightarrow> (Inl e, s)
      | Inr (cands, _) \<Rightarrow>
          (let (changes, c, s') = reconcile_all tm ord ps mv cands s in
           bind_act (finalize mv c) (\<lambda>final. ret (changes, final)) s'))"

definition reconciliation_cycle ::
  "timing \<Rightarrow> (string set \<Rightarrow> string list) \<Rightarrow> ('w, 'a) pairs \<Rightarrow> multiverse \<Rightarrow> ('w service, bool \<times> string set) act" where
  "reconciliation_cycle tm ord ps mv =
     bind_act (agree_on_deletions tm ord ps mv) (\<lambda>(changes, final).
     bind_act (each (cleanup_state (cleanup_op ps)) (ord final)) (\<lambda>_. ret (changes, final)))"

end
