(* ===== verification/Service_Cycle_Props.thy ===== *)
theory Service_Cycle_Props
  imports Service_Cycle
begin

text \<open>
  What a reconciliation cycle guarantees about the deletion of roots: only roots that are empty everywhere
  are cleaned up, and an empty root waits for its turn in each of the three pairs of universes.
\<close>

section \<open>What reconciling other roots leaves alone\<close>

definition frame :: "string set \<Rightarrow> 'w recon \<Rightarrow> 'w recon \<Rightarrow> bool" where
  "frame T s s' \<longleftrightarrow> candidates s' \<subseteq> candidates s \<and>
     (\<forall>t. t \<notin> T \<longrightarrow> (t \<in> candidates s' \<longleftrightarrow> t \<in> candidates s) \<and> dict_get (deleting_roots s') t = dict_get (deleting_roots s) t)"

lemma frameD: "\<lbrakk>frame T s s'; t \<notin> T\<rbrakk> \<Longrightarrow>
    (t \<in> candidates s' \<longleftrightarrow> t \<in> candidates s) \<and> dict_get (deleting_roots s') t = dict_get (deleting_roots s) t"
  by (simp add: frame_def)

lemma frame_refl: "reflp (frame T)"
  by (simp add: frame_def reflp_def)

lemma frame_trans: "transp (frame T)"
  unfolding frame_def by (rule transpI) auto

lemmas frame_bind = keeps_bind [OF _ _ frame_trans]

lemma frame_world: "keeps (frame T) (on_world m)"
  by (simp add: keeps_def on_world_def frame_def split: prod.split)

lemma frame_track: "keeps (frame T) (track_actions tm ops creates dels t)"
  by (auto simp: keeps_def track_actions_def frame_def split: sum.split)

lemma frame_parts:
  "keeps (frame {t}) (modify (start_count t))" "keeps (frame {t}) (modify (count_cycle t b))"
  "keeps (frame {t}) (modify (wait_for_deletion t))"
  by (auto simp: keeps_def modify_def frame_def start_count_def count_cycle_def wait_for_deletion_def dict_simps)

lemmas frame_rules = frame_bind frame_world frame_track frame_parts
  keeps_basic(1) [OF frame_refl] keeps_basic(2) [OF frame_refl] keeps_each [OF _ frame_refl frame_trans]

lemma frame_tenant: "keeps (frame {t}) (reconcile_tenant tm ops current desired t)"
  unfolding reconcile_tenant_def Let_def by (intro frame_rules | (split prod.split, intro allI impI) | (split if_split, intro conjI impI))+

lemma frame_step: "frame {t} s (snd (reconcile_tenant tm ops current desired t s))"
  using frame_tenant unfolding keeps_def by blast

lemma frame_mono: "frame T s s' \<Longrightarrow> T \<subseteq> T' \<Longrightarrow> frame T' s s'"
  by (auto simp: frame_def)

lemma frame_roots: "frame (set ts) s (snd (reconcile_roots tm ops current desired ts s))"
proof (induction ts arbitrary: s)
  case Nil
  then show ?case by (simp add: frame_def)
next
  case (Cons t ts)
  obtain r s1 where 1: "reconcile_tenant tm ops current desired t s = (r, s1)" by force
  have "frame (set (t # ts)) s s1" using frame_step [of t s tm ops current desired] 1 frame_mono [of "{t}" s s1 "set (t # ts)"] by simp
  moreover have "frame (set (t # ts)) s1 (snd (reconcile_roots tm ops current desired ts s1))"
    using Cons frame_mono by (metis set_subset_Cons)
  ultimately show ?case using 1 transpD [OF frame_trans] by (fastforce simp: split_beta)
qed

section \<open>Only empty roots are cleaned up\<close>

lemma vote_empty_result:
  "vote_empty st vetoes cands = Inr c \<Longrightarrow> dict_ok st \<Longrightarrow> t \<in> c \<Longrightarrow>
    t \<in> cands \<or> (is_empty_root (dict_get st t) \<and> t \<notin> vetoes)"
proof (induction st vetoes cands arbitrary: c rule: vote_empty.induct)
  case (3 t' x st vetoes cands)
  have ok: "dict_ok st" "t' \<notin> fst ` set st" using 3(3) by (auto simp: dict_ok_def)
  from 3(1) [of c] 3(2) ok(1) 3(4) have
    "t \<in> (if tree.root x = None \<and> t' \<notin> vetoes then insert t' cands else cands) \<or>
     (is_empty_root (dict_get st t) \<and> t \<notin> vetoes)" by simp
  moreover have "t \<noteq> t'" if "is_empty_root (dict_get st t)"
    using that ok(2) by (force simp: is_empty_root_def split: option.split_asm dest!: map_of_SomeD)
  ultimately show ?case by (auto simp: is_empty_root_def split: if_split_asm)
qed auto

lemma vote_monitored_subset: "vote_monitored st vetoes cands = Inr (c, v) \<Longrightarrow> c \<subseteq> cands"
  by (induction st vetoes cands rule: vote_monitored.induct) (auto split: option.split_asm if_split_asm)

lemma finalize_result:
  assumes "finalize mv cands s = (Inr c, s')" "t \<in> c"
  shows "t \<in> cands" "is_empty_root (dict_get (conf_current mv) t)"
    "dict_get (oper_current mv) t = None \<or> is_empty_root (dict_get (oper_current mv) t)"
    "dict_get (mon_current mv) t = None \<or> is_empty_root (dict_get (mon_current mv) t)"
proof -
  from assms(1) obtain c1 c2 where c: "finalize_config (conf_current mv) cands = Inr c1"
    "finalize_aim (oper_current mv) c1 = Inr c2" "finalize_aim (mon_current mv) c2 = Inr c"
    by (auto simp: finalize_def bind_act_def lift_res_def modify_def split: prod.split_asm sum.split_asm)
  with assms(2) show "t \<in> cands" "is_empty_root (dict_get (conf_current mv) t)"
    "dict_get (oper_current mv) t = None \<or> is_empty_root (dict_get (oper_current mv) t)"
    "dict_get (mon_current mv) t = None \<or> is_empty_root (dict_get (mon_current mv) t)"
    by (auto simp: finalize_config_def finalize_aim_def split: if_split_asm)
qed

lemma reconcile_pair_subset: "reconcile_pair tm ord ops current desired cands m w = (d, c, m', w') \<Longrightarrow> c \<subseteq> cands"
  using frame_roots [of "ord (common_roots current desired)"
      "\<lparr>world = w, deleting_roots = m_deleting m, candidates = cands, retry_log = m_log m\<rparr>" tm ops current desired]
  by (auto simp: reconcile_pair_def frame_def split_beta Let_def)

lemma reconcile_all_subset: "reconcile_all tm ord ps mv cands s = (d, c, s') \<Longrightarrow> c \<subseteq> cands"
  unfolding reconcile_all_def Let_def
  by (auto split: prod.split_asm dest!: reconcile_pair_subset)

lemma agree_result:
  assumes "agree_on_deletions tm ord ps mv s = (Inr (changes, final), s')"
  obtains cands vetoes c s1 where "vote_deletion_candidates mv = Inr (cands, vetoes)"
    "reconcile_all tm ord ps mv cands s = (changes, c, s1)" "finalize mv c s1 = (Inr final, s')"
  using assms
  by (fastforce simp: agree_on_deletions_def bind_act_def ret_def split: sum.split_asm prod.split_asm)

lemma cycle_agrees:
  "reconciliation_cycle tm ord ps mv s = (Inr z, s') \<Longrightarrow> \<exists>s1. agree_on_deletions tm ord ps mv s = (Inr z, s1)"
  by (auto simp: reconciliation_cycle_def bind_act_def ret_def split: prod.split_asm sum.split_asm)



section \<open>The wait of an empty root\<close>

text \<open>Universes that have nothing to do when there is nothing to do.\<close>

locale idle_pair =
  fixes ops :: "('w, 'r, 'd) uni_ops"
  assumes get_none: "op_get ops [] = Inr ([], [])"
    and delete_none: "op_delete ops [] = Inr []"
    and to_aim_none: "op_to_aim ops [] [] = Inr ([], [])"
    and update_current_none: "tree.root c = None \<Longrightarrow> op_update_current ops c ([], []) [] w = (Inr (), w)"
    and update_desired_none: "tree.root c = None \<Longrightarrow> op_update_desired ops c ([], []) [] w = (Inr (), w)"
    and push_none: "op_push ops [] [] w = (Inr (), w)"
begin

lemma on_world_id: "(\<And>w. m w = (Inr (), w)) \<Longrightarrow> on_world m s = (Inr (), s)"
  by (simp add: on_world_def)

lemma track_none: "track_actions tm ops [] [] t s = (Inr no_tracking, s\<lparr>retry_log := dict_set t empty_log (retry_log s)\<rparr>)"
  by (simp add: track_actions_def to_aim_none track_universe_actions_def cycle_items_def no_tracking_def)

lemma reconcile_empty:
  assumes "tenant_trees current desired t = Inr (d, c)" "tree.root d = None" "tree.root c = None"
  shows "reconcile_tenant tm ops current desired t s = (Inr False, wait_for_deletion t
    ((count_cycle t True (start_count t s))\<lparr>retry_log := dict_set t empty_log (retry_log s)\<rparr>))"
proof -
  have diff: "tree_diff d c = \<lparr>to_add = [], to_remove = []\<rparr>"
    using assms(2,3) by (simp add: tree_diff_def subtree_keys_opt_def)
  have log: "retry_log (count_cycle t True (start_count t s)) = retry_log s" by (simp add: count_cycle_def start_count_def)
  show ?thesis
    using assms update_current_none [of c] update_desired_none [of d]
    by (simp add: reconcile_tenant_def Let_def diff get_none delete_none bind_act_def modify_def lift_res_def track_none
        no_tracking_def rebuild_def on_world_id push_none ret_def log)
qed

lemma reconcile_empty_counts:
  fixes s :: "'w recon" and tm :: timing
  assumes "tenant_trees current desired t = Inr (d, c)" "tree.root d = None" "tree.root c = None"
  defines "s' \<equiv> snd (reconcile_tenant tm ops current desired t s)"
  shows "t \<in> candidates s' \<longleftrightarrow> t \<in> candidates s \<and> 3 \<le> dict_getd (deleting_roots s) t 0"
    and "dict_getd (deleting_roots s') t 0 = (if t \<in> candidates s then Suc (dict_getd (deleting_roots s) t 0)
      else dict_getd (deleting_roots s) t 0)"
  unfolding s'_def reconcile_empty [OF assms(1-3)]
  by (auto simp: wait_for_deletion_def count_cycle_def start_count_def dict_getd_def dict_simps)

lemma reconcile_roots_empty:
  fixes s :: "'w recon" and tm :: timing
  assumes "tenant_trees current desired t = Inr (d, c)" "tree.root d = None" "tree.root c = None"
    and "t \<in> set ts" "distinct ts"
  defines "s' \<equiv> snd (reconcile_roots tm ops current desired ts s)"
  shows "(t \<in> candidates s' \<longleftrightarrow> t \<in> candidates s \<and> 3 \<le> dict_getd (deleting_roots s) t 0) \<and>
    dict_getd (deleting_roots s') t 0 = (if t \<in> candidates s then Suc (dict_getd (deleting_roots s) t 0)
      else dict_getd (deleting_roots s) t 0)"
  using assms(4,5) unfolding s'_def
proof (induction ts arbitrary: s)
  case (Cons x ts)
  define s1 where "s1 = snd (reconcile_tenant tm ops current desired x s)"
  define s2 where "s2 = snd (reconcile_roots tm ops current desired ts s1)"
  have e: "snd (reconcile_roots tm ops current desired (x # ts) s) = s2"
    by (simp add: s1_def s2_def split_beta)
  show ?case
  proof (cases "x = t")
    case True
    then have "t \<notin> set ts" using Cons.prems by simp
    then have f: "(t \<in> candidates s2 \<longleftrightarrow> t \<in> candidates s1) \<and> dict_get (deleting_roots s2) t = dict_get (deleting_roots s1) t"
      unfolding s2_def by (rule frameD [OF frame_roots])
    then have g: "dict_getd (deleting_roots s2) t 0 = dict_getd (deleting_roots s1) t 0" by (simp add: dict_getd_def)
    show ?thesis
      unfolding e g using f reconcile_empty_counts [OF assms(1-3), of tm s] True unfolding s1_def by simp
  next
    case False
    then have f: "(t \<in> candidates s1 \<longleftrightarrow> t \<in> candidates s) \<and> dict_get (deleting_roots s1) t = dict_get (deleting_roots s) t"
      unfolding s1_def by (intro frameD [OF frame_step]) simp
    then have g: "dict_getd (deleting_roots s1) t 0 = dict_getd (deleting_roots s) t 0" by (simp add: dict_getd_def)
    have "(t \<in> candidates s2 \<longleftrightarrow> t \<in> candidates s1 \<and> 3 \<le> dict_getd (deleting_roots s1) t 0) \<and>
        dict_getd (deleting_roots s2) t 0 = (if t \<in> candidates s1 then Suc (dict_getd (deleting_roots s1) t 0)
          else dict_getd (deleting_roots s1) t 0)"
      unfolding s2_def by (rule Cons.IH) (use Cons.prems False in auto)
    then show ?thesis unfolding e using f unfolding g by simp
  qed
qed simp

lemma reconcile_pair_empty:
  assumes "is_empty_root (dict_get current t)" "is_empty_root (dict_get desired t)"
    and ord: "\<And>S. finite S \<Longrightarrow> set (ord S) = S \<and> distinct (ord S)"
    and r: "reconcile_pair tm ord ops current desired cands m w = (d, c, m', w')"
  shows "(t \<in> c \<longleftrightarrow> t \<in> cands \<and> 3 \<le> dict_getd (m_deleting m) t 0) \<and>
    dict_getd (m_deleting m') t 0 = (if t \<in> cands then Suc (dict_getd (m_deleting m) t 0) else dict_getd (m_deleting m) t 0)"
proof -
  obtain x y where xy: "tenant_trees current desired t = Inr (y, x)" "tree.root y = None" "tree.root x = None"
    using assms(1,2) by (auto simp: is_empty_root_def tenant_trees_def split: option.split_asm)
  have "t \<in> common_roots current desired"
    using assms(1,2) by (force simp: is_empty_root_def common_roots_def dict_keys_def split: option.split_asm dest!: map_of_SomeD)
  moreover have "finite (common_roots current desired)" by (simp add: common_roots_def)
  ultimately have ts: "t \<in> set (ord (common_roots current desired))" "distinct (ord (common_roots current desired))"
    using ord by auto
  from reconcile_roots_empty [OF xy ts, of tm "\<lparr>world = w, deleting_roots = m_deleting m, candidates = cands, retry_log = m_log m\<rparr>"]
  show ?thesis using r by (auto simp: reconcile_pair_def split_beta Let_def)
qed

end

end
