(* ===== verification/Aci_Universe.thy ===== *)
theory Aci_Universe
  imports Universe_Push
begin

text \<open>
  \<open>AciUniverse\<close> (\<open>aim/agent/aid/universes/aci/aci_universe.py\<close>): the managers of the roots an agent serves,
  what they accumulate from ACI, and how the objects to push are handed to them, up to the backlog of a
  manager (\<open>AciTenantManager.push_aim_resources\<close>, \<open>aim/agent/aid/universes/aci/tenant.py\<close>).

  Building a manager contacts ACI, so it may fail; whether a thread is dead is up to the scheduler. Both
  are arguments. The dictionary of the served managers is global and shared by the three ACI universes.
\<close>

text \<open>An ACI object: its type and its attributes. A request of the backlog, by operation.\<close>

type_synonym aci = "string \<times> kwargs"

record request =
  rq_create :: "obj list"
  rq_delete :: "aci list"

record manager =
  mg_warm :: bool
  mg_stop :: bool
  mg_state :: tree
  mg_oper :: tree
  mg_mon :: tree
  mg_backlog :: "request list"

type_synonym managers = "(string, manager) dict"

section \<open>The backlog of a manager\<close>

text \<open>One request of the backlog against the new objects: an object with the same name is replaced by the new one,
  which is not queued again.\<close>

fun squash_req :: "('a \<Rightarrow> string result) \<Rightarrow> 'a \<Rightarrow> 'a list \<Rightarrow> ('a \<times> 'a list) result" where
  "squash_req dnf req [] = Inr (req, [])"
| "squash_req dnf req (new # news) =
     bind_res (dnf req) (\<lambda>d. bind_res (dnf new) (\<lambda>d'.
       if d = d' then Inr (new, news)
       else bind_res (squash_req dnf req news) (\<lambda>(r, ns). Inr (r, new # ns))))"

fun squash_reqs :: "('a \<Rightarrow> string result) \<Rightarrow> 'a list \<Rightarrow> 'a list \<Rightarrow> ('a list \<times> 'a list) result" where
  "squash_reqs dnf [] news = Inr ([], news)"
| "squash_reqs dnf (req # reqs) news =
     bind_res (squash_req dnf req news) (\<lambda>(r, news').
     bind_res (squash_reqs dnf reqs news') (\<lambda>(rs, news''). Inr (r # rs, news'')))"

definition aci_dn :: "aci \<Rightarrow> string result" where
  "aci_dn a = bind_res (getitem (snd a) ''dn'') (\<lambda>v. Inr (py_str v))"

definition squash_request :: "(obj \<Rightarrow> string result) \<Rightarrow> request \<Rightarrow> request \<Rightarrow> (request \<times> request) result" where
  "squash_request dnf old new =
     bind_res (squash_reqs dnf (rq_create old) (rq_create new)) (\<lambda>(c, c').
     bind_res (squash_reqs aci_dn (rq_delete old) (rq_delete new)) (\<lambda>(d, d').
       Inr (\<lparr>rq_create = c, rq_delete = d\<rparr>, \<lparr>rq_create = c', rq_delete = d'\<rparr>)))"

definition is_request :: "request \<Rightarrow> bool" where
  "is_request r \<longleftrightarrow> rq_create r \<noteq> [] \<or> rq_delete r \<noteq> []"

text \<open>The loop takes the requests out of the queue: after an exception those taken out are lost.\<close>

fun squash_backlog :: "(obj \<Rightarrow> string result) \<Rightarrow> request list \<Rightarrow> request \<Rightarrow> (exc \<times> request list) + (request list \<times> request)" where
  "squash_backlog dnf [] new = Inr ([], new)"
| "squash_backlog dnf (q # qs) new =
     (case squash_request dnf q new of
        Inl e \<Rightarrow> Inl (e, qs)
      | Inr (q', new') \<Rightarrow>
          (case squash_backlog dnf qs new' of Inl x \<Rightarrow> Inl x | Inr (qs', rest) \<Rightarrow> Inr (q' # qs', rest)))"

text \<open>\<open>locked\<close>: the lock is held by the manager's thread and nothing is pushed.\<close>

definition push_aim_resources :: "(obj \<Rightarrow> string result) \<Rightarrow> bool \<Rightarrow> request \<Rightarrow> manager \<Rightarrow> exc option \<times> manager" where
  "push_aim_resources dnf locked new m =
     (if locked then (None, m)
      else case squash_backlog dnf (mg_backlog m) new of
        Inl (e, qs) \<Rightarrow> (Some e, m\<lparr>mg_backlog := qs\<rparr>)
      | Inr (qs, rest) \<Rightarrow> (None, m\<lparr>mg_backlog := qs @ (if is_request rest then [rest] else [])\<rparr>))"

section \<open>Serving roots\<close>

text \<open>\<open>kill\<close>: the manager is cold, its backlog is gone and its thread is told to stop. It also unsubscribes from
  ACI; should that fail, the code would keep the backlog of the stopped manager.\<close>

definition kill :: "manager \<Rightarrow> manager" where
  "kill m = m\<lparr>mg_warm := False, mg_backlog := [], mg_stop := True\<rparr>"

definition new_manager :: manager where
  "new_manager = \<lparr>mg_warm = False, mg_stop = False, mg_state = empty_tree, mg_oper = empty_tree, mg_mon = empty_tree, mg_backlog = []\<rparr>"

record aci_uni =
  serving_tenants :: managers
  killed :: "(string \<times> manager) list"
  au_state :: ustate
  reconnected :: bool

text \<open>The loop over the roots to serve. The flag is set when a manager could not be built: the rest of the loop is
  abandoned and the agent takes itself down.\<close>

fun serve_loop ::
  "(string \<Rightarrow> bool) \<Rightarrow> (string \<Rightarrow> bool) \<Rightarrow> managers \<Rightarrow> string list \<Rightarrow> managers \<times> (string \<times> manager) list \<Rightarrow>
    bool \<times> managers \<times> (string \<times> manager) list" where
  "serve_loop dead buildable old [] (new, ks) = (False, new, ks)"
| "serve_loop dead buildable old (t # ts) (new, ks) =
     (let new1 = (case dict_get old t of Some m \<Rightarrow> dict_set t m new | None \<Rightarrow> new) in
      case dict_get new1 t of
        Some m \<Rightarrow>
          if \<not> dead t then serve_loop dead buildable old ts (new1, ks)
          else if buildable t then serve_loop (dead(t := False)) buildable old ts (dict_set t new_manager new1, ks @ [(t, kill m)])
          else (True, dict_set t (kill m) new1, ks @ [(t, kill m)])
      | None \<Rightarrow>
          if buildable t then serve_loop (dead(t := False)) buildable old ts (dict_set t new_manager new1, ks)
          else (True, new1, ks))"

definition aci_reset :: "string list \<Rightarrow> aci_uni \<Rightarrow> aci_uni" where
  "aci_reset ts u = u\<lparr>serving_tenants := map (\<lambda>(t, m). (t, if t \<in> set ts then kill m else m)) (serving_tenants u)\<rparr>"

definition aci_serve :: "(string \<Rightarrow> bool) \<Rightarrow> (string \<Rightarrow> bool) \<Rightarrow> string list \<Rightarrow> aci_uni \<Rightarrow> bool \<times> aci_uni" where
  "aci_serve dead buildable tenants u =
     (if reconnected u then (False, (aci_reset (dict_keys (serving_tenants u)) u)\<lparr>reconnected := False\<rparr>)
      else
        let old = serving_tenants u;
            gone = filter (\<lambda>(t, m). t \<notin> set tenants) old;
            (failed, new, ks) = serve_loop dead buildable old tenants ([], [])
        in (failed, u\<lparr>serving_tenants := new, killed := killed u @ map (\<lambda>(t, m). (t, kill m)) gone @ ks,
              au_state := filter (\<lambda>(t, x). t \<notin> set (dict_keys gone)) (au_state u)\<rparr>))"

section \<open>Observing\<close>

datatype aci_kind = ConfigState | OperState | MonState

text \<open>A copy through the text form; only the copy of the configuration keeps \<open>has_populated\<close>.\<close>

fun state_copy :: "aci_kind \<Rightarrow> manager \<Rightarrow> tree result" where
  "state_copy ConfigState m = from_string (tree_str (mg_state m)) (root_key (mg_state m)) (has_populated (mg_state m))"
| "state_copy OperState m = from_string (tree_str (mg_oper m)) (root_key (mg_oper m)) False"
| "state_copy MonState m = from_string (tree_str (mg_mon m)) (root_key (mg_mon m)) False"

definition aci_observe :: "aci_kind \<Rightarrow> managers \<Rightarrow> ustate result" where
  "aci_observe kind ms =
     traverse_res (\<lambda>(t, m). bind_res (state_copy kind m) (\<lambda>c. Inr (t, Some c))) (filter (\<lambda>(t, m). mg_warm m) ms)"

section \<open>Pushing\<close>

text \<open>The root of an object; that of a tag is the root of the object it is on.\<close>

definition tag_parent :: "uni_env \<Rightarrow> aci \<Rightarrow> aci result" where
  "tag_parent ue a =
     (if fst a = ''tagInst'' then
        bind_res (aci_dn a) (\<lambda>dn. bind_res (ue_guess ue dn ''tagInst'') (\<lambda>rns.
        if length rns < 2 then Inl IndexError
        else bind_res (ue_build ue (map split_type (butlast rns))) (\<lambda>p.
          Inr (fst (last (butlast rns)), [(''dn'', JStr p)]))))
      else Inr a)"

definition managed_root :: "maker \<Rightarrow> obj \<Rightarrow> string option result" where
  "managed_root m r = (case klass_of (mk_env m) (oclass r) of
      Some k \<Rightarrow> if is_aci k then get_root_key m r else Inr None | None \<Rightarrow> Inr None)"

definition retrieve_tenant_rn :: "uni_env \<Rightarrow> aci \<Rightarrow> string option result" where
  "retrieve_tenant_rn ue a =
     bind_res (tag_parent ue a) (\<lambda>p. bind_res (aci_to_aim (ue_cv ue) [p]) (\<lambda>os.
       case os of [] \<Rightarrow> Inr None | r # _ \<Rightarrow> managed_root (ue_maker ue) r))"

definition no_request :: request where "no_request = \<lparr>rq_create = [], rq_delete = []\<rparr>"

definition add_create :: "string option \<Rightarrow> obj \<Rightarrow> (string, request) dict \<Rightarrow> (string, request) dict" where
  "add_create t r d = (case t of None \<Rightarrow> d | Some t \<Rightarrow> if t = [] then d else
     let q = dict_getd d t no_request in dict_set t (q\<lparr>rq_create := rq_create q @ [r]\<rparr>) d)"

definition add_delete :: "string option \<Rightarrow> aci \<Rightarrow> (string, request) dict \<Rightarrow> (string, request) dict" where
  "add_delete t a d = (case t of None \<Rightarrow> d | Some t \<Rightarrow> if t = [] then d else
     let q = dict_getd d t no_request in dict_set t (q\<lparr>rq_delete := rq_delete q @ [a]\<rparr>) d)"

definition by_tenant :: "uni_env \<Rightarrow> obj list \<Rightarrow> aci list \<Rightarrow> (string, request) dict result" where
  "by_tenant ue creates deletes =
     bind_res (fold_res (\<lambda>r d. bind_res (managed_root (ue_maker ue) r) (\<lambda>t. Inr (add_create t r d))) creates []) (\<lambda>d.
     fold_res (\<lambda>a d. bind_res (retrieve_tenant_rn ue a) (\<lambda>t. Inr (add_delete t a d))) deletes d)"

section \<open>Bundle groups whose span groups are not in sync\<close>

definition find_named :: "env \<Rightarrow> aim_db \<Rightarrow> klass \<Rightarrow> json list \<Rightarrow> obj list result" where
  "find_named env db k names =
     bind_res (validate_resource_class env k) (\<lambda>_.
       traverse_res (\<lambda>x. make_resource env k x False)
         (filter (\<lambda>x. case dict_get x ''name'' of Some v \<Rightarrow> v \<in> set names | None \<Rightarrow> False) (store_query db k [])))"

text \<open>Statuses are found by the \<open>aim_id\<close> of the rows alone.\<close>

definition query_statuses :: "env \<Rightarrow> aim_db \<Rightarrow> (klass \<times> obj) list \<Rightarrow> obj list result" where
  "query_statuses env db rs =
     (if rs = [] then Inr []
      else bind_res (traverse_res (\<lambda>(k, r). bind_res (extract_id k r) (\<lambda>i.
               Inr (concat (map (\<lambda>x. case dict_get x ''aim_id'' of Some v \<Rightarrow> [v] | None \<Rightarrow> []) (store_query db k i))))) rs)
        (\<lambda>ids. traverse_res (\<lambda>x. make_resource env AciStatus x False)
           (filter (\<lambda>x. case dict_get x ''resource_id'' of Some v \<Rightarrow> v \<in> set (concat ids) | None \<Rightarrow> False)
             (store_query db AciStatus []))))"

definition list_attr :: "obj \<Rightarrow> string \<Rightarrow> json list result" where
  "list_attr r a = bind_res (get_attr r a) (\<lambda>v. case v of JList xs \<Rightarrow> Inr xs | _ \<Rightarrow> Inl TypeError)"

text \<open>Whether the push of an object has to wait.\<close>

definition must_wait :: "env \<Rightarrow> aim_db \<Rightarrow> obj \<Rightarrow> bool result" where
  "must_wait env db r =
     (if oclass r \<noteq> ''InfraAccBundleGroup'' then Inr False
      else bind_res (list_attr r ''span_vdest_group_names'') (\<lambda>dst.
           bind_res (find_named env db SpanVdestGroup dst) (\<lambda>ds.
           bind_res (list_attr r ''span_vsource_group_names'') (\<lambda>src.
           bind_res (find_named env db SpanVsourceGroup src) (\<lambda>ss.
           if length ds \<noteq> length dst \<or> length ss \<noteq> length src then Inr True
           else bind_res (query_statuses env db (map (Pair SpanVsourceGroup) ss @ map (Pair SpanVdestGroup) ds)) (\<lambda>sts.
             Inr (length (filter (\<lambda>s. get_attr_or s ''sync_status'' JNull = JStr SYNCED) sts) \<noteq> length sts
                  \<or> length sts \<noteq> length (ss @ ds))))))))"

text \<open>The loop removes from the list it iterates over, the first element equal to the object (\<open>obj_eq\<close>).\<close>

fun remove_first :: "('a \<Rightarrow> bool) \<Rightarrow> 'a list \<Rightarrow> 'a list" where
  "remove_first P [] = []"
| "remove_first P (x # xs) = (if P x then xs else x # remove_first P xs)"

lemma remove_first_length: "length (remove_first P xs) \<le> length xs"
  by (induction xs) auto

function filter_loop :: "('a \<Rightarrow> bool result) \<Rightarrow> ('a \<Rightarrow> 'a \<Rightarrow> bool) \<Rightarrow> nat \<Rightarrow> 'a list \<Rightarrow> 'a list result" where
  "filter_loop bad eq i xs =
     (if i < length xs then
        bind_res (bad (xs ! i)) (\<lambda>b.
          filter_loop bad eq (Suc i) (if b then remove_first (eq (xs ! i)) xs else xs))
      else Inr xs)"
  by pat_completeness auto
termination
proof (relation "measure (\<lambda>(bad, eq, i, xs). length xs - i)", goal_cases)
  case (2 bad eq i xs b)
  have "length (if b then remove_first (eq (xs ! i)) xs else xs) \<le> length xs" by (simp add: remove_first_length)
  with 2 show ?case by simp
qed simp

declare filter_loop.simps [simp del]

text \<open>Objects are equal when their attributes are.\<close>

definition obj_eq :: "obj \<Rightarrow> obj \<Rightarrow> bool" where
  "obj_eq a b \<longleftrightarrow> res_key a = res_key b"

definition filter_resources :: "env \<Rightarrow> aim_db \<Rightarrow> (string, request) dict \<Rightarrow> (string, request) dict result" where
  "filter_resources env db d =
     (case dict_get d ''infra'' of
        None \<Rightarrow> Inr d
      | Some q \<Rightarrow> bind_res (filter_loop (must_wait env db) obj_eq 0 (rq_create q)) (\<lambda>cs.
          Inr (dict_set ''infra'' (q\<lparr>rq_create := cs\<rparr>) d)))"

section \<open>push_resources\<close>

text \<open>A root that is not served any more is skipped; an exception of a manager ends the loop.\<close>

fun push_to_managers ::
  "(obj \<Rightarrow> string result) \<Rightarrow> (string \<Rightarrow> bool) \<Rightarrow> (string \<times> request) list \<Rightarrow> managers \<Rightarrow> exc option \<times> managers" where
  "push_to_managers dnf locked [] ms = (None, ms)"
| "push_to_managers dnf locked ((t, q) # qs) ms =
     (case dict_get ms t of
        None \<Rightarrow> push_to_managers dnf locked qs ms
      | Some m \<Rightarrow>
          (case push_aim_resources dnf (locked t) q m of
             (Some e, m') \<Rightarrow> (Some e, dict_set t m' ms)
           | (None, m') \<Rightarrow> push_to_managers dnf locked qs (dict_set t m' ms)))"

definition aci_push_resources ::
  "uni_env \<Rightarrow> (string \<Rightarrow> bool) \<Rightarrow> aim_db \<Rightarrow> obj list \<Rightarrow> aci list \<Rightarrow> managers \<Rightarrow> exc option \<times> managers" where
  "aci_push_resources ue locked db creates deletes ms =
     (case bind_res (by_tenant ue creates deletes) (filter_resources (cv_env (ue_cv ue)) db) of
        Inl e \<Rightarrow> (Some e, ms)
      | Inr d \<Rightarrow> push_to_managers (item_dn ue) locked d ms)"

end
