(* ===== verification/Multiverse.thy ===== *)
theory Multiverse
  imports Service_Cycle_Props Aci_Universe
begin

text \<open>
  The three pairs of universes of an agent (\<open>AID.__init__\<close> of \<open>aim/agent/aid/service.py\<close>): which states each
  class of universe reads, how it finds what to delete, what it updates and where it pushes
  (\<open>aim/agent/aid/universes/aim_universe.py\<close>, \<open>aci/aci_universe.py\<close>), as instances of the operations that
  \<open>Reconcile\<close> works with. The world is the AIM database with its trees and the managers of the roots.
\<close>

record system =
  sy_db :: aim_db
  sy_trees :: tree_db
  sy_managers :: managers

record agent_env =
  ag_ue :: uni_env
  ag_fuel :: nat
  ag_system_id :: string
  ag_locked :: "string \<Rightarrow> bool"
  ag_root_key :: key_funct

definition raised :: "exc option \<times> 's \<Rightarrow> unit result \<times> 's" where
  "raised r = (case r of (None, s) \<Rightarrow> (Inr (), s) | (Some e, s) \<Rightarrow> (Inl e, s))"

definition in_db :: "(aim_db \<Rightarrow> exc option \<times> aim_db) \<Rightarrow> (system, unit) act" where
  "in_db f w = (let (r, db) = raised (f (sy_db w)) in (r, w\<lparr>sy_db := db\<rparr>))"

definition in_managers :: "(managers \<Rightarrow> exc option \<times> managers) \<Rightarrow> (system, unit) act" where
  "in_managers f w = (let (r, ms) = raised (f (sy_managers w)) in (r, w\<lparr>sy_managers := ms\<rparr>))"

section \<open>Operations all pairs share\<close>

definition ag_env :: "agent_env \<Rightarrow> env" where
  "ag_env ag = cv_env (ue_cv (ag_ue ag))"

definition root_of :: "agent_env \<Rightarrow> obj \<Rightarrow> string result" where
  "root_of ag r = bind_res (res_root (ue_maker (ag_ue ag)) r) (\<lambda>s. Inr (case s of None \<Rightarrow> [] | Some x \<Rightarrow> x))"

definition nodes_of :: "agent_env \<Rightarrow> obj \<Rightarrow> key list result" where
  "nodes_of ag r = Inr (map fst (aim_res_to_nodes (ue_maker (ag_ue ag)) r))"

text \<open>\<open>AimDbUniverse.reset\<close> and \<open>AciUniverse.reset\<close> of one root.\<close>

definition aim_reset :: "string \<Rightarrow> (system, unit) act" where
  "aim_reset t = modify (\<lambda>w. w\<lparr>sy_trees := set_needs_reset_by_root_rn t True (sy_trees w)\<rparr>)"

definition managers_reset :: "string \<Rightarrow> (system, unit) act" where
  "managers_reset t = modify (\<lambda>w. w\<lparr>sy_managers := map (\<lambda>(x, m). (x, if x = t then kill m else m)) (sy_managers w)\<rparr>)"

text \<open>\<open>creation_failed\<close> and \<open>deletion_failed\<close> with \<open>OPERATION_CRITICAL\<close>: \<open>_surrender_operation\<close>.\<close>

definition surrender_operation :: "agent_env \<Rightarrow> sync_action \<Rightarrow> obj \<Rightarrow> (system, unit) act" where
  "surrender_operation ag a r = in_db (\<lambda>db. kept db
     (case klass_of (ag_env ag) (oclass r) of
        None \<Rightarrow> Inl (UnknownResourceType (oclass r))
      | Some k \<Rightarrow> out_of_fuel (set_resource_sync_error (ag_fuel ag) (ag_env ag) k r
          ''Divergence detected on this object.'' True db)))"

definition convert_deletes :: "agent_env \<Rightarrow> (key list \<Rightarrow> aci list result) \<Rightarrow> key list \<Rightarrow> obj list result" where
  "convert_deletes ag f ks = bind_res (f ks) (aci_to_aim (ue_cv (ag_ue ag)))"

definition aci_get_resources :: "uni_env \<Rightarrow> ustate list \<Rightarrow> key list \<Rightarrow> (aci list \<times> key list) result" where
  "aci_get_resources ue sts ks = bind_res (get_resources ue sts ks) (\<lambda>r. Inr (map e_aci (r_entries r), r_keys r))"

definition push_into_aim :: "agent_env \<Rightarrow> bool \<Rightarrow> aci list \<Rightarrow> obj list \<Rightarrow> (system, unit) act" where
  "push_into_aim ag monitored creates deletes =
     in_db (\<lambda>db. kept db (push_resources (ag_fuel ag) (ue_cv (ag_ue ag)) monitored creates deletes db))"

section \<open>The configuration: from AIM to ACI\<close>

definition config_pair :: "agent_env \<Rightarrow> multiverse \<Rightarrow> (system, obj, aci) uni_ops" where
  "config_pair ag mv =
     (let ue = ag_ue ag; sts = [conf_desired mv, mon_current mv] in
      \<lparr>op_get = aim_get_resources ue sts,
       op_delete = get_resources_for_delete ue (mon_current mv)
         (aci_delete_action ue (ag_system_id ag) (conf_desired mv) (mon_desired mv)),
       op_to_aim = (\<lambda>cs ds. bind_res (aci_to_aim (ue_cv ue) ds) (\<lambda>os. Inr (cs, os))),
       op_root = root_of ag, op_nodes = nodes_of ag,
       op_reset = (\<lambda>t. bind_act (managers_reset t) (\<lambda>_. aim_reset t)),
       op_failed = surrender_operation ag,
       op_update_current = (\<lambda>_ _ _. ret ()),
       op_update_desired = (\<lambda>t diff skips. in_db (update_status_objects (ag_fuel ag) ue sts t diff skips)),
       op_push = (\<lambda>cs ds w. in_managers (aci_push_resources ue (ag_locked ag) (sy_db w) cs ds) w)\<rparr>)"

section \<open>The operational state: from ACI to AIM\<close>

definition oper_pair :: "agent_env \<Rightarrow> multiverse \<Rightarrow> (system, aci, obj) uni_ops" where
  "oper_pair ag mv =
     (let ue = ag_ue ag in
      \<lparr>op_get = aci_get_resources ue [conf_current mv, mon_desired mv, oper_desired mv],
       op_delete = convert_deletes ag (get_resources_for_delete ue (mon_desired mv) aim_delete_action),
       op_to_aim = (\<lambda>cs ds. bind_res (aci_to_aim (ue_cv ue) cs) (\<lambda>os. Inr (os, ds))),
       op_root = root_of ag, op_nodes = nodes_of ag,
       op_reset = (\<lambda>t. bind_act (aim_reset t) (\<lambda>_. managers_reset t)),
       op_failed = surrender_operation ag,
       op_update_current = (\<lambda>_ _ _. ret ()), op_update_desired = (\<lambda>_ _ _. ret ()),
       op_push = push_into_aim ag False\<rparr>)"

section \<open>The monitored state: from ACI to AIM\<close>

definition monitored_pair :: "agent_env \<Rightarrow> multiverse \<Rightarrow> (system, aci, obj) uni_ops" where
  "monitored_pair ag mv =
     (let ue = ag_ue ag in
      \<lparr>op_get = aci_get_resources ue [conf_current mv, mon_desired mv, oper_desired mv],
       op_delete = convert_deletes ag (get_resources_for_delete ue (mon_desired mv) (monitored_delete_action ue)),
       op_to_aim = (\<lambda>cs ds. bind_res (aci_to_aim (ue_cv ue) cs) (\<lambda>os. Inr (os, ds))),
       op_root = root_of ag, op_nodes = nodes_of ag,
       op_reset = (\<lambda>t. bind_act (aim_reset t) (\<lambda>_. managers_reset t)),
       op_failed = surrender_operation ag,
       op_update_current = (\<lambda>t diff skips.
         in_db (update_status_objects (ag_fuel ag) ue [mon_current mv, conf_desired mv] t diff skips)),
       op_update_desired = (\<lambda>_ _ _. ret ()),
       op_push = push_into_aim ag True\<rparr>)"

text \<open>\<open>AimDbUniverse.cleanup_state\<close>: the trees of the root go if they are empty.\<close>

definition aim_cleanup :: "agent_env \<Rightarrow> string \<Rightarrow> (system, unit) act" where
  "aim_cleanup ag t w = (case delete_by_root_rn (ag_root_key ag) t True (sy_trees w) of
      Inl e \<Rightarrow> (Inl e, w) | Inr d \<Rightarrow> (Inr (), w\<lparr>sy_trees := d\<rparr>))"

definition agent_pairs :: "agent_env \<Rightarrow> (system, aci) pairs" where
  "agent_pairs ag = \<lparr>conf_ops = config_pair ag, oper_ops = oper_pair ag, mon_ops = monitored_pair ag, cleanup_op = aim_cleanup ag\<rparr>"

section \<open>The pairs are idle when there is nothing to do\<close>

lemma nothing_to_convert: "aci_to_aim cv [] = Inr []"
  by (simp add: aci_to_aim_def squash_aim_def)

lemma nothing_to_delete: "get_resources_for_delete ue mon action [] = Inr []"
  by (simp add: get_resources_for_delete_def)

lemma nothing_to_read: "get_resources ue sts [] = Inr \<lparr>r_entries = [], r_keys = []\<rparr>"
  by (simp add: get_resources_def)

lemma in_db_id: "f (sy_db w) = (None, sy_db w) \<Longrightarrow> in_db f w = (Inr (), w)"
  by (simp add: in_db_def raised_def)

lemma nothing_to_update:
  "tree.root t = None \<Longrightarrow> update_status_objects fuel ue sts t ([], []) [] db = (None, db)"
  by (simp add: update_status_objects_def get_state_pending_na_nodes_def find_by_metadata_def find_no_metadata_def
      find_by_metadata'_def set_sync_pending_state_def set_synced_state_def keys_to_pend_def keys_in_sync_def
      sync_objects_def aim_get_resources_def)

lemma nothing_to_push: "in_db (\<lambda>db. kept db (push_resources fuel cv monitored [] [] db)) w = (Inr (), w)"
  by (rule in_db_id) (simp add: push_resources_def nothing_to_convert push_items_def kept_def)

lemmas pair_simps = Let_def nothing_to_convert nothing_to_delete nothing_to_read nothing_to_update nothing_to_push
  in_db_id ret_def convert_deletes_def aci_get_resources_def aim_get_resources_def push_into_aim_def

interpretation config: idle_pair "config_pair ag mv" for ag mv
  by unfold_locales (simp_all add: config_pair_def pair_simps in_managers_def raised_def aci_push_resources_def
      by_tenant_def filter_resources_def)

interpretation oper: idle_pair "oper_pair ag mv" for ag mv
  by unfold_locales (simp_all add: oper_pair_def pair_simps)

interpretation monitored: idle_pair "monitored_pair ag mv" for ag mv
  by unfold_locales (simp_all add: monitored_pair_def pair_simps)

end
