(* ===== verification/Multiverse_Props.thy ===== *)
theory Multiverse_Props
  imports Multiverse Universe_Read_Props Tree_Manager_Props
begin

text \<open>
  How long an agent waits before it deletes an empty root: each of the three pairs of universes holds it
  back for three cycles, one after the other, so that the tenth cycle is the first to clean it up.
\<close>

definition empty_everywhere :: "multiverse \<Rightarrow> string \<Rightarrow> bool" where
  "empty_everywhere mv t \<longleftrightarrow> list_all (\<lambda>st. is_empty_root (dict_get st t))
     [conf_desired mv, conf_current mv, oper_desired mv, oper_current mv, mon_desired mv, mon_current mv]"

text \<open>Every universe has observed the roots it serves.\<close>

definition all_observed :: "multiverse \<Rightarrow> bool" where
  "all_observed mv \<longleftrightarrow> list_all (\<lambda>st. dict_ok st \<and> list_all (\<lambda>(t, x). x \<noteq> None) st)
     [conf_desired mv, conf_current mv, oper_current mv, mon_current mv]"

definition count :: "memory \<Rightarrow> string \<Rightarrow> nat" where
  "count m t = dict_getd (m_deleting m) t 0"

primrec after_cycles ::
  "(nat \<Rightarrow> timing) \<Rightarrow> (string set \<Rightarrow> string list) \<Rightarrow> agent_env \<Rightarrow> (nat \<Rightarrow> multiverse) \<Rightarrow> nat \<Rightarrow>
    system service \<Rightarrow> system service" where
  "after_cycles tms ord ag mvs 0 s = s"
| "after_cycles tms ord ag mvs (Suc n) s =
     snd (reconciliation_cycle (tms n) ord (agent_pairs ag) (mvs n) (after_cycles tms ord ag mvs n s))"

section \<open>Votes and the final word\<close>

lemma vote_empty_in:
  "\<lbrakk>list_all (\<lambda>(t, x). x \<noteq> None) st; is_empty_root (dict_get st t) \<or> t \<in> cands; t \<notin> vetoes\<rbrakk> \<Longrightarrow>
    \<exists>c. vote_empty st vetoes cands = Inr c \<and> t \<in> c"
proof (induction st vetoes cands rule: vote_empty.induct)
  case (3 t' x st vetoes cands)
  then show ?case by (auto simp: is_empty_root_def split: if_split_asm)
qed (auto simp: is_empty_root_def)

lemma vote_monitored_in:
  "\<lbrakk>list_all (\<lambda>(t, x). x \<noteq> None) st; dict_ok st; is_empty_root (dict_get st t) \<or> dict_get st t = None; t \<in> cands\<rbrakk> \<Longrightarrow>
    \<exists>c v. vote_monitored st vetoes cands = Inr (c, v) \<and> t \<in> c"
proof (induction st vetoes cands rule: vote_monitored.induct)
  case (3 t' x st vetoes cands)
  have ok: "dict_ok st" and all: "list_all (\<lambda>(t, x). x \<noteq> None) st" using 3 by (simp_all add: dict_ok_def)
  have rest: "is_empty_root (dict_get st t) \<or> dict_get st t = None"
  proof (cases "t = t'")
    case True
    then show ?thesis using 3(5) by (simp add: dict_ok_def map_of_eq_None_iff)
  next
    case False
    then show ?thesis using 3(6) by (simp del: map_of_eq_None_iff)
  qed
  show ?case
  proof (cases "tree.root x")
    case None
    then show ?thesis using 3(1) [OF None all ok rest] 3(7) by simp
  next
    case (Some n)
    then have "t \<noteq> t'" using 3(6) by (auto simp: is_empty_root_def)
    then show ?thesis
      using Some 3(2) [OF Some _ all ok rest] 3(3) [OF Some _ all ok rest] 3(7) by (cases "dummy (slots n)") simp_all
  qed
qed (auto simp: is_empty_root_def)

lemma vote_in:
  assumes "all_observed mv" "empty_everywhere mv t"
  obtains cands v where "vote_deletion_candidates mv = Inr (cands, v)" "t \<in> cands"
proof -
  obtain c0 where c0: "vote_empty (conf_desired mv) {} {} = Inr c0" "t \<in> c0"
    using assms vote_empty_in [of "conf_desired mv" t "{}" "{}"] by (auto simp: all_observed_def empty_everywhere_def)
  obtain c v where "vote_monitored (mon_current mv) {} c0 = Inr (c, v)" "t \<in> c"
    using assms vote_monitored_in [of "mon_current mv" t c0 "{}"] c0(2) by (auto simp: all_observed_def empty_everywhere_def)
  with c0 that show thesis by (auto simp: vote_deletion_candidates_def)
qed

lemma all_seen: "list_all (\<lambda>(t, x). x \<noteq> None) st \<Longrightarrow> \<not> unobserved st c"
  by (fastforce simp: unobserved_def list_all_iff dest: map_of_SomeD)

lemma finalize_in:
  assumes "all_observed mv" "empty_everywhere mv t"
  shows "\<exists>final s'. finalize mv c s = (Inr final, s') \<and> (t \<in> final \<longleftrightarrow> t \<in> c) \<and>
    count (sv_conf s') t = count (sv_conf s) t \<and> count (sv_oper s') t = count (sv_oper s) t \<and>
    count (sv_mon s') t = count (sv_mon s) t"
  using assms all_seen
  by (auto simp: finalize_def bind_act_def lift_res_def modify_def finalize_config_def finalize_aim_def
      all_observed_def empty_everywhere_def pop_up_sync_log_def count_def)

section \<open>One cycle\<close>

text \<open>The counters after the reconciliation, and whether the root is agreed on.\<close>

lemma agree_step:
  fixes s :: "system service"
  assumes ord: "\<And>S. finite S \<Longrightarrow> set (ord S) = S \<and> distinct (ord S)"
    and mv: "all_observed mv" "empty_everywhere mv t"
  defines "a \<equiv> count (sv_conf s) t"
  defines "b \<equiv> count (sv_oper s) t"
  defines "d \<equiv> count (sv_mon s) t"
  shows "\<exists>ch final s'. agree_on_deletions tm ord (agent_pairs ag) mv s = (Inr (ch, final), s') \<and>
    (t \<in> final \<longleftrightarrow> 3 \<le> a \<and> 3 \<le> b \<and> 3 \<le> d) \<and>
    count (sv_conf s') t = Suc a \<and> count (sv_oper s') t = (if 3 \<le> a then Suc b else b) \<and>
    count (sv_mon s') t = (if 3 \<le> a \<and> 3 \<le> b then Suc d else d)"
proof -
  let ?ps = "agent_pairs ag"
  obtain cands v where v: "vote_deletion_candidates mv = Inr (cands, v)" "t \<in> cands"
    by (rule vote_in [OF mv])
  have e: "is_empty_root (dict_get (conf_desired mv) t)" "is_empty_root (dict_get (conf_current mv) t)"
    "is_empty_root (dict_get (oper_desired mv) t)" "is_empty_root (dict_get (oper_current mv) t)"
    "is_empty_root (dict_get (mon_desired mv) t)" "is_empty_root (dict_get (mon_current mv) t)"
    using mv(2) by (simp_all add: empty_everywhere_def)
  have masked: "is_empty_root (dict_get (mask_tenant_state c st) t)" if "is_empty_root (dict_get st t)" for c st
    using that by (induction st) (auto simp: mask_tenant_state_def is_empty_root_def new_tree_def)
  obtain d0 c0 m0 w0 where 0: "reconcile_pair tm ord (conf_ops ?ps mv) (conf_current mv) (conf_desired mv) cands (sv_conf s) (sv_world s)
      = (d0, c0, m0, w0)" by (metis prod_cases4)
  define mv1 where "mv1 = mv\<lparr>oper_desired := mask_tenant_state c0 (oper_desired mv)\<rparr>"
  obtain d1 c1 m1 w1 where 1: "reconcile_pair tm ord (oper_ops ?ps mv1) (oper_current mv1) (oper_desired mv1) c0 (sv_oper s) w0
      = (d1, c1, m1, w1)" by (metis prod_cases4)
  define mv2 where "mv2 = mv1\<lparr>mon_desired := mask_tenant_state c1 (mon_desired mv1)\<rparr>"
  obtain d2 c2 m2 w2 where 2: "reconcile_pair tm ord (mon_ops ?ps mv2) (mon_current mv2) (mon_desired mv2) c1 (sv_mon s) w1
      = (d2, c2, m2, w2)" by (metis prod_cases4)
  have all: "reconcile_all tm ord ?ps mv cands s = (d0 \<or> d1 \<or> d2, c2, \<lparr>sv_world = w2, sv_conf = m0, sv_oper = m1, sv_mon = m2\<rparr>)"
    using 0 1 2 unfolding reconcile_all_def Let_def mv1_def mv2_def by simp
  have r0: "(t \<in> c0 \<longleftrightarrow> 3 \<le> a) \<and> count m0 t = Suc a"
    using config.reconcile_pair_empty [OF e(2,1) ord, of tm ag mv cands "sv_conf s" "sv_world s" d0 c0 m0 w0] 0 v(2)
    by (simp add: agent_pairs_def a_def count_def)
  have r1: "(t \<in> c1 \<longleftrightarrow> t \<in> c0 \<and> 3 \<le> b) \<and> count m1 t = (if t \<in> c0 then Suc b else b)"
    using oper.reconcile_pair_empty [OF e(4) masked [OF e(3)] ord, of tm ag mv1 c0 c0 "sv_oper s" w0 d1 c1 m1 w1] 1
    by (simp add: agent_pairs_def b_def count_def mv1_def)
  have r2: "(t \<in> c2 \<longleftrightarrow> t \<in> c1 \<and> 3 \<le> d) \<and> count m2 t = (if t \<in> c1 then Suc d else d)"
    using monitored.reconcile_pair_empty [OF e(6) masked [OF e(5)] ord, of tm ag mv2 c1 c1 "sv_mon s" w1 d2 c2 m2 w2] 2
    by (simp add: agent_pairs_def d_def count_def mv2_def mv1_def)
  obtain final s' where f: "finalize mv c2 \<lparr>sv_world = w2, sv_conf = m0, sv_oper = m1, sv_mon = m2\<rparr> = (Inr final, s')"
      "t \<in> final \<longleftrightarrow> t \<in> c2" "count (sv_conf s') t = count m0 t" "count (sv_oper s') t = count m1 t" "count (sv_mon s') t = count m2 t"
    using finalize_in [OF mv, of c2 "\<lparr>sv_world = w2, sv_conf = m0, sv_oper = m1, sv_mon = m2\<rparr>"] by auto
  have "agree_on_deletions tm ord ?ps mv s = (Inr (d0 \<or> d1 \<or> d2, final), s')"
    using v(1) all f(1) by (simp add: agree_on_deletions_def bind_act_def ret_def)
  with f r0 r1 r2 show ?thesis by auto
qed

section \<open>Cleaning up other roots\<close>

definition same_counts :: "string \<Rightarrow> 'w service \<Rightarrow> 'w service \<Rightarrow> bool" where
  "same_counts t s s' \<longleftrightarrow> count (sv_conf s') t = count (sv_conf s) t \<and> count (sv_oper s') t = count (sv_oper s) t
     \<and> count (sv_mon s') t = count (sv_mon s) t"

lemma same_counts_laws: "reflp (same_counts t)" "transp (same_counts t)"
  by (auto simp: same_counts_def reflp_def transp_def)

lemma forget_other: "u \<noteq> t \<Longrightarrow> count (forget_root u m) t = count m t"
  by (simp add: count_def forget_root_def dict_getd_def dict_simps)

lemma cleanup_other: "u \<noteq> t \<Longrightarrow> keeps (same_counts t) (cleanup_state f u)"
  unfolding cleanup_state_def
  by (intro keeps_bind [OF _ _ same_counts_laws(2)] keeps_modify)
    (auto simp: keeps_def in_world_def same_counts_def forget_other split: prod.split)

lemma cleanup_others: "t \<notin> set us \<Longrightarrow> keeps (same_counts t) (each (cleanup_state f) us)"
  by (induction us) (auto intro!: keeps_bind [OF _ _ same_counts_laws(2)] cleanup_other keeps_basic same_counts_laws)

lemma agree_finite:
  assumes "agree_on_deletions tm ord ps mv s = (Inr (ch, final), s')"
  shows "finite final"
proof -
  obtain cands vetoes c s1 where f: "finalize mv c s1 = (Inr final, s')"
    using assms by (rule agree_result)
  have "t \<in> fst ` set (conf_current mv)" if "t \<in> final" for t
    using finalize_result(2) [OF f that] by (force simp: is_empty_root_def split: option.split_asm dest!: map_of_SomeD)
  then have "final \<subseteq> fst ` set (conf_current mv)" by blast
  then show ?thesis by (rule finite_subset) simp
qed

lemma cycle_step:
  assumes "agree_on_deletions tm ord ps mv s = (Inr (ch, final), s1)" "t \<notin> set (ord final)"
  shows "same_counts t s1 (snd (reconciliation_cycle tm ord ps mv s))"
proof -
  have "same_counts t s1 (snd (each (cleanup_state (cleanup_op ps)) (ord final) s1))"
    using cleanup_others [OF assms(2)] unfolding keeps_def by blast
  then show ?thesis
    using assms(1) by (auto simp: reconciliation_cycle_def bind_act_def ret_def split: prod.split sum.split)
qed

lemma counts_after:
  assumes ord: "\<And>S. finite S \<Longrightarrow> set (ord S) = S \<and> distinct (ord S)"
    and mvs: "\<And>n. n < m \<Longrightarrow> all_observed (mvs n) \<and> empty_everywhere (mvs n) t"
    and zero: "count (sv_conf s) t = 0" "count (sv_oper s) t = 0" "count (sv_mon s) t = 0"
    and "m < 10"
  shows "count (sv_conf (after_cycles tms ord ag mvs m s)) t = m \<and>
    count (sv_oper (after_cycles tms ord ag mvs m s)) t = m - 3 \<and>
    count (sv_mon (after_cycles tms ord ag mvs m s)) t = m - 6"
  using mvs \<open>m < 10\<close>
proof (induction m)
  case 0
  then show ?case using zero by simp
next
  case (Suc m)
  let ?s = "after_cycles tms ord ag mvs m s"
  have ih: "count (sv_conf ?s) t = m" "count (sv_oper ?s) t = m - 3" "count (sv_mon ?s) t = m - 6"
    using Suc by simp_all
  have mv: "all_observed (mvs m)" "empty_everywhere (mvs m) t" using Suc.prems by simp_all
  obtain ch final s1 where a: "agree_on_deletions (tms m) ord (agent_pairs ag) (mvs m) ?s = (Inr (ch, final), s1)"
    and f: "t \<in> final \<longleftrightarrow> 3 \<le> m \<and> 3 \<le> m - 3 \<and> 3 \<le> m - 6"
    and c: "count (sv_conf s1) t = Suc m" "count (sv_oper s1) t = (if 3 \<le> m then Suc (m - 3) else m - 3)"
      "count (sv_mon s1) t = (if 3 \<le> m \<and> 3 \<le> m - 3 then Suc (m - 6) else m - 6)"
    using agree_step [OF ord mv, of "tms m" ag ?s] unfolding ih by blast
  have "t \<notin> set (ord final)"
  proof (cases "finite final")
    case True
    with ord f Suc.prems(2) show ?thesis by auto
  next
    case False
    then show ?thesis using agree_finite [OF a] by blast
  qed
  from cycle_step [OF a this] c Suc.prems(2) show ?case
    by (auto simp: same_counts_def)
qed

text \<open>C16. A root that is empty in all six states from the first cycle on is agreed on in the tenth cycle and in none
  before: the configuration holds it back for three cycles, then the operational and then the monitored
  universe for three more each, whatever happens to the other roots.\<close>

theorem deletion_takes_ten_cycles:
  assumes "\<And>S. finite S \<Longrightarrow> set (ord S) = S \<and> distinct (ord S)"
    and "\<And>n. n \<le> m \<Longrightarrow> all_observed (mvs n) \<and> empty_everywhere (mvs n) t"
    and "count (sv_conf s) t = 0" "count (sv_oper s) t = 0" "count (sv_mon s) t = 0"
    and "m < 10"
  shows "\<exists>ch final s'. agree_on_deletions (tms m) ord (agent_pairs ag) (mvs m) (after_cycles tms ord ag mvs m s)
      = (Inr (ch, final), s') \<and> (t \<in> final \<longleftrightarrow> m = 9)"
proof -
  let ?s = "after_cycles tms ord ag mvs m s"
  have "count (sv_conf ?s) t = m \<and> count (sv_oper ?s) t = m - 3 \<and> count (sv_mon ?s) t = m - 6"
    by (rule counts_after [OF assms(1) _ assms(3-6)]) (simp_all add: assms(2))
  then have ih: "count (sv_conf ?s) t = m" "count (sv_oper ?s) t = m - 3" "count (sv_mon ?s) t = m - 6" by simp_all
  have mv: "all_observed (mvs m)" "empty_everywhere (mvs m) t" using assms(2) by simp_all
  have "3 \<le> m \<and> 3 \<le> m - 3 \<and> 3 \<le> m - 6 \<longleftrightarrow> m = 9" using \<open>m < 10\<close> by auto
  with agree_step [OF assms(1) mv, of "tms m" ag ?s] show ?thesis unfolding ih by blast
qed

definition empty_state :: ustate where
  "empty_state = [(''t'', Some empty_tree)]"

definition empty_mv :: multiverse where
  "empty_mv = \<lparr>conf_desired = empty_state, conf_current = empty_state, oper_desired = empty_state,
     oper_current = empty_state, mon_desired = empty_state, mon_current = empty_state\<rparr>"

definition fresh_service :: "system service" where
  "fresh_service = (let m = \<lparr>m_deleting = [], m_log = []\<rparr> in
     \<lparr>sv_world = \<lparr>sy_db = empty_db, sy_trees = no_trees, sy_managers = []\<rparr>, sv_conf = m, sv_oper = m, sv_mon = m\<rparr>)"

lemma empty_mv_facts: "all_observed empty_mv \<and> empty_everywhere empty_mv ''t''"
  by (simp add: empty_mv_def all_observed_def empty_everywhere_def empty_state_def is_empty_root_def dict_ok_def
      new_tree_def dict_simps)

lemma fresh_counts: "count (sv_conf fresh_service) t = 0" "count (sv_oper fresh_service) t = 0" "count (sv_mon fresh_service) t = 0"
  by (simp_all add: fresh_service_def count_def dict_getd_def Let_def)

lemma sorted_order: "finite (S :: string set) \<Longrightarrow> set (sorted_list_of_set S) = S \<and> distinct (sorted_list_of_set S)"
  by simp

definition idle_agent :: agent_env where
  "idle_agent = \<lparr>ag_ue = toy_uni, ag_fuel = 5, ag_system_id = ''sys'', ag_locked = (\<lambda>_. False), ag_root_key = (\<lambda>_. None)\<rparr>"

definition tm0 :: timing where
  "tm0 = \<lparr>tm_conf = strict_conf, tm_rnd = (\<lambda>_. 0), tm_now = 0\<rparr>"

lemma deletion_takes_ten_cycles_witness:
  "\<exists>ch final s'. agree_on_deletions tm0 sorted_list_of_set (agent_pairs idle_agent) empty_mv
      (after_cycles (\<lambda>_. tm0) sorted_list_of_set idle_agent (\<lambda>_. empty_mv) 9 fresh_service)
      = (Inr (ch, final), s') \<and> ''t'' \<in> final"
  using deletion_takes_ten_cycles [of sorted_list_of_set 9 "\<lambda>_. empty_mv" "''t''" fresh_service "\<lambda>_. tm0" idle_agent] sorted_order empty_mv_facts fresh_counts
  by simp

section \<open>A cycle that cleans up\<close>

definition idle_ops :: "(unit, 'r, 'd) uni_ops" where
  "idle_ops = \<lparr>op_get = (\<lambda>ks. Inr ([], ks)), op_delete = (\<lambda>_. Inr []), op_to_aim = (\<lambda>_ _. Inr ([], [])), op_root = (\<lambda>_. Inr []),
     op_nodes = (\<lambda>_. Inr []), op_reset = (\<lambda>_. ret ()), op_failed = (\<lambda>_ _. ret ()), op_update_current = (\<lambda>_ _ _. ret ()),
     op_update_desired = (\<lambda>_ _ _. ret ()), op_push = (\<lambda>_ _. ret ())\<rparr>"

definition idle_pairs :: "(unit, aci) pairs" where
  "idle_pairs = \<lparr>conf_ops = (\<lambda>_. idle_ops), oper_ops = (\<lambda>_. idle_ops), mon_ops = (\<lambda>_. idle_ops), cleanup_op = (\<lambda>_. ret ())\<rparr>"

definition waited :: "unit service" where
  "waited = (let m = \<lparr>m_deleting = [(''t'', 3)], m_log = []\<rparr> in \<lparr>sv_world = (), sv_conf = m, sv_oper = m, sv_mon = m\<rparr>)"

definition only_t :: "string set \<Rightarrow> string list" where
  "only_t S = (if ''t'' \<in> S then [''t''] else [])"

lemma waited_run: "fst (reconciliation_cycle tm0 only_t idle_pairs empty_mv waited) = Inr (False, {''t''})"
  by code_simp


end
