(* ===== verification/Action_Log.thy ===== *)
theory Action_Log
  imports Tree_Maker
begin

text \<open>
  \<open>HashTreeDbListener\<close> (\<open>aim/db/hashtree_db_listener.py\<close>): changes of the database are written into a log by
  the hook of the store, and the log is later turned into changes of the hash trees.

  A row of the log is identified by its number, as by the uuid the code generates for it. The queries of
  the hook do not see the rows that the same flush of the session adds. A transaction whose inner
  transaction failed can only be rolled back: the session refuses to commit it (\<open>InvalidRequestError\<close> of
  SQLAlchemy). The order of a set of roots is the argument \<open>ord\<close>.
\<close>

record log_row =
  lr_id :: nat
  lr_action :: string
  lr_type :: string
  lr_dict :: string
  lr_root :: string

record listener =
  ls_db :: aim_db
  ls_trees :: tree_db
  ls_logs :: "log_row list"
  ls_next :: nat

record listener_env =
  le_maker :: maker
  le_rn :: rn_funct
  le_key :: key_funct
  remove_block_all :: bool
  validate_trees :: bool

definition ACTION_CREATE :: string where "ACTION_CREATE = ''create''"
definition ACTION_DELETE :: string where "ACTION_DELETE = ''delete''"
definition ACTION_RESET :: string where "ACTION_RESET = ''reset''"
definition ACTION_SKIP :: string where "ACTION_SKIP = ''skip''"

definition MAX_EVENTS_PER_ROOT :: nat where "MAX_EVENTS_PER_ROOT = 10000"

definition ROOTLESS_TYPES :: "string list" where "ROOTLESS_TYPES = [''fabricTopology'']"

section \<open>Writing the log\<close>

definition get_log_count :: "string \<Rightarrow> log_row list \<Rightarrow> nat" where
  "get_log_count rn logs = length (filter (\<lambda>l. lr_root l = rn) logs)"

definition get_reset_count :: "string \<Rightarrow> log_row list \<Rightarrow> nat" where
  "get_reset_count rn logs = length (filter (\<lambda>l. lr_root l = rn \<and> lr_action l = ACTION_RESET) logs)"

definition add_log :: "string \<Rightarrow> string \<Rightarrow> obj \<Rightarrow> listener \<Rightarrow> listener" where
  "add_log rn action r s = s\<lparr>ls_next := Suc (ls_next s), ls_logs := ls_logs s @
     [\<lparr>lr_id = ls_next s, lr_action = action, lr_type = oclass r, lr_dict = json_dumps (JObj (ofields r)), lr_root = rn\<rparr>]\<rparr>"

definition log_action :: "bool \<Rightarrow> obj \<Rightarrow> string" where
  "log_action written r = (if written \<and> json_truth (opt_attr r ''sync'' (JBool True)) then ACTION_CREATE else ACTION_DELETE)"

text \<open>One object. The counts are those before the flush; a root that is about to be reset is not logged.\<close>

definition commit_one :: "maker \<Rightarrow> log_row list \<Rightarrow> bool \<times> obj \<Rightarrow> listener \<Rightarrow> listener result" where
  "commit_one m logs = (\<lambda>(written, r) s.
     (case res_root m r of
        Inl AttributeError \<Rightarrow> Inr s
      | Inl e \<Rightarrow> Inl e
      | Inr None \<Rightarrow> Inr s
      | Inr (Some rn) \<Rightarrow>
          if rn = [] \<or> 0 < get_reset_count rn logs then Inr s
          else Inr (add_log rn (if MAX_EVENTS_PER_ROOT \<le> get_log_count rn logs then ACTION_RESET else log_action written r) r s)))"

definition on_commit :: "maker \<Rightarrow> obj list \<Rightarrow> obj list \<Rightarrow> obj list \<Rightarrow> listener \<Rightarrow> listener result" where
  "on_commit m added updated deleted s =
     fold_res (commit_one m (ls_logs s)) (map (Pair True) (added @ updated) @ map (Pair False) deleted) s"

section \<open>Reading the log\<close>

text \<open>An action on an object, with the log it comes from; recreated trees have no logs.\<close>

type_synonym event = "string \<times> obj \<times> log_row option"

record prep =
  resetting :: "string list"
  by_root :: "(string, event list) dict"
  sg_logs :: "(json, event list) dict"

definition setdefault_extend :: "'k \<Rightarrow> 'v list \<Rightarrow> ('k, 'v list) dict \<Rightarrow> ('k, 'v list) dict" where
  "setdefault_extend k vs d = dict_set k (dict_getd d k [] @ vs) d"

text \<open>A rule with a remote group that no address belongs to.\<close>

definition blocks_all :: "obj \<Rightarrow> bool result" where
  "blocks_all r =
     bind_res (get_attr r ''remote_group_id'') (\<lambda>g. if \<not> json_truth g then Inr False else
     bind_res (get_attr r ''remote_ips'') (\<lambda>ips. if json_truth ips then Inr False else
     bind_res (get_attr r ''tDn'') (\<lambda>dn. Inr (\<not> json_truth dn))))"

text \<open>The object of a log.\<close>

definition logged_obj :: "env \<Rightarrow> log_row \<Rightarrow> (klass \<times> obj) option result" where
  "logged_obj env l =
     (case klass_of env (lr_type l) of
        None \<Rightarrow> Inr None
      | Some k \<Rightarrow> bind_res (json_loads (lr_dict l)) (\<lambda>v. case v of
            JObj kw \<Rightarrow> bind_res (make_obj (conf env) k kw) (\<lambda>r. Inr (Some (k, r)))
          | _ \<Rightarrow> Inl TypeError))"

text \<open>The action for a security group rule, by what the database has of it now.\<close>

definition sg_action :: "listener_env \<Rightarrow> aim_db \<Rightarrow> klass \<Rightarrow> string \<Rightarrow> obj \<Rightarrow> (string \<times> obj) result" where
  "sg_action le db k action r =
     bind_res (aim_get (mk_env (le_maker le)) db k r False) (\<lambda>found. case found of
        Some now \<Rightarrow>
          if action = ACTION_DELETE then Inr (ACTION_SKIP, r)
          else bind_res (if remove_block_all le then blocks_all now else Inr False) (\<lambda>b.
            Inr (if b then ACTION_DELETE else action, now))
      | None \<Rightarrow> Inr (if action \<noteq> ACTION_DELETE then ACTION_SKIP else action, r))"

text \<open>The last of the rules with a name counts, those before it are skipped.\<close>

definition skip_last :: "event list \<Rightarrow> event list" where
  "skip_last es = (if es = [] then [] else butlast es @ [(ACTION_SKIP, snd (last es))])"

definition queue_rule :: "json \<Rightarrow> event \<Rightarrow> (json, event list) dict \<Rightarrow> (json, event list) dict" where
  "queue_rule n e d = dict_set n (skip_last (dict_getd d n []) @ [e]) d"

definition preprocess_one :: "listener_env \<Rightarrow> aim_db \<Rightarrow> log_row \<Rightarrow> prep \<Rightarrow> prep result" where
  "preprocess_one le db l p0 =
     (let p = (if lr_action l = ACTION_RESET then p0\<lparr>resetting := List.insert (lr_root l) (resetting p0)\<rparr> else p0) in
      bind_res (logged_obj (mk_env (le_maker le)) l) (\<lambda>x. case x of
        None \<Rightarrow> Inr p
      | Some (k, r) \<Rightarrow>
          if kname k = ''SecurityGroupRule'' then
            bind_res (sg_action le db k (lr_action l) r) (\<lambda>(action, r').
              if action \<noteq> ACTION_SKIP then
                bind_res (get_attr r' ''name'') (\<lambda>n. Inr (p\<lparr>sg_logs := queue_rule n (action, r', Some l) (sg_logs p)\<rparr>))
              else Inr (p\<lparr>by_root := setdefault_extend (lr_root l) [(action, r', Some l)] (by_root p)\<rparr>))
          else Inr (p\<lparr>by_root := setdefault_extend (lr_root l) [(lr_action l, r, Some l)] (by_root p)\<rparr>)))"

text \<open>All the logs of a rule join those of the root of the last.\<close>

definition add_rules :: "(json, event list) dict \<Rightarrow> (string, event list) dict \<Rightarrow> (string, event list) dict" where
  "add_rules sg d = fold (\<lambda>(n, es) d. case last es of
       (_, _, Some l) \<Rightarrow> setdefault_extend (lr_root l) es d | _ \<Rightarrow> d) sg d"

definition preprocess_logs :: "listener_env \<Rightarrow> aim_db \<Rightarrow> log_row list \<Rightarrow> ((string, event list) dict \<times> string list) result" where
  "preprocess_logs le db logs =
     bind_res (fold_res (preprocess_one le db) logs \<lparr>resetting = [], by_root = [], sg_logs = []\<rparr>) (\<lambda>p.
       Inr (add_rules (sg_logs p) (by_root p), resetting p))"

section \<open>Deleting logs\<close>

definition event_ids :: "event list \<Rightarrow> nat list" where
  "event_ids es = concat (map (\<lambda>(_, _, l). case l of None \<Rightarrow> [] | Some l \<Rightarrow> [lr_id l]) es)"

definition delete_logs :: "event list \<Rightarrow> listener \<Rightarrow> listener" where
  "delete_logs es s = s\<lparr>ls_logs := filter (\<lambda>l. lr_id l \<notin> set (event_ids es)) (ls_logs s)\<rparr>"

definition cleanup_resetting_root :: "string \<Rightarrow> (string, event list) dict \<times> listener \<Rightarrow> ((string, event list) dict \<times> listener) result" where
  "cleanup_resetting_root rn = (\<lambda>(d, s).
     (case dict_get d rn of
        None \<Rightarrow> Inl KeyError
      | Some es \<Rightarrow>
          let s1 = delete_logs es s in
          Inr (dict_set rn [] d, s1\<lparr>ls_trees := set_needs_reset_by_root_rn rn True (ls_trees s1)\<rparr>)))"

definition cleanup_resetting_roots :: "string list \<Rightarrow> (string, event list) dict \<times> listener \<Rightarrow> ((string, event list) dict \<times> listener) result" where
  "cleanup_resetting_roots = fold_res cleanup_resetting_root"

section \<open>From the log to the trees\<close>

definition stored_trees :: "listener_env \<Rightarrow> string \<Rightarrow> tree_db \<Rightarrow> (tree \<times> tree \<times> tree) result" where
  "stored_trees le rn db =
     (case bind_res (tree_get (le_key le) rn ConfigT db) (\<lambda>c.
           bind_res (tree_get (le_key le) rn OperationalT db) (\<lambda>o'.
           bind_res (tree_get (le_key le) rn MonitoredT db) (\<lambda>mo. Inr (c, o', mo)))) of
        Inl (HashTreeNotFound _) \<Rightarrow> Inr (empty_tree, empty_tree, empty_tree)
      | r \<Rightarrow> r)"

definition build_event :: "maker \<Rightarrow> event \<Rightarrow> tree_map \<times> aim_db \<Rightarrow> (tree_map \<times> aim_db) result" where
  "build_event m = (\<lambda>(action, r, _) (tm, db).
     if action = ACTION_SKIP then Inr (tm, db)
     else if action = ACTION_CREATE then build m [r] [] [] tm db
     else build m [] [] [r] tm db)"

definition store_tree :: "listener_env \<Rightarrow> tree_type \<Rightarrow> tree option \<Rightarrow> tree_db \<Rightarrow> tree_db result" where
  "store_tree le ty t db = (case t of
      None \<Rightarrow> Inr db
    | Some t \<Rightarrow> if root_key t = None \<or> root_key t = Some [] then Inr db
        else tree_update (mk_hash (le_maker le)) (le_rn le) t ty db)"

text \<open>The changes of one root.\<close>

definition apply_events :: "listener_env \<Rightarrow> bool \<Rightarrow> string \<Rightarrow> event list \<Rightarrow> listener \<Rightarrow> listener result" where
  "apply_events le delete rn es s =
     bind_res (stored_trees le rn (ls_trees s)) (\<lambda>(c, o', mo).
     bind_res (fold_res (build_event (le_maker le)) es
         (\<lparr>config_trees = [(rn, c)], oper_trees = [(rn, o')], monitor_trees = [(rn, mo)]\<rparr>, ls_db s)) (\<lambda>(tm, db).
     bind_res (store_tree le ConfigT (dict_get (config_trees tm) rn) (ls_trees s)) (\<lambda>d1.
     bind_res (store_tree le OperationalT (dict_get (oper_trees tm) rn) d1) (\<lambda>d2.
     bind_res (store_tree le MonitoredT (dict_get (monitor_trees tm) rn) d2) (\<lambda>d3.
       let s' = s\<lparr>ls_db := db, ls_trees := d3\<rparr> in Inr (if delete then delete_logs es s' else s'))))))"

text \<open>A root that fails is logged, and its transaction keeps the one around it from being committed.\<close>

definition invalid_request :: exc where "invalid_request = OtherError ''InvalidRequestError''"

definition doomed :: "'a result \<Rightarrow> 'a result" where
  "doomed r = (case r of Inl _ \<Rightarrow> Inl invalid_request | x \<Rightarrow> x)"

section \<open>Recreating trees\<close>

primrec class_root :: "nat \<Rightarrow> env \<Rightarrow> klass \<Rightarrow> klass" where
  "class_root 0 env k = k"
| "class_root (Suc n) env k = (case tree_parent k of
     Some (Some p) \<Rightarrow> (case klass_of env p of Some pk \<Rightarrow> class_root n env pk | None \<Rightarrow> k) | _ \<Rightarrow> k)"

definition retrieve_class_root_type :: "env \<Rightarrow> klass \<Rightarrow> string" where
  "retrieve_class_root_type env k = mo_of (class_root (length (classes env)) env k)"

text \<open>\<open>type, name = root_key_funct(root)[0].split('|')\<close>\<close>

definition root_type_name :: "listener_env \<Rightarrow> string \<Rightarrow> (string \<times> string) result" where
  "root_type_name le rn = (case le_key le rn of
      None \<Rightarrow> Inl TypeError
    | Some [] \<Rightarrow> Inl IndexError
    | Some (p # _) \<Rightarrow> (case py_split (CHR ''|'') p of [t, n] \<Rightarrow> Inr (t, n) | _ \<Rightarrow> Inl ValueError))"

text \<open>The objects of one class below a root, or all of them.\<close>

definition class_objs :: "listener_env \<Rightarrow> aim_db \<Rightarrow> (string \<times> string) option \<Rightarrow> klass \<Rightarrow> obj list result" where
  "class_objs le db below k =
     (let env = mk_env (le_maker le) in
      if \<not> is_aci k then Inr []
      else case below of
        None \<Rightarrow> aim_find env db k [] False
      | Some (t, n) \<Rightarrow>
          if retrieve_class_root_type env k \<noteq> t then Inr []
          else if t \<in> set ROOTLESS_TYPES then aim_find env db k [] False
          else bind_res (root_ref_attribute k) (\<lambda>a. aim_find env db k [(a, JStr n)] False))"

text \<open>An object with its status and faults, by root.\<close>

definition recreate_obj :: "listener_env \<Rightarrow> aim_db \<Rightarrow> klass \<Rightarrow> obj \<Rightarrow> (string, event list) dict \<Rightarrow> (string, event list) dict result" where
  "recreate_obj le db k r d =
     bind_res (if remove_block_all le \<and> kname k = ''SecurityGroupRule'' then blocks_all r else Inr False) (\<lambda>b.
     if b then Inr d
     else bind_res (get_status (mk_env (le_maker le)) k r False db) (\<lambda>(stat, _).
       if \<not> json_truth (opt_attr r ''sync'' (JBool True)) then Inr d
       else bind_res (obj_root (api (mk_env (le_maker le))) k r) (\<lambda>rn.
         Inr (setdefault_extend rn (map (\<lambda>x. (ACTION_CREATE, x, None))
           ((case stat of None \<Rightarrow> [] | Some (st, faults) \<Rightarrow> st # faults) @ [r])) d))))"

definition recreate_events :: "listener_env \<Rightarrow> aim_db \<Rightarrow> (string \<times> string) option \<Rightarrow> (string, event list) dict result" where
  "recreate_events le db below =
     fold_res (\<lambda>k d. bind_res (class_objs le db below k) (\<lambda>os. fold_res (recreate_obj le db k) os d))
       (classes (mk_env (le_maker le))) []"

definition delete_trees :: "string option \<Rightarrow> tree_db \<Rightarrow> tree_db" where
  "delete_trees below db = (case below of Some rn \<Rightarrow> if rn = [] then clean_all db else clean_by_root_rn rn db | None \<Rightarrow> clean_all db)"

definition recreate_trees :: "listener_env \<Rightarrow> string option \<Rightarrow> listener \<Rightarrow> listener result" where
  "recreate_trees le below s =
     bind_res (case below of None \<Rightarrow> Inr None | Some rn \<Rightarrow> if rn = [] then Inr None else
         bind_res (root_type_name le rn) (\<lambda>x. Inr (Some x))) (\<lambda>tn.
     bind_res (recreate_events le (ls_db s) tn) (\<lambda>d.
       doomed (fold_res (\<lambda>(rn, es). apply_events le False rn es) d s)))"

text \<open>Statuses whose object is gone or has another root.\<close>

definition zombie :: "maker \<Rightarrow> aim_db \<Rightarrow> obj \<Rightarrow> bool result" where
  "zombie m db st =
     bind_res (status_parent m db st) (\<lambda>parent. case parent of
        None \<Rightarrow> Inr True
      | Some p \<Rightarrow> bind_res (res_root m p) (\<lambda>rt. Inr (rt \<noteq> map_option py_str (lookup_attr st ''resource_root''))))"

definition statuses_of :: "env \<Rightarrow> aim_db \<Rightarrow> string list option \<Rightarrow> obj list result" where
  "statuses_of env db roots =
     bind_res (aim_find env db AciStatus [] False) (\<lambda>sts. Inr (case roots of
        None \<Rightarrow> sts
      | Some rns \<Rightarrow> filter (\<lambda>st. opt_attr st ''resource_root'' JNull \<in> set (map JStr rns)) sts))"

definition cleanup_zombie_status_objects :: "maker \<Rightarrow> string list option \<Rightarrow> aim_db \<Rightarrow> aim_db result" where
  "cleanup_zombie_status_objects m roots db =
     bind_res (statuses_of (mk_env m) db roots) (\<lambda>sts.
     bind_res (traverse_res (\<lambda>st. bind_res (zombie m db st) (\<lambda>z.
         if z then bind_res (get_attr st ''id'') (\<lambda>i. Inr [i]) else Inr [])) sts) (\<lambda>ids.
       Inr (db\<lparr>tables := filter (\<lambda>(c, r). \<not> (c = ''AciStatus'' \<and> dict_getd r ''id'' JNull \<in> set (concat ids))) (tables db)\<rparr>)))"

definition reset_trees :: "listener_env \<Rightarrow> string option \<Rightarrow> listener \<Rightarrow> listener result" where
  "reset_trees le below s =
     bind_res (cleanup_zombie_status_objects (le_maker le) (Some (case below of None \<Rightarrow> [] | Some rn \<Rightarrow> [rn])) (ls_db s)) (\<lambda>db.
       recreate_trees le below (s\<lparr>ls_db := db, ls_trees := delete_trees below (ls_trees s)\<rparr>))"

section \<open>Catching up\<close>

text \<open>A root that is marked is reset; its logs stay for the next time.\<close>

definition push_root :: "listener_env \<Rightarrow> string \<times> event list \<Rightarrow> listener \<Rightarrow> listener result" where
  "push_root le = (\<lambda>(rn, es) s.
     if get_base_tree rn (ls_trees s) = Some True then reset_trees le (Some rn) s
     else apply_events le True rn es s)"

definition push_changes_to_trees :: "listener_env \<Rightarrow> (string, event list) dict \<Rightarrow> listener \<Rightarrow> listener result" where
  "push_changes_to_trees le d s = doomed (fold_res (push_root le) d s)"

definition validate_config_tree :: "listener_env \<Rightarrow> string \<Rightarrow> listener \<Rightarrow> listener result" where
  "validate_config_tree le rn s =
     bind_res (tree_get (le_key le) rn ConfigT (ls_trees s)) (\<lambda>_.
     bind_res (reset_trees le (Some rn) s) (\<lambda>s'.
     bind_res (tree_get (le_key le) rn ConfigT (ls_trees s')) (\<lambda>_. Inr s')))"

definition retrieve_uninitialized_roots :: "listener \<Rightarrow> string list" where
  "retrieve_uninitialized_roots s =
     remdups (map lr_root (filter (\<lambda>l. lr_root l \<notin> set (map fst (bases (ls_trees s)))) (ls_logs s)))"

text \<open>The transaction of one root, or of all logs when no root is served.\<close>

definition catch_up_logs :: "listener_env \<Rightarrow> log_row list \<Rightarrow> listener \<Rightarrow> listener result" where
  "catch_up_logs le logs s =
     bind_res (preprocess_logs le (ls_db s) logs) (\<lambda>(d, rs).
     bind_res (cleanup_resetting_roots rs (d, s)) (\<lambda>(d', s1).
     bind_res (push_changes_to_trees le d' s1) (\<lambda>s2.
       if validate_trees le then fold_res (validate_config_tree le) (map fst d') s2 else Inr s2)))"

text \<open>\<open>order_by=['root_rn', 'id']\<close>: the rows are in the order of their ids.\<close>

definition ordered_logs :: "log_row list \<Rightarrow> log_row list" where
  "ordered_logs logs = sort_key lr_root logs"

fun catch_up_roots :: "listener_env \<Rightarrow> string list \<Rightarrow> listener \<Rightarrow> exc option \<times> listener" where
  "catch_up_roots le [] s = (None, s)"
| "catch_up_roots le (rn # rns) s =
     (case catch_up_logs le (filter (\<lambda>l. lr_root l = rn) (ls_logs s)) s of
        Inl e \<Rightarrow> (Some e, s)
      | Inr s' \<Rightarrow> catch_up_roots le rns s')"

definition catch_up_with_action_log :: "listener_env \<Rightarrow> (string set \<Rightarrow> string list) \<Rightarrow> string set \<Rightarrow> listener \<Rightarrow> exc option \<times> listener" where
  "catch_up_with_action_log le ord served s =
     (let rns = ord (served \<union> set (retrieve_uninitialized_roots s)) in
      if rns = [] then (case catch_up_logs le (ordered_logs (ls_logs s)) s of Inl e \<Rightarrow> (Some e, s) | Inr s' \<Rightarrow> (None, s'))
      else catch_up_roots le rns s)"

end
