(* ===== verification/Action_Log_Props.thy ===== *)
theory Action_Log_Props
  imports Action_Log Tree_Converter Tree_Manager_Props "HOL-Library.Multiset"
begin

text \<open>
  The log of a root stays bounded, every log is consumed exactly once, and what becomes of a reset that was
  requested for a root whose trees do not exist yet.
\<close>

section \<open>Bounds of the log\<close>

fun commit_all :: "maker \<Rightarrow> (obj list \<times> obj list \<times> obj list) list \<Rightarrow> listener \<Rightarrow> listener result" where
  "commit_all m [] s = Inr s"
| "commit_all m ((a, u, d) # cs) s = bind_res (on_commit m a u d s) (commit_all m cs)"

text \<open>What one flush adds to the log of a root.\<close>

definition added_to :: "string \<Rightarrow> log_row list \<Rightarrow> nat \<Rightarrow> listener \<Rightarrow> bool" where
  "added_to rn logs n s \<longleftrightarrow> (\<exists>new. ls_logs s = logs @ new \<and> get_log_count rn new \<le> n \<and>
     (0 < get_reset_count rn logs \<longrightarrow> get_log_count rn new = 0) \<and>
     (MAX_EVENTS_PER_ROOT \<le> get_log_count rn logs \<longrightarrow> get_reset_count rn new = get_log_count rn new))"

lemma added_none: "ls_logs s = logs \<Longrightarrow> added_to rn logs 0 s"
  by (simp add: added_to_def get_log_count_def get_reset_count_def)

lemma commit_one_result:
  assumes "commit_one m logs (written, r) s = Inr s'"
  shows "s' = s \<or> (\<exists>rn a. get_reset_count rn logs = 0 \<and> (MAX_EVENTS_PER_ROOT \<le> get_log_count rn logs \<longrightarrow> a = ACTION_RESET) \<and>
    s' = add_log rn a r s)"
proof (cases "res_root m r")
  case (Inl e)
  then show ?thesis using assms by (cases e) (simp_all add: commit_one_def)
next
  case (Inr x)
  show ?thesis
  proof (cases x)
    case None
    then show ?thesis using assms Inr by (simp add: commit_one_def)
  next
    case (Some rn)
    show ?thesis
    proof (cases "rn = [] \<or> 0 < get_reset_count rn logs")
      case True
      then show ?thesis using assms Inr Some by (simp add: commit_one_def)
    next
      case False
      define a where "a = (if MAX_EVENTS_PER_ROOT \<le> get_log_count rn logs then ACTION_RESET else log_action written r)"
      have "s' = add_log rn a r s"
        using assms Inr Some False by (simp add: commit_one_def a_def)
      moreover have "get_reset_count rn logs = 0" using False by simp
      moreover have "MAX_EVENTS_PER_ROOT \<le> get_log_count rn logs \<longrightarrow> a = ACTION_RESET" by (simp add: a_def)
      ultimately show ?thesis by blast
    qed
  qed
qed

lemma added_to_mono: "added_to rn logs n s \<Longrightarrow> added_to rn logs (Suc n) s"
  unfolding added_to_def by (elim exE conjE, rule exI) (intro conjI, assumption, rule le_SucI)

lemma added_one:
  assumes "added_to rn logs n s" "get_reset_count rn' logs = 0"
    and "MAX_EVENTS_PER_ROOT \<le> get_log_count rn' logs \<longrightarrow> a = ACTION_RESET"
  shows "added_to rn logs (Suc n) (add_log rn' a r s)"
proof -
  obtain new where new: "ls_logs s = logs @ new" "get_log_count rn new \<le> n"
    "0 < get_reset_count rn logs \<longrightarrow> get_log_count rn new = 0"
    "MAX_EVENTS_PER_ROOT \<le> get_log_count rn logs \<longrightarrow> get_reset_count rn new = get_log_count rn new"
    using assms(1) unfolding added_to_def by (elim exE conjE) (rule that)
  define l where "l = \<lparr>lr_id = ls_next s, lr_action = a, lr_type = oclass r, lr_dict = json_dumps (JObj (ofields r)), lr_root = rn'\<rparr>"
  have l: "ls_logs (add_log rn' a r s) = logs @ new @ [l]" "lr_root l = rn'" "lr_action l = a"
    using new(1) by (simp_all add: add_log_def l_def)
  have c: "get_log_count rn (new @ [l]) = get_log_count rn new + (if rn' = rn then 1 else 0)"
    "get_reset_count rn (new @ [l]) = get_reset_count rn new + (if rn' = rn \<and> a = ACTION_RESET then 1 else 0)"
    using l(2,3) by (simp_all add: get_log_count_def get_reset_count_def)
  show ?thesis
    unfolding added_to_def
    by (rule exI [of _ "new @ [l]"]; cases "rn' = rn") (use new(2-) assms(2,3) l(1) in \<open>simp_all add: c\<close>)
qed

lemma commit_one_adds:
  assumes "added_to rn logs n s" "commit_one m logs x s = Inr s'"
  shows "added_to rn logs (Suc n) s'"
proof -
  obtain written r where x: "x = (written, r)" by (cases x)
  from commit_one_result [OF assms(2) [unfolded x]] show ?thesis
  proof
    assume "s' = s"
    then show ?thesis using assms(1) by (simp add: added_to_mono)
  next
    assume "\<exists>rn a. get_reset_count rn logs = 0 \<and> (MAX_EVENTS_PER_ROOT \<le> get_log_count rn logs \<longrightarrow> a = ACTION_RESET) \<and>
      s' = add_log rn a r s"
    then show ?thesis using added_one [OF assms(1)] by blast
  qed
qed

lemma commits_add:
  "\<lbrakk>fold_res (commit_one m logs) xs s = Inr s'; added_to rn logs n s\<rbrakk> \<Longrightarrow> added_to rn logs (n + length xs) s'"
proof (induction xs arbitrary: s n)
  case (Cons x xs)
  then obtain s1 where 1: "commit_one m logs x s = Inr s1" "fold_res (commit_one m logs) xs s1 = Inr s'" by auto
  from Cons.IH [OF 1(2) commit_one_adds [OF Cons.prems(2) 1(1)]] show ?case by simp
qed simp

definition rows_bounded :: "nat \<Rightarrow> string \<Rightarrow> log_row list \<Rightarrow> bool" where
  "rows_bounded B rn logs \<longleftrightarrow> get_log_count rn logs < MAX_EVENTS_PER_ROOT + 2 * B \<and>
     (get_reset_count rn logs = 0 \<longrightarrow> get_log_count rn logs < MAX_EVENTS_PER_ROOT + B)"

lemma rows_bounded_commit:
  assumes "on_commit m a u d s = Inr s'" "length a + length u + length d \<le> B" "rows_bounded B rn (ls_logs s)"
  shows "rows_bounded B rn (ls_logs s')"
proof -
  let ?n = "length (map (Pair True) (a @ u) @ map (Pair False) d)"
  have "added_to rn (ls_logs s) (0 + ?n) s'"
    using assms(1) unfolding on_commit_def by (rule commits_add) (rule added_none, rule refl)
  then obtain new where new: "ls_logs s' = ls_logs s @ new" "get_log_count rn new \<le> ?n"
    "0 < get_reset_count rn (ls_logs s) \<longrightarrow> get_log_count rn new = 0"
    "MAX_EVENTS_PER_ROOT \<le> get_log_count rn (ls_logs s) \<longrightarrow> get_reset_count rn new = get_log_count rn new"
    unfolding added_to_def by auto
  have c: "get_log_count rn (ls_logs s') = get_log_count rn (ls_logs s) + get_log_count rn new"
    "get_reset_count rn (ls_logs s') = get_reset_count rn (ls_logs s) + get_reset_count rn new"
    using new(1) by (simp_all add: get_log_count_def get_reset_count_def)
  show ?thesis using assms(2,3) new(2-) unfolding rows_bounded_def c by auto
qed

text \<open>C5. However many changes are committed while nothing reads the log, a root never has more rows than the limit
  and two flushes allow: the flush that crosses the limit, and the one that asks for the reset, after which
  the root is not logged any more.\<close>

theorem log_bounded:
  assumes "commit_all m cs s = Inr s'" "list_all (\<lambda>(a, u, d). length a + length u + length d \<le> B) cs" "ls_logs s = []"
  shows "get_log_count rn (ls_logs s') < MAX_EVENTS_PER_ROOT + 2 * B"
proof -
  have "rows_bounded B rn (ls_logs s)" using assms(3) by (simp add: rows_bounded_def get_log_count_def MAX_EVENTS_PER_ROOT_def)
  then have "rows_bounded B rn (ls_logs s')" using assms(1,2)
    by (induction m cs s rule: commit_all.induct) (auto intro: rows_bounded_commit)
  then show ?thesis by (simp add: rows_bounded_def)
qed

section \<open>Every log once\<close>

definition known :: "env \<Rightarrow> log_row \<Rightarrow> bool" where
  "known env l \<longleftrightarrow> klass_of env (lr_type l) \<noteq> None"

definition all_ids :: "('k, event list) dict \<Rightarrow> nat list" where
  "all_ids d = concat (map (event_ids \<circ> snd) d)"

lemma event_ids_simps [simp]:
  "event_ids [] = []" "event_ids (es @ es') = event_ids es @ event_ids es'"
  "event_ids ((a, r, l) # es) = (case l of None \<Rightarrow> [] | Some l \<Rightarrow> [lr_id l]) @ event_ids es"
  by (simp_all add: event_ids_def)

lemma skip_last_ids [simp]: "event_ids (skip_last es) = event_ids es"
proof (cases es rule: rev_cases)
  case (snoc ys y)
  then show ?thesis by (cases y) (simp add: skip_last_def)
qed (simp add: skip_last_def)

lemma ids_set:
  "mset (event_ids v) = mset (event_ids (dict_getd d k [])) + M \<Longrightarrow> mset (all_ids (dict_set k v d)) = mset (all_ids d) + M"
  by (induction d) (auto simp: all_ids_def dict_getd_def)

lemma ids_extend: "mset (all_ids (setdefault_extend k vs d)) = mset (all_ids d) + mset (event_ids vs)"
  unfolding setdefault_extend_def by (rule ids_set) simp

lemma ids_queue: "mset (all_ids (queue_rule n e d)) = mset (all_ids d) + mset (event_ids [e])"
  unfolding queue_rule_def by (rule ids_set) simp

text \<open>What holds of the dictionaries while the logs are read; \<open>R\<close> are the roots of the logs.\<close>

definition ends_in :: "string set \<Rightarrow> event list \<Rightarrow> bool" where
  "ends_in R es \<longleftrightarrow> (\<exists>a r l. last es = (a, r, Some l) \<and> lr_root l \<in> R)"

definition rules_ok :: "string set \<Rightarrow> (json, event list) dict \<Rightarrow> bool" where
  "rules_ok R d \<longleftrightarrow> (\<forall>(n, es) \<in> set d. ends_in R es)"

lemma set_dict_set: "x \<in> set (dict_set k v d) \<Longrightarrow> x = (k, v) \<or> x \<in> set d"
  by (induction d) (auto split: if_split_asm)

lemma rules_ok_queue:
  assumes "rules_ok R d" "lr_root l \<in> R"
  shows "rules_ok R (queue_rule n (a, r, Some l) d)"
proof -
  have "ends_in R es" if "(n', es) \<in> set (queue_rule n (a, r, Some l) d)" for n' es
    using set_dict_set [OF that [unfolded queue_rule_def]] assms by (auto simp: rules_ok_def ends_in_def)
  then show ?thesis by (auto simp: rules_ok_def)
qed

definition roots_ok :: "string set \<Rightarrow> (string, event list) dict \<Rightarrow> bool" where
  "roots_ok R d \<longleftrightarrow> dict_ok d \<and> fst ` set d \<subseteq> R"

lemma roots_ok_extend: "roots_ok R d \<Longrightarrow> rn \<in> R \<Longrightarrow> roots_ok R (setdefault_extend rn es d)"
  by (auto simp: roots_ok_def setdefault_extend_def dom_update)

lemma add_rules_result:
  assumes "rules_ok R sg" "roots_ok R d"
  shows "mset (all_ids (add_rules sg d)) = mset (all_ids d) + mset (all_ids sg) \<and> roots_ok R (add_rules sg d)"
  using assms
proof (induction sg arbitrary: d)
  case Nil
  then show ?case by (simp add: add_rules_def all_ids_def)
next
  case (Cons x sg)
  obtain n es where x: "x = (n, es)" by (cases x)
  then obtain a r l where l: "last es = (a, r, Some l)" "lr_root l \<in> R"
    using Cons.prems(1) by (auto simp: rules_ok_def ends_in_def)
  let ?d = "setdefault_extend (lr_root l) es d"
  have "rules_ok R sg" using Cons.prems(1) by (simp add: rules_ok_def)
  moreover have "roots_ok R ?d" using Cons.prems(2) l(2) by (rule roots_ok_extend)
  moreover have "add_rules (x # sg) d = add_rules sg ?d" using l(1) x by (simp add: add_rules_def)
  moreover have "all_ids (x # sg) = event_ids es @ all_ids sg" using x by (simp add: all_ids_def)
  ultimately show ?case using Cons.IH [of ?d] by (simp add: ids_extend)
qed

definition prep_ok :: "env \<Rightarrow> string set \<Rightarrow> log_row list \<Rightarrow> prep \<Rightarrow> bool" where
  "prep_ok env R logs p \<longleftrightarrow> rules_ok R (sg_logs p) \<and> roots_ok R (by_root p) \<and>
     mset (all_ids (by_root p)) + mset (all_ids (sg_logs p)) = mset (map lr_id (filter (known env) logs)) \<and>
     distinct (resetting p) \<and> set (resetting p) = lr_root ` {l \<in> set logs. lr_action l = ACTION_RESET}"

lemma logged_obj_Some: "\<lbrakk>logged_obj env l = Inr x; klass_of env (lr_type l) = Some k\<rbrakk> \<Longrightarrow> \<exists>r. x = Some (k, r)"
proof -
  assume run: "logged_obj env l = Inr x" and k: "klass_of env (lr_type l) = Some k"
  then obtain v where v: "json_loads (lr_dict l) = Inr v" by (auto simp: logged_obj_def)
  show ?thesis using run k v by (cases v) (auto simp: logged_obj_def)
qed

lemma preprocess_one_result:
  assumes "preprocess_one le db l p = Inr p'"
  defines "env \<equiv> mk_env (le_maker le)"
    and "q \<equiv> (if lr_action l = ACTION_RESET then p\<lparr>resetting := List.insert (lr_root l) (resetting p)\<rparr> else p)"
  shows "\<not> known env l \<and> p' = q \<or>
    known env l \<and> (\<exists>a r n. p' = q\<lparr>sg_logs := queue_rule n (a, r, Some l) (sg_logs q)\<rparr>) \<or>
    known env l \<and> (\<exists>a r. p' = q\<lparr>by_root := setdefault_extend (lr_root l) [(a, r, Some l)] (by_root q)\<rparr>)"
proof -
  have e: "preprocess_one le db l p = bind_res (logged_obj env l) (\<lambda>x. case x of
        None \<Rightarrow> Inr q
      | Some (k, r) \<Rightarrow>
          if kname k = ''SecurityGroupRule'' then
            bind_res (sg_action le db k (lr_action l) r) (\<lambda>(action, r').
              if action \<noteq> ACTION_SKIP then
                bind_res (get_attr r' ''name'') (\<lambda>n. Inr (q\<lparr>sg_logs := queue_rule n (action, r', Some l) (sg_logs q)\<rparr>))
              else Inr (q\<lparr>by_root := setdefault_extend (lr_root l) [(action, r', Some l)] (by_root q)\<rparr>))
          else Inr (q\<lparr>by_root := setdefault_extend (lr_root l) [(lr_action l, r, Some l)] (by_root q)\<rparr>))"
    unfolding preprocess_one_def env_def q_def Let_def by (rule refl)
  note run = assms(1) [unfolded e]
  show ?thesis
  proof (cases "klass_of env (lr_type l)")
    case None
    then show ?thesis using run by (simp add: logged_obj_def known_def)
  next
    case (Some k)
    obtain x where "logged_obj env l = Inr x" using run by (cases "logged_obj env l") simp_all
    with logged_obj_Some Some obtain r where r: "logged_obj env l = Inr (Some (k, r))" by blast
    have known: "known env l" using Some by (simp add: known_def)
    show ?thesis
    proof (cases "kname k = ''SecurityGroupRule''")
      case True
      then obtain a r' where a: "sg_action le db k (lr_action l) r = Inr (a, r')"
        using run r by (cases "sg_action le db k (lr_action l) r") auto
      show ?thesis
      proof (cases "a = ACTION_SKIP")
        case True
        then have "p' = q\<lparr>by_root := setdefault_extend (lr_root l) [(a, r', Some l)] (by_root q)\<rparr>"
          using run r a \<open>kname k = _\<close> by simp
        with known show ?thesis by blast
      next
        case False
        then obtain n where "p' = q\<lparr>sg_logs := queue_rule n (a, r', Some l) (sg_logs q)\<rparr>"
          using run r a \<open>kname k = _\<close> by auto
        with known show ?thesis by blast
      qed
    next
      case False
      then have "p' = q\<lparr>by_root := setdefault_extend (lr_root l) [(lr_action l, r, Some l)] (by_root q)\<rparr>"
        using run r by simp
      with known show ?thesis by blast
    qed
  qed
qed

lemma prep_ok_step:
  assumes "prep_ok (mk_env (le_maker le)) R logs p" "preprocess_one le db l p = Inr p'" "lr_root l \<in> R"
  shows "prep_ok (mk_env (le_maker le)) R (logs @ [l]) p'"
proof -
  let ?env = "mk_env (le_maker le)"
  define q where "q = (if lr_action l = ACTION_RESET then p\<lparr>resetting := List.insert (lr_root l) (resetting p)\<rparr> else p)"
  have q: "sg_logs q = sg_logs p" "by_root q = by_root p"
    "distinct (resetting q)" "set (resetting q) = lr_root ` {x \<in> set (logs @ [l]). lr_action x = ACTION_RESET}"
    using assms(1) by (auto simp: q_def prep_ok_def)
  from preprocess_one_result [OF assms(2), folded q_def] consider "\<not> known ?env l" "p' = q"
    | a r n where "known ?env l" "p' = q\<lparr>sg_logs := queue_rule n (a, r, Some l) (sg_logs q)\<rparr>"
    | a r where "known ?env l" "p' = q\<lparr>by_root := setdefault_extend (lr_root l) [(a, r, Some l)] (by_root q)\<rparr>"
    by blast
  then show ?thesis
  proof cases
    case 1
    with assms(1) q show ?thesis by (auto simp: prep_ok_def)
  next
    case 2
    have "rules_ok R (queue_rule n (a, r, Some l) (sg_logs q))"
      using assms(1,3) q(1) by (intro rules_ok_queue) (simp_all add: prep_ok_def)
    with 2 assms(1) q show ?thesis by (simp add: prep_ok_def ids_queue)
  next
    case 3
    have "roots_ok R (setdefault_extend (lr_root l) [(a, r, Some l)] (by_root q))"
      using assms(1,3) q(2) by (intro roots_ok_extend) (simp_all add: prep_ok_def)
    with 3 assms(1) q show ?thesis by (simp add: prep_ok_def ids_extend)
  qed
qed

lemma prep_ok_fold:
  "\<lbrakk>fold_res (preprocess_one le db) ls p = Inr p'; prep_ok (mk_env (le_maker le)) R logs p; lr_root ` set ls \<subseteq> R\<rbrakk> \<Longrightarrow>
    prep_ok (mk_env (le_maker le)) R (logs @ ls) p'"
proof (induction ls arbitrary: p logs)
  case (Cons l ls)
  then obtain p1 where "preprocess_one le db l p = Inr p1" "fold_res (preprocess_one le db) ls p1 = Inr p'" by auto
  with Cons.IH [of p1 "logs @ [l]"] Cons.prems prep_ok_step show ?case by simp
qed simp

lemma preprocess_result:
  assumes "preprocess_logs le db logs = Inr (d, rs)" "lr_root ` set logs \<subseteq> R"
  shows "mset (all_ids d) = mset (map lr_id (filter (known (mk_env (le_maker le))) logs))" "roots_ok R d"
    "distinct rs" "set rs = lr_root ` {l \<in> set logs. lr_action l = ACTION_RESET}"
proof -
  obtain p where p: "fold_res (preprocess_one le db) logs \<lparr>resetting = [], by_root = [], sg_logs = []\<rparr> = Inr p"
    "d = add_rules (sg_logs p) (by_root p)" "rs = resetting p"
    using assms(1) by (auto simp: preprocess_logs_def)
  have "prep_ok (mk_env (le_maker le)) R ([] @ logs) p"
    by (rule prep_ok_fold [OF p(1) _ assms(2)]) (simp add: prep_ok_def rules_ok_def roots_ok_def dict_ok_def all_ids_def)
  then show "mset (all_ids d) = mset (map lr_id (filter (known (mk_env (le_maker le))) logs))" "roots_ok R d"
    "distinct rs" "set rs = lr_root ` {l \<in> set logs. lr_action l = ACTION_RESET}"
    using add_rules_result [of R "sg_logs p" "by_root p"] unfolding p(2,3) prep_ok_def by simp_all
qed

section \<open>Logs are consumed\<close>

lemma doomed_result: "doomed r = Inr s \<longleftrightarrow> r = Inr s"
  by (cases r) (simp_all add: doomed_def)

lemma apply_events_logs:
  "apply_events le dl rn es s = Inr s' \<Longrightarrow>
    ls_logs s' = (if dl then filter (\<lambda>l. lr_id l \<notin> set (event_ids es)) (ls_logs s) else ls_logs s)"
  by (cases dl) (auto simp: apply_events_def delete_logs_def Let_def)

lemma recreate_trees_logs: "recreate_trees le t s = Inr s' \<Longrightarrow> ls_logs s' = ls_logs s"
  unfolding recreate_trees_def
  by (elim bind_res_Inr [THEN iffD1, THEN exE], simp only: bind_res_Inr doomed_result)
    (auto elim!: fold_res_invariant [where I = "\<lambda>u. ls_logs u = ls_logs s", rotated] dest!: apply_events_logs)

lemma reset_trees_logs: "reset_trees le t s = Inr s' \<Longrightarrow> ls_logs s' = ls_logs s"
  by (auto simp: reset_trees_def dest!: recreate_trees_logs)

lemma validate_logs: "validate_config_tree le rn s = Inr s' \<Longrightarrow> ls_logs s' = ls_logs s"
  by (auto simp: validate_config_tree_def dest!: reset_trees_logs)

lemma validate_all_logs: "fold_res (validate_config_tree le) rns s = Inr s' \<Longrightarrow> ls_logs s' = ls_logs s"
  by (induction rns arbitrary: s) (auto dest: validate_logs)

text \<open>The logs of one root make one entry, or none.\<close>

lemma one_root: "roots_ok {rn} d \<Longrightarrow> d = [] \<or> (\<exists>es. d = [(rn, es)])"
  by (cases d rule: remdups_adj.cases) (auto simp: roots_ok_def dict_ok_def)

lemma logs_of_root:
  assumes "distinct (map lr_id logs)" "set ids = lr_id ` {l \<in> set logs. lr_root l = rn \<and> known env l}"
  shows "filter (\<lambda>l. lr_id l \<notin> set ids) logs = filter (\<lambda>l. lr_root l \<noteq> rn \<or> \<not> known env l) logs"
proof (rule filter_cong [OF refl])
  fix l assume "l \<in> set logs"
  moreover have "inj_on lr_id (set logs)" using assms(1) by (simp add: distinct_map)
  ultimately show "lr_id l \<notin> set ids \<longleftrightarrow> lr_root l \<noteq> rn \<or> \<not> known env l"
    unfolding assms(2) by (auto simp: inj_on_def)
qed

text \<open>What a transaction makes of the logs of a root, step by step.\<close>

lemma catch_up_steps:
  assumes "catch_up_logs le logs s = Inr s'" "lr_root ` set logs \<subseteq> {rn}"
  obtains d rs d' s1 s2 where
    "mset (all_ids d) = mset (map lr_id (filter (known (mk_env (le_maker le))) logs))"
    "d = [] \<or> (\<exists>es. d = [(rn, es)])"
    "rs = (if \<exists>l \<in> set logs. lr_action l = ACTION_RESET then [rn] else [])"
    "cleanup_resetting_roots rs (d, s) = Inr (d', s1)" "fold_res (push_root le) d' s1 = Inr s2"
    "if validate_trees le then fold_res (validate_config_tree le) (map fst d') s2 = Inr s' else s' = s2"
proof -
  obtain d rs d' s1 s2 where steps: "preprocess_logs le (ls_db s) logs = Inr (d, rs)"
    "cleanup_resetting_roots rs (d, s) = Inr (d', s1)" "push_changes_to_trees le d' s1 = Inr s2"
    "if validate_trees le then fold_res (validate_config_tree le) (map fst d') s2 = Inr s' else s' = s2"
    using assms(1) unfolding catch_up_logs_def by (auto split: if_split_asm)
  note pre = preprocess_result [OF steps(1) assms(2)]
  have "rs = (if \<exists>l \<in> set logs. lr_action l = ACTION_RESET then [rn] else [])"
  proof (cases "\<exists>l \<in> set logs. lr_action l = ACTION_RESET")
    case True
    then have "set rs = {rn}" using pre(4) assms(2) by auto
    then have "rs = [rn]" using pre(3) by (cases rs rule: remdups_adj.cases) auto
    with True show ?thesis by simp
  next
    case False
    then have "set rs = {}" using pre(4) by auto
    then show ?thesis using False by simp
  qed
  moreover have "fold_res (push_root le) d' s1 = Inr s2" using steps(3) by (simp add: push_changes_to_trees_def doomed_result)
  ultimately show thesis using that pre(1) one_root [OF pre(2)] steps(2,4) by blast
qed

lemma consumed:
  assumes run: "catch_up_logs le (filter (\<lambda>l. lr_root l = rn) (ls_logs s)) s = Inr s'"
    and ids: "distinct (map lr_id (ls_logs s))"
    and base: "get_base_tree rn (ls_trees s) \<noteq> Some True \<or> 0 < get_reset_count rn (ls_logs s)"
  shows "ls_logs s' = filter (\<lambda>l. lr_root l \<noteq> rn \<or> \<not> known (mk_env (le_maker le)) l) (ls_logs s)"
proof -
  let ?env = "mk_env (le_maker le)"
  let ?logs = "filter (\<lambda>l. lr_root l = rn) (ls_logs s)"
  have "lr_root ` set ?logs \<subseteq> {rn}" by auto
  from run this obtain d rs d' s1 s2 where st:
    "mset (all_ids d) = mset (map lr_id (filter (known ?env) ?logs))" "d = [] \<or> (\<exists>es. d = [(rn, es)])"
    "rs = (if \<exists>l \<in> set ?logs. lr_action l = ACTION_RESET then [rn] else [])"
    "cleanup_resetting_roots rs (d, s) = Inr (d', s1)" "fold_res (push_root le) d' s1 = Inr s2"
    "if validate_trees le then fold_res (validate_config_tree le) (map fst d') s2 = Inr s' else s' = s2"
    by (rule catch_up_steps)
  have "ls_logs s' = ls_logs s2"
    using st(6) validate_all_logs by (cases "validate_trees le") simp_all
  moreover have "set (all_ids d) = lr_id ` {l \<in> set (ls_logs s). lr_root l = rn \<and> known ?env l}"
    using arg_cong [OF st(1), of set_mset] by auto
  moreover have "ls_logs s2 = filter (\<lambda>l. lr_id l \<notin> set (all_ids d)) (ls_logs s)"
  proof (cases "\<exists>l \<in> set ?logs. lr_action l = ACTION_RESET")
    case True
    then obtain es where d: "d = [(rn, es)]" "d' = [(rn, [])]" "ls_logs s1 = filter (\<lambda>l. lr_id l \<notin> set (event_ids es)) (ls_logs s)"
      using st(2-4) by (auto simp: cleanup_resetting_roots_def cleanup_resetting_root_def Let_def delete_logs_def)
    have "ls_logs s2 = ls_logs s1"
      using st(5) d(2) by (auto simp: push_root_def split: if_split_asm dest: reset_trees_logs apply_events_logs)
    then show ?thesis using d by (simp add: all_ids_def)
  next
    case False
    then have "get_base_tree rn (ls_trees s) \<noteq> Some True" using base by (auto simp: get_reset_count_def filter_empty_conv)
    moreover have "d' = d" "s1 = s" using False st(3,4) by (simp_all add: cleanup_resetting_roots_def)
    ultimately show ?thesis
      using st(2,5) by (auto simp: push_root_def all_ids_def dest!: apply_events_logs)
  qed
  ultimately show ?thesis using logs_of_root [OF ids] by simp
qed

text \<open>C6. After a transaction that succeeds, the log of its root holds nothing but rows of classes that are not
  known; the rows of other roots stay. Only a root that was marked for a reset by someone else keeps its
  rows until the next time.\<close>

theorem logs_consumed:
  assumes "catch_up_logs le (filter (\<lambda>l. lr_root l = rn) (ls_logs s)) s = Inr s'" "distinct (map lr_id (ls_logs s))"
    and "get_base_tree rn (ls_trees s) \<noteq> Some True \<or> 0 < get_reset_count rn (ls_logs s)"
  shows "ls_logs s' = filter (\<lambda>l. lr_root l \<noteq> rn \<or> klass_of (mk_env (le_maker le)) (lr_type l) = None) (ls_logs s)"
  using consumed [OF assms] by (simp add: known_def)

section \<open>A reset that is lost\<close>

text \<open>C27. A reset of a root that has no trees yet is lost with all the changes it stands for: the rows of the log
  are deleted, the trees stay as they are, and nothing is marked.\<close>

theorem reset_of_new_root_lost:
  assumes "catch_up_logs le (filter (\<lambda>l. lr_root l = rn) (ls_logs s)) s = Inr s'" "distinct (map lr_id (ls_logs s))"
    and "0 < get_reset_count rn (ls_logs s)" "dict_get (bases (ls_trees s)) rn = None"
    and "dict_get (config_rows (ls_trees s)) rn = None" "\<not> validate_trees le"
  shows "ls_trees s' = ls_trees s \<and> ls_db s' = ls_db s \<and>
    ls_logs s' = filter (\<lambda>l. lr_root l \<noteq> rn \<or> klass_of (mk_env (le_maker le)) (lr_type l) = None) (ls_logs s)"
proof -
  let ?env = "mk_env (le_maker le)"
  let ?logs = "filter (\<lambda>l. lr_root l = rn) (ls_logs s)"
  have "lr_root ` set ?logs \<subseteq> {rn}" by auto
  from assms(1) this obtain d rs d' s1 s2 where st:
    "mset (all_ids d) = mset (map lr_id (filter (known ?env) ?logs))" "d = [] \<or> (\<exists>es. d = [(rn, es)])"
    "rs = (if \<exists>l \<in> set ?logs. lr_action l = ACTION_RESET then [rn] else [])"
    "cleanup_resetting_roots rs (d, s) = Inr (d', s1)" "fold_res (push_root le) d' s1 = Inr s2"
    "if validate_trees le then fold_res (validate_config_tree le) (map fst d') s2 = Inr s' else s' = s2"
    by (rule catch_up_steps)
  have "\<exists>l \<in> set ?logs. lr_action l = ACTION_RESET" using assms(3) by (auto simp: get_reset_count_def filter_empty_conv)
  then obtain es where d: "d' = [(rn, [])]" "ls_db s1 = ls_db s" "ls_trees s1 = set_needs_reset_by_root_rn rn True (ls_trees s)"
    using st(2-4) by (auto simp: cleanup_resetting_roots_def cleanup_resetting_root_def Let_def delete_logs_def)
  have none: "map_root (\<lambda>x. x = rn) (\<lambda>_. True) (bases (ls_trees s)) = bases (ls_trees s)"
    unfolding map_root_def by (rule map_idI) (use assms(4) in \<open>force simp: map_of_eq_None_iff\<close>)
  have t: "ls_trees s1 = ls_trees s" using d(3) none by (simp add: set_needs_reset_by_root_rn_def)
  have "stored_trees le rn (ls_trees s) = Inr (empty_tree, empty_tree, empty_tree)"
    using assms(5) by (simp add: stored_trees_def tree_get_def)
  then have "apply_events le True rn [] s1 = Inr (delete_logs [] (s1\<lparr>ls_trees := ls_trees s\<rparr>))"
    using t by (simp add: apply_events_def store_tree_def new_tree_def)
  moreover have "s1\<lparr>ls_trees := ls_trees s\<rparr> = s1" using t by (cases s1) simp
  ultimately have "apply_events le True rn [] s1 = Inr (delete_logs [] s1)" by argo
  moreover have "push_root le (rn, []) s1 = apply_events le True rn [] s1"
    using t assms(4) by (simp add: push_root_def get_base_tree_def)
  ultimately have "s' = delete_logs [] s1" using st(5,6) d(1) assms(6) by simp
  then have "ls_trees s' = ls_trees s" "ls_db s' = ls_db s" using t d(2) by (simp_all add: delete_logs_def)
  with consumed [OF assms(1,2)] assms(3) show ?thesis by (simp add: known_def)
qed

section \<open>Examples\<close>

definition log_env :: listener_env where
  "log_env = \<lparr>le_maker = toy_maker, le_rn = (\<lambda>_. Inr []), le_key = (\<lambda>_. None), remove_block_all = True, validate_trees = False\<rparr>"

definition status_obj :: obj where
  "status_obj = \<lparr>oclass = ''AciStatus'', ofields = [(''resource_root'', JStr ''t'')]\<rparr>"

definition no_logs :: listener where
  "no_logs = \<lparr>ls_db = empty_db, ls_trees = no_trees, ls_logs = [], ls_next = 0\<rparr>"

definition bd_log :: "nat \<Rightarrow> string \<Rightarrow> string \<Rightarrow> log_row" where
  "bd_log i action rn = \<lparr>lr_id = i, lr_action = action, lr_type = ''BridgeDomain'', lr_dict = json_dumps (JObj [(''tenant_name'', JStr ''t''), (''name'', JStr ''b'')]), lr_root = rn\<rparr>"

definition new_root_logs :: listener where
  "new_root_logs = no_logs\<lparr>ls_logs := [bd_log 0 ACTION_CREATE ''t'', bd_log 1 ACTION_RESET ''t'', bd_log 2 ACTION_CREATE ''u'']\<rparr>"

lemma commit_run: "\<exists>s'. commit_all toy_maker [([status_obj], [], [])] no_logs = Inr s'"
  by (simp add: on_commit_def commit_one_def res_root_def status_obj_def get_attr_def no_logs_def get_reset_count_def)

lemma log_bounded_witness:
  "\<exists>s'. commit_all toy_maker [([status_obj], [], [])] no_logs = Inr s' \<and> get_log_count ''t'' (ls_logs s') < MAX_EVENTS_PER_ROOT + 2 * 1"
proof -
  obtain s' where "commit_all toy_maker [([status_obj], [], [])] no_logs = Inr s'" using commit_run by blast
  with log_bounded [OF this, of 1 "''t''"] show ?thesis by (simp add: no_logs_def)
qed

lemma new_root_run: "\<exists>s'. catch_up_logs log_env (filter (\<lambda>l. lr_root l = ''t'') (ls_logs new_root_logs)) new_root_logs = Inr s'"
proof -
  have "is_ok (catch_up_logs log_env (filter (\<lambda>l. lr_root l = ''t'') (ls_logs new_root_logs)) new_root_logs)" by code_simp
  then show ?thesis by (cases "catch_up_logs log_env (filter (\<lambda>l. lr_root l = ''t'') (ls_logs new_root_logs)) new_root_logs") simp_all
qed

lemma new_root_facts:
  "distinct (map lr_id (ls_logs new_root_logs))" "0 < get_reset_count ''t'' (ls_logs new_root_logs)"
  by (simp_all add: new_root_logs_def no_logs_def bd_log_def get_reset_count_def ACTION_CREATE_def ACTION_RESET_def)

lemma logs_consumed_witness:
  "\<exists>s'. catch_up_logs log_env (filter (\<lambda>l. lr_root l = ''t'') (ls_logs new_root_logs)) new_root_logs = Inr s' \<and>
    ls_logs s' = filter (\<lambda>l. lr_root l \<noteq> ''t'' \<or> klass_of (mk_env (le_maker log_env)) (lr_type l) = None) (ls_logs new_root_logs)"
  using new_root_run logs_consumed [OF _ new_root_facts(1)] new_root_facts(2) by blast

lemma reset_of_new_root_lost_witness:
  "\<exists>s'. catch_up_logs log_env (filter (\<lambda>l. lr_root l = ''t'') (ls_logs new_root_logs)) new_root_logs = Inr s' \<and>
    ls_trees s' = ls_trees new_root_logs"
proof -
  obtain s' where run: "catch_up_logs log_env (filter (\<lambda>l. lr_root l = ''t'') (ls_logs new_root_logs)) new_root_logs = Inr s'"
    using new_root_run by blast
  have "dict_get (bases (ls_trees new_root_logs)) ''t'' = None" "dict_get (config_rows (ls_trees new_root_logs)) ''t'' = None"
    "\<not> validate_trees log_env"
    by (simp_all add: new_root_logs_def no_logs_def no_trees_def log_env_def)
  from reset_of_new_root_lost [OF run new_root_facts this] run show ?thesis by blast
qed

end
