(* ===== verification/Aim_Observe.thy ===== *)
theory Aim_Observe
  imports Action_Log Universe_Read Sample_Data
begin

text \<open>
  \<open>AimDbUniverse.serve\<close> and \<open>observe\<close> (\<open>aim/agent/aid/universes/aim_universe.py\<close>): a universe of the AIM
  database takes over the roots it is to serve, and reads their trees after the log has been worked off.

  The order of a set of roots is the argument \<open>ord\<close>; the time and the next time of the recovery, which has
  a random part, are arguments too. The universes of the operational and the monitored state never recover.
\<close>

record aim_uni =
  au_kind :: tree_type
  served_tenants :: "string set"
  state_of :: ustate
  scheduled_recovery :: "rat option"

definition aim_serve :: "(string set \<Rightarrow> string list) \<Rightarrow> string list \<Rightarrow> aim_uni \<Rightarrow> aim_uni" where
  "aim_serve ord tenants u = u\<lparr>served_tenants := set tenants,
     state_of := map (\<lambda>t. (t, case dict_get (state_of u) t of Some x \<Rightarrow> x | None \<Rightarrow> None)) (ord (set tenants))\<rparr>"

text \<open>Errors are recovered and statuses without their object removed, at intervals.\<close>

definition recover :: "listener_env \<Rightarrow> string list \<Rightarrow> aim_db \<Rightarrow> exc option \<times> aim_db" where
  "recover le roots db =
     (let db1 = fold recover_root_errors roots db in
      case cleanup_zombie_status_objects (le_maker le) (Some roots) db1 of Inl e \<Rightarrow> (Some e, db1) | Inr db2 \<Rightarrow> (None, db2))"

definition recovery_due :: "rat \<Rightarrow> aim_uni \<Rightarrow> bool" where
  "recovery_due now u = (case scheduled_recovery u of None \<Rightarrow> False | Some t \<Rightarrow> t < now)"

text \<open>\<open>_get_state\<close>: the trees of the served roots, whatever their hash.\<close>

definition get_state :: "listener_env \<Rightarrow> (string set \<Rightarrow> string list) \<Rightarrow> aim_uni \<Rightarrow> tree_db \<Rightarrow> (string, tree) dict result" where
  "get_state le ord u db = find_changed (le_key le) (map (\<lambda>t. (t, None)) (ord (served_tenants u))) (au_kind u) db"

definition read_state :: "listener_env \<Rightarrow> (string set \<Rightarrow> string list) \<Rightarrow> aim_uni \<Rightarrow> listener \<Rightarrow> exc option \<times> aim_uni \<times> listener" where
  "read_state le ord u s =
     (case catch_up_with_action_log le ord (served_tenants u) s of
        (Some e, s1) \<Rightarrow> (Some e, u, s1)
      | (None, s1) \<Rightarrow>
          (case get_state le ord u (ls_trees s1) of
             Inl e \<Rightarrow> (Some e, u, s1)
           | Inr d \<Rightarrow> (None, u\<lparr>state_of := dict_update (state_of u) (map (\<lambda>(t, x). (t, Some x)) d)\<rparr>, s1)))"

definition aim_observe ::
  "listener_env \<Rightarrow> (string set \<Rightarrow> string list) \<Rightarrow> rat \<Rightarrow> rat \<Rightarrow> aim_uni \<Rightarrow> listener \<Rightarrow> exc option \<times> aim_uni \<times> listener" where
  "aim_observe le ord now next_recovery u s =
     (if recovery_due now u then
        (case recover le (ord (served_tenants u)) (ls_db s) of
           (Some e, db) \<Rightarrow> (Some e, u, s\<lparr>ls_db := db\<rparr>)
         | (None, db) \<Rightarrow> read_state le ord (u\<lparr>scheduled_recovery := Some next_recovery\<rparr>) (s\<lparr>ls_db := db\<rparr>))
      else read_state le ord u s)"

section \<open>What is observed\<close>

lemma traverse_rows:
  "\<lbrakk>traverse_res (\<lambda>(t, r). bind_res (f t r) (\<lambda>x. Inr (t, x))) rs = Inr d; dict_get rs t = Some r\<rbrakk> \<Longrightarrow>
     \<exists>x. f t r = Inr x \<and> dict_get d t = Some x"
  by (induction rs arbitrary: d) (auto split: if_split_asm)

lemma traverse_keys:
  "traverse_res (\<lambda>(t, r). bind_res (f t r) (\<lambda>x. Inr (t, x))) rs = Inr d \<Longrightarrow> map fst d = map fst rs"
  by (induction rs arbitrary: d) auto

lemma dict_get_filtered: "dict_ok d \<Longrightarrow> dict_get (filter (\<lambda>(k, v). P k v) d) k =
    (case dict_get d k of Some v \<Rightarrow> if P k v then Some v else None | None \<Rightarrow> None)"
  by (induction d) (auto simp: dict_ok_def map_of_eq_None_iff split: option.split)

lemma dict_get_updates: "dict_ok kvs \<Longrightarrow>
    dict_get (dict_update d kvs) k = (case dict_get kvs k of Some v \<Rightarrow> Some v | None \<Rightarrow> dict_get d k)"
proof (induction d kvs rule: dict_update.induct)
  case (2 d k' v kvs)
  then have ok: "dict_ok kvs" "dict_get kvs k' = None" by (simp_all add: dict_ok_def map_of_eq_None_iff)
  show ?case using 2(1) [OF ok(1)] ok(2) by (cases "k' = k") (simp_all add: dict_simps split: option.split)
qed simp


section \<open>Example\<close>

definition one_tree :: tree_db where
  "one_tree = \<lparr>bases = [(''t'', False)], config_rows = [(''t'', \<lparr>row_hash = None, row_tree = tree_str empty_tree\<rparr>)],
     operational_rows = [], monitored_rows = []\<rparr>"

definition observer :: aim_uni where
  "observer = \<lparr>au_kind = ConfigT, served_tenants = {''t''}, state_of = [(''t'', None)], scheduled_recovery = None\<rparr>"

definition plain_env :: listener_env where
  "plain_env = \<lparr>le_maker = \<lparr>mk_env = small_env, mk_conv = (\<lambda>_. []), mk_decompose = (\<lambda>_ _. None), mk_hash = (\<lambda>_. [])\<rparr>,
     le_rn = (\<lambda>_. Inr []), le_key = (\<lambda>_. None), remove_block_all = False, validate_trees = False\<rparr>"

definition quiet :: listener where
  "quiet = \<lparr>ls_db = empty_db, ls_trees = one_tree, ls_logs = [], ls_next = 0\<rparr>"

definition order1 :: "string set \<Rightarrow> string list" where
  "order1 S = (if ''t'' \<in> S then [''t''] else [])"

lemma observer_run: "case aim_observe plain_env order1 0 0 observer quiet of
    (None, u', s') \<Rightarrow> dict_ok (rows (au_kind observer) (ls_trees s')) | (Some e, u', s') \<Rightarrow> False"
  by code_simp


end
