(* ===== verification/Nat_Base.thy ===== *)
theory Nat_Base
  imports Aim_Manager
begin

text \<open>
  What the NAT strategies of \<open>aim/aim_lib/nat_strategy.py\<close> work with: the AIM database together with the
  table of cloned L3Outs (\<open>aim/aim_lib/db/model.py\<close>), the operations of the manager on it, and the names of
  the objects they create (\<open>aim/utils.py\<close>).

  A strategy method is a transaction: it yields a value and the new state, or an exception, and then the
  state is as it was before. \<open>ne_fuel\<close> bounds the recursion of the status changes, as in \<open>Aim_Manager\<close>.
\<close>

text \<open>A key is the tenant and the name of an L3Outside; a row has the key of the clone and that of its source.\<close>

type_synonym l3out_key = "string \<times> string"

record nat_db =
  nd_db :: aim_db
  nd_clones :: "(l3out_key \<times> l3out_key) list"

text \<open>The attributes a user may have set on the strategy.\<close>

record nat_conf =
  app_profile_name :: "string option"
  common_scope :: "string option"
  strategy_vmm_domains :: "json option"
  strategy_physical_domains :: "json option"

record nat_env =
  ne_env :: env
  ne_fuel :: nat
  ne_conf :: nat_conf

section \<open>Transactions\<close>

type_synonym 'a tx = "nat_db \<Rightarrow> ('a \<times> nat_db) result"

definition ok_tx :: "'a \<Rightarrow> 'a tx" where
  "ok_tx x s = Inr (x, s)"

definition lift_tx :: "'a result \<Rightarrow> 'a tx" where
  "lift_tx r s = bind_res r (\<lambda>x. Inr (x, s))"

definition bind_tx :: "'a tx \<Rightarrow> ('a \<Rightarrow> 'b tx) \<Rightarrow> 'b tx" where
  "bind_tx m f s = bind_res (m s) (\<lambda>(x, s'). f x s')"

fun for_tx :: "('a \<Rightarrow> unit tx) \<Rightarrow> 'a list \<Rightarrow> unit tx" where
  "for_tx f [] = ok_tx ()"
| "for_tx f (x # xs) = bind_tx (f x) (\<lambda>_. for_tx f xs)"

fun map_tx :: "('a \<Rightarrow> 'b tx) \<Rightarrow> 'a list \<Rightarrow> 'b list tx" where
  "map_tx f [] = ok_tx []"
| "map_tx f (x # xs) = bind_tx (f x) (\<lambda>y. bind_tx (map_tx f xs) (\<lambda>ys. ok_tx (y # ys)))"

lemma tx_simps [simp]:
  "bind_tx (ok_tx x) f = f x" "bind_tx (lift_tx (Inr x)) f = f x" "lift_tx (Inr x) = ok_tx x"
  by (simp_all add: fun_eq_iff bind_tx_def ok_tx_def lift_tx_def)

lemma bind_tx_Inr: "bind_tx m f s = Inr (y, s') \<longleftrightarrow> (\<exists>x s1. m s = Inr (x, s1) \<and> f x s1 = Inr (y, s'))"
  by (auto simp: bind_tx_def)

lemma lift_tx_Inr: "lift_tx r s = Inr (y, s') \<longleftrightarrow> r = Inr y \<and> s' = s"
  by (auto simp: lift_tx_def)

lemma ok_tx_Inr: "ok_tx x s = Inr (y, s') \<longleftrightarrow> y = x \<and> s' = s"
  by (auto simp: ok_tx_def)

section \<open>The manager\<close>

definition klass_for :: "nat_env \<Rightarrow> obj \<Rightarrow> klass result" where
  "klass_for ne r = (case klass_of (ne_env ne) (oclass r) of Some k \<Rightarrow> Inr k | None \<Rightarrow> Inl (UnknownResourceType (oclass r)))"

definition mgr_get :: "nat_env \<Rightarrow> obj \<Rightarrow> obj option tx" where
  "mgr_get ne r s = bind_res (klass_for ne r) (\<lambda>k.
     bind_res (aim_get (ne_env ne) (nd_db s) k r False) (\<lambda>x. Inr (x, s)))"

definition mgr_find :: "nat_env \<Rightarrow> klass \<Rightarrow> kwargs \<Rightarrow> obj list tx" where
  "mgr_find ne k filters s = bind_res (aim_find (ne_env ne) (nd_db s) k filters False) (\<lambda>xs. Inr (xs, s))"

definition mgr_create :: "nat_env \<Rightarrow> obj \<Rightarrow> bool \<Rightarrow> obj option tx" where
  "mgr_create ne r overwrite s = bind_res (klass_for ne r) (\<lambda>k.
     bind_res (aim_create (ne_fuel ne) (ne_env ne) k r overwrite False (nd_db s)) (\<lambda>(x, db). Inr (x, s\<lparr>nd_db := db\<rparr>)))"

definition mgr_update :: "nat_env \<Rightarrow> obj \<Rightarrow> kwargs \<Rightarrow> unit tx" where
  "mgr_update ne r vals s = bind_res (klass_for ne r) (\<lambda>k.
     bind_res (aim_update (ne_fuel ne) (ne_env ne) k r False False vals (nd_db s)) (\<lambda>(_, db). Inr ((), s\<lparr>nd_db := db\<rparr>)))"

text \<open>\<open>str\<close> of an attribute; names are strings.\<close>

definition str_attr :: "obj \<Rightarrow> string \<Rightarrow> string result" where
  "str_attr r a = bind_res (get_attr r a) (\<lambda>v. Inr (py_str v))"

definition l3out_key_of :: "obj \<Rightarrow> l3out_key result" where
  "l3out_key_of r = bind_res (str_attr r ''tenant_name'') (\<lambda>t. bind_res (str_attr r ''name'') (\<lambda>n. Inr (t, n)))"

text \<open>The foreign keys of the clones: a source with clones cannot be deleted, the row of a deleted clone goes with it.\<close>

definition drop_clones :: "l3out_key \<Rightarrow> unit tx" where
  "drop_clones key s =
     (if \<exists>(c, src) \<in> set (nd_clones s). src = key then Inl (OtherError ''DBReferenceError'')
      else Inr ((), s\<lparr>nd_clones := filter (\<lambda>(c, src). c \<noteq> key) (nd_clones s)\<rparr>))"

definition mgr_delete :: "nat_env \<Rightarrow> obj \<Rightarrow> unit tx" where
  "mgr_delete ne r = bind_tx (mgr_get ne r) (\<lambda>found.
     bind_tx (\<lambda>s. bind_res (klass_for ne r) (\<lambda>k.
         bind_res (aim_delete (ne_env ne) k r False False (nd_db s)) (\<lambda>db. Inr ((), s\<lparr>nd_db := db\<rparr>)))) (\<lambda>_.
     if oclass r = ''L3Outside'' \<and> found \<noteq> None then bind_tx (lift_tx (l3out_key_of r)) drop_clones else ok_tx ()))"

definition make_res :: "nat_env \<Rightarrow> klass \<Rightarrow> kwargs \<Rightarrow> obj result" where
  "make_res ne k kwargs = make_obj (conf (ne_env ne)) k kwargs"

text \<open>An attribute of \<open>None\<close> is an error.\<close>

definition need :: "'a option \<Rightarrow> 'a tx" where
  "need x = lift_tx (case x of Some y \<Rightarrow> Inr y | None \<Rightarrow> Inl AttributeError)"

definition ensure :: "nat_env \<Rightarrow> obj \<Rightarrow> unit tx" where
  "ensure ne r = bind_tx (mgr_get ne r) (\<lambda>found. case found of
     Some _ \<Rightarrow> ok_tx () | None \<Rightarrow> bind_tx (mgr_create ne r False) (\<lambda>_. ok_tx ()))"

section \<open>Clones\<close>

definition clones_get :: "obj \<Rightarrow> (l3out_key \<times> l3out_key) list tx" where
  "clones_get clone = bind_tx (lift_tx (l3out_key_of clone)) (\<lambda>key s. Inr (filter (\<lambda>(c, src). c = key) (nd_clones s), s))"

definition clones_set :: "obj \<Rightarrow> obj \<Rightarrow> unit tx" where
  "clones_set source clone = bind_tx (lift_tx (l3out_key_of source)) (\<lambda>src. bind_tx (lift_tx (l3out_key_of clone)) (\<lambda>key s.
     Inr ((), s\<lparr>nd_clones := nd_clones s @ [(key, src)]\<rparr>)))"

definition get_clones :: "obj \<Rightarrow> l3out_key list tx" where
  "get_clones source = bind_tx (lift_tx (l3out_key_of source)) (\<lambda>key s.
     Inr (map fst (filter (\<lambda>(c, src). src = key) (nd_clones s)), s))"

section \<open>Names\<close>

definition name_char :: "char \<Rightarrow> bool" where
  "name_char c \<longleftrightarrow> (let n = of_char c :: nat in
     48 \<le> n \<and> n \<le> 57 \<or> 65 \<le> n \<and> n \<le> 90 \<or> 97 \<le> n \<and> n \<le> 122 \<or> c \<in> {CHR ''_'', CHR ''.'', CHR ''-''})"

definition sanitize_display_name :: "string \<Rightarrow> string" where
  "sanitize_display_name s = map (\<lambda>c. if name_char c then c else CHR ''_'') (take 59 s)"

definition COMMON :: string where "COMMON = ''common''"

definition scope_name_if_common :: "nat_conf \<Rightarrow> string \<Rightarrow> string \<Rightarrow> string" where
  "scope_name_if_common cf tenant name =
     (if tenant = COMMON then sanitize_display_name
        ((case common_scope cf of None \<Rightarrow> [] | Some s \<Rightarrow> if s = [] then [] else s @ ''_'') @ name)
      else name)"

definition display_name :: "obj \<Rightarrow> string result" where
  "display_name r = (let v = get_attr_or r ''display_name'' JNull in
     if json_truth v then Inr (py_str v) else str_attr r ''name'')"

definition EXT :: "string \<Rightarrow> string" where
  "EXT name = ''EXT-'' @ name"

text \<open>The identifying and the displayed name of the NAT objects of an L3Outside.\<close>

definition nat_names :: "obj \<Rightarrow> string option \<Rightarrow> (string \<times> string \<times> string) result" where
  "nat_names l3out wanted =
     bind_res (str_attr l3out ''tenant_name'') (\<lambda>t. bind_res (str_attr l3out ''name'') (\<lambda>n. bind_res (display_name l3out) (\<lambda>d.
       Inr (case wanted of None \<Rightarrow> (t, EXT n, d) | Some w \<Rightarrow> (t, EXT w, w)))))"

definition get_nat_contract :: "nat_env \<Rightarrow> obj \<Rightarrow> string option \<Rightarrow> obj result" where
  "get_nat_contract ne l3out wanted = bind_res (nat_names l3out wanted) (\<lambda>(t, n, d).
     let scope = scope_name_if_common (ne_conf ne) t in
     make_res ne Contract [(''tenant_name'', JStr t), (''name'', JStr (scope n)),
       (''display_name'', JStr (scope (sanitize_display_name (EXT d))))])"

definition get_nat_bd :: "nat_env \<Rightarrow> obj \<Rightarrow> string option \<Rightarrow> obj result" where
  "get_nat_bd ne l3out wanted = bind_res (nat_names l3out wanted) (\<lambda>(t, n, d).
     bind_res (str_attr l3out ''name'') (\<lambda>own.
     let scope = scope_name_if_common (ne_conf ne) t in
     make_res ne BridgeDomain [(''tenant_name'', JStr t), (''name'', JStr (scope n)),
       (''display_name'', JStr (scope (sanitize_display_name (EXT d)))),
       (''limit_ip_learn_to_subnets'', JBool True), (''l3out_names'', JList [JStr own])]))"

definition get_nat_vrf :: "nat_env \<Rightarrow> obj \<Rightarrow> obj result" where
  "get_nat_vrf ne l3out = bind_res (nat_names l3out None) (\<lambda>(t, n, d).
     let scope = scope_name_if_common (ne_conf ne) t in
     make_res ne VRF [(''tenant_name'', JStr t), (''name'', JStr (scope n)),
       (''display_name'', JStr (scope (sanitize_display_name (EXT d))))])"

definition get_nat_ap_epg :: "nat_env \<Rightarrow> obj \<Rightarrow> string option \<Rightarrow> (obj \<times> obj) result" where
  "get_nat_ap_epg ne l3out wanted = bind_res (nat_names l3out wanted) (\<lambda>(t, n, d).
     bind_res (str_attr l3out ''name'') (\<lambda>own. bind_res (display_name l3out) (\<lambda>l3_display.
     let base = (case app_profile_name (ne_conf ne) of None \<Rightarrow> own | Some a \<Rightarrow> if a = [] then own else a);
         ap_name = scope_name_if_common (ne_conf ne) t base in
     bind_res (make_res ne ApplicationProfile [(''tenant_name'', JStr t), (''name'', JStr ap_name),
         (''display_name'', JStr (sanitize_display_name (if ap_name = [] then l3_display else ap_name)))]) (\<lambda>ap.
     bind_res (make_res ne EndpointGroup [(''tenant_name'', JStr t), (''app_profile_name'', JStr ap_name), (''name'', JStr n),
         (''display_name'', JStr (sanitize_display_name (EXT d)))]) (\<lambda>epg.
       Inr (ap, epg))))))"

definition ext_net_to_l3out :: "nat_env \<Rightarrow> obj \<Rightarrow> obj result" where
  "ext_net_to_l3out ne ext_net = bind_res (get_attr ext_net ''tenant_name'') (\<lambda>t. bind_res (get_attr ext_net ''l3out_name'') (\<lambda>n.
     make_res ne L3Outside [(''tenant_name'', t), (''name'', n)]))"

text \<open>The contract references of an external network.\<close>

definition contract_ref :: "nat_env \<Rightarrow> klass \<Rightarrow> json \<Rightarrow> json \<Rightarrow> json \<Rightarrow> json \<Rightarrow> obj result" where
  "contract_ref ne k tenant l3out net name = make_res ne k
     [(''tenant_name'', tenant), (''l3out_name'', l3out), (''ext_net_name'', net), (''name'', name)]"

definition nat_refs :: "nat_env \<Rightarrow> obj \<Rightarrow> obj \<Rightarrow> (obj \<times> obj) result" where
  "nat_refs ne ext_net contract =
     bind_res (get_attr ext_net ''tenant_name'') (\<lambda>t. bind_res (get_attr ext_net ''l3out_name'') (\<lambda>l.
     bind_res (get_attr ext_net ''name'') (\<lambda>n. bind_res (get_attr contract ''name'') (\<lambda>c.
     bind_res (contract_ref ne ExternalNetworkProvidedContract t l n c) (\<lambda>p.
     bind_res (contract_ref ne ExternalNetworkConsumedContract t l n c) (\<lambda>q. Inr (p, q)))))))"

text \<open>Which objects belong to an external network.\<close>

definition network_filter :: "string \<Rightarrow> obj \<Rightarrow> kwargs result" where
  "network_filter net_attr ext_net =
     bind_res (get_attr ext_net ''tenant_name'') (\<lambda>t. bind_res (get_attr ext_net ''l3out_name'') (\<lambda>l.
     bind_res (get_attr ext_net ''name'') (\<lambda>n. Inr [(''tenant_name'', t), (''l3out_name'', l), (net_attr, n)])))"

end
