(* ===== verification/Nat_Strategy.thy ===== *)
theory Nat_Strategy
  imports Nat_Base
begin

text \<open>
  The NAT strategies of \<open>aim/aim_lib/nat_strategy.py\<close>: \<open>NatStrategyMixin\<close>, \<open>NoNatStrategy\<close>,
  \<open>DistributedNatStrategy\<close> and \<open>EdgeNatStrategy\<close>. A method that a class overrides is a parameter of the
  methods of the mixin that call it. Sets of names are visited in the order of their dictionaries; lists of
  contracts that the code extends in place are used for nothing else by it.
\<close>

section \<open>NatStrategyMixin\<close>

text \<open>Subnets of the NAT bridge domain and of the NAT endpoint group; nothing happens without the L3Outside.\<close>

definition with_l3out :: "nat_env \<Rightarrow> obj \<Rightarrow> 'a \<Rightarrow> (obj \<Rightarrow> 'a tx) \<Rightarrow> 'a tx" where
  "with_l3out ne l3outside dflt f = bind_tx (mgr_get ne l3outside) (\<lambda>x. case x of None \<Rightarrow> ok_tx dflt | Some l3out \<Rightarrow> f l3out)"

definition nat_subnet :: "nat_env \<Rightarrow> obj \<Rightarrow> json \<Rightarrow> kwargs \<Rightarrow> string option \<Rightarrow> obj result" where
  "nat_subnet ne l3out gw extra wanted = bind_res (get_nat_bd ne l3out wanted) (\<lambda>bd.
     bind_res (get_attr bd ''tenant_name'') (\<lambda>t. bind_res (get_attr bd ''name'') (\<lambda>n.
       make_res ne Subnet ([(''tenant_name'', t), (''bd_name'', n), (''gw_ip_mask'', gw)] @ extra))))"

definition nat_epg_subnet :: "nat_env \<Rightarrow> obj \<Rightarrow> json \<Rightarrow> kwargs \<Rightarrow> string option \<Rightarrow> obj result" where
  "nat_epg_subnet ne l3out gw extra wanted = bind_res (get_nat_ap_epg ne l3out wanted) (\<lambda>(ap, epg).
     bind_res (get_attr epg ''tenant_name'') (\<lambda>t. bind_res (get_attr ap ''name'') (\<lambda>a. bind_res (get_attr epg ''name'') (\<lambda>n.
       make_res ne EPGSubnet ([(''tenant_name'', t), (''app_profile_name'', a), (''epg_name'', n), (''gw_ip_mask'', gw)] @ extra)))))"

definition create_subnet :: "nat_env \<Rightarrow> obj \<Rightarrow> json \<Rightarrow> json \<Rightarrow> string option \<Rightarrow> unit tx" where
  "create_subnet ne l3outside gw scope wanted = with_l3out ne l3outside () (\<lambda>l3out.
     bind_tx (lift_tx (nat_subnet ne l3out gw [(''scope'', scope)] wanted)) (ensure ne))"

definition delete_subnet :: "nat_env \<Rightarrow> obj \<Rightarrow> json \<Rightarrow> string option \<Rightarrow> unit tx" where
  "delete_subnet ne l3outside gw wanted = with_l3out ne l3outside () (\<lambda>l3out.
     bind_tx (lift_tx (nat_subnet ne l3out gw [] wanted)) (mgr_delete ne))"

definition get_subnet :: "nat_env \<Rightarrow> obj \<Rightarrow> json \<Rightarrow> string option \<Rightarrow> obj option tx" where
  "get_subnet ne l3outside gw wanted = with_l3out ne l3outside None (\<lambda>l3out.
     bind_tx (lift_tx (nat_subnet ne l3out gw [] wanted)) (mgr_get ne))"

definition create_epg_subnet :: "nat_env \<Rightarrow> obj \<Rightarrow> json \<Rightarrow> json \<Rightarrow> string option \<Rightarrow> unit tx" where
  "create_epg_subnet ne l3outside gw scope wanted = with_l3out ne l3outside () (\<lambda>l3out.
     bind_tx (lift_tx (nat_epg_subnet ne l3out gw [(''scope'', scope)] wanted)) (ensure ne))"

definition delete_epg_subnet :: "nat_env \<Rightarrow> obj \<Rightarrow> json \<Rightarrow> string option \<Rightarrow> unit tx" where
  "delete_epg_subnet ne l3outside gw wanted = with_l3out ne l3outside () (\<lambda>l3out.
     bind_tx (lift_tx (nat_epg_subnet ne l3out gw [] wanted)) (mgr_delete ne))"

definition get_epg_subnet :: "nat_env \<Rightarrow> obj \<Rightarrow> json \<Rightarrow> string option \<Rightarrow> obj option tx" where
  "get_epg_subnet ne l3outside gw wanted = with_l3out ne l3outside None (\<lambda>l3out.
     bind_tx (lift_tx (nat_epg_subnet ne l3out gw [] wanted)) (mgr_get ne))"

text \<open>The VRF of a name, in the tenant or else in the common one.\<close>

definition vrf_by_name :: "nat_env \<Rightarrow> json \<Rightarrow> json \<Rightarrow> obj option tx" where
  "vrf_by_name ne name tenant = bind_tx (mgr_find ne VRF [(''tenant_name'', tenant), (''name'', name)]) (\<lambda>vrfs.
     case vrfs of v # _ \<Rightarrow> ok_tx (Some v)
     | [] \<Rightarrow> bind_tx (mgr_find ne VRF [(''tenant_name'', JStr COMMON), (''name'', name)]) (\<lambda>vrfs.
         ok_tx (case vrfs of v # _ \<Rightarrow> Some v | [] \<Rightarrow> None)))"

definition l3out_vrf :: "nat_env \<Rightarrow> obj \<Rightarrow> obj option tx" where
  "l3out_vrf ne l3out = bind_tx (lift_tx (get_attr l3out ''vrf_name'')) (\<lambda>v.
     bind_tx (lift_tx (get_attr l3out ''tenant_name'')) (\<lambda>t. vrf_by_name ne v t))"

text \<open>The objects of the NAT endpoint group. The domains are all those known, unless the strategy has its own.\<close>

definition domain_dicts :: "string list \<Rightarrow> obj list \<Rightarrow> json result" where
  "domain_dicts attrs ds = bind_res (traverse_res (\<lambda>d.
       bind_res (traverse_res (\<lambda>a. bind_res (get_attr d a) (\<lambda>v. Inr (a, v))) attrs) (\<lambda>kvs. Inr (JObj kvs))) ds)
     (\<lambda>xs. Inr (JList xs))"

definition nat_filter_objs :: "nat_env \<Rightarrow> obj \<Rightarrow> (obj \<times> obj) result" where
  "nat_filter_objs ne l3out = bind_res (nat_names l3out None) (\<lambda>(t, n, d).
     let scope = scope_name_if_common (ne_conf ne) t in
     bind_res (make_res ne Filter [(''tenant_name'', JStr t), (''name'', JStr (scope n)),
         (''display_name'', JStr (sanitize_display_name (scope (EXT d))))]) (\<lambda>fltr.
     bind_res (make_res ne FilterEntry [(''tenant_name'', JStr t), (''filter_name'', JStr (scope n)),
         (''name'', JStr ''Any''), (''display_name'', JStr ''Any'')]) (\<lambda>entry.
       Inr (fltr, entry))))"

definition nat_objects :: "nat_env \<Rightarrow> obj \<Rightarrow> string option \<Rightarrow> json \<Rightarrow> json \<Rightarrow> obj list result" where
  "nat_objects ne l3out wanted vmm phys =
     bind_res (nat_filter_objs ne l3out) (\<lambda>(fltr, entry).
     bind_res (get_nat_contract ne l3out wanted) (\<lambda>contract.
     bind_res (get_attr contract ''tenant_name'') (\<lambda>t. bind_res (get_attr contract ''name'') (\<lambda>c. bind_res (get_attr fltr ''name'') (\<lambda>f.
     bind_res (make_res ne ContractSubject [(''tenant_name'', t), (''contract_name'', c), (''name'', JStr ''Allow''),
         (''display_name'', JStr ''Allow''), (''bi_filters'', JList [f])]) (\<lambda>subject.
     bind_res (get_nat_bd ne l3out wanted) (\<lambda>bd. bind_res (get_attr bd ''name'') (\<lambda>b. bind_res (get_attr l3out ''vrf_name'') (\<lambda>v.
     bind_res (get_nat_ap_epg ne l3out wanted) (\<lambda>(ap, epg).
       Inr [fltr, entry, contract, subject, bd\<lparr>ofields := dict_set ''vrf_name'' v (ofields bd)\<rparr>, ap,
            epg\<lparr>ofields := dict_update (ofields epg) [(''bd_name'', b), (''provided_contract_names'', JList [c]),
              (''consumed_contract_names'', JList [c]), (''vmm_domains'', vmm), (''physical_domains'', phys)]\<rparr>]))))))))))"

definition get_nat_objects :: "nat_env \<Rightarrow> obj \<Rightarrow> string option \<Rightarrow> obj list tx" where
  "get_nat_objects ne l3out wanted =
     bind_tx (mgr_find ne VMMDomain []) (\<lambda>vs. bind_tx (lift_tx (domain_dicts [''type'', ''name''] vs)) (\<lambda>vmm.
     bind_tx (mgr_find ne PhysicalDomain []) (\<lambda>ps. bind_tx (lift_tx (domain_dicts [''name''] ps)) (\<lambda>phys.
       lift_tx (nat_objects ne l3out wanted
         (case strategy_vmm_domains (ne_conf ne) of Some v \<Rightarrow> v | None \<Rightarrow> vmm)
         (case strategy_physical_domains (ne_conf ne) of Some p \<Rightarrow> p | None \<Rightarrow> phys))))))"

definition select_domains :: "json option \<Rightarrow> json option \<Rightarrow> obj \<Rightarrow> obj" where
  "select_domains vmm phys r =
     (if oclass r = ''EndpointGroup'' then
        let r1 = (case vmm of None \<Rightarrow> r | Some v \<Rightarrow> r\<lparr>ofields := dict_set ''vmm_domains'' v (ofields r)\<rparr>)
        in (case phys of None \<Rightarrow> r1 | Some p \<Rightarrow> r1\<lparr>ofields := dict_set ''physical_domains'' p (ofields r1)\<rparr>)
      else r)"

definition create_nat_epg :: "nat_env \<Rightarrow> obj \<Rightarrow> json option \<Rightarrow> json option \<Rightarrow> string option \<Rightarrow> unit tx" where
  "create_nat_epg ne l3out vmm phys wanted = bind_tx (get_nat_objects ne l3out wanted) (\<lambda>objs.
     for_tx (ensure ne) (map (select_domains vmm phys) objs))"

text \<open>The application profile stays while other endpoint groups use it.\<close>

definition delete_nat_obj :: "nat_env \<Rightarrow> obj \<Rightarrow> unit tx" where
  "delete_nat_obj ne r =
     (if oclass r = ''ApplicationProfile'' then
        bind_tx (lift_tx (get_attr r ''tenant_name'')) (\<lambda>t. bind_tx (lift_tx (get_attr r ''name'')) (\<lambda>n.
        bind_tx (mgr_find ne EndpointGroup [(''tenant_name'', t), (''app_profile_name'', n)]) (\<lambda>epgs.
          if epgs \<noteq> [] then ok_tx () else mgr_delete ne r)))
      else mgr_delete ne r)"

definition delete_nat_epg :: "nat_env \<Rightarrow> obj \<Rightarrow> string option \<Rightarrow> unit tx" where
  "delete_nat_epg ne l3out wanted =
     bind_tx (lift_tx (get_nat_bd ne l3out wanted)) (\<lambda>bd.
     bind_tx (lift_tx (get_attr bd ''tenant_name'')) (\<lambda>t. bind_tx (lift_tx (get_attr bd ''name'')) (\<lambda>n.
     bind_tx (mgr_find ne Subnet [(''tenant_name'', t), (''bd_name'', n)]) (\<lambda>subs.
     bind_tx (for_tx (mgr_delete ne) subs) (\<lambda>_.
     bind_tx (get_nat_objects ne l3out wanted) (\<lambda>objs. for_tx (delete_nat_obj ne) (rev objs)))))))"

definition get_l3outside_resources :: "nat_env \<Rightarrow> obj \<Rightarrow> string option \<Rightarrow> obj list tx" where
  "get_l3outside_resources ne l3outside wanted = with_l3out ne l3outside [] (\<lambda>l3out.
     bind_tx (get_nat_objects ne l3out wanted) (\<lambda>objs.
     bind_tx (map_tx (mgr_get ne) objs) (\<lambda>found.
     bind_tx (l3out_vrf ne l3out) (\<lambda>v.
       ok_tx ([l3out] @ concat (map (\<lambda>x. case x of None \<Rightarrow> [] | Some r \<Rightarrow> [r]) (found @ [v])))))))"

section \<open>L3Outside\<close>

definition create_l3out :: "nat_env \<Rightarrow> obj \<Rightarrow> json option \<Rightarrow> json option \<Rightarrow> string option \<Rightarrow> obj tx" where
  "create_l3out ne l3out vmm phys wanted =
     bind_tx (lift_tx (get_attr l3out ''tenant_name'')) (\<lambda>t.
     bind_tx (lift_tx (make_res ne Tenant [(''name'', t)])) (\<lambda>tenant.
     bind_tx (ensure ne tenant) (\<lambda>_.
     bind_tx (mgr_get ne l3out) (\<lambda>found.
     bind_tx (case found of
         Some x \<Rightarrow> ok_tx x
       | None \<Rightarrow>
           bind_tx (lift_tx (get_nat_vrf ne l3out)) (\<lambda>vrf.
           bind_tx (ensure ne vrf) (\<lambda>_.
           bind_tx (lift_tx (get_attr vrf ''name'')) (\<lambda>v.
           bind_tx (mgr_create ne (l3out\<lparr>ofields := dict_set ''vrf_name'' v (ofields l3out)\<rparr>) False) need)))) (\<lambda>l3out_db.
     bind_tx (create_nat_epg ne l3out_db vmm phys wanted) (\<lambda>_. ok_tx l3out_db))))))"

definition delete_l3out :: "nat_env \<Rightarrow> (obj \<Rightarrow> unit tx) \<Rightarrow> obj \<Rightarrow> bool \<Rightarrow> string option \<Rightarrow> unit tx" where
  "delete_l3out ne delete_net l3out delete_epg wanted = with_l3out ne l3out () (\<lambda>l3out_db.
     bind_tx (lift_tx (get_attr l3out ''tenant_name'')) (\<lambda>t. bind_tx (lift_tx (get_attr l3out ''name'')) (\<lambda>n.
     bind_tx (mgr_find ne ExternalNetwork [(''tenant_name'', t), (''l3out_name'', n)]) (\<lambda>ens.
     bind_tx (for_tx delete_net ens) (\<lambda>_.
     bind_tx (lift_tx (get_attr l3out_db ''monitored'')) (\<lambda>mon.
     bind_tx (if json_truth mon then ok_tx () else mgr_delete ne l3out) (\<lambda>_.
     if delete_epg then
       bind_tx (delete_nat_epg ne l3out_db wanted) (\<lambda>_.
       bind_tx (lift_tx (get_nat_vrf ne l3out_db)) (mgr_delete ne))
     else ok_tx ())))))))"

section \<open>External networks\<close>

definition create_ext_net :: "nat_env \<Rightarrow> obj \<Rightarrow> obj list \<Rightarrow> obj list \<Rightarrow> string option \<Rightarrow> obj option tx" where
  "create_ext_net ne ext_net provided consumed wanted =
     bind_tx (mgr_get ne ext_net) (\<lambda>found.
     bind_tx (case found of Some x \<Rightarrow> ok_tx (Some x) | None \<Rightarrow> mgr_create ne ext_net False) (\<lambda>ext_net_db.
     bind_tx (lift_tx (ext_net_to_l3out ne ext_net)) (\<lambda>l3.
     bind_tx (mgr_get ne l3) (\<lambda>l3found. bind_tx (need l3found) (\<lambda>l3out.
     bind_tx (lift_tx (get_nat_contract ne l3out wanted)) (\<lambda>contract.
     bind_tx (lift_tx (get_attr contract ''tenant_name'')) (\<lambda>t. bind_tx (lift_tx (get_attr l3out ''name'')) (\<lambda>l.
     bind_tx (lift_tx (get_attr ext_net ''name'')) (\<lambda>n. bind_tx (lift_tx (get_attr contract ''name'')) (\<lambda>c.
     bind_tx (lift_tx (contract_ref ne ExternalNetworkProvidedContract t l n c)) (\<lambda>p.
     bind_tx (lift_tx (contract_ref ne ExternalNetworkConsumedContract t l n c)) (\<lambda>q.
     bind_tx (for_tx (ensure ne) (provided @ [p] @ consumed @ [q])) (\<lambda>_. ok_tx ext_net_db)))))))))))))"

text \<open>The addresses of a network: those that are not wanted go, those that are missing come.\<close>

fun drop_subnets :: "nat_env \<Rightarrow> obj list \<Rightarrow> json list \<Rightarrow> json list tx" where
  "drop_subnets ne [] cidrs = ok_tx cidrs"
| "drop_subnets ne (sub # subs) cidrs = bind_tx (lift_tx (get_attr sub ''cidr'')) (\<lambda>c.
     if c \<in> set cidrs then drop_subnets ne subs (remove1 c cidrs)
     else bind_tx (mgr_delete ne sub) (\<lambda>_. drop_subnets ne subs cidrs))"

definition create_cidr :: "nat_env \<Rightarrow> kwargs \<Rightarrow> json \<Rightarrow> unit tx" where
  "create_cidr ne attrs c = bind_tx (lift_tx (make_res ne ExternalSubnet ((''cidr'', c) # attrs))) (\<lambda>sub.
     bind_tx (mgr_create ne sub False) (\<lambda>_. ok_tx ()))"

definition manage_external_subnets :: "nat_env \<Rightarrow> obj \<Rightarrow> json list \<Rightarrow> unit tx" where
  "manage_external_subnets ne ext_net new_cidrs =
     bind_tx (lift_tx (network_filter ''external_network_name'' ext_net)) (\<lambda>attrs.
     bind_tx (mgr_find ne ExternalSubnet attrs) (\<lambda>old.
     bind_tx (drop_subnets ne old new_cidrs) (\<lambda>missing. for_tx (create_cidr ne attrs) missing)))"

definition delete_create_external_subnets :: "nat_env \<Rightarrow> obj \<Rightarrow> json list \<Rightarrow> bool \<Rightarrow> unit tx" where
  "delete_create_external_subnets ne ext_net cidrs to_delete =
     bind_tx (lift_tx (network_filter ''external_network_name'' ext_net)) (\<lambda>attrs.
     if to_delete then
       bind_tx (mgr_find ne ExternalSubnet attrs) (for_tx (\<lambda>sub.
         bind_tx (lift_tx (get_attr sub ''cidr'')) (\<lambda>c. if c \<in> set cidrs then mgr_delete ne sub else ok_tx ())))
     else for_tx (create_cidr ne attrs) cidrs)"

definition delete_external_contracts :: "nat_env \<Rightarrow> obj \<Rightarrow> obj list \<Rightarrow> obj list \<Rightarrow> bool \<Rightarrow> unit tx" where
  "delete_external_contracts ne ext_net provided consumed all =
     bind_tx (lift_tx (network_filter ''ext_net_name'' ext_net)) (\<lambda>attrs.
     bind_tx (if all then mgr_find ne ExternalNetworkProvidedContract attrs else ok_tx provided) (\<lambda>ps.
     bind_tx (if all then mgr_find ne ExternalNetworkConsumedContract attrs else ok_tx consumed) (\<lambda>cs.
       for_tx (mgr_delete ne) (ps @ cs))))"

definition update_contract :: "nat_env \<Rightarrow> obj \<Rightarrow> obj \<Rightarrow> bool \<Rightarrow> unit tx" where
  "update_contract ne ext_net contract is_remove =
     bind_tx (lift_tx (nat_refs ne ext_net contract)) (\<lambda>(prov, cons).
     if is_remove then
       bind_tx (mgr_get ne prov) (\<lambda>p. bind_tx (case p of Some x \<Rightarrow> mgr_delete ne x | None \<Rightarrow> ok_tx ()) (\<lambda>_.
       bind_tx (mgr_get ne cons) (\<lambda>c. case c of Some x \<Rightarrow> mgr_delete ne x | None \<Rightarrow> ok_tx ())))
     else bind_tx (mgr_create ne prov False) (\<lambda>_. bind_tx (mgr_create ne cons False) (\<lambda>_. ok_tx ())))"

definition delete_ext_net :: "nat_env \<Rightarrow> obj \<Rightarrow> obj list \<Rightarrow> obj list \<Rightarrow> string option \<Rightarrow> json list option \<Rightarrow> unit tx" where
  "delete_ext_net ne ext_net provided consumed wanted cidrs =
     bind_tx (mgr_get ne ext_net) (\<lambda>found. case found of None \<Rightarrow> ok_tx () | Some ext_net_db \<Rightarrow>
     bind_tx (case cidrs of None \<Rightarrow> manage_external_subnets ne ext_net_db []
        | Some cs \<Rightarrow> delete_create_external_subnets ne ext_net_db cs True) (\<lambda>_.
     bind_tx (lift_tx (get_attr ext_net_db ''monitored'')) (\<lambda>mon.
     if \<not> json_truth mon then
       bind_tx (delete_external_contracts ne ext_net_db [] [] True) (\<lambda>_. mgr_delete ne ext_net)
     else
       bind_tx (delete_external_contracts ne ext_net_db provided consumed False) (\<lambda>_.
       bind_tx (lift_tx (ext_net_to_l3out ne ext_net)) (\<lambda>l3. bind_tx (mgr_get ne l3) (\<lambda>l3found. bind_tx (need l3found) (\<lambda>l3out.
       bind_tx (lift_tx (get_nat_contract ne l3out wanted)) (\<lambda>contract.
         update_contract ne ext_net_db contract True))))))))"

definition update_external_cidrs :: "nat_env \<Rightarrow> obj \<Rightarrow> json list \<Rightarrow> unit tx" where
  "update_external_cidrs ne ext_net cidrs = bind_tx (mgr_get ne ext_net) (\<lambda>found.
     case found of None \<Rightarrow> ok_tx () | Some ext_net_db \<Rightarrow> manage_external_subnets ne ext_net_db cidrs)"

text \<open>The contracts of a network become the given ones, by name.\<close>

definition by_name :: "obj list \<Rightarrow> (json, obj) dict result" where
  "by_name rs = bind_res (traverse_res (\<lambda>r. bind_res (get_attr r ''name'') (\<lambda>n. Inr (n, r))) rs) (\<lambda>kvs. Inr (dict_update [] kvs))"

definition only_in :: "(json, obj) dict \<Rightarrow> (json, obj) dict \<Rightarrow> obj list" where
  "only_in d e = map snd (filter (\<lambda>(n, r). n \<notin> set (dict_keys e)) d)"

definition update_external_network_contracts :: "nat_env \<Rightarrow> obj \<Rightarrow> obj list \<Rightarrow> obj list \<Rightarrow> unit tx" where
  "update_external_network_contracts ne ext_net provided consumed =
     bind_tx (lift_tx (network_filter ''ext_net_name'' ext_net)) (\<lambda>attrs.
     bind_tx (mgr_find ne ExternalNetworkProvidedContract attrs) (\<lambda>prov.
     bind_tx (mgr_find ne ExternalNetworkConsumedContract attrs) (\<lambda>cons.
     bind_tx (lift_tx (by_name prov)) (\<lambda>curr_p. bind_tx (lift_tx (by_name cons)) (\<lambda>curr_c.
     bind_tx (lift_tx (by_name provided)) (\<lambda>new_p. bind_tx (lift_tx (by_name consumed)) (\<lambda>new_c.
     bind_tx (for_tx (\<lambda>r. bind_tx (mgr_create ne r True) (\<lambda>_. ok_tx ())) (only_in new_p curr_p @ only_in new_c curr_c)) (\<lambda>_.
       for_tx (mgr_delete ne) (only_in curr_p new_p @ only_in curr_c new_c)))))))))"

section \<open>NoNatStrategy\<close>

definition is_visible :: "json \<Rightarrow> json \<Rightarrow> bool" where
  "is_visible target from_tenant \<longleftrightarrow> target = from_tenant \<or> target = JStr COMMON"

definition obj_identity :: "nat_env \<Rightarrow> obj \<Rightarrow> string list result" where
  "obj_identity ne r = bind_res (klass_for ne r) (\<lambda>k. identity k r)"

fun without_alias :: "nat_env \<Rightarrow> json \<Rightarrow> json list \<Rightarrow> json list tx" where
  "without_alias ne vrf_name [] = ok_tx []"
| "without_alias ne vrf_name (t # ts) =
     bind_tx (lift_tx (make_res ne VRF [(''tenant_name'', t), (''name'', vrf_name)])) (\<lambda>v.
     bind_tx (mgr_get ne v) (\<lambda>found. bind_tx (without_alias ne vrf_name ts) (\<lambda>rest.
       ok_tx (if found = None then t # rest else rest))))"

definition bds_in_vrf_for_l3out :: "nat_env \<Rightarrow> obj \<Rightarrow> obj \<Rightarrow> obj list tx" where
  "bds_in_vrf_for_l3out ne vrf l3out =
     bind_tx (lift_tx (get_attr vrf ''tenant_name'')) (\<lambda>vt. bind_tx (lift_tx (get_attr l3out ''tenant_name'')) (\<lambda>lt.
     bind_tx (lift_tx (get_attr vrf ''name'')) (\<lambda>vn.
     if vt = JStr COMMON \<and> lt = JStr COMMON then
       bind_tx (mgr_find ne BridgeDomain [(''vrf_name'', vn)]) (\<lambda>bds.
       bind_tx (lift_tx (traverse_res (\<lambda>b. get_attr b ''tenant_name'') bds)) (\<lambda>ts.
       bind_tx (without_alias ne vn (remdups ts)) (\<lambda>tenants.
         ok_tx (map fst (filter (\<lambda>(b, t). t \<in> set tenants) (zip bds ts))))))
     else if vt = JStr COMMON \<or> vt = lt then mgr_find ne BridgeDomain [(''tenant_name'', lt), (''vrf_name'', vn)]
     else ok_tx [])))"

definition l3out_names :: "obj \<Rightarrow> json list result" where
  "l3out_names bd = bind_res (get_attr bd ''l3out_names'') (\<lambda>v. case v of JList xs \<Rightarrow> Inr xs | _ \<Rightarrow> Inl TypeError)"

definition add_l3out :: "nat_env \<Rightarrow> json \<Rightarrow> obj \<Rightarrow> unit tx" where
  "add_l3out ne n bd = bind_tx (lift_tx (l3out_names bd)) (\<lambda>ns.
     if n \<notin> set ns then mgr_update ne bd [(''l3out_names'', JList (ns @ [n]))] else ok_tx ())"

definition remove_l3out :: "nat_env \<Rightarrow> json \<Rightarrow> obj \<Rightarrow> unit tx" where
  "remove_l3out ne n bd = bind_tx (lift_tx (l3out_names bd)) (\<lambda>ns.
     if n \<in> set ns then
       mgr_update ne (bd\<lparr>ofields := dict_set ''l3out_names'' (JList (remove1 n ns)) (ofields bd)\<rparr>)
         [(''l3out_names'', JList (remove1 n ns))]
     else ok_tx ())"

definition set_bd_l3out :: "nat_env \<Rightarrow> obj \<Rightarrow> obj \<Rightarrow> unit tx" where
  "set_bd_l3out ne bd l3outside = bind_tx (mgr_get ne bd) (\<lambda>found. case found of None \<Rightarrow> ok_tx ()
     | Some b \<Rightarrow> bind_tx (lift_tx (get_attr l3outside ''name'')) (\<lambda>n. add_l3out ne n b))"

definition unset_bd_l3out :: "nat_env \<Rightarrow> obj \<Rightarrow> obj \<Rightarrow> unit tx" where
  "unset_bd_l3out ne bd l3outside = bind_tx (mgr_get ne bd) (\<lambda>found. case found of None \<Rightarrow> ok_tx ()
     | Some b \<Rightarrow> bind_tx (lift_tx (get_attr l3outside ''name'')) (\<lambda>n. remove_l3out ne n b))"

text \<open>All bridge domains of the VRF but the NAT one.\<close>

definition other_bds :: "nat_env \<Rightarrow> (json \<Rightarrow> obj \<Rightarrow> unit tx) \<Rightarrow> obj \<Rightarrow> obj \<Rightarrow> obj \<Rightarrow> unit tx" where
  "other_bds ne f l3out vrf nat_bd = bind_tx (bds_in_vrf_for_l3out ne vrf l3out) (for_tx (\<lambda>bd.
     bind_tx (lift_tx (obj_identity ne nat_bd)) (\<lambda>i. bind_tx (lift_tx (obj_identity ne bd)) (\<lambda>j.
     if i = j then ok_tx () else bind_tx (lift_tx (get_attr l3out ''name'')) (\<lambda>n. f n bd)))))"

definition set_bds_l3out :: "nat_env \<Rightarrow> obj \<Rightarrow> obj \<Rightarrow> string option \<Rightarrow> unit tx" where
  "set_bds_l3out ne l3out vrf wanted = bind_tx (lift_tx (get_nat_bd ne l3out wanted)) (other_bds ne (add_l3out ne) l3out vrf)"

definition disconnect_vrf_from_l3out :: "nat_env \<Rightarrow> obj \<Rightarrow> obj \<Rightarrow> string option \<Rightarrow> unit tx" where
  "disconnect_vrf_from_l3out ne l3out vrf wanted = bind_tx (lift_tx (get_nat_bd ne l3out wanted)) (other_bds ne (remove_l3out ne) l3out vrf)"

definition no_nat_delete_external_network ::
  "nat_env \<Rightarrow> obj \<Rightarrow> obj list \<Rightarrow> obj list \<Rightarrow> string option \<Rightarrow> json list option \<Rightarrow> unit tx" where
  "no_nat_delete_external_network ne external_network provided consumed wanted cidrs =
     bind_tx (mgr_get ne external_network) (\<lambda>found. case found of None \<Rightarrow> ok_tx () | Some ext_net \<Rightarrow>
     bind_tx (lift_tx (ext_net_to_l3out ne external_network)) (\<lambda>l3. bind_tx (mgr_get ne l3) (\<lambda>l3found. bind_tx (need l3found) (\<lambda>l3out.
     bind_tx (l3out_vrf ne l3out) (\<lambda>vrf.
     bind_tx (case vrf of None \<Rightarrow> ok_tx () | Some v \<Rightarrow> disconnect_vrf_from_l3out ne l3out v wanted) (\<lambda>_.
       delete_ext_net ne ext_net provided consumed wanted cidrs))))))"

definition VrfNotVisibleFromExternalNetwork :: exc where
  "VrfNotVisibleFromExternalNetwork = OtherError ''VrfNotVisibleFromExternalNetwork''"

definition L3OutsideVrfChangeDisallowed :: exc where
  "L3OutsideVrfChangeDisallowed = OtherError ''L3OutsideVrfChangeDisallowed''"

definition same_vrf :: "nat_env \<Rightarrow> obj option \<Rightarrow> obj \<Rightarrow> bool result" where
  "same_vrf ne old vrf = (case old of None \<Rightarrow> Inr False | Some o' \<Rightarrow>
     bind_res (obj_identity ne o') (\<lambda>i. bind_res (obj_identity ne vrf) (\<lambda>j. Inr (i = j))))"

definition no_nat_connect_vrf :: "nat_env \<Rightarrow> obj \<Rightarrow> obj \<Rightarrow> obj list \<Rightarrow> obj list \<Rightarrow> string option \<Rightarrow> unit tx" where
  "no_nat_connect_vrf ne external_network vrf provided consumed wanted =
     bind_tx (lift_tx (get_attr vrf ''tenant_name'')) (\<lambda>vt. bind_tx (lift_tx (get_attr external_network ''tenant_name'')) (\<lambda>et.
     if \<not> is_visible vt et then lift_tx (Inl VrfNotVisibleFromExternalNetwork)
     else bind_tx (mgr_get ne external_network) (\<lambda>found. case found of None \<Rightarrow> ok_tx () | Some _ \<Rightarrow>
       bind_tx (lift_tx (ext_net_to_l3out ne external_network)) (\<lambda>l3. bind_tx (mgr_get ne l3) (\<lambda>l3found. bind_tx (need l3found) (\<lambda>l3out.
       bind_tx (l3out_vrf ne l3out) (\<lambda>old. bind_tx (lift_tx (same_vrf ne old vrf)) (\<lambda>same.
       if \<not> same then lift_tx (Inl L3OutsideVrfChangeDisallowed)
       else
         bind_tx (set_bds_l3out ne l3out vrf wanted) (\<lambda>_.
         bind_tx (lift_tx (get_nat_contract ne l3out wanted)) (\<lambda>contract.
         bind_tx (lift_tx (nat_refs ne external_network contract)) (\<lambda>(p, c).
           update_external_network_contracts ne external_network (provided @ [p]) (consumed @ [c]))))))))))))"

definition no_nat_disconnect_vrf :: "nat_env \<Rightarrow> obj \<Rightarrow> obj \<Rightarrow> string option \<Rightarrow> unit tx" where
  "no_nat_disconnect_vrf ne external_network vrf wanted =
     bind_tx (mgr_get ne external_network) (\<lambda>found. case found of None \<Rightarrow> ok_tx () | Some _ \<Rightarrow>
     bind_tx (lift_tx (ext_net_to_l3out ne external_network)) (\<lambda>l3. bind_tx (mgr_get ne l3) (\<lambda>l3found. bind_tx (need l3found) (\<lambda>l3out.
     bind_tx (l3out_vrf ne l3out) (\<lambda>old. bind_tx (lift_tx (same_vrf ne old vrf)) (\<lambda>same.
     if old \<noteq> None \<and> \<not> same then ok_tx ()
     else
       bind_tx (disconnect_vrf_from_l3out ne l3out vrf wanted) (\<lambda>_.
       bind_tx (lift_tx (get_nat_contract ne l3out wanted)) (\<lambda>contract.
       bind_tx (lift_tx (nat_refs ne external_network contract)) (\<lambda>(p, c).
         update_external_network_contracts ne external_network [p] [c])))))))))"

definition no_nat_read_vrfs :: "nat_env \<Rightarrow> obj \<Rightarrow> obj list tx" where
  "no_nat_read_vrfs ne external_network =
     bind_tx (lift_tx (ext_net_to_l3out ne external_network)) (\<lambda>l3. bind_tx (mgr_get ne l3) (\<lambda>l3found. bind_tx (need l3found) (\<lambda>l3out.
     bind_tx (l3out_vrf ne l3out) (\<lambda>v. ok_tx (case v of None \<Rightarrow> [] | Some x \<Rightarrow> [x])))))"

section \<open>DistributedNatStrategy and EdgeNatStrategy\<close>

definition generate_l3out_name :: "obj \<Rightarrow> obj \<Rightarrow> (string \<times> string) result" where
  "generate_l3out_name l3out vrf =
     bind_res (str_attr l3out ''name'') (\<lambda>ln. bind_res (str_attr vrf ''name'') (\<lambda>vn.
     bind_res (display_name l3out) (\<lambda>ld. bind_res (display_name vrf) (\<lambda>vd.
       Inr (ln @ ''-'' @ vn, sanitize_display_name (ld @ ''-'' @ vd))))))"

definition make_l3out_clone :: "nat_env \<Rightarrow> obj \<Rightarrow> obj \<Rightarrow> obj result" where
  "make_l3out_clone ne l3out vrf =
     bind_res (get_attr vrf ''tenant_name'') (\<lambda>t. bind_res (generate_l3out_name l3out vrf) (\<lambda>(n, d).
     bind_res (get_attr vrf ''name'') (\<lambda>vn.
       make_res ne L3Outside [(''tenant_name'', t), (''name'', JStr n), (''display_name'', JStr d), (''vrf_name'', vn)])))"

definition find_l3out_clones :: "nat_env \<Rightarrow> obj \<Rightarrow> obj list tx" where
  "find_l3out_clones ne l3out = bind_tx (get_clones l3out) (\<lambda>keys.
     lift_tx (traverse_res (\<lambda>(t, n). make_res ne L3Outside [(''tenant_name'', JStr t), (''name'', JStr n)]) keys))"

text \<open>The network of the same name in an L3Outside.\<close>

definition net_in :: "nat_env \<Rightarrow> obj \<Rightarrow> json \<Rightarrow> kwargs \<Rightarrow> obj result" where
  "net_in ne l3out name extra = bind_res (get_attr l3out ''tenant_name'') (\<lambda>t. bind_res (get_attr l3out ''name'') (\<lambda>l.
     make_res ne ExternalNetwork ([(''tenant_name'', t), (''l3out_name'', l)] @ extra @ [(''name'', name)])))"

text \<open>Without networks \<open>delete_l3out\<close> deletes none.\<close>

definition delete_unused_l3out :: "nat_env \<Rightarrow> obj \<Rightarrow> unit tx" where
  "delete_unused_l3out ne l3out =
     bind_tx (lift_tx (get_attr l3out ''tenant_name'')) (\<lambda>t. bind_tx (lift_tx (get_attr l3out ''name'')) (\<lambda>n.
     bind_tx (mgr_find ne ExternalNetwork [(''tenant_name'', t), (''l3out_name'', n)]) (\<lambda>ens.
       if ens = [] then delete_l3out ne (\<lambda>_. ok_tx ()) l3out False None else ok_tx ())))"

text \<open>The manager refuses \<open>None\<close>.\<close>

definition not_an_object :: exc where "not_an_object = UnknownResourceType ''NoneType''"

definition dist_delete_external_network ::
  "nat_env \<Rightarrow> obj \<Rightarrow> obj list \<Rightarrow> obj list \<Rightarrow> string option \<Rightarrow> json list option \<Rightarrow> unit tx" where
  "dist_delete_external_network ne external_network provided consumed wanted cidrs =
     bind_tx (lift_tx (ext_net_to_l3out ne external_network)) (\<lambda>l3. bind_tx (mgr_get ne l3) (\<lambda>l3out.
     bind_tx (mgr_get ne external_network) (\<lambda>ext_net_db.
     bind_tx (case (l3out, ext_net_db) of
         (Some l, Some en) \<Rightarrow> bind_tx (find_l3out_clones ne l) (for_tx (\<lambda>clone.
           bind_tx (lift_tx (get_attr en ''name'')) (\<lambda>n. bind_tx (lift_tx (net_in ne clone n [])) (\<lambda>cn.
           bind_tx (delete_ext_net ne cn provided consumed wanted cidrs) (\<lambda>_. delete_unused_l3out ne clone)))))
       | _ \<Rightarrow> ok_tx ()) (\<lambda>_.
     case ext_net_db of
       None \<Rightarrow> lift_tx (Inl not_an_object)
     | Some en \<Rightarrow> delete_ext_net ne en provided consumed wanted cidrs))))"

definition dist_update_external_cidrs :: "nat_env \<Rightarrow> obj \<Rightarrow> json list \<Rightarrow> unit tx" where
  "dist_update_external_cidrs ne external_network cidrs =
     bind_tx (lift_tx (ext_net_to_l3out ne external_network)) (\<lambda>l3. bind_tx (mgr_get ne l3) (\<lambda>l3out.
     bind_tx (mgr_get ne external_network) (\<lambda>ext_net_db.
     case (l3out, ext_net_db) of
       (Some l, Some en) \<Rightarrow>
         bind_tx (find_l3out_clones ne l) (\<lambda>clones.
         bind_tx (for_tx (\<lambda>clone. bind_tx (lift_tx (get_attr external_network ''name'')) (\<lambda>n.
             bind_tx (lift_tx (net_in ne clone n [])) (\<lambda>cn. manage_external_subnets ne cn cidrs))) clones) (\<lambda>_.
           manage_external_subnets ne en cidrs))
     | _ \<Rightarrow> ok_tx ())))"

text \<open>The references to contracts are made anew for the shadow network.\<close>

definition shadow_refs :: "nat_env \<Rightarrow> klass \<Rightarrow> obj \<Rightarrow> obj list \<Rightarrow> obj list result" where
  "shadow_refs ne k net refs =
     bind_res (get_attr net ''tenant_name'') (\<lambda>t. bind_res (get_attr net ''l3out_name'') (\<lambda>l. bind_res (get_attr net ''name'') (\<lambda>n.
     traverse_res (\<lambda>r. bind_res (get_attr r ''name'') (\<lambda>c. contract_ref ne k t l n c)) refs)))"

definition shadow_net ::
  "nat_env \<Rightarrow> obj \<Rightarrow> obj \<Rightarrow> obj \<Rightarrow> obj \<Rightarrow> bool \<Rightarrow> obj list \<Rightarrow> obj list \<Rightarrow> string option \<Rightarrow> (obj \<times> obj list \<times> obj list) result" where
  "shadow_net ne ext_net ext_net_db l3out clone with_nat_epg provided consumed wanted =
     bind_res (get_attr ext_net_db ''display_name'') (\<lambda>d. bind_res (get_attr ext_net ''name'') (\<lambda>n.
     bind_res (net_in ne clone n [(''display_name'', d)]) (\<lambda>net.
     bind_res (shadow_refs ne ExternalNetworkProvidedContract net provided) (\<lambda>ps.
     bind_res (shadow_refs ne ExternalNetworkConsumedContract net consumed) (\<lambda>cs.
     if with_nat_epg then
       bind_res (get_nat_ap_epg ne l3out wanted) (\<lambda>(_, epg).
       bind_res (obj_dn (api (ne_env ne)) EndpointGroup epg) (\<lambda>dn.
         Inr (net\<lparr>ofields := dict_set ''nat_epg_dn'' (JStr dn) (ofields net)\<rparr>, ps, cs)))
     else Inr (net, ps, cs))))))"

text \<open>The shadow is stored, gets the addresses of the network, and becomes a clone unless it is one.\<close>

definition store_shadow :: "nat_env \<Rightarrow> obj \<Rightarrow> obj \<Rightarrow> obj \<Rightarrow> obj \<Rightarrow> obj list \<Rightarrow> obj list \<Rightarrow> unit tx" where
  "store_shadow ne ext_net_db l3out clone net ps cs =
     bind_tx (mgr_create ne clone True) (\<lambda>_.
     bind_tx (mgr_create ne net True) (\<lambda>_.
     bind_tx (update_external_network_contracts ne net ps cs) (\<lambda>_.
     bind_tx (lift_tx (network_filter ''external_network_name'' ext_net_db)) (\<lambda>attrs.
     bind_tx (mgr_find ne ExternalSubnet attrs) (\<lambda>subs.
     bind_tx (lift_tx (traverse_res (\<lambda>s. get_attr s ''cidr'') subs)) (\<lambda>cidrs.
     bind_tx (manage_external_subnets ne net cidrs) (\<lambda>_.
     bind_tx (clones_get clone) (\<lambda>rows.
       if rows = [] then clones_set l3out clone else ok_tx ()))))))))"

definition create_shadow ::
  "nat_env \<Rightarrow> obj \<Rightarrow> obj \<Rightarrow> bool \<Rightarrow> obj list \<Rightarrow> obj list \<Rightarrow> string option \<Rightarrow> obj option tx" where
  "create_shadow ne ext_net vrf with_nat_epg provided consumed wanted =
     bind_tx (mgr_get ne ext_net) (\<lambda>found. case found of None \<Rightarrow> ok_tx None | Some ext_net_db \<Rightarrow>
     bind_tx (lift_tx (ext_net_to_l3out ne ext_net_db)) (\<lambda>l3. bind_tx (mgr_get ne l3) (\<lambda>l3found. bind_tx (need l3found) (\<lambda>l3out.
     bind_tx (lift_tx (make_l3out_clone ne l3out vrf)) (\<lambda>clone.
     bind_tx (lift_tx (shadow_net ne ext_net ext_net_db l3out clone with_nat_epg provided consumed wanted)) (\<lambda>(net, ps, cs).
     bind_tx (store_shadow ne ext_net_db l3out clone net ps cs) (\<lambda>_. ok_tx (Some net))))))))"

definition dist_connect_vrf :: "nat_env \<Rightarrow> obj \<Rightarrow> obj \<Rightarrow> obj list \<Rightarrow> obj list \<Rightarrow> string option \<Rightarrow> obj option tx" where
  "dist_connect_vrf ne ext_net vrf provided consumed wanted = create_shadow ne ext_net vrf True provided consumed wanted"

definition edge_connect_vrf :: "nat_env \<Rightarrow> obj \<Rightarrow> obj \<Rightarrow> obj list \<Rightarrow> obj list \<Rightarrow> string option \<Rightarrow> obj option tx" where
  "edge_connect_vrf ne ext_net vrf provided consumed wanted = create_shadow ne ext_net vrf False provided consumed wanted"

definition delete_shadow :: "nat_env \<Rightarrow> obj \<Rightarrow> obj \<Rightarrow> string option \<Rightarrow> unit tx" where
  "delete_shadow ne ext_net vrf wanted =
     bind_tx (lift_tx (ext_net_to_l3out ne ext_net)) (\<lambda>l3. bind_tx (mgr_get ne l3) (\<lambda>l3found. bind_tx (need l3found) (\<lambda>l3out.
     bind_tx (lift_tx (get_attr vrf ''tenant_name'')) (\<lambda>t. bind_tx (lift_tx (generate_l3out_name l3out vrf)) (\<lambda>(n, _).
     bind_tx (lift_tx (make_res ne L3Outside [(''tenant_name'', t), (''name'', JStr n)])) (\<lambda>clone.
     bind_tx (lift_tx (get_attr ext_net ''name'')) (\<lambda>en. bind_tx (lift_tx (net_in ne clone en [])) (\<lambda>net.
     bind_tx (delete_ext_net ne net [] [] wanted None) (\<lambda>_. delete_unused_l3out ne clone)))))))))"

definition dist_disconnect_vrf :: "nat_env \<Rightarrow> obj \<Rightarrow> obj \<Rightarrow> string option \<Rightarrow> unit tx" where
  "dist_disconnect_vrf = delete_shadow"

text \<open>The VRF of a clone, if both are there.\<close>

definition clone_vrf :: "nat_env \<Rightarrow> obj \<Rightarrow> obj option tx" where
  "clone_vrf ne c = bind_tx (mgr_get ne c) (\<lambda>found. case found of None \<Rightarrow> ok_tx None | Some l3c \<Rightarrow>
     bind_tx (lift_tx (get_attr l3c ''tenant_name'')) (\<lambda>t. bind_tx (lift_tx (get_attr l3c ''vrf_name'')) (\<lambda>v.
     bind_tx (lift_tx (make_res ne VRF [(''tenant_name'', t), (''name'', v)])) (mgr_get ne))))"

definition dist_read_vrfs :: "nat_env \<Rightarrow> obj \<Rightarrow> obj list tx" where
  "dist_read_vrfs ne ext_net =
     bind_tx (lift_tx (ext_net_to_l3out ne ext_net)) (\<lambda>l3. bind_tx (mgr_get ne l3) (\<lambda>l3found. bind_tx (need l3found) (\<lambda>l3out.
     bind_tx (find_l3out_clones ne l3out) (\<lambda>clones.
     bind_tx (map_tx (clone_vrf ne) clones) (\<lambda>vs.
       ok_tx (concat (map (\<lambda>x. case x of None \<Rightarrow> [] | Some v \<Rightarrow> [v]) vs)))))))"

section \<open>The three strategies\<close>

datatype strategy = NoNat | DistributedNat | EdgeNat

definition delete_external_network ::
  "nat_env \<Rightarrow> strategy \<Rightarrow> obj \<Rightarrow> obj list \<Rightarrow> obj list \<Rightarrow> string option \<Rightarrow> json list option \<Rightarrow> unit tx" where
  "delete_external_network ne st = (if st = NoNat then no_nat_delete_external_network ne else dist_delete_external_network ne)"

definition strategy_update_external_cidrs :: "nat_env \<Rightarrow> strategy \<Rightarrow> obj \<Rightarrow> json list \<Rightarrow> unit tx" where
  "strategy_update_external_cidrs ne st = (if st = NoNat then update_external_cidrs ne else dist_update_external_cidrs ne)"

definition connect_vrf :: "nat_env \<Rightarrow> strategy \<Rightarrow> obj \<Rightarrow> obj \<Rightarrow> obj list \<Rightarrow> obj list \<Rightarrow> string option \<Rightarrow> obj option tx" where
  "connect_vrf ne st ext_net vrf provided consumed wanted = (case st of
      NoNat \<Rightarrow> bind_tx (no_nat_connect_vrf ne ext_net vrf provided consumed wanted) (\<lambda>_. ok_tx None)
    | DistributedNat \<Rightarrow> dist_connect_vrf ne ext_net vrf provided consumed wanted
    | EdgeNat \<Rightarrow> edge_connect_vrf ne ext_net vrf provided consumed wanted)"

definition disconnect_vrf :: "nat_env \<Rightarrow> strategy \<Rightarrow> obj \<Rightarrow> obj \<Rightarrow> string option \<Rightarrow> unit tx" where
  "disconnect_vrf ne st = (if st = NoNat then no_nat_disconnect_vrf ne else dist_disconnect_vrf ne)"

definition read_vrfs :: "nat_env \<Rightarrow> strategy \<Rightarrow> obj \<Rightarrow> obj list tx" where
  "read_vrfs ne st = (if st = NoNat then no_nat_read_vrfs ne else dist_read_vrfs ne)"

definition delete_l3outside :: "nat_env \<Rightarrow> strategy \<Rightarrow> obj \<Rightarrow> string option \<Rightarrow> json list option \<Rightarrow> unit tx" where
  "delete_l3outside ne st l3outside wanted cidrs =
     delete_l3out ne (\<lambda>en. delete_external_network ne st en [] [] wanted cidrs) l3outside True wanted"

end
