(* ===== verification/Nat_Props.thy ===== *)
theory Nat_Props
  imports Nat_Strategy Universe_Owned Aim_Manager_Props
begin

text \<open>
  What the NAT strategies guarantee: the addresses of an external network become the given ones and nothing
  else changes, and a VRF is connected to the bridge domains that can see it.
\<close>

section \<open>Rows after a deletion and a creation\<close>

abbreviation data_rows :: "aim_db \<Rightarrow> (string \<times> row) list" where
  "data_rows \<equiv> Universe_Owned.others"

definition has_id :: "klass \<Rightarrow> kwargs \<Rightarrow> string \<times> row \<Rightarrow> bool" where
  "has_id k i cr \<longleftrightarrow> fst cr = kname k \<and> row_id k (snd cr) = map (Some \<circ> snd) i"

lemma data_rows_deleted:
  assumes del: "delete_one env k r force db = Inr db'" and i: "extract_id k r = Inr i" and k: "kname k \<notin> status_names"
  shows "data_rows db' = filter (\<lambda>cr. \<not> has_id k i cr) (data_rows db)"
proof -
  consider (none) "db' = db" "query_db_obj db k r = Inr None"
    | (row) row db2 where "query_db_obj db k r = Inr (Some row)" "data_rows db2 = data_rows db" "db' = store_delete k row db2"
    using delete_one_result [OF del]
  proof (elim disjE exE conjE)
    fix row st fs db2 assume "delete_row env AciStatus st db = Inr db2" "query_db_obj db k r = Inr (Some row)" "db' = store_delete k row db2"
    then show thesis using that(2) others_store_delete [of AciStatus _ db] by (auto simp: delete_row_def split: option.split_asm)
  qed (use that in simp_all)
  then show ?thesis
  proof cases
    case none
    then have "\<forall>r. (kname k, r) \<in> set (tables db) \<longrightarrow> row_id k r \<noteq> map (Some \<circ> snd) i"
      by (simp add: query_db_obj_first [OF i] first_row_None)
    then have "\<forall>cr \<in> set (data_rows db). \<not> has_id k i cr" by (auto simp: has_id_def Universe_Owned.others_def)
    with none show ?thesis by (simp cong: filter_cong)
  next
    case row
    then have id: "row_id k row = map (Some \<circ> snd) i"
      using first_row_Some [of db k "map (Some \<circ> snd) i" row] by (simp add: query_db_obj_first [OF i])
    have "data_rows db' = filter (\<lambda>cr. \<not> has_id k i cr) (data_rows db2)"
      by (auto simp: row(3) Universe_Owned.others_def store_delete_def same_row_def has_id_def id intro: filter_cong)
    with row(2) show ?thesis by simp
  qed
qed

text \<open>The classes whose deletion and creation the strategies need here have constructors that keep what they get.\<close>

lemma mgr_delete_rows:
  assumes del: "mgr_delete ne r s = Inr (u, s')" and k: "klass_of (ne_env ne) (oclass r) = Some k" "oclass r = kname k"
    and i: "extract_id k r = Inr i" and plain: "kname k \<notin> status_names" "kname k \<noteq> ''L3Outside''"
  shows "data_rows (nd_db s') = filter (\<lambda>cr. \<not> has_id k i cr) (data_rows (nd_db s)) \<and> nd_clones s' = nd_clones s"
proof -
  from del k plain(2) obtain db where "aim_delete (ne_env ne) k r False False (nd_db s) = Inr db" "s' = s\<lparr>nd_db := db\<rparr>"
    by (auto simp: mgr_delete_def bind_tx_Inr mgr_get_def klass_for_def ok_tx_def)
  then show ?thesis using data_rows_deleted [OF _ i plain(1)] by (auto simp: aim_delete_def)
qed

lemma mgr_create_rows:
  assumes new: "mgr_create ne r False s = Inr (x, s')" and k: "klass_of (ne_env ne) (oclass r) = Some k"
    and plain: "kname k \<notin> status_names"
  obtains row where "make_db_obj k r = Inr row" "nd_clones s' = nd_clones s"
    "data_rows (nd_db s') = data_rows (nd_db s) @ [(kname k, new_ids (nd_db s) k row)]"
proof -
  from new k obtain db where c: "aim_create (ne_fuel ne) (ne_env ne) k r False False (nd_db s) = Inr (x, db)" "s' = s\<lparr>nd_db := db\<rparr>"
    by (auto simp: mgr_create_def klass_for_def)
  from c(1) obtain w db1 where w: "create_row (ne_env ne) k r False False (nd_db s) = Inr (w, db1)"
    by (auto simp: aim_create_def)
  from create_row_result [OF w] obtain row where row: "w = Written False" "make_db_obj k r = Inr row"
    "\<not> list_ex (same_row k row) (tables (nd_db s))" "db1 = store_add k row (nd_db s)" by auto
  from c(1) w row(1) have "db = db1" by (auto simp: aim_create_def)
  with c(2) row others_store_add_new [OF row(3) plain] show thesis by (intro that) simp_all
qed

section \<open>The addresses of an external network\<close>

text \<open>The subnets of a network: their class, their identity, and the rows of a table of them.\<close>

definition subnet_of :: "kwargs \<Rightarrow> string \<times> row \<Rightarrow> bool" where
  "subnet_of attrs cr \<longleftrightarrow> fst cr = ''ExternalSubnet'' \<and> matches attrs (snd cr)"

definition cidr_of :: "string \<times> row \<Rightarrow> json option" where
  "cidr_of cr = dict_get (snd cr) ''cidr''"

definition net_subnets :: "kwargs \<Rightarrow> aim_db \<Rightarrow> (string \<times> row) list" where
  "net_subnets attrs db = filter (subnet_of attrs) (data_rows db)"

text \<open>A row is a dictionary with an address, and an address occurs once.\<close>

definition subnets_ok :: "kwargs \<Rightarrow> aim_db \<Rightarrow> bool" where
  "subnets_ok attrs db \<longleftrightarrow> list_all (\<lambda>cr. dict_ok (snd cr) \<and> cidr_of cr \<noteq> None) (net_subnets attrs db)
     \<and> distinct (map cidr_of (net_subnets attrs db))"

lemma storable_subnet: "storable ExternalSubnet"
  by (simp add: storable_def ExternalSubnet_def attributes_def plain_ctor_def)

lemma subnet_name [simp]: "kname ExternalSubnet = ''ExternalSubnet''"
  by (simp add: ExternalSubnet_def)

lemma data_class [simp]: "''ExternalSubnet'' \<notin> status_names"
  by (simp add: status_names_def)

definition net_attrs :: "json \<Rightarrow> json \<Rightarrow> json \<Rightarrow> kwargs" where
  "net_attrs t l n = [(''tenant_name'', t), (''l3out_name'', l), (''external_network_name'', n)]"

lemma network_filter_subnets: "network_filter ''external_network_name'' net = Inr attrs \<Longrightarrow> \<exists>t l n. attrs = net_attrs t l n"
  by (auto simp: network_filter_def net_attrs_def)

lemma subnet_id:
  "has_id ExternalSubnet (net_attrs t l n @ [(''cidr'', c)]) cr \<longleftrightarrow> subnet_of (net_attrs t l n) cr \<and> cidr_of cr = Some c"
  by (auto simp: has_id_def subnet_of_def cidr_of_def net_attrs_def matches_def row_id_def ExternalSubnet_def)

lemma find_subnets:
  assumes "mgr_find ne ExternalSubnet (net_attrs t l n) s = Inr (subs, s')"
  shows "s' = s \<and> traverse_res (\<lambda>cr. make_resource (ne_env ne) ExternalSubnet (snd cr) False) (net_subnets (net_attrs t l n) (nd_db s)) = Inr subs"
proof -
  have known: "known_filters ExternalSubnet (net_attrs t l n) = net_attrs t l n"
    by (simp add: known_filters_def net_attrs_def attributes_def ExternalSubnet_def)
  have "filter (\<lambda>(c, r). c = ''ExternalSubnet'' \<and> matches a r) xs = filter (subnet_of a) (filter (\<lambda>cr. fst cr \<notin> status_names) xs)" for a xs
    by (induction xs) (auto simp: subnet_of_def)
  then have q: "store_query (nd_db s) ExternalSubnet (net_attrs t l n) = map snd (net_subnets (net_attrs t l n) (nd_db s))"
    by (simp add: store_query_def net_subnets_def Universe_Owned.others_def)
  have "traverse_res f (map snd xs) = traverse_res (\<lambda>cr. f (snd cr)) xs" for f :: "row \<Rightarrow> obj result" and xs :: "(string \<times> row) list"
    by (induction xs) simp_all
  with assms q known show ?thesis by (auto simp: mgr_find_def aim_find_def)
qed

text \<open>An object read from a row of the network has the identity of the row.\<close>

lemma subnet_read:
  assumes mk: "make_resource env ExternalSubnet (snd cr) False = Inr sub"
    and cr: "subnet_of (net_attrs t l n) cr" "dict_ok (snd cr)" "cidr_of cr = Some c"
  shows "oclass sub = ''ExternalSubnet'' \<and> get_attr sub ''cidr'' = Inr c
    \<and> extract_id ExternalSubnet sub = Inr (net_attrs t l n @ [(''cidr'', c)])"
proof -
  note a = make_resource_attr [OF storable_subnet mk cr(2)]
  have "dict_get (snd cr) ''tenant_name'' = Some t" "dict_get (snd cr) ''l3out_name'' = Some l"
    "dict_get (snd cr) ''external_network_name'' = Some n" "dict_get (snd cr) ''cidr'' = Some c"
    using cr by (simp_all add: subnet_of_def net_attrs_def matches_def cidr_of_def)
  then have "get_attr sub ''tenant_name'' = Inr t" "get_attr sub ''l3out_name'' = Inr l"
    "get_attr sub ''external_network_name'' = Inr n" "get_attr sub ''cidr'' = Inr c"
    by (auto intro!: a(2) simp: attributes_def ExternalSubnet_def)
  then show ?thesis using a(1) by (simp add: extract_id_def net_attrs_def ExternalSubnet_def)
qed

lemma dropped_subnets:
  assumes "drop_subnets ne subs cidrs s = Inr (missing, s')"
    and "traverse_res (\<lambda>cr. make_resource (ne_env ne) ExternalSubnet (snd cr) False) crs = Inr subs"
    and "list_all (\<lambda>cr. subnet_of (net_attrs t l n) cr \<and> dict_ok (snd cr) \<and> cidr_of cr \<noteq> None) crs" "distinct (map cidr_of crs)"
    and k: "klass_of (ne_env ne) ''ExternalSubnet'' = Some ExternalSubnet"
  shows "nd_clones s' = nd_clones s
    \<and> Some ` set missing \<union> (cidr_of ` set crs \<inter> Some ` set cidrs) = Some ` set cidrs
    \<and> data_rows (nd_db s') = filter (\<lambda>cr. \<not> (subnet_of (net_attrs t l n) cr \<and> cidr_of cr \<in> cidr_of ` set crs - Some ` set cidrs)) (data_rows (nd_db s))"
  using assms(1-4)
proof (induction crs arbitrary: subs cidrs s)
  case Nil
  then show ?case by (simp add: ok_tx_def)
next
  case (Cons cr crs)
  from Cons.prems(2) obtain sub subs' where subs: "subs = sub # subs'" "make_resource (ne_env ne) ExternalSubnet (snd cr) False = Inr sub"
    "traverse_res (\<lambda>cr. make_resource (ne_env ne) ExternalSubnet (snd cr) False) crs = Inr subs'" by auto
  from Cons.prems(3) obtain c where c: "subnet_of (net_attrs t l n) cr" "dict_ok (snd cr)" "cidr_of cr = Some c" by auto
  note sub = subnet_read [OF subs(2) c]
  have rest: "list_all (\<lambda>cr. subnet_of (net_attrs t l n) cr \<and> dict_ok (snd cr) \<and> cidr_of cr \<noteq> None) crs" "distinct (map cidr_of crs)"
    and new: "Some c \<notin> cidr_of ` set crs" using Cons.prems(3,4) c(3) by (auto simp: rev_image_eqI)
  show ?case
  proof (cases "c \<in> set cidrs")
    case True
    then have d: "drop_subnets ne subs' (remove1 c cidrs) s = Inr (missing, s')" using Cons.prems(1) subs(1) sub by simp
    have r: "cidr_of ` set crs \<inter> Some ` set (remove1 c cidrs) = cidr_of ` set crs \<inter> Some ` set cidrs"
      "cidr_of ` set crs - Some ` set (remove1 c cidrs) = cidr_of ` set (cr # crs) - Some ` set cidrs"
      "insert (Some c) (Some ` set (remove1 c cidrs)) = Some ` set cidrs"
      using new True c(3) in_set_remove1 [of _ c cidrs] set_remove1_subset [of c cidrs] by (auto simp: image_iff)
    from Cons.IH [OF d subs(3) rest] r True c(3) show ?thesis by auto
  next
    case False
    then obtain s1 where d: "mgr_delete ne sub s = Inr ((), s1)" "drop_subnets ne subs' cidrs s1 = Inr (missing, s')"
      using Cons.prems(1) subs(1) sub by (auto simp: bind_tx_Inr)
    have m: "data_rows (nd_db s1) = filter (\<lambda>x. \<not> (subnet_of (net_attrs t l n) x \<and> cidr_of x = Some c)) (data_rows (nd_db s))"
      "nd_clones s1 = nd_clones s"
      using mgr_delete_rows [OF d(1), of ExternalSubnet "net_attrs t l n @ [(''cidr'', c)]"] sub k by (simp_all add: subnet_id)
    have "cidr_of ` set (cr # crs) \<inter> Some ` set cidrs = cidr_of ` set crs \<inter> Some ` set cidrs" using False c(3) by auto
    moreover note ih = Cons.IH [OF d(2) subs(3) rest]
    moreover have "data_rows (nd_db s') = filter (\<lambda>x. \<not> (subnet_of (net_attrs t l n) x \<and> cidr_of x \<in> cidr_of ` set (cr # crs) - Some ` set cidrs))
        (data_rows (nd_db s))"
      using ih m(1) False c(3) by (auto intro!: filter_cong)
    ultimately show ?thesis using m(2) by simp
  qed
qed

lemma created_subnet:
  assumes run: "create_cidr ne (net_attrs t l n) c s = Inr (u, s')" and k: "klass_of (ne_env ne) ''ExternalSubnet'' = Some ExternalSubnet"
  obtains cr where "data_rows (nd_db s') = data_rows (nd_db s) @ [cr]" "subnet_of (net_attrs t l n) cr" "cidr_of cr = Some c"
    "nd_clones s' = nd_clones s"
proof -
  define sub where "sub = \<lparr>oclass = ''ExternalSubnet'', ofields = [(''monitored'', JBool False), (''aggregate'', JStr []),
    (''scope'', JStr ''import-security''), (''display_name'', JStr []), (''cidr'', c), (''tenant_name'', t), (''l3out_name'', l),
    (''external_network_name'', n)]\<rparr>"
  have mk: "make_res ne ExternalSubnet ((''cidr'', c) # net_attrs t l n) = Inr x \<Longrightarrow> x = sub" for x
    by (auto simp: make_res_def make_obj_def ExternalSubnet_def plain_ctor_def resource_init_def net_attrs_def sub_def
      dict_simps dict_getd_def split: if_split_asm)
  from run mk obtain x s1 where "mgr_create ne sub False s = Inr (x, s1)" "s' = s1"
    by (auto simp: create_cidr_def bind_tx_Inr ok_tx_def lift_tx_Inr)
  then obtain row where row: "make_db_obj ExternalSubnet sub = Inr row" "nd_clones s' = nd_clones s"
    "data_rows (nd_db s') = data_rows (nd_db s) @ [(''ExternalSubnet'', new_ids (nd_db s) ExternalSubnet row)]"
    using mgr_create_rows [of ne sub s x s1 ExternalSubnet] k by (auto simp: sub_def)
  have comp: "complete ExternalSubnet sub"
    by (simp add: complete_def sub_def ExternalSubnet_def user_attributes_def lookup_attr_def get_attr_def)
  have ids: "dict_get row ''tenant_name'' = Some t" "dict_get row ''l3out_name'' = Some l"
    "dict_get row ''external_network_name'' = Some n" "dict_get row ''cidr'' = Some c"
    using new_row_lookup(1) [OF storable_subnet comp row(1)]
    by (simp_all add: user_attributes_def ExternalSubnet_def lookup_attr_def get_attr_def sub_def)
  show thesis
    by (rule that [OF row(3) _ _ row(2)])
      (simp_all add: ids subnet_of_def cidr_of_def net_attrs_def matches_def new_ids_def ExternalSubnet_def dict_simps)
qed

lemma created_subnets:
  assumes "for_tx (create_cidr ne (net_attrs t l n)) cs s = Inr (u, s')" and k: "klass_of (ne_env ne) ''ExternalSubnet'' = Some ExternalSubnet"
  shows "\<exists>new. data_rows (nd_db s') = data_rows (nd_db s) @ new \<and> list_all (subnet_of (net_attrs t l n)) new
    \<and> map cidr_of new = map Some cs \<and> nd_clones s' = nd_clones s"
  using assms(1)
proof (induction cs arbitrary: s)
  case (Cons c cs)
  from Cons.prems obtain s1 where 1: "create_cidr ne (net_attrs t l n) c s = Inr ((), s1)"
    "for_tx (create_cidr ne (net_attrs t l n)) cs s1 = Inr (u, s')" by (auto simp: bind_tx_Inr)
  obtain cr where cr: "data_rows (nd_db s1) = data_rows (nd_db s) @ [cr]" "subnet_of (net_attrs t l n) cr" "cidr_of cr = Some c"
    "nd_clones s1 = nd_clones s" by (rule created_subnet [OF 1(1) k])
  from Cons.IH [OF 1(2)] obtain new where "data_rows (nd_db s') = data_rows (nd_db s1) @ new" "list_all (subnet_of (net_attrs t l n)) new"
    "map cidr_of new = map Some cs" "nd_clones s' = nd_clones s1" by auto
  with cr show ?case by (intro exI [of _ "cr # new"]) simp
qed (simp add: ok_tx_def)

text \<open>C14. Whatever subnets an external network has, afterwards their addresses are the given ones; subnets that were
  there and are still wanted stay as they are, and no row but the subnets of the network changes, statuses apart.\<close>

theorem external_subnets_managed:
  assumes run: "manage_external_subnets ne net cidrs s = Inr (u, s')"
    and attrs: "network_filter ''external_network_name'' net = Inr attrs" and ok: "subnets_ok attrs (nd_db s)"
    and k: "klass_of (ne_env ne) ''ExternalSubnet'' = Some ExternalSubnet"
  shows "cidr_of ` set (net_subnets attrs (nd_db s')) = Some ` set cidrs
    \<and> {cr \<in> set (net_subnets attrs (nd_db s)). cidr_of cr \<in> Some ` set cidrs} \<subseteq> set (net_subnets attrs (nd_db s'))
    \<and> filter (\<lambda>cr. \<not> subnet_of attrs cr) (data_rows (nd_db s')) = filter (\<lambda>cr. \<not> subnet_of attrs cr) (data_rows (nd_db s))
    \<and> nd_clones s' = nd_clones s"
proof -
  from network_filter_subnets [OF attrs] obtain t l n where a: "attrs = net_attrs t l n" by blast
  from run attrs a obtain old s0 missing s1 where st: "mgr_find ne ExternalSubnet attrs s = Inr (old, s0)"
    "drop_subnets ne old cidrs s0 = Inr (missing, s1)" "for_tx (create_cidr ne attrs) missing s1 = Inr (u, s')"
    by (auto simp: manage_external_subnets_def bind_tx_Inr)
  let ?crs = "net_subnets attrs (nd_db s)"
  have find: "s0 = s" "traverse_res (\<lambda>cr. make_resource (ne_env ne) ExternalSubnet (snd cr) False) ?crs = Inr old"
    using find_subnets st(1) a by auto
  have rows: "list_all (\<lambda>cr. subnet_of attrs cr \<and> dict_ok (snd cr) \<and> cidr_of cr \<noteq> None) ?crs" "distinct (map cidr_of ?crs)"
    using ok by (auto simp: subnets_ok_def net_subnets_def list_all_iff)
  have dropped: "nd_clones s1 = nd_clones s" "Some ` set missing \<union> (cidr_of ` set ?crs \<inter> Some ` set cidrs) = Some ` set cidrs"
    "data_rows (nd_db s1) = filter (\<lambda>cr. \<not> (subnet_of attrs cr \<and> cidr_of cr \<in> cidr_of ` set ?crs - Some ` set cidrs)) (data_rows (nd_db s))"
    using dropped_subnets [OF st(2) find(2) [unfolded a] rows [unfolded a] k] find(1) a by simp_all
  obtain new where new: "data_rows (nd_db s') = data_rows (nd_db s1) @ new" "list_all (subnet_of attrs) new"
    "map cidr_of new = map Some missing" "nd_clones s' = nd_clones s1"
    using created_subnets [OF st(3) [unfolded a] k] a by auto
  have cn: "cidr_of ` set new = Some ` set missing" using arg_cong [OF new(3), of set] by simp
  have subs: "set (net_subnets attrs (nd_db s')) = {cr \<in> set ?crs. cidr_of cr \<in> Some ` set cidrs} \<union> set new"
    using new(2) by (auto simp: net_subnets_def new(1) dropped(3) list_all_iff)
  have "cidr_of ` {cr \<in> set ?crs. cidr_of cr \<in> Some ` set cidrs} = cidr_of ` set ?crs \<inter> Some ` set cidrs" by auto
  then have "cidr_of ` set (net_subnets attrs (nd_db s')) = Some ` set cidrs"
    using dropped(2) cn unfolding subs image_Un by (simp add: Un_commute)
  moreover have "filter (\<lambda>cr. \<not> subnet_of attrs cr) new = []" using new(2) by (simp add: list_all_iff filter_empty_conv)
  then have "filter (\<lambda>cr. \<not> subnet_of attrs cr) (data_rows (nd_db s')) = filter (\<lambda>cr. \<not> subnet_of attrs cr) (data_rows (nd_db s))"
    unfolding new(1) dropped(3) by (auto intro: filter_cong)
  ultimately show ?thesis using subs new(4) dropped(1) by simp
qed

section \<open>The bridge domains of a VRF\<close>

text \<open>What a query with filters on known attributes finds.\<close>

lemma found_rows:
  assumes find: "mgr_find ne k filters s = Inr (xs, s')" and k: "storable k"
    and rows: "\<forall>row. (kname k, row) \<in> set (tables (nd_db s)) \<longrightarrow> dict_ok row" and known: "known_filters k filters = filters"
  shows "s' = s \<and> (\<forall>x \<in> set xs. \<forall>(a, v) \<in> set filters. get_attr x a = Inr v)"
proof (intro conjI ballI)
  show "s' = s" using find by (auto simp: mgr_find_def)
  fix x av assume x: "x \<in> set xs" "av \<in> set filters"
  obtain a v where av: "av = (a, v)" by force
  have "traverse_res (\<lambda>r. make_resource (ne_env ne) k r False) (store_query (nd_db s) k filters) = Inr xs"
    using find known by (auto simp: mgr_find_def aim_find_def)
  then obtain row where "row \<in> set (store_query (nd_db s) k filters)" "make_resource (ne_env ne) k row False = Inr x"
    using x(1) traverse_res_member by fastforce
  then have row: "(kname k, row) \<in> set (tables (nd_db s))" "dict_get row a = Some v" "make_resource (ne_env ne) k row False = Inr x"
    using x(2) rows av by (auto simp: store_query_def matches_def list_all_iff)
  have "a \<in> set (attributes k)" using known x(2) av unfolding known_filters_def by (metis (mono_tags, lifting) case_prodD mem_Collect_eq set_filter)
  then show "case av of (a, v) \<Rightarrow> get_attr x a = Inr v" using make_resource_attr(2) [OF k row(3)] rows row(1,2) av by simp
qed

lemma bridge_domains:
  assumes "mgr_find ne BridgeDomain filters s = Inr (xs, s')" "set (map fst filters) \<subseteq> {''tenant_name'', ''vrf_name''}"
    and "\<forall>row. (''BridgeDomain'', row) \<in> set (tables (nd_db s)) \<longrightarrow> dict_ok row"
  shows "s' = s \<and> (\<forall>x \<in> set xs. \<forall>(a, v) \<in> set filters. get_attr x a = Inr v)"
proof (rule found_rows [OF assms(1)])
  show "storable BridgeDomain" by (simp add: storable_def BridgeDomain_def attributes_def)
  show "\<forall>row. (kname BridgeDomain, row) \<in> set (tables (nd_db s)) \<longrightarrow> dict_ok row"
    using assms(3) by (simp add: BridgeDomain_def)
  have "{''tenant_name'', ''vrf_name''} \<subseteq> set (attributes BridgeDomain)" by (simp add: BridgeDomain_def attributes_def)
  with assms(2) show "known_filters BridgeDomain filters = filters" unfolding known_filters_def by (auto intro!: filter_True)
qed

lemma tenants_without_alias:
  "without_alias ne vn ts s = Inr (us, s') \<Longrightarrow> s' = s \<and> (\<forall>t \<in> set us. t \<in> set ts \<and> (\<exists>v. make_res ne VRF [(''tenant_name'', t), (''name'', vn)] = Inr v
     \<and> mgr_get ne v s = Inr (None, s)))"
proof (induction ts arbitrary: us s')
  case (Cons t ts)
  then obtain v found rest where v: "make_res ne VRF [(''tenant_name'', t), (''name'', vn)] = Inr v" "mgr_get ne v s = Inr (found, s)"
    "without_alias ne vn ts s = Inr (rest, s')" "us = (if found = None then t # rest else rest)"
    by (fastforce simp: bind_tx_Inr lift_tx_Inr ok_tx_Inr mgr_get_def)
  with Cons.IH [OF v(3)] show ?case by (auto split: if_split_asm)
qed (simp add: ok_tx_Inr)

lemma common_bds:
  assumes run: "bds_in_vrf_for_l3out ne vrf l3out s = Inr (bds, s')" and bd: "bd \<in> set bds"
    and rows: "\<forall>row. (''BridgeDomain'', row) \<in> set (tables (nd_db s)) \<longrightarrow> dict_ok row"
    and attrs: "get_attr vrf ''tenant_name'' = Inr (JStr COMMON)" "get_attr l3out ''tenant_name'' = Inr (JStr COMMON)" "get_attr vrf ''name'' = Inr vn"
  shows "s' = s \<and> get_attr bd ''vrf_name'' = Inr vn \<and> (\<exists>t v. get_attr bd ''tenant_name'' = Inr t
    \<and> make_res ne VRF [(''tenant_name'', t), (''name'', vn)] = Inr v \<and> mgr_get ne v s = Inr (None, s))"
proof -
  from run attrs obtain all s1 ts tenants where st: "mgr_find ne BridgeDomain [(''vrf_name'', vn)] s = Inr (all, s1)"
    "traverse_res (\<lambda>b. get_attr b ''tenant_name'') all = Inr ts" "without_alias ne vn (remdups ts) s1 = Inr (tenants, s')"
    "bds = map fst (filter (\<lambda>(b, t). t \<in> set tenants) (zip all ts))"
    by (auto simp: bds_in_vrf_for_l3out_def bind_tx_Inr lift_tx_Inr ok_tx_Inr)
  have all: "s1 = s" "\<forall>x \<in> set all. get_attr x ''vrf_name'' = Inr vn" using bridge_domains [OF st(1) _ rows] by auto
  from bd st(4) obtain t where t: "(bd, t) \<in> set (zip all ts)" "t \<in> set tenants" by auto
  have "traverse_res f xs = Inr ys \<Longrightarrow> (x, y) \<in> set (zip xs ys) \<Longrightarrow> f x = Inr y" for f and xs :: "obj list" and ys :: "json list" and x y
    by (induction xs arbitrary: ys) auto
  from this [OF st(2) t(1)] have "get_attr bd ''tenant_name'' = Inr t" .
  with all t tenants_without_alias [OF st(3)] show ?thesis by (auto dest: set_zip_leftD)
qed

text \<open>C20. The bridge domains that a VRF is connected to through an L3Outside refer to the VRF by its name and can see
  both: they are in the tenant of the L3Outside, which is that of the VRF or the VRF is common; or both are
  common, and then their tenant has no VRF of that name.\<close>

theorem connected_bds_see_vrf:
  assumes run: "bds_in_vrf_for_l3out ne vrf l3out s = Inr (bds, s')" and bd: "bd \<in> set bds"
    and rows: "\<forall>row. (''BridgeDomain'', row) \<in> set (tables (nd_db s)) \<longrightarrow> dict_ok row"
    and attrs: "get_attr vrf ''tenant_name'' = Inr vt" "get_attr l3out ''tenant_name'' = Inr lt" "get_attr vrf ''name'' = Inr vn"
  shows "s' = s \<and> get_attr bd ''vrf_name'' = Inr vn \<and> (\<exists>t. get_attr bd ''tenant_name'' = Inr t \<and>
    (if vt = JStr COMMON \<and> lt = JStr COMMON
     then \<exists>v. make_res ne VRF [(''tenant_name'', t), (''name'', vn)] = Inr v \<and> mgr_get ne v s = Inr (None, s)
     else t = lt \<and> (vt = JStr COMMON \<or> vt = lt)))"
proof (cases "vt = JStr COMMON \<and> lt = JStr COMMON")
  case True
  then have attrs': "get_attr vrf ''tenant_name'' = Inr (JStr COMMON)" "get_attr l3out ''tenant_name'' = Inr (JStr COMMON)"
    using attrs by simp_all
  from common_bds [OF run bd rows attrs' attrs(3)] True show ?thesis by auto
next
  case False
  show ?thesis
  proof (cases "vt = JStr COMMON \<or> vt = lt")
    case True
    then have "mgr_find ne BridgeDomain [(''tenant_name'', lt), (''vrf_name'', vn)] s = Inr (bds, s')"
      using run attrs False by (simp add: bds_in_vrf_for_l3out_def)
    from bridge_domains [OF this _ rows] bd True False show ?thesis by auto
  next
    case none: False
    with run attrs False bd show ?thesis by (auto simp: bds_in_vrf_for_l3out_def ok_tx_Inr)
  qed
qed

text \<open>A VRF of the common tenant counts as its own alias: the bridge domains of that tenant are left out.\<close>

lemma common_bds_left_out:
  assumes "bds_in_vrf_for_l3out ne vrf l3out s = Inr (bds, s')" "\<forall>row. (''BridgeDomain'', row) \<in> set (tables (nd_db s)) \<longrightarrow> dict_ok row"
    and attrs: "get_attr vrf ''tenant_name'' = Inr (JStr COMMON)" "get_attr l3out ''tenant_name'' = Inr (JStr COMMON)" "get_attr vrf ''name'' = Inr vn"
    and stored: "make_res ne VRF [(''tenant_name'', JStr COMMON), (''name'', vn)] = Inr v" "mgr_get ne v s = Inr (Some v', s)"
    and bd: "get_attr bd ''tenant_name'' = Inr (JStr COMMON)"
  shows "bd \<notin> set bds"
proof
  assume b: "bd \<in> set bds"
  from common_bds [OF assms(1) b assms(2) attrs] bd stored show False by auto
qed

section \<open>Errors\<close>

text \<open>Deleting a network that is not there is an error in the strategies with NAT.\<close>

lemma dist_delete_missing_network:
  assumes "ext_net_to_l3out ne net = Inr l3" "mgr_get ne l3 s = Inr (l3out, s)" "mgr_get ne net s = Inr (None, s)"
  shows "dist_delete_external_network ne net provided consumed wanted cidrs s = Inl not_an_object"
proof -
  have "(case (l3out, None) of (Some l, Some en) \<Rightarrow> f l en | _ \<Rightarrow> ok_tx ()) = ok_tx ()" for f :: "obj \<Rightarrow> obj \<Rightarrow> unit tx"
    by (cases l3out) simp_all
  with assms show ?thesis by (simp add: dist_delete_external_network_def bind_tx_def lift_tx_def ok_tx_def)
qed

section \<open>Witnesses\<close>

definition nat_sample :: nat_env where
  "nat_sample = \<lparr>ne_env = \<lparr>conf = sample_conf, api = sample_api, classes = [ExternalSubnet, BridgeDomain, VRF, AciStatus, AciFault]\<rparr>, ne_fuel = 2,
     ne_conf = \<lparr>app_profile_name = None, common_scope = None, strategy_vmm_domains = None, strategy_physical_domains = None\<rparr>\<rparr>"

definition subnet_row :: "string \<Rightarrow> string \<times> row" where
  "subnet_row c = (''ExternalSubnet'', [(''tenant_name'', JStr ''t''), (''l3out_name'', JStr ''o''), (''external_network_name'', JStr ''n''),
     (''cidr'', JStr c), (''display_name'', JStr []), (''aggregate'', JStr []), (''scope'', JStr []), (''monitored'', JBool False),
     (''aim_id'', JStr c)])"

definition bd_of :: "string \<Rightarrow> string \<times> row" where
  "bd_of t = (''BridgeDomain'', [(''tenant_name'', JStr t), (''name'', JStr ''b''), (''vrf_name'', JStr ''v''), (''monitored'', JBool False)])"

definition nat_state :: nat_db where
  "nat_state = \<lparr>nd_db = \<lparr>tables = [subnet_row ''1'', subnet_row ''2'', bd_of ''t'', bd_of ''u''], next_id = 3\<rparr>, nd_clones = []\<rparr>"

definition sample_net :: obj where
  "sample_net = \<lparr>oclass = ''ExternalNetwork'', ofields = [(''tenant_name'', JStr ''t''), (''l3out_name'', JStr ''o''), (''name'', JStr ''n'')]\<rparr>"

definition named :: "string \<Rightarrow> string \<Rightarrow> string \<Rightarrow> obj" where
  "named c t n = \<lparr>oclass = c, ofields = [(''tenant_name'', JStr t), (''name'', JStr n)]\<rparr>"

definition is_Inr :: "'a + 'b \<Rightarrow> bool" where
  "is_Inr r = (case r of Inl _ \<Rightarrow> False | Inr _ \<Rightarrow> True)"

lemma subnets_run: "is_Inr (manage_external_subnets nat_sample sample_net [JStr ''2'', JStr ''3''] nat_state)"
  by code_simp

lemma external_subnets_managed_witness:
  "\<exists>s'. manage_external_subnets nat_sample sample_net [JStr ''2'', JStr ''3''] nat_state = Inr ((), s') \<and>
    cidr_of ` set (net_subnets (net_attrs (JStr ''t'') (JStr ''o'') (JStr ''n'')) (nd_db s')) = {Some (JStr ''2''), Some (JStr ''3'')}"
proof -
  obtain s' where run: "manage_external_subnets nat_sample sample_net [JStr ''2'', JStr ''3''] nat_state = Inr ((), s')"
    using subnets_run by (auto simp: is_Inr_def split: sum.split_asm)
  have "network_filter ''external_network_name'' sample_net = Inr (net_attrs (JStr ''t'') (JStr ''o'') (JStr ''n''))"
    by (simp add: network_filter_def sample_net_def get_attr_def net_attrs_def)
  moreover have "subnets_ok (net_attrs (JStr ''t'') (JStr ''o'') (JStr ''n'')) (nd_db nat_state)"
    by (simp add: subnets_ok_def net_subnets_def nat_state_def subnet_row_def bd_of_def Universe_Owned.others_def status_names_def
      subnet_of_def matches_def net_attrs_def cidr_of_def dict_ok_def)
  moreover have "klass_of (ne_env nat_sample) ''ExternalSubnet'' = Some ExternalSubnet"
    by (simp add: klass_of_def nat_sample_def)
  ultimately show ?thesis using external_subnets_managed [OF run] run by simp
qed

text \<open>The bridge domains of an L3Outside and a VRF of the same tenant.\<close>

lemma bds_run: "case bds_in_vrf_for_l3out nat_sample (named ''VRF'' ''t'' ''v'') (named ''L3Outside'' ''t'' ''o'') nat_state of
    Inr (xs, _) \<Rightarrow> length xs = 1 | Inl _ \<Rightarrow> False"
  by code_simp

lemma connected_bds_see_vrf_witness:
  "\<exists>bd s'. bds_in_vrf_for_l3out nat_sample (named ''VRF'' ''t'' ''v'') (named ''L3Outside'' ''t'' ''o'') nat_state = Inr ([bd], s')
    \<and> get_attr bd ''vrf_name'' = Inr (JStr ''v'') \<and> get_attr bd ''tenant_name'' = Inr (JStr ''t'')"
proof -
  obtain bd s' where run: "bds_in_vrf_for_l3out nat_sample (named ''VRF'' ''t'' ''v'') (named ''L3Outside'' ''t'' ''o'') nat_state = Inr ([bd], s')"
    using bds_run by (auto simp: length_Suc_conv split: sum.split_asm)
  have rows: "\<forall>row. (''BridgeDomain'', row) \<in> set (tables (nd_db nat_state)) \<longrightarrow> dict_ok row"
    by (simp add: nat_state_def subnet_row_def bd_of_def dict_ok_def)
  have "get_attr (named c t n) ''tenant_name'' = Inr (JStr t)" "get_attr (named c t n) ''name'' = Inr (JStr n)" for c t n
    by (simp_all add: named_def get_attr_def)
  from connected_bds_see_vrf [OF run _ rows this(1) this(1) this(2)] run show ?thesis by (auto simp: COMMON_def)
qed

end
