(* ===== verification/Nat_Connect.thy ===== *)
theory Nat_Connect
  imports Nat_Props
begin

text \<open>
  A VRF that was connected to an external network by a strategy with NAT is one of those the network is
  connected to: the shadow L3Outside that \<open>connect_vrf\<close> creates is found again by \<open>read_vrfs\<close>. And how two
  L3Outsides may end up sharing a shadow.
\<close>

section \<open>Operations that leave the L3Outsides alone\<close>

abbreviation l3outs :: "nat_db \<Rightarrow> (string \<times> row) list" where
  "l3outs s \<equiv> rows_of ''L3Outside'' (nd_db s)"

definition keeps_l3outs :: "nat_db \<Rightarrow> nat_db \<Rightarrow> bool" where
  "keeps_l3outs s s' \<longleftrightarrow> l3outs s' = l3outs s \<and> nd_clones s' = nd_clones s"

lemma keeps_refl: "keeps_l3outs s s"
  by (simp add: keeps_l3outs_def)

lemma keeps_trans: "\<lbrakk>keeps_l3outs s1 s2; keeps_l3outs s2 s3\<rbrakk> \<Longrightarrow> keeps_l3outs s1 s3"
  by (simp add: keeps_l3outs_def)

lemma rows_of_data: "data_rows db' = data_rows db \<Longrightarrow> c \<notin> status_names \<Longrightarrow> rows_of c db' = rows_of c db"
proof -
  have "filter (\<lambda>cr. fst cr = c) xs = filter (\<lambda>cr. fst cr = c) (filter (\<lambda>cr. fst cr \<notin> status_names) xs)"
    if "c \<notin> status_names" for xs :: "(string \<times> row) list"
    using that by (induction xs) auto
  then show "data_rows db' = data_rows db \<Longrightarrow> c \<notin> status_names \<Longrightarrow> ?thesis"
    by (metis Universe_Owned.others_def rows_of_def)
qed

lemma l3outs_data: "data_rows (nd_db s') = data_rows (nd_db s) \<Longrightarrow> l3outs s' = l3outs s"
  by (rule rows_of_data) (simp_all add: status_names_def)

lemma rows_of_store_add: "c \<noteq> kname k \<Longrightarrow> rows_of c (store_add k row db) = rows_of c db"
proof -
  assume c: "c \<noteq> kname k"
  have "filter (\<lambda>cr. fst cr = c) (map (\<lambda>cr. if same_row k row cr then (fst cr, row) else cr) xs) = filter (\<lambda>cr. fst cr = c) xs" for xs
    by (rule filter_map_id) (use c in \<open>auto simp: same_row_def\<close>)
  with c show ?thesis by (simp add: rows_of_def store_add_def)
qed

lemma klass_for_name: "klass_for ne r = Inr k \<Longrightarrow> kname k = oclass r"
  by (auto simp: klass_for_def klass_of_def find_Some_iff split: option.split_asm)

text \<open>After its row has been written, \<open>create\<close> changes statuses only.\<close>

lemma created_data:
  assumes c: "aim_create fuel env k r ow fx db = Inr (x, db')" and w: "create_row env k r ow fx db = Inr (w, db1)"
  shows "data_rows db' = data_rows db1"
proof (cases w)
  case (Written b)
  show ?thesis
  proof (cases b)
    case True
    with c w Written obtain db2 where p: "out_of_fuel (set_resource_sync_pending fuel env k r True True db1) = Inr db2" and db': "db' = db2"
      unfolding aim_create_def by (auto simp del: set_resource_sync_pending.simps)
    from p have "set_resource_sync_pending fuel env k r True True db1 = Some (Inr db2)"
      unfolding out_of_fuel_def by (cases "set_resource_sync_pending fuel env k r True True db1") simp_all
    then show ?thesis unfolding db' by (rule others_set_pending)
  next
    case False
    with c w Written show ?thesis by (auto simp: aim_create_def)
  qed
qed (use c w in \<open>simp_all add: aim_create_def\<close>)

lemma create_keeps:
  assumes new: "mgr_create ne r ow s = Inr (x, s')" and r: "oclass r \<noteq> ''L3Outside''"
  shows "keeps_l3outs s s'"
proof -
  from new obtain k db where k: "klass_for ne r = Inr k" and c: "aim_create (ne_fuel ne) (ne_env ne) k r ow False (nd_db s) = Inr (x, db)"
    and s': "s' = s\<lparr>nd_db := db\<rparr>" by (auto simp: mgr_create_def)
  have kn: "''L3Outside'' \<noteq> kname k" using klass_for_name [OF k] r by simp
  from c obtain w db1 where w: "create_row (ne_env ne) k r ow False (nd_db s) = Inr (w, db1)" by (auto simp: aim_create_def)
  have 1: "rows_of ''L3Outside'' db1 = l3outs s" using create_row_result [OF w] rows_of_store_add [OF kn] by auto
  have "db = db1 \<or> (\<exists>b. set_resource_sync_pending (ne_fuel ne) (ne_env ne) k r True True db1 = Some (Inr db))"
    using c w by (auto simp: aim_create_def out_of_fuel_def split: written.split_asm if_split_asm option.split_asm)
  then have "rows_of ''L3Outside'' db = rows_of ''L3Outside'' db1"
    using others_set_pending rows_of_data [of db db1 "''L3Outside''"] by (auto simp: status_names_def)
  with 1 s' show ?thesis by (simp add: keeps_l3outs_def)
qed

lemma delete_keeps:
  assumes del: "mgr_delete ne r s = Inr (u, s')" and r: "oclass r \<noteq> ''L3Outside''"
  shows "keeps_l3outs s s'"
proof -
  from del r obtain k db where k: "klass_for ne r = Inr k" and d: "delete_one (ne_env ne) k r False (nd_db s) = Inr db"
    and s': "s' = s\<lparr>nd_db := db\<rparr>"
    by (auto simp: mgr_delete_def bind_tx_Inr mgr_get_def ok_tx_def aim_delete_def)
  have kn: "''L3Outside'' \<noteq> kname k" using klass_for_name [OF k] r by simp
  from deleted_one [OF d] have "rows_of ''L3Outside'' db = l3outs s"
  proof (elim disjE exE conjE)
    fix row db2 assume "data_rows db2 = data_rows (nd_db s)" "db = store_delete k row db2"
    then show ?thesis using rows_of_store_delete [OF kn, of row db2] rows_of_data [of db2 "nd_db s" "''L3Outside''"]
      by (simp add: status_names_def)
  qed simp
  with s' show ?thesis by (simp add: keeps_l3outs_def)
qed

lemma for_keeps:
  assumes "\<And>x s s' u. \<lbrakk>x \<in> set xs; f x s = Inr (u, s')\<rbrakk> \<Longrightarrow> keeps_l3outs s s'" and "for_tx f xs s = Inr (u, s')"
  shows "keeps_l3outs s s'"
  using assms
proof (induction xs arbitrary: s)
  case (Cons x xs)
  then obtain s1 where 1: "f x s = Inr ((), s1)" "for_tx f xs s1 = Inr (u, s')" by (auto simp: bind_tx_Inr)
  have "keeps_l3outs s1 s'" by (rule Cons.IH [OF _ 1(2)]) (rule Cons.prems(1), simp_all)
  with Cons.prems(1) [OF _ 1(1)] show ?case by (auto intro: keeps_trans)
qed (simp add: ok_tx_Inr keeps_refl)

lemma made_obj_class: "make_obj cf k kw = Inr x \<Longrightarrow> oclass x = kname k"
  by (auto simp: make_obj_def resource_init_def Let_def split: if_split_asm)

lemma make_res_class: "make_res ne k kw = Inr x \<Longrightarrow> oclass x = kname k"
  by (simp add: make_res_def made_obj_class)

lemma find_class: "mgr_find ne k filters s = Inr (xs, s') \<Longrightarrow> s' = s \<and> (\<forall>x \<in> set xs. oclass x = kname k)"
  by (fastforce simp: mgr_find_def aim_find_def make_resource_def dest!: traverse_res_member dest: made_obj_class split: option.split_asm if_split_asm)

section \<open>Contracts and addresses\<close>

lemma dict_update_mem: "x \<in> set (dict_update d kvs) \<Longrightarrow> x \<in> set d \<or> x \<in> set kvs"
proof (induction kvs arbitrary: d)
  case (Cons kv kvs)
  have mem: "y \<in> set (dict_set k v e) \<Longrightarrow> y = (k, v) \<or> y \<in> set e" for y k v and e :: "('a, 'b) dict"
    by (induction e) (auto split: if_split_asm)
  obtain k v where kv: "kv = (k, v)" by force
  from Cons.prems kv have "x \<in> set (dict_set k v d) \<or> x \<in> set kvs" by (intro Cons.IH) simp
  with mem [of x k v d] kv show ?case by auto
qed simp

lemma by_name_mem: "by_name rs = Inr d \<Longrightarrow> (n, r) \<in> set d \<Longrightarrow> r \<in> set rs"
  unfolding by_name_def using dict_update_mem [of "(n, r)" "[]"] traverse_res_member by fastforce

lemma only_in_mem: "r \<in> set (only_in d e) \<Longrightarrow> \<exists>n. (n, r) \<in> set d"
  by (auto simp: only_in_def)

lemma contracts_keep:
  assumes run: "update_external_network_contracts ne net provided consumed s = Inr (u, s')"
    and refs: "\<forall>r \<in> set provided \<union> set consumed. oclass r \<noteq> ''L3Outside''"
  shows "keeps_l3outs s s'"
proof -
  from run obtain attrs prov sa cons sb cp cc np nc s1 where st0:
    "mgr_find ne ExternalNetworkProvidedContract attrs s = Inr (prov, sa)" "mgr_find ne ExternalNetworkConsumedContract attrs sa = Inr (cons, sb)"
    "by_name prov = Inr cp" "by_name cons = Inr cc" "by_name provided = Inr np" "by_name consumed = Inr nc"
    "for_tx (\<lambda>r. bind_tx (mgr_create ne r True) (\<lambda>_. ok_tx ())) (only_in np cp @ only_in nc cc) sb = Inr ((), s1)"
    "for_tx (mgr_delete ne) (only_in cp np @ only_in cc nc) s1 = Inr (u, s')"
    unfolding update_external_network_contracts_def bind_tx_Inr lift_tx_Inr by (elim exE conjE) (rule that, simp_all)
  have "sa = s" "sb = s" using find_class [OF st0(1)] find_class [OF st0(2)] by simp_all
  note st = st0 [unfolded this]
  have olds: "oclass r \<noteq> ''L3Outside''" if "r \<in> set prov \<union> set cons" for r
    using that find_class [OF st(1)] find_class [OF st(2)]
    by (auto simp: ExternalNetworkProvidedContract_def ExternalNetworkConsumedContract_def)
  have mem: "r \<in> set rs" if "r \<in> set (only_in d e)" "by_name rs = Inr d" for r d e rs
    using only_in_mem [OF that(1)] by_name_mem [OF that(2)] by blast
  have "keeps_l3outs s s1"
  proof (rule for_keeps [OF _ st(7)])
    fix r t t' v assume r: "r \<in> set (only_in np cp @ only_in nc cc)" and run: "bind_tx (mgr_create ne r True) (\<lambda>_. ok_tx ()) t = Inr (v, t')"
    from r mem [OF _ st(5)] mem [OF _ st(6)] have "r \<in> set provided \<union> set consumed" by auto
    then have c: "oclass r \<noteq> ''L3Outside''" using refs by blast
    from run obtain x where "mgr_create ne r True t = Inr (x, t')" unfolding bind_tx_Inr ok_tx_Inr by (elim exE conjE) simp
    then show "keeps_l3outs t t'" using c by (rule create_keeps)
  qed
  moreover have "keeps_l3outs s1 s'"
  proof (rule for_keeps [OF _ st(8)])
    fix r t t' v assume r: "r \<in> set (only_in cp np @ only_in cc nc)" and run: "mgr_delete ne r t = Inr (v, t')"
    from r mem [OF _ st(3)] mem [OF _ st(4)] have "r \<in> set prov \<union> set cons" by auto
    then have "oclass r \<noteq> ''L3Outside''" by (rule olds)
    with run show "keeps_l3outs t t'" by (rule delete_keeps)
  qed
  ultimately show ?thesis by (rule keeps_trans)
qed

lemma drop_keeps:
  "\<lbrakk>drop_subnets ne subs cidrs s = Inr (missing, s'); \<forall>x \<in> set subs. oclass x \<noteq> ''L3Outside''\<rbrakk> \<Longrightarrow> keeps_l3outs s s'"
proof (induction subs arbitrary: cidrs s)
  case (Cons sub subs)
  from Cons.prems(1) obtain c where c: "(if c \<in> set cidrs then drop_subnets ne subs (remove1 c cidrs)
      else bind_tx (mgr_delete ne sub) (\<lambda>_. drop_subnets ne subs cidrs)) s = Inr (missing, s')"
    by (auto simp: bind_tx_Inr lift_tx_Inr)
  show ?case
  proof (cases "c \<in> set cidrs")
    case True
    with c Cons show ?thesis by auto
  next
    case False
    from c False obtain s1 where "mgr_delete ne sub s = Inr ((), s1)" "drop_subnets ne subs cidrs s1 = Inr (missing, s')"
      by (auto simp: bind_tx_Inr)
    moreover have "oclass sub \<noteq> ''L3Outside''" "\<forall>x \<in> set subs. oclass x \<noteq> ''L3Outside''" using Cons.prems(2) by simp_all
    ultimately show ?thesis using keeps_trans [OF delete_keeps Cons.IH] by blast
  qed
qed (simp add: ok_tx_Inr keeps_refl)

lemma subnets_keep:
  assumes run: "manage_external_subnets ne net cidrs s = Inr (u, s')"
  shows "keeps_l3outs s s'"
proof -
  from run obtain attrs old s0 missing s1 where st0: "mgr_find ne ExternalSubnet attrs s = Inr (old, s0)"
    "drop_subnets ne old cidrs s0 = Inr (missing, s1)" "for_tx (create_cidr ne attrs) missing s1 = Inr (u, s')"
    unfolding manage_external_subnets_def bind_tx_Inr lift_tx_Inr by (elim exE conjE) (rule that, simp_all)
  have "s0 = s" using find_class [OF st0(1)] by simp
  note st = st0 [unfolded this]
  have "keeps_l3outs s s1" using st(2) by (rule drop_keeps) (use find_class [OF st(1)] in simp)
  moreover have "keeps_l3outs s1 s'"
  proof (rule for_keeps [OF _ st(3)])
    fix c t t' v assume "create_cidr ne attrs c t = Inr (v, t')"
    then show "keeps_l3outs t t'"
      by (auto simp: create_cidr_def bind_tx_Inr lift_tx_Inr ok_tx_Inr dest!: make_res_class create_keeps)
  qed
  ultimately show ?thesis by (rule keeps_trans)
qed

section \<open>Reading L3Outsides\<close>

lemma storable_l3out: "storable L3Outside" "storable ExternalNetwork"
  by (simp_all add: storable_def L3Outside_def ExternalNetwork_def attributes_def plain_ctor_def)

lemma l3out_name [simp]: "kname L3Outside = ''L3Outside''" "kname ExternalNetwork = ''ExternalNetwork''"
  by (simp_all add: L3Outside_def ExternalNetwork_def)

text \<open>What is read has the identity it was asked for.\<close>

lemma read_ids:
  assumes get: "mgr_get ne r s = Inr (Some x, s2)" and k: "klass_of (ne_env ne) (oclass r) = Some k" "storable k"
    and rows: "list_all (\<lambda>cr. dict_ok (snd cr)) (rows_of (kname k) (nd_db s))"
    and a: "a \<in> fst ` set (identity_attributes k)" "get_attr r a = Inr v"
  shows "get_attr x a = Inr v"
proof -
  from get k(1) obtain row i where i: "extract_id k r = Inr i" "query_db_obj (nd_db s) k r = Inr (Some row)"
    "make_resource (ne_env ne) k row False = Inr x"
    by (auto simp: mgr_get_def klass_for_def aim_get_def query_db_obj_def split: option.split_asm)
  then have row: "(kname k, row) \<in> set (tables (nd_db s))" "row_id k row = map (Some \<circ> snd) i"
    using query_db_obj_first [OF i(1), of "nd_db s"] first_row_Some by auto
  then have "dict_ok row" using rows by (auto simp: rows_of_def list_all_iff)
  moreover have "dict_get row a = Some v" using row_id_lookup [OF i(1) row(2) a(1)] a(2) by (simp add: lookup_attr_def)
  moreover have "a \<in> set (attributes k)" using a(1) by (auto simp: attributes_def)
  ultimately show ?thesis using make_resource_attr(2) [OF k(2) i(3)] by blast
qed

lemma first_row_rows_of: "rows_of (kname k) db' = rows_of (kname k) db \<Longrightarrow> first_row db' k ids = first_row db k ids"
proof -
  have "find (\<lambda>(c, r). c = kname k \<and> row_id k r = ids) xs =
      find (\<lambda>(c, r). c = kname k \<and> row_id k r = ids) (filter (\<lambda>cr. fst cr = kname k) xs)" for xs
    by (induction xs) auto
  then have f: "find (\<lambda>(c, r). c = kname k \<and> row_id k r = ids) (tables d) =
      find (\<lambda>(c, r). c = kname k \<and> row_id k r = ids) (rows_of (kname k) d)" for d
    unfolding rows_of_def .
  show "rows_of (kname k) db' = rows_of (kname k) db \<Longrightarrow> ?thesis" unfolding first_row_def f by simp
qed

lemma get_same_rows:
  assumes "rows_of (kname k) db' = rows_of (kname k) db" "extract_id k r = Inr i" "extract_id k r' = Inr i"
  shows "aim_get env db' k r' b = aim_get env db k r b"
  by (simp add: aim_get_def query_db_obj_first [OF assms(2)] query_db_obj_first [OF assms(3)] first_row_rows_of [OF assms(1)])

lemma map_tx_mem:
  assumes "map_tx f xs s = Inr (ys, s')" "\<And>x t y t'. f x t = Inr (y, t') \<Longrightarrow> t' = t" "x \<in> set xs"
  shows "\<exists>y \<in> set ys. f x s = Inr (y, s)"
  using assms
proof (induction xs arbitrary: ys s)
  case (Cons z xs)
  then obtain y t ys' where 1: "f z s = Inr (y, t)" "map_tx f xs t = Inr (ys', s')" "ys = y # ys'"
    by (auto simp: bind_tx_Inr ok_tx_Inr)
  with Cons.prems(2) have "t = s" by blast
  with 1 Cons.IH [of s ys'] Cons.prems(2,3) show ?case by auto
qed simp

section \<open>The shadow of an L3Outside\<close>

lemma shadow_refs_class:
  assumes "shadow_refs ne k net refs = Inr xs" "kname k \<noteq> ''L3Outside''"
  shows "\<forall>x \<in> set xs. oclass x \<noteq> ''L3Outside''"
proof
  fix x assume "x \<in> set xs"
  with assms(1) obtain t l n r c where "contract_ref ne k t l n c = Inr x"
    by (auto simp: shadow_refs_def dest!: traverse_res_member)
  then show "oclass x \<noteq> ''L3Outside''" using assms(2) by (auto simp: contract_ref_def dest!: make_res_class)
qed

lemma shadow_net_classes:
  assumes "shadow_net ne ext_net en l3out clone w provided consumed wanted = Inr (net, ps, cs)"
  shows "oclass net \<noteq> ''L3Outside''" "\<forall>r \<in> set ps \<union> set cs. oclass r \<noteq> ''L3Outside''"
proof -
  from assms obtain d n net0 where "net_in ne clone n [(''display_name'', d)] = Inr net0" "oclass net = oclass net0"
    "shadow_refs ne ExternalNetworkProvidedContract net0 provided = Inr ps"
    "shadow_refs ne ExternalNetworkConsumedContract net0 consumed = Inr cs"
    by (auto simp: shadow_net_def split: if_split_asm)
  then show "oclass net \<noteq> ''L3Outside''" "\<forall>r \<in> set ps \<union> set cs. oclass r \<noteq> ''L3Outside''"
    using shadow_refs_class by (auto simp: net_in_def ExternalNetworkProvidedContract_def ExternalNetworkConsumedContract_def dest!: make_res_class)
qed

lemma get_state_same: "mgr_get ne r t = Inr (f, t') \<Longrightarrow> t' = t"
  by (auto simp: mgr_get_def)

lemma need_Inr: "need f t = Inr (z, t') \<longleftrightarrow> f = Some z \<and> t' = t"
  by (auto simp: need_def lift_tx_def split: option.split)

lemma store_shadow_steps:
  assumes run: "store_shadow ne en l3out clone net ps cs s = Inr (u, s1)"
    and classes: "oclass net \<noteq> ''L3Outside''" "\<forall>r \<in> set ps \<union> set cs. oclass r \<noteq> ''L3Outside''"
  obtains y s2 s3 rows where "mgr_create ne clone True s = Inr (y, s2)" "keeps_l3outs s2 s3" "clones_get clone s3 = Inr (rows, s3)"
    "(if rows = [] then clones_set l3out clone else ok_tx ()) s3 = Inr ((), s1)"
proof -
  have cg: "clones_get r t = Inr (f, t') \<Longrightarrow> t' = t" for r t f t' by (auto simp: clones_get_def bind_tx_Inr lift_tx_Inr)
  from run obtain y s2 y' s3 s4 attrs subs s5 cidrs s6 rows s7 where 2:
    "mgr_create ne clone True s = Inr (y, s2)" "mgr_create ne net True s2 = Inr (y', s3)"
    "update_external_network_contracts ne net ps cs s3 = Inr ((), s4)" "mgr_find ne ExternalSubnet attrs s4 = Inr (subs, s5)"
    "manage_external_subnets ne net cidrs s5 = Inr ((), s6)" "clones_get clone s6 = Inr (rows, s7)"
    "(if rows = [] then clones_set l3out clone else ok_tx ()) s7 = Inr ((), s1)"
    unfolding store_shadow_def bind_tx_Inr lift_tx_Inr by (elim exE conjE) (rule that, simp_all)
  have "s5 = s4" using find_class [OF 2(4)] by simp
  moreover have "s7 = s6" using cg [OF 2(6)] .
  moreover have "keeps_l3outs s2 s6"
    using create_keeps [OF 2(2) classes(1)] contracts_keep [OF 2(3) classes(2)] subnets_keep [OF 2(5)] \<open>s5 = s4\<close>
    by (auto intro: keeps_trans)
  ultimately show thesis using that 2 by blast
qed

lemma create_shadow_steps:
  assumes "create_shadow ne net vrf w provided consumed wanted s = Inr (Some shadow, s1)"
  obtains en l3 l3out clone y s2 s3 rows where "mgr_get ne net s = Inr (Some en, s)" "ext_net_to_l3out ne en = Inr l3"
    "mgr_get ne l3 s = Inr (Some l3out, s)" "make_l3out_clone ne l3out vrf = Inr clone" "mgr_create ne clone True s = Inr (y, s2)"
    "keeps_l3outs s2 s3" "clones_get clone s3 = Inr (rows, s3)"
    "(if rows = [] then clones_set l3out clone else ok_tx ()) s3 = Inr ((), s1)"
proof -
  from assms obtain en s0 where 1: "mgr_get ne net s = Inr (Some en, s0)"
    by (auto simp: create_shadow_def bind_tx_Inr ok_tx_Inr split: option.split_asm)
  from get_state_same [OF 1] have s0: "s0 = s" .
  from assms 1 s0 obtain l3 l3out f b clone netx ps cs where 2: "ext_net_to_l3out ne en = Inr l3" "mgr_get ne l3 s = Inr (f, b)"
    "f = Some l3out" "make_l3out_clone ne l3out vrf = Inr clone" "shadow_net ne net en l3out clone w provided consumed wanted = Inr (netx, ps, cs)"
    "store_shadow ne en l3out clone netx ps cs b = Inr ((), s1)"
    by (auto simp: create_shadow_def bind_tx_Inr lift_tx_Inr ok_tx_Inr need_Inr split: option.split_asm)
  have b: "b = s" using get_state_same [OF 2(2)] .
  obtain y s2 s3 rows where "mgr_create ne clone True s = Inr (y, s2)" "keeps_l3outs s2 s3" "clones_get clone s3 = Inr (rows, s3)"
    "(if rows = [] then clones_set l3out clone else ok_tx ()) s3 = Inr ((), s1)"
    by (rule store_shadow_steps [OF 2(6) [unfolded b] shadow_net_classes [OF 2(5)]])
  with 1 s0 2 b show thesis by (intro that) simp_all
qed

text \<open>The clone as it is made.\<close>

lemma made_clone:
  assumes "make_l3out_clone ne l3out vrf = Inr clone" "get_attr vrf ''tenant_name'' = Inr (JStr t)" "get_attr vrf ''name'' = Inr (JStr n)"
    and "get_attr l3out ''name'' = Inr (JStr lo)"
  shows "oclass clone = ''L3Outside''" "complete L3Outside clone" "get_attr clone ''tenant_name'' = Inr (JStr t)"
    "get_attr clone ''name'' = Inr (JStr (lo @ ''-'' @ n))" "get_attr clone ''vrf_name'' = Inr (JStr n)"
proof -
  from assms obtain d where mk: "make_res ne L3Outside [(''tenant_name'', JStr t), (''name'', JStr (lo @ ''-'' @ n)),
      (''display_name'', JStr d), (''vrf_name'', JStr n)] = Inr clone"
    by (auto simp: make_l3out_clone_def generate_l3out_name_def str_attr_def)
  then have c: "clone = \<lparr>oclass = ''L3Outside'', ofields = [(''vrf_name'', JStr n), (''l3_domain_dn'', JStr []), (''bgp_enable'', JBool False),
      (''monitored'', JBool False), (''display_name'', JStr d), (''tenant_name'', JStr t), (''name'', JStr (lo @ ''-'' @ n))]\<rparr>"
    by (simp add: make_res_def make_obj_def L3Outside_def plain_ctor_def resource_init_def given_def dict_simps dict_getd_def)
  show "oclass clone = ''L3Outside''" "complete L3Outside clone" "get_attr clone ''tenant_name'' = Inr (JStr t)"
    "get_attr clone ''name'' = Inr (JStr (lo @ ''-'' @ n))" "get_attr clone ''vrf_name'' = Inr (JStr n)"
    by (simp_all add: c get_attr_def complete_def user_attributes_def L3Outside_def lookup_attr_def)
qed

text \<open>What creating the clone leaves behind.\<close>

lemma created_clone:
  assumes new: "mgr_create ne clone True s = Inr (y, s2)" and k: "klass_of (ne_env ne) ''L3Outside'' = Some L3Outside"
    and clone: "oclass clone = ''L3Outside''" "complete L3Outside clone" and ok: "sync_ok (nd_db s)"
  shows "\<exists>x. aim_get (ne_env ne) (nd_db s2) L3Outside clone False = Inr (Some x) \<and> user_equal L3Outside x clone"
    and "list_all (\<lambda>cr. dict_ok (snd cr)) (l3outs s2)" and "nd_clones s2 = nd_clones s"
proof -
  from new k clone(1) obtain db where c: "aim_create (ne_fuel ne) (ne_env ne) L3Outside clone True False (nd_db s) = Inr (y, db)"
    and s2: "s2 = s\<lparr>nd_db := db\<rparr>" by (auto simp: mgr_create_def klass_for_def)
  from created_read [OF storable_l3out(1) clone(2) ok c] s2
  show "\<exists>x. aim_get (ne_env ne) (nd_db s2) L3Outside clone False = Inr (Some x) \<and> user_equal L3Outside x clone" by auto
  show "nd_clones s2 = nd_clones s" by (simp add: s2)
  from c obtain w db1 where w: "create_row (ne_env ne) L3Outside clone True False (nd_db s) = Inr (w, db1)" by (auto simp: aim_create_def)
  have "sync_ok db1" using create_row_sync_ok [OF w ok storable_l3out(1)] .
  then have 1: "list_all (\<lambda>cr. dict_ok (snd cr)) (rows_of ''L3Outside'' db1)"
    by (auto simp: sync_ok_def db_ok_def rows_of_def list_all_iff)
  have "rows_of ''L3Outside'' db = rows_of ''L3Outside'' db1"
    using created_data [OF c w] rows_of_data [of db db1 "''L3Outside''"] by (simp add: status_names_def)
  with 1 s2 show "list_all (\<lambda>cr. dict_ok (snd cr)) (l3outs s2)" by simp
qed

lemma l3out_keyI: "\<lbrakk>get_attr r ''tenant_name'' = Inr (JStr t); get_attr r ''name'' = Inr (JStr n)\<rbrakk> \<Longrightarrow> l3out_key_of r = Inr (t, n)"
  by (simp add: l3out_key_of_def str_attr_def)

lemma made_key:
  assumes "make_res ne L3Outside [(''tenant_name'', a), (''name'', b)] = Inr x"
  shows "oclass x = ''L3Outside''" "get_attr x ''tenant_name'' = Inr a" "get_attr x ''name'' = Inr b"
    "extract_id L3Outside x = Inr [(''tenant_name'', a), (''name'', b)]"
  using assms by (auto simp: make_res_def make_obj_def L3Outside_def plain_ctor_def resource_init_def extract_id_def get_attr_def
      dict_simps dict_getd_def split: if_split_asm)

text \<open>The L3Outside of a network, as it is stored.\<close>

lemma network_l3out:
  assumes l3: "ext_net_to_l3out ne en = Inr l3" "mgr_get ne l3 s = Inr (Some l3out, s')"
    and en: "get_attr en ''tenant_name'' = Inr (JStr lt)" "get_attr en ''l3out_name'' = Inr (JStr lo)"
    and k: "klass_of (ne_env ne) ''L3Outside'' = Some L3Outside" and rows: "list_all (\<lambda>cr. dict_ok (snd cr)) (l3outs s)"
  shows "get_attr l3out ''tenant_name'' = Inr (JStr lt)" "get_attr l3out ''name'' = Inr (JStr lo)"
proof -
  have mk: "make_res ne L3Outside [(''tenant_name'', JStr lt), (''name'', JStr lo)] = Inr l3"
    using l3(1) en by (simp add: ext_net_to_l3out_def)
  note key = made_key [OF mk]
  have "rows_of (kname L3Outside) (nd_db s) = l3outs s" by simp
  then have r: "get_attr l3out a = Inr v" if "a \<in> fst ` set (identity_attributes L3Outside)" "get_attr l3 a = Inr v" for a v
    using read_ids [OF l3(2) _ storable_l3out(1) _ that] key(1) k rows by simp
  show "get_attr l3out ''tenant_name'' = Inr (JStr lt)" "get_attr l3out ''name'' = Inr (JStr lo)"
    by (rule r; simp add: key L3Outside_def)+
qed

lemma equal_string_attr:
  assumes "user_equal k x y" "a \<in> set (user_attributes k)" "get_attr y a = Inr (JStr z)"
  shows "get_attr x a = Inr (JStr z)"
proof -
  have "sort_if_list k a (lookup_attr x a) = sort_if_list k a (lookup_attr y a)"
    using assms(1,2) by (simp add: user_equal_def list_all_iff)
  moreover have "sort_if_list k a (lookup_attr y a) = Some (JStr z)" using assms(3) by (simp add: sort_if_list_def lookup_attr_def)
  moreover have "sort_if_list k a v = Some (JStr z) \<Longrightarrow> v = Some (JStr z)" for v
    by (auto simp: sort_if_list_def split: option.split_asm json.split_asm)
  ultimately have "lookup_attr x a = Some (JStr z)" by simp
  then show ?thesis by (simp add: lookup_attr_def split: sum.split_asm)
qed

lemma clone_vrf_state: "clone_vrf ne c t = Inr (y, t') \<Longrightarrow> t' = t"
  by (auto simp: clone_vrf_def bind_tx_Inr lift_tx_Inr ok_tx_Inr dest!: get_state_same split: option.split_asm)

lemma traverse_res_image: "\<lbrakk>traverse_res f xs = Inr ys; x \<in> set xs\<rbrakk> \<Longrightarrow> \<exists>y \<in> set ys. f x = Inr y"
  by (induction xs arbitrary: ys) auto

text \<open>C15. After \<open>connect_vrf\<close> of a strategy with NAT has connected a VRF to an external network, \<open>read_vrfs\<close> lists the
  VRF, provided the name of the shadow L3Outside is not taken by the shadow of another L3Outside.\<close>

theorem connected_vrf_is_read:
  assumes run: "connect_vrf ne st net vrf provided consumed wanted s = Inr (Some shadow, s1)" and st: "st \<noteq> NoNat"
    and read: "read_vrfs ne st net s1 = Inr (vs, s2)"
    and vrf: "get_attr vrf ''tenant_name'' = Inr (JStr t)" "get_attr vrf ''name'' = Inr (JStr n)"
    and stored: "make_res ne VRF [(''tenant_name'', JStr t), (''name'', JStr n)] = Inr v" "mgr_get ne v s1 = Inr (Some v', s1)"
    and net: "oclass net = ''ExternalNetwork''" "get_attr net ''tenant_name'' = Inr (JStr lt)" "get_attr net ''l3out_name'' = Inr (JStr lo)"
    and own: "\<forall>src. ((t, lo @ ''-'' @ n), src) \<in> set (nd_clones s) \<longrightarrow> src = (lt, lo)"
    and ok: "sync_ok (nd_db s)" and k: "klass_of (ne_env ne) ''L3Outside'' = Some L3Outside"
      "klass_of (ne_env ne) ''ExternalNetwork'' = Some ExternalNetwork"
  shows "v' \<in> set vs"
proof -
  let ?cn = "lo @ ''-'' @ n"
  have rows: "list_all (\<lambda>cr. dict_ok (snd cr)) (rows_of c (nd_db s))" for c
    using ok by (auto simp: sync_ok_def db_ok_def rows_of_def list_all_iff)
  obtain w where "create_shadow ne net vrf w provided consumed wanted s = Inr (Some shadow, s1)"
    using run st by (cases st) (auto simp: connect_vrf_def dist_connect_vrf_def edge_connect_vrf_def)
  then obtain en l3 l3out clone y s' s3 rs where sh: "mgr_get ne net s = Inr (Some en, s)" "ext_net_to_l3out ne en = Inr l3"
    "mgr_get ne l3 s = Inr (Some l3out, s)" "make_l3out_clone ne l3out vrf = Inr clone" "mgr_create ne clone True s = Inr (y, s')"
    "keeps_l3outs s' s3" "clones_get clone s3 = Inr (rs, s3)" "(if rs = [] then clones_set l3out clone else ok_tx ()) s3 = Inr ((), s1)"
    by (rule create_shadow_steps)
  have en: "get_attr en ''tenant_name'' = Inr (JStr lt)" "get_attr en ''l3out_name'' = Inr (JStr lo)"
    using read_ids [OF sh(1) _ storable_l3out(2), of "''tenant_name''"] read_ids [OF sh(1) _ storable_l3out(2), of "''l3out_name''"]
      net k(2) rows by (simp_all add: ExternalNetwork_def)
  note l3out = network_l3out [OF sh(2,3) en k(1) rows]
  note clone = made_clone [OF sh(4) vrf l3out(2)]
  note created = created_clone [OF sh(5) k(1) clone(1,2) ok]
  have keys: "l3out_key_of l3out = Inr (lt, lo)" "l3out_key_of clone = Inr (t, ?cn)"
    using l3out clone by (simp_all add: l3out_keyI)
  have c3: "nd_clones s3 = nd_clones s" "l3outs s3 = l3outs s'" using sh(6) created(3) by (simp_all add: keeps_l3outs_def)
  have s1: "l3outs s1 = l3outs s'" "((t, ?cn), (lt, lo)) \<in> set (nd_clones s1)"
  proof -
    have rs: "rs = filter (\<lambda>(c, src). c = (t, ?cn)) (nd_clones s)"
      using sh(7) keys c3(1) by (simp add: clones_get_def bind_tx_def lift_tx_def)
    show "l3outs s1 = l3outs s'" using sh(8) c3(2) keys by (auto simp: clones_set_def bind_tx_def lift_tx_def ok_tx_def split: if_split_asm)
    show "((t, ?cn), (lt, lo)) \<in> set (nd_clones s1)"
    proof (cases rs)
      case Nil
      then show ?thesis using sh(8) keys by (auto simp: clones_set_def bind_tx_def lift_tx_def)
    next
      case (Cons r rest)
      then have "r \<in> set rs" by simp
      with rs own have "r = ((t, ?cn), (lt, lo))" "r \<in> set (nd_clones s)" by auto
      with Cons sh(8) c3(1) show ?thesis by (simp add: ok_tx_def)
    qed
  qed
  have read': "dist_read_vrfs ne net s1 = Inr (vs, s2)" using read st by (simp add: read_vrfs_def)
  from read' obtain l3' f b l3out' clones b' xs b'' where rd: "ext_net_to_l3out ne net = Inr l3'" "mgr_get ne l3' s1 = Inr (f, b)"
    "f = Some l3out'" "find_l3out_clones ne l3out' b = Inr (clones, b')" "map_tx (clone_vrf ne) clones b' = Inr (xs, b'')"
    "vs = concat (map (\<lambda>x. case x of None \<Rightarrow> [] | Some v \<Rightarrow> [v]) xs)"
    unfolding dist_read_vrfs_def bind_tx_Inr lift_tx_Inr need_Inr ok_tx_Inr by (elim exE conjE) (rule that, simp_all)
  have b: "b = s1" using get_state_same [OF rd(2)] .
  have rows1: "list_all (\<lambda>cr. dict_ok (snd cr)) (l3outs s1)" using created(2) s1(1) by simp
  note l3out' = network_l3out [OF rd(1) rd(2) [unfolded rd(3)] net(2,3) k(1) rows1]
  have b': "b' = s1" and made: "\<exists>c \<in> set clones. make_res ne L3Outside [(''tenant_name'', JStr t), (''name'', JStr ?cn)] = Inr c"
  proof -
    from rd(4) b l3out_keyI [OF l3out'] have "b' = s1"
      "traverse_res (\<lambda>(t, n). make_res ne L3Outside [(''tenant_name'', JStr t), (''name'', JStr n)])
         (map fst (filter (\<lambda>(c, src). src = (lt, lo)) (nd_clones s1))) = Inr clones"
      by (auto simp: find_l3out_clones_def get_clones_def bind_tx_Inr lift_tx_Inr)
    moreover have "(t, ?cn) \<in> set (map fst (filter (\<lambda>(c, src). src = (lt, lo)) (nd_clones s1)))" using s1(2) by force
    ultimately show "b' = s1" "\<exists>c \<in> set clones. make_res ne L3Outside [(''tenant_name'', JStr t), (''name'', JStr ?cn)] = Inr c"
      using traverse_res_image by fastforce+
  qed
  from made obtain c where c: "c \<in> set clones" "make_res ne L3Outside [(''tenant_name'', JStr t), (''name'', JStr ?cn)] = Inr c" by blast
  obtain z where z: "z \<in> set xs" "clone_vrf ne c s1 = Inr (z, s1)"
    using map_tx_mem [OF rd(5) _ c(1)] clone_vrf_state b' by blast
  from created(1) obtain x where x: "aim_get (ne_env ne) (nd_db s') L3Outside clone False = Inr (Some x)" "user_equal L3Outside x clone" by blast
  have "extract_id L3Outside clone = Inr [(''tenant_name'', JStr t), (''name'', JStr ?cn)]"
    using clone by (simp add: extract_id_def L3Outside_def)
  then have "mgr_get ne c s1 = Inr (Some x, s1)"
    using get_same_rows [of L3Outside "nd_db s1" "nd_db s'" clone _ c] made_key [OF c(2)] s1(1) x(1) k(1)
    by (simp add: mgr_get_def klass_for_def)
  moreover have "get_attr x ''tenant_name'' = Inr (JStr t)" "get_attr x ''vrf_name'' = Inr (JStr n)"
    using equal_string_attr [OF x(2) _ clone(3)] equal_string_attr [OF x(2) _ clone(5)]
    by (simp_all add: user_attributes_def L3Outside_def)
  ultimately have "clone_vrf ne c s1 = Inr (Some v', s1)"
    using stored by (simp add: clone_vrf_def bind_tx_def lift_tx_def ok_tx_def)
  with z have "Some v' \<in> set xs" by simp
  then show ?thesis by (force simp: rd(6))
qed

text \<open>The name of a shadow joins two names by a hyphen, which names may contain: two L3Outsides connected to two VRFs
  of a tenant may be given the same shadow.\<close>

lemma shadow_names_collide:
  assumes "get_attr l3out ''name'' = Inr (JStr a)" "get_attr vrf ''name'' = Inr (JStr (b @ ''-'' @ c))"
    and "get_attr l3out' ''name'' = Inr (JStr (a @ ''-'' @ b))" "get_attr vrf' ''name'' = Inr (JStr c)"
    and "generate_l3out_name l3out vrf = Inr (n, d)" "generate_l3out_name l3out' vrf' = Inr (n', d')"
  shows "n = n'"
  using assms by (auto simp: generate_l3out_name_def str_attr_def)

section \<open>Witness\<close>

definition conn_env :: nat_env where
  "conn_env = nat_sample\<lparr>ne_env := \<lparr>conf = sample_conf, api = sample_api, classes = [L3Outside, ExternalNetwork, ExternalSubnet,
     ExternalNetworkProvidedContract, ExternalNetworkConsumedContract, VRF, AciStatus, AciFault]\<rparr>\<rparr>"

definition conn_state :: nat_db where
  "conn_state = \<lparr>nd_db = \<lparr>tables = [
     (''L3Outside'', [(''tenant_name'', JStr ''t''), (''name'', JStr ''o''), (''aim_id'', JStr ''0'')]),
     (''ExternalNetwork'', [(''tenant_name'', JStr ''t''), (''l3out_name'', JStr ''o''), (''name'', JStr ''n''), (''aim_id'', JStr ''1'')]),
     (''VRF'', [(''tenant_name'', JStr ''u''), (''name'', JStr ''v''), (''aim_id'', JStr ''2'')])], next_id = 3\<rparr>, nd_clones = []\<rparr>"

definition found :: "('a option \<times> 's) result \<Rightarrow> bool" where
  "found r = (case r of Inl _ \<Rightarrow> False | Inr (x, _) \<Rightarrow> (case x of None \<Rightarrow> False | Some _ \<Rightarrow> True))"

lemma found_iff: "found r \<longleftrightarrow> (\<exists>x s. r = Inr (Some x, s))"
  by (auto simp: found_def split: sum.split option.split)

lemma conn_run: "let r = connect_vrf conn_env EdgeNat sample_net (named ''VRF'' ''u'' ''v'') [] [] None conn_state in
  found r \<and> (case r of Inl _ \<Rightarrow> False | Inr (_, s1) \<Rightarrow> is_Inr (read_vrfs conn_env EdgeNat sample_net s1)
      \<and> (case make_res conn_env VRF [(''tenant_name'', JStr ''u''), (''name'', JStr ''v'')] of Inl _ \<Rightarrow> False
         | Inr v \<Rightarrow> found (mgr_get conn_env v s1)))"
  by code_simp

lemma conn_state_ok: "sync_ok (nd_db conn_state)"
  by code_simp

lemma connected_vrf_is_read_witness:
  "\<exists>shadow s1 vs s2 v v'. connect_vrf conn_env EdgeNat sample_net (named ''VRF'' ''u'' ''v'') [] [] None conn_state = Inr (Some shadow, s1)
    \<and> read_vrfs conn_env EdgeNat sample_net s1 = Inr (vs, s2) \<and> mgr_get conn_env v s1 = Inr (Some v', s1) \<and> v' \<in> set vs"
proof -
  obtain shadow s1 where run: "connect_vrf conn_env EdgeNat sample_net (named ''VRF'' ''u'' ''v'') [] [] None conn_state = Inr (Some shadow, s1)"
    using conn_run by (auto simp: Let_def found_iff)
  from conn_run run obtain vs s2 v v' s3 where r: "read_vrfs conn_env EdgeNat sample_net s1 = Inr (vs, s2)"
    "make_res conn_env VRF [(''tenant_name'', JStr ''u''), (''name'', JStr ''v'')] = Inr v" "mgr_get conn_env v s1 = Inr (Some v', s3)"
    by (auto simp: Let_def is_Inr_def found_iff split: sum.split_asm)
  have "s3 = s1" using get_state_same [OF r(3)] .
  with r(3) have stored: "mgr_get conn_env v s1 = Inr (Some v', s1)" by simp
  have "v' \<in> set vs"
    by (rule connected_vrf_is_read [OF run _ r(1) _ _ r(2) stored, where lt = "''t''" and lo = "''o''"])
      (simp_all add: named_def sample_net_def get_attr_def conn_state_ok, simp_all add: conn_state_def conn_env_def klass_of_def)
  with run r stored show ?thesis by blast
qed

end
