(* ===== verification/Spec2Isabelle.thy ===== *)
theory Spec2Isabelle
  imports Hash_Tree_Props Hash_Ring Aim_Utils Resource_Schemas Aim_Manager_Props Tree_Manager_Props Tree_Converter
    Aid_Service Sync_Track Universe_Read_Props Universe_Push_Props Multiverse_Props Action_Log_Props Aim_Observe
    Nat_Strategy Nat_Props Nat_Connect
begin

text \<open>
  The ACI integration module keeps a model of a Cisco ACI fabric in a database (AIM) and makes the fabric
  follow it. This development models the parts of it that decide something, and proves what they
  guarantee. Names of files below are under \<open>src/aim/\<close>.

  The program. An application works on AIM objects through the manager (\<open>aim_manager.py\<close>, resource classes in
  \<open>api/\<close>), directly or through the NAT strategies (\<open>aim_lib/nat_strategy.py\<close>). At every commit a hook writes
  the changes into an action log (\<open>db/hashtree_db_listener.py\<close>). An agent (\<open>agent/aid/service.py\<close>) serves the
  roots that a hash ring (\<open>common/hashring.py\<close>) gives it. It works off the log into hash trees
  (\<open>tree_manager.py\<close>, \<open>common/hashtree/\<close>), reads the trees of what is wanted and of what ACI reports
  (universes, \<open>agent/aid/universes/\<close>), and lets one universe follow the other: differences of trees become
  lists of objects to create and delete, objects are converted between AIM and ACI
  (\<open>universes/aci/converter.py\<close>, \<open>converters/\<close>), and pushed to ACI or back into the database, where their status
  is recorded. There are three such pairs: configuration, operational and monitored state.

  Theories, in the order of their dependencies.

  \<^item> \<open>AIM_Prelude\<close>: exceptions and results, Python dictionaries and strings, generic lemmas. \<open>Json\<close>: JSON
    text. \<open>Aim_Utils\<close>: \<open>common/utils.py\<close>.
  \<^item> \<open>Ordered_List\<close>, \<open>Hash_Tree\<close>: \<open>common/hashtree/base.py\<close> and \<open>structured_tree.py\<close>. A tree stands for a
    finite map (\<open>content\<close>); \<open>Hash_Tree_Facts\<close>, \<open>_Content\<close>, \<open>_Diff\<close>, \<open>_Sync\<close>, \<open>_Include\<close>, \<open>_Text\<close> show the invariant
    \<open>wf_tree\<close>, that every operation refines an operation on the map, that hashes stand for contents, that
    \<open>diff\<close> is exact and suffices to make one tree follow another, and the text form; the theorems are in
    \<open>Hash_Tree_Props\<close>.
  \<^item> \<open>Hash_Ring\<close>: \<open>common/hashring.py\<close>, with the invariant of the ring and the minimal disruption.
  \<^item> \<open>Resource_Base\<close>, \<open>Resources\<close>, \<open>Resources_More\<close>: \<open>api/types.py\<close>, \<open>resource.py\<close>, \<open>service_graph.py\<close>, \<open>infra.py\<close>,
    \<open>tree.py\<close>, \<open>status.py\<close>. A class is a record of its tables and its constructor. \<open>Resource_Schemas\<close>:
    names, parents and constructors of all managed classes.
  \<^item> \<open>Aim_Manager\<close>: \<open>aim_manager.py\<close> over the rows of the store. \<open>Aim_Manager_Facts\<close>, \<open>Aim_Pending\<close> and
    \<open>Aim_Manager_Props\<close>: create, get, delete, and the propagation of the pending state.
  \<^item> \<open>Tree_Manager\<close>, \<open>Tree_Maker\<close>: \<open>tree_manager.py\<close>, with \<open>db/tree_model.py\<close>. \<open>Tree_Manager_Props\<close> has the
    reachable states of the tree tables, \<open>Tree_Maker_Props\<close> what an update shows and a deletion hides.
  \<^item> \<open>Action_Log\<close>: \<open>db/hashtree_db_listener.py\<close>. \<open>Action_Log_Props\<close>: the log is bounded, and consumed.
  \<^item> \<open>Converter_Base\<close>, \<open>Converter_Lists\<close>, \<open>Converters\<close>, \<open>Converter_Tables\<close>, \<open>Aci_Converter\<close>: the conversion
    between AIM and ACI with all its tables; \<open>Table_Facts\<close>, \<open>Converter_Props\<close>; \<open>Tree_Converter\<close> puts the conversion
    into the maker.
  \<^item> \<open>Universe_Read\<close>, \<open>Universe_Push\<close>, \<open>Aim_Observe\<close>, \<open>Aci_Universe\<close>: \<open>base_universe.py\<close>, \<open>aim_universe.py\<close>,
    \<open>aci/aci_universe.py\<close> and the queue of \<open>aci/tenant.py\<close>. \<open>Universe_Read_Props\<close>, \<open>Universe_Owned\<close>,
    \<open>Universe_Push_Props\<close>: whole objects are read, monitored objects are not deleted, owned ones not touched.
  \<^item> \<open>Sync_Track\<close>, \<open>Reconcile\<close>, \<open>Service_Cycle\<close>, \<open>Multiverse\<close>, \<open>Aid_Service\<close>: the tracking of retries, the
    reconciliation of one universe with another, the cycle of the agent with its votes on deletions, the
    three pairs, and the assignment of roots to agents. \<open>Service_Cycle_Props\<close> and \<open>Multiverse_Props\<close>: what
    is cleaned up, and when.
  \<^item> \<open>Nat_Base\<close>, \<open>Nat_Strategy\<close>: \<open>aim_lib/\<close>. \<open>Nat_Props\<close>: addresses of external networks, bridge domains of a VRF. \<open>Nat_Connect\<close>:
    a VRF that was connected is read back.
  \<^item> \<open>Sample_Data\<close>: data of the witnesses.

  State and effects. The database is a list of rows with the name of their class (\<open>aim_db\<close>), the trees are
  tables of their own (\<open>tree_db\<close>), the log another (\<open>listener\<close>). An operation takes the state and yields an
  exception or a value with the new state; an exception leaves the state as it was where the code has a
  transaction, and is paired with the state reached where it has none (\<open>act\<close> in \<open>Reconcile\<close>). An object is
  its class and the dictionary of its attributes.

  Parameters. SHA-256 and MD5 (\<open>hash_fun\<close>), the names of \<open>apicapi\<close> (\<open>apic_api\<close>), clocks and random numbers,
  the order in which a Python set is visited, the answers of ACI, the configuration. Hypotheses on
  them are stated where a theorem needs them (no collision on the texts of two trees, an order that lists the set).

  Bounds. \<open>set_resource_sync_pending\<close> recurses over parents and children; its fuel is shown to suffice when it
  exceeds the number of statuses in error (\<open>pending_ends\<close>). The subtree of a class is searched to the depth of the
  number of classes, the class of a root by going up as many steps. All other recursions are structural
  or have a measure.

  Interfaces as locales, interpreted on the model: the finite map an ordered list is for the tree
  (\<open>ordered_map\<close>), the tree as the maker uses it (\<open>clearable\<close>), a pair of universes that has nothing to do as the
  cycle sees it (\<open>idle_pair\<close>).

  Not modelled. Input and output: the login to ACI, web sockets, threads and signals, the command line
  (\<open>tools/\<close>), the HTTP server (\<open>server/\<close>), the messaging of events (\<open>event_services/\<close>). Declarations without
  logic: SQLAlchemy tables (\<open>db/\<close>), migrations, options (\<open>config.py\<close>). The Kubernetes store and its watcher
  (\<open>k8s/\<close>, \<open>universes/k8s/\<close>), which replace the SQL store by calls of a third-party service. Of \<open>aim_store.py\<close>
  the query, insert, update and delete that the manager uses; sessions, locks and timestamps are left
  out. Of \<open>aci/tenant.py\<close> the queue of a manager; the loop that subscribes to ACI and sends the requests
  is input and output around the converters.
\<close>

end
